(* ===== verification/Odb_Prelude.thy ===== *)
theory Odb_Prelude
  imports Main "HOL-Library.Word"
begin

text \<open>
  Shared basis of the development: names for the machine integers of the C++ sources, the
  outcome of running a piece of C++ (normal return, a thrown \<open>VMApi::Error\<close>, an aborted
  process), the actions that thread an object's state through such outcomes, and the reasoning
  principles the component theories use on them.

  An action that throws keeps the state it had reached: C++ does not roll back what a method
  changed before its \<open>throw\<close>.
\<close>

type_synonym u8 = "8 word"
type_synonym u16 = "16 word"
type_synonym u32 = "32 word"
type_synonym u64 = "64 word"
type_synonym bytes = "u8 list"

section \<open>Outcomes and actions\<close>

text \<open>
  \<open>Ret\<close> is a normal return, \<open>Throw\<close> a \<open>VMApi::Error\<close> with its message. \<open>Abort\<close> ends the
  process: a failed \<open>assert\<close>, an access outside a buffer (undefined behaviour), another operation the
  language leaves undefined, or an exception nobody catches. \<open>Hangs\<close> stands for a call that never
  returns, where an interface has room for nothing but an outcome.
\<close>

datatype crash = Assert_failed | Out_of_bounds | Undefined | Terminated | Hangs

datatype 'a outcome = Ret 'a | Throw string | Abort crash

type_synonym ('s, 'a) act = "'s \<Rightarrow> 'a outcome \<times> 's"

definition ret :: "'a \<Rightarrow> ('s, 'a) act" where
  "ret x = (\<lambda>s. (Ret x, s))"

definition throw :: "string \<Rightarrow> ('s, 'a) act" where
  "throw msg = (\<lambda>s. (Throw msg, s))"

definition abort :: "crash \<Rightarrow> ('s, 'a) act" where
  "abort c = (\<lambda>s. (Abort c, s))"

definition bind_act :: "('s, 'a) act \<Rightarrow> ('a \<Rightarrow> ('s, 'b) act) \<Rightarrow> ('s, 'b) act" where
  "bind_act m f = (\<lambda>s. case m s of
      (Ret x, s') \<Rightarrow> f x s'
    | (Throw msg, s') \<Rightarrow> (Throw msg, s')
    | (Abort c, s') \<Rightarrow> (Abort c, s'))"

definition then_act :: "('s, 'a) act \<Rightarrow> ('s, 'b) act \<Rightarrow> ('s, 'b) act" where
  "then_act m n = bind_act m (\<lambda>_. n)"

definition gets :: "('s \<Rightarrow> 'a) \<Rightarrow> ('s, 'a) act" where
  "gets f = (\<lambda>s. (Ret (f s), s))"

definition modify :: "('s \<Rightarrow> 's) \<Rightarrow> ('s, unit) act" where
  "modify f = (\<lambda>s. (Ret (), f s))"

definition assert_act :: "bool \<Rightarrow> ('s, unit) act" where
  "assert_act b = (if b then ret () else abort Assert_failed)"

definition in_bounds :: "bool \<Rightarrow> ('s, unit) act" where
  "in_bounds b = (if b then ret () else abort Out_of_bounds)"

text \<open>\<open>for (x : xs) ys.push_back(f(x));\<close>\<close>

fun map_act :: "('x \<Rightarrow> ('s, 'a) act) \<Rightarrow> 'x list \<Rightarrow> ('s, 'a list) act" where
  "map_act f [] = ret []"
| "map_act f (x # xs) = bind_act (f x) (\<lambda>y. bind_act (map_act f xs) (\<lambda>ys. ret (y # ys)))"

text \<open>\<open>for (x : xs) f(x);\<close>\<close>

fun iter_act :: "('x \<Rightarrow> ('s, unit) act) \<Rightarrow> 'x list \<Rightarrow> ('s, unit) act" where
  "iter_act f [] = ret ()"
| "iter_act f (x # xs) = then_act (f x) (iter_act f xs)"

text \<open>\<open>for (i = 0; i < n; ++i) ys.push_back(m());\<close>\<close>

fun repeat_act :: "nat \<Rightarrow> ('s, 'a) act \<Rightarrow> ('s, 'a list) act" where
  "repeat_act 0 m = ret []"
| "repeat_act (Suc n) m = bind_act m (\<lambda>y. bind_act (repeat_act n m) (\<lambda>ys. ret (y # ys)))"

text \<open>\<open>try { m } catch (VMApi::Error &e) { h(e) }\<close>\<close>

definition catch_act :: "('s, 'a) act \<Rightarrow> (string \<Rightarrow> ('s, 'a) act) \<Rightarrow> ('s, 'a) act" where
  "catch_act m h = (\<lambda>s. case m s of
      (Throw msg, s') \<Rightarrow> h msg s'
    | (Ret x, s') \<Rightarrow> (Ret x, s')
    | (Abort c, s') \<Rightarrow> (Abort c, s'))"

text \<open>Run an action of a component on the part of a bigger object that holds it.\<close>

definition lift_act :: "('o \<Rightarrow> 's) \<Rightarrow> ('s \<Rightarrow> 'o \<Rightarrow> 'o) \<Rightarrow> ('s, 'a) act \<Rightarrow> ('o, 'a) act" where
  "lift_act sel upd m = (\<lambda>t. case m (sel t) of (r, s') \<Rightarrow> (r, upd s' t))"

text \<open>A call on an object that is not part of the state.\<close>

definition call_act :: "'a outcome \<Rightarrow> ('s, 'a) act" where
  "call_act r = (\<lambda>s. (r, s))"

text \<open>\<open>std::vector::resize\<close>.\<close>

definition vec_resize :: "nat \<Rightarrow> 'a \<Rightarrow> 'a list \<Rightarrow> 'a list" where
  "vec_resize n x xs = take n xs @ replicate (n - length xs) x"

lemma length_vec_resize [simp]: "length (vec_resize n x xs) = n"
  by (simp add: vec_resize_def)

text \<open>Decimal output of integers.\<close>

definition digit_char :: "nat \<Rightarrow> char" where
  "digit_char k = char_of (if k < 10 then 48 + k else 87 + k)"

fun dec_of_nat :: "nat \<Rightarrow> string" where
  "dec_of_nat n = (if n < 10 then [digit_char n] else dec_of_nat (n div 10) @ [digit_char (n mod 10)])"

definition dec_of_int :: "int \<Rightarrow> string" where
  "dec_of_int x = (if x < 0 then CHR ''-'' # dec_of_nat (nat (- x)) else dec_of_nat (nat x))"

section \<open>Evaluation rules\<close>

named_theorems act_defs \<open>the definitions of the primitive actions\<close>

lemmas [act_defs] = ret_def throw_def abort_def bind_act_def then_act_def gets_def modify_def
  assert_act_def in_bounds_def catch_act_def lift_act_def call_act_def

declare dec_of_nat.simps [simp del]

lemma ret_run [simp]: "ret x s = (Ret x, s)"
  by (simp add: ret_def)

lemma throw_run [simp]: "throw msg s = (Throw msg, s)"
  by (simp add: throw_def)

lemma abort_run [simp]: "abort c s = (Abort c, s)"
  by (simp add: abort_def)

lemma call_act_run [simp]: "call_act r s = (r, s)"
  by (simp add: call_act_def)

lemma gets_run [simp]: "gets f s = (Ret (f s), s)"
  by (simp add: gets_def)

lemma modify_run [simp]: "modify f s = (Ret (), f s)"
  by (simp add: modify_def)

lemma assert_act_run [simp]:
  "assert_act b s = (if b then (Ret (), s) else (Abort Assert_failed, s))"
  by (simp add: assert_act_def)

lemma in_bounds_run [simp]:
  "in_bounds b s = (if b then (Ret (), s) else (Abort Out_of_bounds, s))"
  by (simp add: in_bounds_def)

lemma bind_act_Ret: "m s = (Ret x, s') \<Longrightarrow> bind_act m f s = f x s'"
  by (simp add: bind_act_def)

lemma bind_act_Throw: "m s = (Throw e, s') \<Longrightarrow> bind_act m f s = (Throw e, s')"
  by (simp add: bind_act_def)

lemma bind_act_Abort: "m s = (Abort c, s') \<Longrightarrow> bind_act m f s = (Abort c, s')"
  by (simp add: bind_act_def)

lemma then_act_Ret: "m s = (Ret x, s') \<Longrightarrow> then_act m n s = n s'"
  by (simp add: then_act_def bind_act_def)

lemma bind_act_ret_left [simp]: "bind_act (ret x) f = f x"
  by (simp add: bind_act_def fun_eq_iff)

lemma bind_act_throw [simp]: "bind_act (throw e) f = throw e"
  by (simp add: bind_act_def fun_eq_iff)

lemma bind_act_gets [simp]: "bind_act (gets g) f s = f (g s) s"
  by (simp add: bind_act_def)

lemma bind_act_modify [simp]: "bind_act (modify g) f s = f () (g s)"
  by (simp add: bind_act_def)

lemma then_act_modify [simp]: "then_act (modify g) m s = m (g s)"
  by (simp add: then_act_def bind_act_def)

lemma then_act_assert [simp]:
  "then_act (assert_act b) m s = (if b then m s else (Abort Assert_failed, s))"
  by (simp add: then_act_def bind_act_def)

lemma then_act_in_bounds [simp]:
  "then_act (in_bounds b) m s = (if b then m s else (Abort Out_of_bounds, s))"
  by (simp add: then_act_def bind_act_def)

lemma bind_act_assoc: "bind_act (bind_act m f) g = bind_act m (\<lambda>x. bind_act (f x) g)"
  by (auto simp: bind_act_def fun_eq_iff split: prod.splits outcome.splits)

lemma bind_act_eq_Ret:
  "bind_act m f s = (Ret y, s'') \<longleftrightarrow> (\<exists>x s'. m s = (Ret x, s') \<and> f x s' = (Ret y, s''))"
  by (auto simp: bind_act_def split: prod.splits outcome.splits)

lemma then_act_eq_Ret:
  "then_act m n s = (Ret y, s'') \<longleftrightarrow> (\<exists>x s'. m s = (Ret x, s') \<and> n s' = (Ret y, s''))"
  by (simp add: then_act_def bind_act_eq_Ret)

lemma map_act_Ret_length: "map_act f xs s = (Ret ys, s') \<Longrightarrow> length ys = length xs"
  by (induction xs arbitrary: s s' ys) (auto simp: bind_act_eq_Ret)

lemma repeat_act_Ret_length: "repeat_act n m s = (Ret ys, s') \<Longrightarrow> length ys = n"
  by (induction n arbitrary: s s' ys) (auto simp: bind_act_eq_Ret)

section \<open>Invariants of actions\<close>

text \<open>
  \<open>keeps P m\<close>: the action keeps \<open>P\<close> whatever its outcome, a thrown error included. \<open>safe P m\<close>:
  moreover it never ends the process from a state with \<open>P\<close>. The rules are collected so that the
  invariant of an operation is proved by following its body.
\<close>

definition keeps :: "('s \<Rightarrow> bool) \<Rightarrow> ('s, 'a) act \<Rightarrow> bool" where
  "keeps P m \<longleftrightarrow> (\<forall>s. P s \<longrightarrow> P (snd (m s)))"

definition safe :: "('s \<Rightarrow> bool) \<Rightarrow> ('s, 'a) act \<Rightarrow> bool" where
  "safe P m \<longleftrightarrow> (\<forall>s. P s \<longrightarrow> P (snd (m s)) \<and> (\<forall>c. fst (m s) \<noteq> Abort c))"

named_theorems keeps_rules \<open>rules for invariants kept by actions\<close>
named_theorems safe_rules \<open>rules for invariants kept without ending the process\<close>

lemma keepsD: "keeps P m \<Longrightarrow> P s \<Longrightarrow> m s = (r, s') \<Longrightarrow> P s'"
  by (auto simp: keeps_def dest: spec [of _ s])

lemma keepsI: "(\<And>s r s'. P s \<Longrightarrow> m s = (r, s') \<Longrightarrow> P s') \<Longrightarrow> keeps P m"
  by (metis keeps_def prod.collapse)

lemma safe_keeps: "safe P m \<Longrightarrow> keeps P m"
  by (simp add: safe_def keeps_def)

lemma safeD: "safe P m \<Longrightarrow> P s \<Longrightarrow> fst (m s) \<noteq> Abort c"
  by (auto simp: safe_def)

lemma keeps_ret [keeps_rules]: "keeps P (ret x)"
  and keeps_throw [keeps_rules]: "keeps P (throw e)"
  and keeps_abort [keeps_rules]: "keeps P (abort c)"
  and keeps_gets [keeps_rules]: "keeps P (gets f)"
  by (simp_all add: keeps_def)

lemma keeps_assert [keeps_rules]: "keeps P (assert_act b)"
  and keeps_in_bounds [keeps_rules]: "keeps P (in_bounds b)"
  by (simp_all add: keeps_def)

lemma keeps_call [keeps_rules]: "keeps P (call_act r)"
  by (simp add: keeps_def call_act_def)

lemma keeps_lift: "(\<And>s x. P s \<Longrightarrow> P (upd x s)) \<Longrightarrow> keeps P (lift_act sel upd m)"
  by (simp add: keeps_def lift_act_def split: prod.split)

lemma keeps_modify: "(\<And>s. P s \<Longrightarrow> P (f s)) \<Longrightarrow> keeps P (modify f)"
  by (simp add: keeps_def)

lemma keeps_bind [keeps_rules]:
  "keeps P m \<Longrightarrow> (\<And>x. keeps P (f x)) \<Longrightarrow> keeps P (bind_act m f)"
  by (auto simp: keeps_def bind_act_def split: prod.splits outcome.splits)

lemma keeps_then [keeps_rules]: "keeps P m \<Longrightarrow> keeps P n \<Longrightarrow> keeps P (then_act m n)"
  by (simp add: then_act_def keeps_bind)

lemma keeps_if [keeps_rules]:
  "(b \<Longrightarrow> keeps P m) \<Longrightarrow> (\<not> b \<Longrightarrow> keeps P n) \<Longrightarrow> keeps P (if b then m else n)"
  by simp

lemma keeps_map_act [keeps_rules]: "(\<And>x. keeps P (f x)) \<Longrightarrow> keeps P (map_act f xs)"
  by (induction xs) (auto intro: keeps_rules)

lemma keeps_iter_act [keeps_rules]: "(\<And>x. keeps P (f x)) \<Longrightarrow> keeps P (iter_act f xs)"
  by (induction xs) (auto intro: keeps_rules)

lemma keeps_catch [keeps_rules]:
  "keeps P m \<Longrightarrow> (\<And>e. keeps P (h e)) \<Longrightarrow> keeps P (catch_act m h)"
  by (auto simp: keeps_def catch_act_def split: prod.splits outcome.splits)

lemma safe_ret [safe_rules]: "safe P (ret x)"
  and safe_throw [safe_rules]: "safe P (throw e)"
  and safe_gets [safe_rules]: "safe P (gets f)"
  by (simp_all add: safe_def)

lemma safe_modify: "(\<And>s. P s \<Longrightarrow> P (f s)) \<Longrightarrow> safe P (modify f)"
  by (simp add: safe_def)

lemma safe_bind [safe_rules]:
  "safe P m \<Longrightarrow> (\<And>x. safe P (f x)) \<Longrightarrow> safe P (bind_act m f)"
  by (auto simp: safe_def bind_act_def split: prod.splits outcome.splits)

lemma safe_then [safe_rules]: "safe P m \<Longrightarrow> safe P n \<Longrightarrow> safe P (then_act m n)"
  by (simp add: then_act_def safe_bind)

lemma safe_if [safe_rules]:
  "(b \<Longrightarrow> safe P m) \<Longrightarrow> (\<not> b \<Longrightarrow> safe P n) \<Longrightarrow> safe P (if b then m else n)"
  by simp

lemma safe_map_act [safe_rules]: "(\<And>x. safe P (f x)) \<Longrightarrow> safe P (map_act f xs)"
  by (induction xs) (auto intro: safe_rules)

lemma safe_iter_act [safe_rules]: "(\<And>x. safe P (f x)) \<Longrightarrow> safe P (iter_act f xs)"
  by (induction xs) (auto intro: safe_rules)

section \<open>Words next to a bound\<close>

lemma unat_of_nat_id: "n < 2 ^ LENGTH('a) \<Longrightarrow> unat (of_nat n :: 'a :: len word) = n"
  by (simp add: unat_of_nat)

lemma word_inc_le: "(h :: 'a :: len word) < m \<Longrightarrow> h + 1 \<le> x \<longleftrightarrow> h < x"
  by (auto simp: inc_less_eq_iff)

lemma word_less_inc: "(h :: 'a :: len word) < m \<Longrightarrow> x < h + 1 \<longleftrightarrow> x \<le> h"
  by (metis word_inc_le leD leI)

lemma word_le_dec: "(l :: 'a :: len word) < k \<Longrightarrow> x \<le> k - 1 \<longleftrightarrow> x < k"
  by (auto simp: less_eq_dec_iff)

end
