(* ===== verification/Vm_Types.thy ===== *)
theory Vm_Types
  imports Odb_Prelude
begin

text \<open>
  The data the debugger, its clients and the virtual machine exchange: the aliases, enumerations
  and structs of \<open>include/odb/server/fwd.hh\<close>, \<open>DBClientUpdate\<close> of \<open>include/odb/mess/db-client.hh\<close>
  and the abstract class \<open>VMApi\<close> of \<open>include/odb/server/vm-api.hh\<close>, as a record of its virtual
  methods over the state of the machine behind it.

  A scoped enumeration of C++ has the values of its underlying type: a value that is not one of
  the enumerators (it can arrive over the network) is kept in a last constructor with its byte.
\<close>

type_synonym vm_reg_t = u32
type_synonym vm_ptr_t = u64
type_synonym vm_size_t = u64
type_synonym vm_sym_t = u32

definition VM_SYM_NULL :: vm_sym_t where
  "VM_SYM_NULL = - 1"

record CallInfos =
  caller_start_addr :: vm_ptr_t
  call_addr :: vm_ptr_t

type_synonym CallStack = "CallInfos list"

text \<open>
  Enumerations. The last constructor of each stands for the values outside the list. They come only
  from the deserialisation of a request or response, where an enumeration is one byte, and from a
  \<open>RegInfos\<close> that is not initialised.
\<close>

datatype RegKind = general | program_counter | stack_pointer | base_pointer | flags | RegKind_raw u8

datatype StoppedState = SS_READY | SS_EXIT | SS_ERROR | StoppedState_raw u8

datatype ResumeType = ToFinish | Continue | Step | StepOver | StepOut | ResumeType_raw u8

record RegInfos =
  ri_idx :: vm_reg_t
  ri_name :: string
  ri_size :: vm_size_t
  ri_kind :: RegKind
  ri_val :: bytes

record SymbolInfos =
  si_idx :: vm_sym_t
  si_name :: string
  si_addr :: vm_ptr_t

record VMInfos =
  vi_name :: string
  vi_regs_count :: vm_reg_t
  vi_regs_general :: "vm_reg_t list"
  vi_regs_program_counter :: "vm_reg_t list"
  vi_regs_stack_pointer :: "vm_reg_t list"
  vi_regs_base_pointer :: "vm_reg_t list"
  vi_regs_flags :: "vm_reg_t list"
  vi_memory_size :: vm_size_t
  vi_symbols_count :: vm_sym_t
  vi_pointer_size :: vm_size_t
  vi_integer_size :: vm_size_t
  vi_use_opcode :: bool

record DBClientUpdate =
  up_vm_state :: StoppedState
  up_stopped :: bool
  up_addr :: vm_ptr_t
  up_stack :: CallStack

section \<open>The interface of a virtual machine\<close>

datatype UpdateState = US_ERROR | US_EXIT | US_CALL_SUB | US_RET_SUB | US_OK

record UpdateInfos =
  ud_state :: UpdateState
  ud_act_addr :: vm_ptr_t

text \<open>
  One field per pure virtual method of \<open>VMApi\<close>, an action on the machine's state \<open>'v\<close>. A method
  with an output parameter returns it. \<open>set_reg\<close> and \<open>write_mem\<close> get the buffer they read from;
  \<open>read_mem\<close> returns the bytes it stores.
\<close>

record 'v VMApi =
  api_get_vm_infos :: "('v, VMInfos) act"
  api_get_update_infos :: "('v, UpdateInfos) act"
  api_get_reg :: "vm_reg_t \<Rightarrow> RegInfos \<Rightarrow> bool \<Rightarrow> ('v, RegInfos) act"
  api_set_reg :: "vm_reg_t \<Rightarrow> bytes \<Rightarrow> ('v, unit) act"
  api_find_reg_id :: "string \<Rightarrow> ('v, vm_reg_t) act"
  api_read_mem :: "vm_ptr_t \<Rightarrow> vm_size_t \<Rightarrow> ('v, bytes) act"
  api_write_mem :: "vm_ptr_t \<Rightarrow> vm_size_t \<Rightarrow> bytes \<Rightarrow> ('v, unit) act"
  api_get_symbols :: "vm_ptr_t \<Rightarrow> vm_size_t \<Rightarrow> ('v, vm_sym_t list) act"
  api_get_symb_infos :: "vm_sym_t \<Rightarrow> ('v, SymbolInfos) act"
  api_find_sym_id :: "string \<Rightarrow> ('v, vm_sym_t) act"
  api_get_code_text :: "vm_ptr_t \<Rightarrow> ('v, string \<times> vm_size_t) act"

end
