(* ===== verification/Std_Map.thy ===== *)
theory Std_Map
  imports Odb_Prelude "HOL-Library.List_Lexorder" "HOL-Library.Char_ord"
begin

text \<open>
  The ordered associative container \<open>std::map\<close> as the sources use it (\<open>find\<close>, \<open>emplace\<close>,
  \<open>lower_bound\<close> and in-order iteration), as an association list kept in strictly increasing key
  order. The locale \<open>std_map_api\<close> states what the clients of the container rely on; it is
  interpreted on the association lists.
\<close>

type_synonym ('k, 'v) std_map = "('k \<times> 'v) list"

definition smap_empty :: "('k, 'v) std_map" where
  "smap_empty = []"

definition smap_find :: "('k, 'v) std_map \<Rightarrow> 'k \<Rightarrow> 'v option" where
  "smap_find m k = map_of m k"

text \<open>\<open>emplace\<close> leaves the map as it is when the key is already there.\<close>

fun smap_emplace :: "('k :: linorder) \<Rightarrow> 'v \<Rightarrow> ('k, 'v) std_map \<Rightarrow> ('k, 'v) std_map" where
  "smap_emplace k v [] = [(k, v)]"
| "smap_emplace k v ((k', v') # m) =
     (if k < k' then (k, v) # (k', v') # m
      else if k = k' then (k', v') # m
      else (k', v') # smap_emplace k v m)"

text \<open>Assignment through a reference to the value stored under a key that is present.\<close>

fun smap_assign :: "'k \<Rightarrow> 'v \<Rightarrow> ('k, 'v) std_map \<Rightarrow> ('k, 'v) std_map" where
  "smap_assign k v [] = []"
| "smap_assign k v ((k', v') # m) = (if k' = k then (k', v) # m else (k', v') # smap_assign k v m)"

definition smap_lower_bound :: "('k :: linorder) \<Rightarrow> ('k, 'v) std_map \<Rightarrow> ('k, 'v) std_map" where
  "smap_lower_bound k m = dropWhile (\<lambda>p. fst p < k) m"

text \<open>Iteration from \<open>lower_bound(low)\<close> while the key is below \<open>high\<close>.\<close>

definition smap_slice :: "('k :: linorder) \<Rightarrow> 'k \<Rightarrow> ('k, 'v) std_map \<Rightarrow> 'v list" where
  "smap_slice low high m = map snd (takeWhile (\<lambda>p. fst p < high) (smap_lower_bound low m))"

definition smap_ok :: "('k :: linorder, 'v) std_map \<Rightarrow> bool" where
  "smap_ok m \<longleftrightarrow> sorted_wrt (<) (map fst m)"

locale std_map_api =
  fixes empty :: "'m"
    and find :: "'m \<Rightarrow> 'k \<Rightarrow> 'v option"
    and emplace :: "'k \<Rightarrow> 'v \<Rightarrow> 'm \<Rightarrow> 'm"
    and ok :: "'m \<Rightarrow> bool"
  assumes find_empty: "find empty k = None"
    and find_emplace: "ok m \<Longrightarrow>
      find (emplace k v m) k' = (if k' = k \<and> find m k = None then Some v else find m k')"
    and ok_empty: "ok empty"
    and ok_emplace: "ok m \<Longrightarrow> ok (emplace k v m)"
begin

lemma emplace_keeps: "ok m \<Longrightarrow> find m k' = Some w \<Longrightarrow> find (emplace k v m) k' = Some w"
  by (auto simp: find_emplace)

lemma emplace_present: "ok m \<Longrightarrow> find (emplace k v m) k \<noteq> None"
  by (auto simp: find_emplace)

lemma emplace_source:
  "ok m \<Longrightarrow> find (emplace k v m) k' = Some w \<Longrightarrow> find m k' = Some w \<or> k' = k \<and> w = v"
  by (auto simp: find_emplace split: if_splits)

lemma emplace_noop: "ok m \<Longrightarrow> find m k \<noteq> None \<Longrightarrow> find (emplace k v m) = find m"
  by (auto simp: fun_eq_iff find_emplace)

lemma fold_emplace_ok: "ok m \<Longrightarrow> ok (fold (\<lambda>(k, v). emplace k v) kvs m)"
  by (induction kvs arbitrary: m) (auto simp: ok_emplace)

lemma fold_emplace_keeps:
  "ok m \<Longrightarrow> find m k = Some w \<Longrightarrow> find (fold (\<lambda>(k, v). emplace k v) kvs m) k = Some w"
  by (induction kvs arbitrary: m) (auto simp: ok_emplace emplace_keeps)

end

lemma set_smap_emplace: "set (smap_emplace k v m) \<subseteq> insert (k, v) (set m)"
  by (induction k v m rule: smap_emplace.induct) auto

lemma smap_ok_Cons [simp]:
  "smap_ok ((k, v) # m) \<longleftrightarrow> (\<forall>p \<in> set m. k < fst p) \<and> smap_ok m"
  by (auto simp: smap_ok_def)

lemma smap_ok_Nil [simp]: "smap_ok []"
  by (simp add: smap_ok_def)

lemma smap_find_Nil [simp]: "smap_find [] k = None"
  by (simp add: smap_find_def)

lemma smap_find_Cons [simp]:
  "smap_find ((k', v) # m) k = (if k = k' then Some v else smap_find m k)"
  by (simp add: smap_find_def)

lemma smap_find_below: "(\<forall>p \<in> set m. (k :: 'k :: linorder) < fst p) \<Longrightarrow> smap_find m k = None"
  by (induction m) auto

lemma smap_ok_emplace: "smap_ok m \<Longrightarrow> smap_ok (smap_emplace k v m)"
proof (induction k v m rule: smap_emplace.induct)
  case (2 k v k' v' m)
  then show ?case
    using set_smap_emplace [of k v m] by (auto simp: subset_iff not_less) fastforce
qed simp

lemma smap_find_emplace:
  "smap_ok m \<Longrightarrow> smap_find (smap_emplace k v m) k' =
    (if k' = k \<and> smap_find m k = None then Some v else smap_find m k')"
proof (induction k v m rule: smap_emplace.induct)
  case (2 k v k1 v1 m)
  then have "smap_find m k = None" if "k < k1"
    using that by (intro smap_find_below) auto
  with 2 show ?case
    by (cases "k < k1") auto
qed simp

interpretation smap: std_map_api smap_empty smap_find smap_emplace smap_ok
  by unfold_locales (simp_all add: smap_empty_def smap_find_emplace smap_ok_emplace)

lemma map_fst_smap_assign [simp]: "map fst (smap_assign k v m) = map fst m"
  by (induction k v m rule: smap_assign.induct) auto

lemma smap_ok_assign [simp]: "smap_ok (smap_assign k v m) = smap_ok m"
  by (simp add: smap_ok_def)

lemma smap_find_assign:
  "smap_find (smap_assign k v m) k' =
    (if k' = k \<and> smap_find m k \<noteq> None then Some v else smap_find m k')"
  by (induction k v m rule: smap_assign.induct) auto

section \<open>Ordered iteration\<close>

lemma smap_slice_filter:
  "smap_ok m \<Longrightarrow> smap_slice low high m = map snd (filter (\<lambda>p. low \<le> fst p \<and> fst p < high) m)"
proof (induction m)
  case (Cons p m)
  obtain k v where p: "p = (k, v)" by (cases p)
  have above: "takeWhile (\<lambda>p. fst p < high) m = filter (\<lambda>p. low \<le> fst p \<and> fst p < high) m"
    if "low \<le> k"
  proof -
    have "filter (\<lambda>p. fst p < high) m = filter (\<lambda>p. low \<le> fst p \<and> fst p < high) m"
      using Cons.prems that p by (intro filter_cong) auto
    moreover have "takeWhile (\<lambda>p. fst p < high) m = filter (\<lambda>p. fst p < high) m"
      using Cons.prems unfolding p
      by (induction m) (force simp: smap_ok_def intro!: filter_False [symmetric])+
    ultimately show ?thesis by simp
  qed
  show ?case
  proof (cases "k < low")
    case True
    then show ?thesis using Cons p by (auto simp: smap_slice_def smap_lower_bound_def)
  next
    case False
    moreover have "filter (\<lambda>p. low \<le> fst p \<and> fst p < high) m = []" if "\<not> k < high"
      using Cons.prems that p by (auto simp: filter_empty_conv)
    ultimately show ?thesis using p above by (simp add: smap_slice_def smap_lower_bound_def)
  qed
qed (simp add: smap_slice_def smap_lower_bound_def)

lemma smap_find_in_set: "smap_ok m \<Longrightarrow> smap_find m k = Some v \<longleftrightarrow> (k, v) \<in> set m"
proof -
  assume "smap_ok m"
  then have "distinct (map fst m)" by (simp add: smap_ok_def strict_sorted_iff)
  then show ?thesis by (simp add: smap_find_def)
qed

lemma set_smap_slice:
  "smap_ok m \<Longrightarrow> set (smap_slice low high m) = {v. \<exists>k. low \<le> k \<and> k < high \<and> smap_find m k = Some v}"
  by (auto simp: smap_slice_filter smap_find_in_set image_iff)

end
