(* ===== verification/Range_Map.thy ===== *)
theory Range_Map
  imports Odb_Prelude
begin

text \<open>
  \<open>RangeMap<T>\<close> of \<open>include/odb/utils/range-map.hh\<close>: a total map from the keys of
  \<open>[min_key, max_key]\<close> to values, stored as the list of the keys where the value changes. Keys are
  \<open>std::size_t\<close> (64-bit words), iterators are positions in the vector. The theory follows the
  loops of the class, shows that \<open>set\<close> is a pointwise update that keeps the representation
  canonical, and interprets the contract the symbol loader of the debugger relies on.
\<close>

section \<open>The class\<close>

record 'a node =
  beg_key :: u64
  nval :: 'a

record 'a range_map =
  rm_min :: u64
  rm_max :: u64
  rm_ranges :: "'a node list"

record 'a krange =
  low :: u64
  high :: u64
  rval :: 'a

definition RangeMap :: "u64 \<Rightarrow> u64 \<Rightarrow> 'a \<Rightarrow> 'a range_map" where
  "RangeMap min_key max_key v =
    \<lparr>rm_min = min_key, rm_max = max_key, rm_ranges = [\<lparr>beg_key = min_key, nval = v\<rparr>]\<rparr>"

text \<open>\<open>_find_node\<close>: \<open>it\<close> moves to \<open>next\<close> while \<open>next\<close> is not the end and starts at or below the key.\<close>

function find_node_loop :: "'a node list \<Rightarrow> u64 \<Rightarrow> nat \<Rightarrow> nat" where
  "find_node_loop rs key it =
    (if it + 1 < length rs \<and> beg_key (rs ! (it + 1)) \<le> key
     then find_node_loop rs key (it + 1) else it)"
  by pat_completeness auto
termination
  by (relation "measure (\<lambda>(rs, key, it). length rs - it)") auto

definition find_node :: "'a node list \<Rightarrow> u64 \<Rightarrow> nat" where
  "find_node rs key = find_node_loop rs key 0"

definition rm_get :: "'a range_map \<Rightarrow> u64 \<Rightarrow> 'a outcome" where
  "rm_get m key =
    (if \<not> rm_min m \<le> key then Abort Assert_failed
     else if \<not> key \<le> rm_max m then Abort Assert_failed
     else Ret (nval (rm_ranges m ! find_node (rm_ranges m) key)))"

definition vec_emplace :: "nat \<Rightarrow> 'b \<Rightarrow> 'b list \<Rightarrow> 'b list" where
  "vec_emplace i x xs = take i xs @ x # drop i xs"

definition vec_erase :: "nat \<Rightarrow> 'b list \<Rightarrow> 'b list" where
  "vec_erase i xs = take i xs @ drop (Suc i) xs"

text \<open>\<open>for (auto it = low_it; it != high_it; ++it) it->val = val;\<close>\<close>

function fill_loop :: "'a node list \<Rightarrow> nat \<Rightarrow> nat \<Rightarrow> 'a \<Rightarrow> 'a node list outcome" where
  "fill_loop rs it high_it v =
    (if it = high_it then Ret rs
     else if it < length rs then fill_loop (rs[it := (rs ! it)\<lparr>nval := v\<rparr>]) (it + 1) high_it v
     else Abort Out_of_bounds)"
  by pat_completeness auto
termination
  by (relation "measure (\<lambda>(rs, it, high_it, v). length rs - it)") auto

text \<open>\<open>_fix\<close>: erase every node that has the value of the node before it.\<close>

function fix_loop :: "'a node list \<Rightarrow> nat \<Rightarrow> 'a node list" where
  "fix_loop rs idx =
    (if idx + 1 < length rs then
       (if nval (rs ! idx) = nval (rs ! (idx + 1)) then fix_loop (vec_erase (idx + 1) rs) idx
        else fix_loop rs (idx + 1))
     else rs)"
  by pat_completeness auto
termination
  by (relation "measure (\<lambda>(rs, idx). length rs - idx)") (auto simp: vec_erase_def)

text \<open>The cut of the node that holds the key, when the key is not its first one.\<close>

definition cut_node :: "'a node list \<Rightarrow> u64 \<Rightarrow> nat \<times> 'a node list" where
  "cut_node rs key =
    (let it = find_node rs key in
     if beg_key (rs ! it) \<noteq> key
     then (it + 1, vec_emplace (it + 1) \<lparr>beg_key = key, nval = nval (rs ! it)\<rparr> rs)
     else (it, rs))"

definition rm_set :: "'a range_map \<Rightarrow> u64 \<Rightarrow> u64 \<Rightarrow> 'a \<Rightarrow> 'a range_map outcome" where
  "rm_set m lo hi v =
    (if \<not> rm_min m \<le> lo then Abort Assert_failed
     else if \<not> hi \<le> rm_max m then Abort Assert_failed
     else if \<not> lo \<le> hi then Abort Assert_failed
     else
       let (_, rs1) = cut_node (rm_ranges m) lo;
           (high_it, rs2) =
             (if hi \<noteq> rm_max m then cut_node rs1 (hi + 1) else (length rs1, rs1));
           low_it = find_node rs2 lo
       in case fill_loop rs2 low_it high_it v of
            Ret rs3 \<Rightarrow> Ret (m\<lparr>rm_ranges := fix_loop rs3 0\<rparr>)
          | Throw e \<Rightarrow> Throw e
          | Abort c \<Rightarrow> Abort c)"

definition node_range :: "'a range_map \<Rightarrow> nat \<Rightarrow> 'a krange" where
  "node_range m it =
    (let rs = rm_ranges m;
         end_key = (if it + 1 = length rs then rm_max m else beg_key (rs ! (it + 1)) - 1)
     in \<lparr>low = beg_key (rs ! it), high = end_key, rval = nval (rs ! it)\<rparr>)"

definition rm_range_of :: "'a range_map \<Rightarrow> u64 \<Rightarrow> 'a krange outcome" where
  "rm_range_of m key =
    (if \<not> rm_min m \<le> key then Abort Assert_failed
     else if \<not> key \<le> rm_max m then Abort Assert_failed
     else Ret (node_range m (find_node (rm_ranges m) key)))"

definition rm_index :: "'a range_map \<Rightarrow> nat \<Rightarrow> 'a krange outcome" where
  "rm_index m i =
    (if \<not> i < length (rm_ranges m) then Abort Assert_failed else Ret (node_range m i))"

definition rm_size :: "'a range_map \<Rightarrow> nat" where
  "rm_size m = length (rm_ranges m)"

text \<open>
  The representation invariant: the nodes start at \<open>min_key\<close>, their keys increase and stay in the
  interval, and neighbours have different values.
\<close>

definition rm_nodes_ok :: "u64 \<Rightarrow> u64 \<Rightarrow> 'a node list \<Rightarrow> bool" where
  "rm_nodes_ok lo hi rs \<longleftrightarrow> rs \<noteq> [] \<and> beg_key (hd rs) = lo \<and>
     sorted_wrt (<) (map beg_key rs) \<and> (\<forall>n \<in> set rs. beg_key n \<le> hi)"

definition rm_ok :: "'a range_map \<Rightarrow> bool" where
  "rm_ok m \<longleftrightarrow> rm_min m \<le> rm_max m \<and> rm_nodes_ok (rm_min m) (rm_max m) (rm_ranges m) \<and>
     distinct_adj (map nval (rm_ranges m))"

declare find_node_loop.simps [simp del] fill_loop.simps [simp del] fix_loop.simps [simp del]

section \<open>What the node list means\<close>

text \<open>The value at a key is the value of the last node that starts at or below it.\<close>

definition node_at :: "'a node list \<Rightarrow> u64 \<Rightarrow> 'a node" where
  "node_at rs key = last (filter (\<lambda>n. beg_key n \<le> key) rs)"

lemma find_node_loop_split:
  assumes "it < length rs" "sorted_wrt (<) (map beg_key rs)" "beg_key (rs ! it) \<le> key"
  shows "find_node_loop rs key it < length rs \<and>
    (\<forall>n \<in> set (take (Suc (find_node_loop rs key it)) rs). beg_key n \<le> key) \<and>
    (\<forall>n \<in> set (drop (Suc (find_node_loop rs key it)) rs). key < beg_key n)"
  using assms
proof (induction rs key it rule: find_node_loop.induct)
  case (1 rs key it)
  show ?case
  proof (cases "it + 1 < length rs \<and> beg_key (rs ! (it + 1)) \<le> key")
    case True
    with 1 show ?thesis by (simp add: find_node_loop.simps [of rs key it])
  next
    case False
    have mono: "beg_key (rs ! i) < beg_key (rs ! j)" if "i < j" "j < length rs" for i j
      using 1(3) that by (auto simp: sorted_wrt_iff_nth_less)
    have "beg_key n \<le> key" if "n \<in> set (take (Suc it) rs)" for n
    proof -
      obtain j where j: "n = rs ! j" "j \<le> it"
        using \<open>n \<in> _\<close> by (auto simp: in_set_conv_nth)
      then have "beg_key n \<le> beg_key (rs ! it)"
        using mono [of j it] 1(2) by (cases "j = it") auto
      with 1(4) show ?thesis by simp
    qed
    moreover have "key < beg_key n" if "n \<in> set (drop (Suc it) rs)" for n
    proof -
      obtain j where j: "n = rs ! (Suc it + j)" "Suc it + j < length rs"
        using \<open>n \<in> _\<close> by (auto simp: in_set_conv_nth)
      with False have "key < beg_key (rs ! (it + 1))" by auto
      also have "\<dots> \<le> beg_key n" using j mono [of "it + 1" "Suc it + j"] by (cases j) auto
      finally show ?thesis .
    qed
    ultimately show ?thesis using False 1(2) by (auto simp: find_node_loop.simps [of rs key it])
  qed
qed


lemmas nodes_okD =
  rm_nodes_ok_def [THEN iffD1, THEN conjunct1]
  rm_nodes_ok_def [THEN iffD1, THEN conjunct2, THEN conjunct1]
  rm_nodes_ok_def [THEN iffD1, THEN conjunct2, THEN conjunct2, THEN conjunct1]
  rm_nodes_ok_def [THEN iffD1, THEN conjunct2, THEN conjunct2, THEN conjunct2]

lemma find_node_split:
  assumes "rm_nodes_ok lo hi rs" "lo \<le> key"
  shows find_node_less: "find_node rs key < length rs"
    and find_node_below: "\<forall>n \<in> set (take (Suc (find_node rs key)) rs). beg_key n \<le> key"
    and find_node_above: "\<forall>n \<in> set (drop (Suc (find_node rs key)) rs). key < beg_key n"
  using find_node_loop_split [of 0 rs key] assms
  by (auto simp: find_node_def rm_nodes_ok_def hd_conv_nth)

lemma filter_find_node:
  assumes "rm_nodes_ok lo hi rs" "lo \<le> key"
  shows "filter (\<lambda>n. beg_key n \<le> key) rs = take (Suc (find_node rs key)) rs"
proof -
  let ?i = "Suc (find_node rs key)"
  have "filter (\<lambda>n. beg_key n \<le> key) rs =
      filter (\<lambda>n. beg_key n \<le> key) (take ?i rs) @ filter (\<lambda>n. beg_key n \<le> key) (drop ?i rs)"
    by (metis append_take_drop_id filter_append)
  also have "filter (\<lambda>n. beg_key n \<le> key) (take ?i rs) = take ?i rs"
    using find_node_below [OF assms] by simp
  also have "filter (\<lambda>n. beg_key n \<le> key) (drop ?i rs) = []"
    using find_node_above [OF assms] by (auto simp: filter_empty_conv not_le)
  finally show ?thesis by simp
qed

lemma nth_find_node:
  assumes "rm_nodes_ok lo hi rs" "lo \<le> key"
  shows "rs ! find_node rs key = node_at rs key"
  using find_node_less [OF assms]
  by (simp add: node_at_def filter_find_node [OF assms] take_Suc_conv_app_nth)

text \<open>The position of the node that holds a key is determined by a cut of the list around it.\<close>

lemma find_node_append:
  assumes "rm_nodes_ok lo hi (A @ B)" "lo \<le> key" "A \<noteq> []"
    and "\<forall>n \<in> set A. beg_key n \<le> key" "\<forall>n \<in> set B. key < beg_key n"
  shows "find_node (A @ B) key = length A - 1"
proof -
  have "filter (\<lambda>n. beg_key n \<le> key) (A @ B) = A"
    using assms(4,5) by (auto simp: filter_empty_conv not_le)
  then have "take (Suc (find_node (A @ B) key)) (A @ B) = A"
    using filter_find_node [OF assms(1,2)] by simp
  then have "length A = Suc (find_node (A @ B) key)"
    using find_node_less [OF assms(1,2)] by (metis Suc_leI length_take min.absorb2)
  then show ?thesis by simp
qed

lemma node_at_append:
  "node_at (A @ B) key =
    (if \<exists>n \<in> set B. beg_key n \<le> key then node_at B key else node_at A key)"
  by (auto simp: node_at_def filter_empty_conv)

lemma node_at_all: "\<forall>n \<in> set A. beg_key n \<le> key \<Longrightarrow> node_at A key = last A"
  by (simp add: node_at_def)

lemma node_at_in:
  "\<exists>n \<in> set rs. beg_key n \<le> key \<Longrightarrow> node_at rs key \<in> set rs \<and> beg_key (node_at rs key) \<le> key"
  using last_in_set [of "filter (\<lambda>n. beg_key n \<le> key) rs"]
  by (auto simp: node_at_def filter_empty_conv)

section \<open>Cutting a node\<close>

lemma nodes_ok_insert:
  assumes "rm_nodes_ok lo hi (A @ B)" "A \<noteq> []" "beg_key n \<le> hi"
    and "\<forall>a \<in> set A. beg_key a < beg_key n" "\<forall>b \<in> set B. beg_key n < beg_key b"
  shows "rm_nodes_ok lo hi (A @ n # B)"
  using assms by (auto simp: rm_nodes_ok_def sorted_wrt_append)

lemma node_at_insert:
  assumes "A \<noteq> []" "\<forall>a \<in> set A. beg_key a < beg_key n" "nval n = nval (last A)"
  shows "nval (node_at (A @ n # B) k) = nval (node_at (A @ B) k)"
proof -
  have "nval (node_at (A @ [n]) k) = nval (node_at A k)"
  proof (cases "beg_key n \<le> k")
    case True
    then have "\<forall>a \<in> set A. beg_key a \<le> k" using assms(2) by force
    with True assms(3) show ?thesis by (simp add: node_at_append) (simp add: node_at_def)
  qed (simp add: node_at_append)
  then show ?thesis
    using node_at_append [of "A @ [n]" B k] node_at_append [of A B k] by simp
qed

lemma cut_nodeD:
  assumes ok: "rm_nodes_ok lo hi rs" and key: "lo \<le> key" "key \<le> hi"
  obtains A B where "cut_node rs key = (length A, A @ B)"
    and "\<forall>n \<in> set A. beg_key n < key" "B \<noteq> []" "beg_key (hd B) = key"
    and "rm_nodes_ok lo hi (A @ B)" "set rs \<subseteq> set (A @ B)"
    and "\<And>k. nval (node_at (A @ B) k) = nval (node_at rs k)"
proof -
  let ?i = "find_node rs key"
  define A B where "A = take ?i rs" and "B = drop (Suc ?i) rs"
  have i: "?i < length rs" using find_node_less [OF ok key(1)] .
  then have rs: "rs = A @ rs ! ?i # B" by (simp add: A_def B_def id_take_nth_drop)
  have A': "take (Suc ?i) rs = A @ [rs ! ?i]"
    using i by (simp add: A_def take_Suc_conv_app_nth)
  have before: "\<forall>n \<in> set A. beg_key n < beg_key (rs ! ?i)"
    using nodes_okD(3) [OF ok] by (subst (asm) rs) (simp add: sorted_wrt_append)
  have le: "beg_key (rs ! ?i) \<le> key" and above: "\<forall>n \<in> set B. key < beg_key n"
    using find_node_below [OF ok key(1)] find_node_above [OF ok key(1)]
    by (simp_all add: A' B_def)
  show thesis
  proof (cases "beg_key (rs ! ?i) = key")
    case True
    then show thesis
      using that [of A "rs ! ?i # B"] before ok rs i by (simp add: cut_node_def Let_def A_def)
  next
    case False
    let ?new = "\<lparr>beg_key = key, nval = nval (rs ! ?i)\<rparr>"
    have lt: "\<forall>n \<in> set (A @ [rs ! ?i]). beg_key n < key"
      using before le False by auto
    have "rm_nodes_ok lo hi ((A @ [rs ! ?i]) @ ?new # B)"
      using ok rs lt above key by (intro nodes_ok_insert) auto
    moreover have "nval (node_at ((A @ [rs ! ?i]) @ ?new # B) k) = nval (node_at rs k)" for k
      using lt rs node_at_insert [of "A @ [rs ! ?i]" ?new B k] by simp
    moreover have "set rs \<subseteq> set ((A @ [rs ! ?i]) @ ?new # B)"
      by (subst rs) auto
    moreover have "cut_node rs key = (Suc ?i, (A @ [rs ! ?i]) @ ?new # B)"
      using False by (simp add: cut_node_def Let_def vec_emplace_def A' B_def)
    ultimately show thesis
      using that [of "A @ [rs ! ?i]" "?new # B"] lt i by (simp add: A_def)
  qed
qed

section \<open>Filling and merging\<close>

lemma fill_loop_append:
  "fill_loop (A @ M @ B) (length A) (length A + length M) v =
    Ret (A @ map (\<lambda>n. n\<lparr>nval := v\<rparr>) M @ B)"
proof (induction M arbitrary: A)
  case (Cons n M)
  then show ?case
    using Cons.IH [of "A @ [n\<lparr>nval := v\<rparr>]"]
    by (simp add: fill_loop.simps [of "A @ n # M @ B"] list_update_append)
qed (simp add: fill_loop.simps)

lemma node_at_fill:
  assumes "M \<noteq> []" "beg_key (hd M) = lo"
    and A: "\<forall>n \<in> set A. beg_key n < lo" and M: "\<forall>n \<in> set M. lo \<le> beg_key n"
    and B: "\<forall>n \<in> set B. hi < beg_key n" "\<And>k. k \<in> K \<Longrightarrow> hi < k \<Longrightarrow> \<exists>n \<in> set B. beg_key n \<le> k"
    and k: "k \<in> K"
  shows "nval (node_at (A @ map (\<lambda>n. n\<lparr>nval := v\<rparr>) M @ B) k) =
    (if lo \<le> k \<and> k \<le> hi then v else nval (node_at (A @ M @ B) k))"
proof -
  let ?M = "map (\<lambda>n. n\<lparr>nval := v\<rparr>) M"
  have ex: "(\<exists>n \<in> set ?M. beg_key n \<le> k) \<longleftrightarrow> lo \<le> k"
    and ex': "(\<exists>n \<in> set M. beg_key n \<le> k) \<longleftrightarrow> lo \<le> k"
    using assms(1,2) M hd_in_set [of M] by force+
  have v: "nval (node_at ?M k) = v" if "lo \<le> k"
    using node_at_in [of ?M k] ex that by auto
  have B': "(\<exists>n \<in> set B. beg_key n \<le> k) \<longleftrightarrow> hi < k"
    using B k by (meson le_less_trans less_le_trans)
  have split: "nval (node_at (A @ N @ B) k) =
      (if hi < k then nval (node_at B k) else if \<exists>n \<in> set N. beg_key n \<le> k
       then nval (node_at N k) else nval (node_at A k))" for N
    using B' by (simp add: node_at_append bex_Un)
  show ?thesis
    unfolding split ex ex' by (auto simp: v)
qed

text \<open>\<open>_fix\<close> as a structural recursion on the part of the list after the index.\<close>

fun merge_adj :: "'a node list \<Rightarrow> 'a node list" where
  "merge_adj (m # n # rs) =
    (if nval m = nval n then merge_adj (m # rs) else m # merge_adj (n # rs))"
| "merge_adj rs = rs"

lemma fix_loop_merge: "fix_loop (P @ rs) (length P) = P @ merge_adj rs"
proof (induction rs arbitrary: P rule: merge_adj.induct)
  case (1 m n rs)
  have "fix_loop (P @ m # n # rs) (length P) =
      (if nval m = nval n then fix_loop (P @ m # rs) (length P)
       else fix_loop ((P @ [m]) @ n # rs) (length (P @ [m])))"
    by (simp add: fix_loop.simps [of "P @ m # n # rs"] nth_append vec_erase_def)
  then show ?case using 1(1) [of P] 1(2) [of "P @ [m]"] by simp
qed (simp_all add: fix_loop.simps)

lemma hd_merge_adj: "merge_adj (n # rs) \<noteq> [] \<and> hd (merge_adj (n # rs)) = n"
  by (induction "n # rs" arbitrary: n rs rule: merge_adj.induct) auto

lemma set_merge_adj: "set (merge_adj rs) \<subseteq> set rs"
  by (induction rs rule: merge_adj.induct) auto

lemma sorted_merge_adj:
  "sorted_wrt (<) (map beg_key rs) \<Longrightarrow> sorted_wrt (<) (map beg_key (merge_adj rs))"
  by (induction rs rule: merge_adj.induct) (use set_merge_adj in fastforce)+

lemma distinct_merge_adj: "distinct_adj (map nval (merge_adj rs))"
proof (induction rs rule: merge_adj.induct)
  case (1 m n rs)
  obtain ys where "merge_adj (n # rs) = n # ys"
    using hd_merge_adj [of n rs] by (cases "merge_adj (n # rs)") auto
  with 1 show ?case by auto
qed auto

lemma node_at_merge_adj:
  assumes "rs \<noteq> []" "beg_key (hd rs) \<le> k" "sorted_wrt (<) (map beg_key rs)"
  shows "nval (node_at (merge_adj rs) k) = nval (node_at rs k)"
  using assms
proof (induction rs rule: merge_adj.induct)
  case (1 m n rs)
  show ?case
  proof (cases "nval m = nval n")
    case True
    then have "nval (node_at (m # n # rs) k) = nval (node_at (m # rs) k)"
      using node_at_insert [of "[m]" n rs k] 1(5) by simp
    with True 1 show ?thesis by simp
  next
    case False
    have "(\<exists>x \<in> set (merge_adj (n # rs)). beg_key x \<le> k) \<longleftrightarrow> beg_key n \<le> k"
      using hd_merge_adj [of n rs] set_merge_adj [of "n # rs"] 1(5)
      by (cases "merge_adj (n # rs)") fastforce+
    moreover have "(\<exists>x \<in> set (n # rs). beg_key x \<le> k) \<longleftrightarrow> beg_key n \<le> k"
      using 1(5) by fastforce
    ultimately show ?thesis
      using False 1 node_at_append [of "[m]" "merge_adj (n # rs)" k] node_at_append [of "[m]" "n # rs" k]
      by (cases "beg_key n \<le> k") auto
  qed
qed auto

lemma nodes_ok_merge_adj: "rm_nodes_ok lo hi rs \<Longrightarrow> rm_nodes_ok lo hi (merge_adj rs)"
  using hd_merge_adj [of "hd rs" "tl rs"] set_merge_adj [of rs] sorted_merge_adj [of rs]
  by (auto simp: rm_nodes_ok_def)


section \<open>The operations\<close>

definition rm_val :: "'a range_map \<Rightarrow> u64 \<Rightarrow> 'a" where
  "rm_val m k = nval (node_at (rm_ranges m) k)"

lemma rm_get_val:
  "rm_ok m \<Longrightarrow> rm_min m \<le> k \<Longrightarrow> k \<le> rm_max m \<Longrightarrow> rm_get m k = Ret (rm_val m k)"
  by (simp add: rm_get_def rm_val_def nth_find_node [of "rm_min m" "rm_max m"] rm_ok_def)

lemma rm_ok_RangeMap: "l \<le> h \<Longrightarrow> rm_ok (RangeMap l h v)"
  by (simp add: rm_ok_def rm_nodes_ok_def RangeMap_def)

lemma rm_val_RangeMap: "l \<le> k \<Longrightarrow> rm_val (RangeMap l h v) k = v"
  by (simp add: rm_val_def node_at_def RangeMap_def)

text \<open>After both cuts the nodes split into those up to \<open>hi\<close> and those above it.\<close>

lemma rm_set_cut:
  assumes ok: "rm_nodes_ok l h rs" and key: "l \<le> lo" "lo \<le> hi" "hi \<le> h"
  obtains A B where
    "(case cut_node rs lo of (_, rs1) \<Rightarrow>
       if hi \<noteq> h then cut_node rs1 (hi + 1) else (length rs1, rs1)) = (length A, A @ B)"
    and "\<forall>n \<in> set A. beg_key n \<le> hi" "\<forall>n \<in> set B. hi < beg_key n"
    and "\<And>k. k \<le> h \<Longrightarrow> hi < k \<Longrightarrow> \<exists>n \<in> set B. beg_key n \<le> k"
    and "\<exists>n \<in> set A. beg_key n = lo" "rm_nodes_ok l h (A @ B)"
    and "\<And>k. nval (node_at (A @ B) k) = nval (node_at rs k)"
proof -
  have "lo \<le> h" using key by simp
  then obtain A1 B1 where 1: "cut_node rs lo = (length A1, A1 @ B1)" "B1 \<noteq> []" "beg_key (hd B1) = lo"
    "rm_nodes_ok l h (A1 @ B1)" "\<And>k. nval (node_at (A1 @ B1) k) = nval (node_at rs k)"
    by (rule cut_nodeD [OF ok key(1)]) (rule that)
  then have lo: "\<exists>n \<in> set (A1 @ B1). beg_key n = lo"
    by (metis UnI2 hd_in_set set_append)
  show thesis
  proof (cases "hi = h")
    case True
    then show thesis
      using that [of "A1 @ B1" "[]"] 1 lo nodes_okD(4) [OF 1(4)]
      by (simp add: case_prod_unfold)
  next
    case False
    then have lt: "hi < h" using key by simp
    then have hi1: "l \<le> hi + 1" "hi + 1 \<le> h"
      using key word_less_inc [OF lt, of hi] inc_le [OF lt] by auto
    obtain A B where 2: "cut_node (A1 @ B1) (hi + 1) = (length A, A @ B)"
      "\<forall>n \<in> set A. beg_key n < hi + 1" "B \<noteq> []" "beg_key (hd B) = hi + 1"
      "rm_nodes_ok l h (A @ B)" "set (A1 @ B1) \<subseteq> set (A @ B)"
      "\<And>k. nval (node_at (A @ B) k) = nval (node_at (A1 @ B1) k)"
      by (rule cut_nodeD [OF 1(4) hi1]) (rule that)
    have "sorted_wrt (<) (map beg_key B)"
      using nodes_okD(3) [OF 2(5)] by (simp add: sorted_wrt_append)
    then have B: "\<forall>n \<in> set B. hi + 1 \<le> beg_key n"
      using 2(3,4) by (cases B) (auto simp: less_imp_le)
    moreover from lo 2(6) obtain n where n: "n \<in> set (A @ B)" "beg_key n = lo" by blast
    ultimately have "n \<in> set A" using key lt by (auto simp: word_inc_le)
    moreover have "\<exists>n \<in> set B. beg_key n \<le> k" if "hi < k" for k
      using hd_in_set [OF 2(3)] 2(4) inc_le [OF that] by (intro bexI [of _ "hd B"]) simp_all
    ultimately show thesis
      using that [of A B] False 1 2 B lt n
      by (simp add: word_inc_le word_less_inc bexI [of _ n])
  qed
qed

lemma rm_set_Ret:
  assumes ok: "rm_ok m" and key: "rm_min m \<le> lo" "lo \<le> hi" "hi \<le> rm_max m"
  obtains m' where "rm_set m lo hi v = Ret m'" "rm_ok m'" "rm_min m' = rm_min m"
    "rm_max m' = rm_max m"
    "\<And>k. rm_min m \<le> k \<Longrightarrow> k \<le> rm_max m \<Longrightarrow>
       rm_val m' k = (if lo \<le> k \<and> k \<le> hi then v else rm_val m k)"
proof -
  let ?l = "rm_min m" and ?h = "rm_max m"
  have nok: "rm_nodes_ok ?l ?h (rm_ranges m)" using ok by (simp add: rm_ok_def)
  obtain A B where AB:
    "(case cut_node (rm_ranges m) lo of (_, rs1) \<Rightarrow>
       if hi \<noteq> ?h then cut_node rs1 (hi + 1) else (length rs1, rs1)) = (length A, A @ B)"
    "\<forall>n \<in> set A. beg_key n \<le> hi" "\<forall>n \<in> set B. hi < beg_key n"
    "\<And>k. k \<le> ?h \<Longrightarrow> hi < k \<Longrightarrow> \<exists>n \<in> set B. beg_key n \<le> k"
    "\<exists>n \<in> set A. beg_key n = lo" "rm_nodes_ok ?l ?h (A @ B)"
    "\<And>k. nval (node_at (A @ B) k) = nval (node_at (rm_ranges m) k)"
    by (rule rm_set_cut [OF nok key]) (rule that)
  from AB(5) obtain A1 n M where A: "A = A1 @ n # M" "beg_key n = lo" by (metis split_list)
  have sorted: "sorted_wrt (<) (map beg_key (A1 @ (n # M) @ B))"
    using nodes_okD(3) [OF AB(6)] A by simp
  then have A1: "\<forall>a \<in> set A1. beg_key a < lo" and M': "\<forall>a \<in> set M. lo < beg_key a"
    using A(2) by (auto simp: sorted_wrt_append)
  then have M: "\<forall>a \<in> set (n # M). lo \<le> beg_key a"
    using A(2) by auto
  have "find_node ((A1 @ [n]) @ (M @ B)) lo = length A1"
    using find_node_append [of ?l ?h "A1 @ [n]" "M @ B" lo] AB(3,6) A A1 M' key
    by (auto simp: less_imp_le intro: le_less_trans)
  then have low_it: "find_node (A @ B) lo = length A1" using A by simp
  let ?rs = "A1 @ map (\<lambda>n. n\<lparr>nval := v\<rparr>) (n # M) @ B"
  let ?m' = "m\<lparr>rm_ranges := merge_adj ?rs\<rparr>"
  have fill: "fill_loop (A @ B) (length A1) (length A) v = Ret ?rs"
    using fill_loop_append [of A1 "n # M" B v] A by simp
  have nok': "rm_nodes_ok ?l ?h ?rs"
    using AB(6) A sorted by (auto simp: rm_nodes_ok_def hd_append comp_def)
  then have ok': "rm_ok ?m'"
    using ok by (simp add: rm_ok_def nodes_ok_merge_adj distinct_merge_adj del: list.map)
  note rs' = nodes_okD [OF nok']
  have val: "rm_val ?m' k = (if lo \<le> k \<and> k \<le> hi then v else rm_val m k)"
    if "?l \<le> k" "k \<le> ?h" for k
    using node_at_fill [of "n # M" lo A1 B hi "{..?h}" k v] AB(3,4,7) A A1 M that
      node_at_merge_adj [OF rs'(1) _ rs'(3), of k] rs'(2)
    by (simp add: rm_val_def)
  have "rm_set m lo hi v = Ret ?m'"
    using AB(1) key low_it fill fix_loop_merge [of "[]" ?rs]
    by (simp add: rm_set_def Let_def case_prod_unfold)
  then show thesis using that [of ?m'] ok' val by simp
qed


lemma node_at_nth:
  assumes ok: "rm_nodes_ok l h rs" and i: "i < length rs" "beg_key (rs ! i) \<le> k"
    and next_key: "Suc i < length rs \<Longrightarrow> k < beg_key (rs ! Suc i)"
  shows "node_at rs k = rs ! i"
proof -
  have mono: "beg_key (rs ! a) < beg_key (rs ! b)" if "a < b" "b < length rs" for a b
    using nodes_okD(3) [OF ok] that by (auto simp: sorted_wrt_iff_nth_less)
  have l: "l \<le> k"
    using nodes_okD(1,2) [OF ok] mono [of 0 i] i by (cases i) (auto simp: hd_conv_nth)
  let ?j = "find_node rs k"
  note j = find_node_less [OF ok l] find_node_below [OF ok l] find_node_above [OF ok l]
  have jle: "beg_key (rs ! ?j) \<le> k"
    using j(1,2) by (auto simp: take_Suc_conv_app_nth)
  have "?j = i"
  proof (rule ccontr)
    assume "?j \<noteq> i"
    then consider "i < ?j" | "?j < i" by linarith
    then show False
    proof cases
      case 1
      then have "k < beg_key (rs ! Suc i)" using next_key j(1) by simp
      also have "\<dots> \<le> beg_key (rs ! ?j)"
        using 1 mono [of "Suc i" ?j] j(1) by (cases "Suc i = ?j") auto
      finally show False using jle by simp
    next
      case 2
      then have "rs ! i \<in> set (drop (Suc ?j) rs)"
        using i by (auto simp: in_set_conv_nth intro: exI [of _ "i - Suc ?j"])
      with j(3) i show False by auto
    qed
  qed
  then show ?thesis using nth_find_node [OF ok l] by simp
qed

lemma node_range_spec:
  assumes ok: "rm_ok m" and i: "i < length (rm_ranges m)"
  defines "r \<equiv> node_range m i"
  shows "low r \<le> high r" "rm_min m \<le> low r" "high r \<le> rm_max m"
    and "\<And>k. low r \<le> k \<Longrightarrow> k \<le> high r \<Longrightarrow> rm_val m k = rval r"
    and "low r \<noteq> rm_min m \<Longrightarrow> rm_val m (low r - 1) \<noteq> rval r"
    and "high r \<noteq> rm_max m \<Longrightarrow> rm_val m (high r + 1) \<noteq> rval r"
proof -
  let ?rs = "rm_ranges m"
  have nok: "rm_nodes_ok (rm_min m) (rm_max m) ?rs" using ok by (simp add: rm_ok_def)
  have mono: "beg_key (?rs ! a) < beg_key (?rs ! b)" if "a < b" "b < length ?rs" for a b
    using nodes_okD(3) [OF nok] that by (auto simp: sorted_wrt_iff_nth_less)
  have hd: "beg_key (?rs ! 0) = rm_min m"
    using nodes_okD(1,2) [OF nok] by (simp add: hd_conv_nth)
  have adj: "nval (?rs ! a) \<noteq> nval (?rs ! Suc a)" if "Suc a < length ?rs" for a
    using ok that by (auto simp: rm_ok_def distinct_adj_conv_nth)
  have le_max: "beg_key (?rs ! a) \<le> rm_max m" if "a < length ?rs" for a
    using nodes_okD(4) [OF nok] that by simp
  have lo: "low r = beg_key (?rs ! i)" and rv: "rval r = nval (?rs ! i)"
    and hi: "high r = (if Suc i = length ?rs then rm_max m else beg_key (?rs ! Suc i) - 1)"
    by (simp_all add: r_def node_range_def Let_def)
  have nxt: "k \<le> high r \<longleftrightarrow> k < beg_key (?rs ! Suc i)" if "Suc i < length ?rs" for k
    using that hi word_le_dec [OF mono [of i "Suc i"]] by simp
  show 1: "low r \<le> high r" using i mono [of i "Suc i"] nxt [of "low r"] le_max lo hi
    by (cases "Suc i = length ?rs") auto
  show "rm_min m \<le> low r" using lo hd mono [of 0 i] i by (cases i) auto
  show "high r \<le> rm_max m"
    using i hi nxt [of "high r"] le_max [of "Suc i"] by (cases "Suc i = length ?rs") auto
  show "rm_val m k = rval r" if "low r \<le> k" "k \<le> high r" for k
  proof -
    have "node_at ?rs k = ?rs ! i"
      by (rule node_at_nth [OF nok i]) (use that lo nxt in auto)
    then show ?thesis by (simp add: rm_val_def rv)
  qed
  show "rm_val m (low r - 1) \<noteq> rval r" if "low r \<noteq> rm_min m"
  proof -
    from that obtain j where j: "i = Suc j" using lo hd by (cases i) auto
    have "node_at ?rs (low r - 1) = ?rs ! j"
      using node_at_nth [OF nok, of j "low r - 1"] j i lo mono [of j i]
      by (simp add: less_imp_less_eq_dec) (metis lessI word_le_dec order_refl)
    then show ?thesis using adj [of j] j i by (simp add: rm_val_def rv)
  qed
  show "rm_val m (high r + 1) \<noteq> rval r" if "high r \<noteq> rm_max m"
  proof -
    from that have i': "Suc i < length ?rs" using i hi by (cases "Suc i = length ?rs") auto
    then have k: "high r + 1 = beg_key (?rs ! Suc i)" using hi by simp
    have "node_at ?rs (high r + 1) = ?rs ! Suc i"
      using node_at_nth [OF nok i', of "high r + 1"] mono [of "Suc i" "Suc (Suc i)"] k by simp
    then show ?thesis using adj [OF i'] by (simp add: rm_val_def rv)
  qed
qed

lemma rm_range_of_Ret:
  assumes ok: "rm_ok m" and key: "rm_min m \<le> key" "key \<le> rm_max m"
  shows "\<exists>i < length (rm_ranges m). rm_range_of m key = Ret (node_range m i) \<and>
    low (node_range m i) \<le> key \<and> key \<le> high (node_range m i)"
proof -
  let ?rs = "rm_ranges m" and ?i = "find_node (rm_ranges m) key"
  have nok: "rm_nodes_ok (rm_min m) (rm_max m) ?rs" using ok by (simp add: rm_ok_def)
  have i: "?i < length ?rs" using find_node_less [OF nok key(1)] .
  have "beg_key (?rs ! ?i) \<le> key"
    using find_node_below [OF nok key(1)] i by (auto simp: take_Suc_conv_app_nth)
  moreover have "key < beg_key (?rs ! Suc ?i)" if "Suc ?i < length ?rs"
  proof -
    have "?rs ! Suc ?i \<in> set (drop (Suc ?i) ?rs)"
      using that by (metis Cons_nth_drop_Suc list.set_intros(1))
    then show ?thesis using find_node_above [OF nok key(1)] by blast
  qed
  ultimately have "low (node_range m ?i) \<le> key \<and> key \<le> high (node_range m ?i)"
    using i key by (simp add: node_range_def Let_def less_imp_less_eq_dec)
  then show ?thesis
    using i key by (intro exI [of _ ?i]) (simp add: rm_range_of_def)
qed

section \<open>Canonical representation\<close>

lemma nodes_unique:
  assumes "rm_nodes_ok l h rs" "rm_nodes_ok l h rs'"
    and "distinct_adj (map nval rs)" "distinct_adj (map nval rs')"
    and "\<And>k. l \<le> k \<Longrightarrow> k \<le> h \<Longrightarrow> nval (node_at rs k) = nval (node_at rs' k)"
  shows "rs = rs'"
  using assms
proof (induction rs arbitrary: l rs')
  case Nil
  then show ?case by (simp add: rm_nodes_ok_def)
next
  case (Cons n rs)
  from Cons.prems obtain n' ns' where rs': "rs' = n' # ns'"
    by (cases rs') (auto simp: rm_nodes_ok_def)
  have only: "node_at (a # as) k = a"
    if "\<forall>b \<in> set as. k < beg_key b" "beg_key a \<le> k" for a :: "'a node" and as k
    using node_at_append [of "[a]" as k] that by (auto simp: node_at_def)
  have l: "beg_key n = l" "beg_key n' = l" "l \<le> h"
    using Cons.prems(1,2) rs' by (auto simp: rm_nodes_ok_def)
  have gt: "\<forall>b \<in> set rs. l < beg_key b" "\<forall>b \<in> set ns'. l < beg_key b"
    using Cons.prems(1,2) rs' l by (auto simp: rm_nodes_ok_def)
  have "nval n = nval n'"
    using Cons.prems(5) [of l] only [of rs l n] only [of ns' l n'] gt l rs' by simp
  with l have nn: "n = n'" by simp
  have first: "\<exists>b \<in> set bs. beg_key b \<le> beg_key a"
    if ok: "rm_nodes_ok l h (n # a # as)" "distinct_adj (map nval (n # a # as))"
      and sem: "\<And>k. l \<le> k \<Longrightarrow> k \<le> h \<Longrightarrow> nval (node_at (n # a # as) k) = nval (node_at (n # bs) k)"
    for a as bs
  proof (rule ccontr)
    assume "\<not> ?thesis"
    then have "node_at (n # bs) (beg_key a) = n"
      using ok l by (intro only) (auto simp: rm_nodes_ok_def not_le)
    moreover have "node_at (a # as) (beg_key a) = a"
      using ok by (intro only) (auto simp: rm_nodes_ok_def)
    then have "node_at (n # a # as) (beg_key a) = a"
      using node_at_append [of "[n]" "a # as" "beg_key a"] by simp
    moreover have "l \<le> beg_key a" "beg_key a \<le> h" "nval n \<noteq> nval a"
      using ok l by (auto simp: rm_nodes_ok_def)
    ultimately show False
      using sem [of "beg_key a"] by simp
  qed
  show ?case
  proof (cases rs)
    case Nil
    moreover have "ns' = []"
    proof (cases ns')
      case (Cons a as)
      then show ?thesis using first [of a as "[]"] Cons.prems \<open>rs = []\<close> rs' nn by simp
    qed
    ultimately show ?thesis using rs' nn by simp
  next
    case rs: (Cons a as)
    from first [of a as ns'] Cons.prems rs rs' nn obtain b bs where ns': "ns' = b # bs"
      by (cases ns') auto
    have "\<exists>x \<in> set ns'. beg_key x \<le> beg_key a" "\<exists>x \<in> set rs. beg_key x \<le> beg_key b"
      using first [of a as ns'] first [of b bs rs] Cons.prems rs rs' ns' nn by simp_all
    moreover have "\<forall>x \<in> set ns'. beg_key b \<le> beg_key x" "\<forall>x \<in> set rs. beg_key a \<le> beg_key x"
      using Cons.prems(1,2) rs rs' ns' by (auto simp: rm_nodes_ok_def less_imp_le)
    ultimately have key: "beg_key a = beg_key b"
      by (meson order.antisym order.trans)
    have "nval (node_at rs k) = nval (node_at ns' k)" if "beg_key a \<le> k" "k \<le> h" for k
      using Cons.prems(5) [of k] that gt(1) rs rs' ns' key
        node_at_append [of "[n]" rs k] node_at_append [of "[n']" ns' k] by auto
    then have "rs = ns'"
      using Cons.prems rs rs' ns' key
      by (intro Cons.IH [of "beg_key a" ns']) (auto simp: rm_nodes_ok_def)
    then show ?thesis using rs' nn by simp
  qed
qed

section \<open>The contract of the range map\<close>

text \<open>
  What a client of the class relies on: the keys of the interval are always mapped, \<open>set\<close> writes
  exactly the keys of its range, \<open>range_of\<close> returns an interval around the key on which the map
  is constant. The lemmas are stated once, over the set of the keys that carry a mark.
\<close>

locale range_map_api =
  fixes make :: "u64 \<Rightarrow> u64 \<Rightarrow> 'v \<Rightarrow> 'm"
    and get :: "'m \<Rightarrow> u64 \<Rightarrow> 'v outcome"
    and set_range :: "'m \<Rightarrow> u64 \<Rightarrow> u64 \<Rightarrow> 'v \<Rightarrow> 'm outcome"
    and range_of :: "'m \<Rightarrow> u64 \<Rightarrow> 'v krange outcome"
    and min_key :: "'m \<Rightarrow> u64"
    and max_key :: "'m \<Rightarrow> u64"
    and ok :: "'m \<Rightarrow> bool"
  assumes ok_make: "l \<le> h \<Longrightarrow> ok (make l h v) \<and> min_key (make l h v) = l \<and> max_key (make l h v) = h"
    and get_make: "l \<le> k \<Longrightarrow> k \<le> h \<Longrightarrow> get (make l h v) k = Ret v"
    and set_range_law: "ok m \<Longrightarrow> min_key m \<le> lo \<Longrightarrow> lo \<le> hi \<Longrightarrow> hi \<le> max_key m \<Longrightarrow>
      \<exists>m'. set_range m lo hi v = Ret m' \<and> ok m' \<and> min_key m' = min_key m \<and>
        max_key m' = max_key m \<and>
        (\<forall>k. min_key m \<le> k \<longrightarrow> k \<le> max_key m \<longrightarrow>
          get m' k = (if lo \<le> k \<and> k \<le> hi then Ret v else get m k))"
    and range_of_law: "ok m \<Longrightarrow> min_key m \<le> k \<Longrightarrow> k \<le> max_key m \<Longrightarrow>
      \<exists>r. range_of m k = Ret r \<and> min_key m \<le> low r \<and> low r \<le> k \<and> k \<le> high r \<and>
        high r \<le> max_key m \<and> (\<forall>j. low r \<le> j \<longrightarrow> j \<le> high r \<longrightarrow> get m j = Ret (rval r))"
begin

definition marked :: "'v \<Rightarrow> 'm \<Rightarrow> u64 set" where
  "marked v m = {k. min_key m \<le> k \<and> k \<le> max_key m \<and> get m k = Ret v}"

lemma marked_make: "l \<le> h \<Longrightarrow> v \<noteq> w \<Longrightarrow> marked v (make l h w) = {}"
  using ok_make [of l h w] by (auto simp: marked_def get_make)

lemma marked_set_range:
  assumes "ok m" "min_key m \<le> lo" "lo \<le> hi" "hi \<le> max_key m"
  shows "\<exists>m'. set_range m lo hi v = Ret m' \<and> ok m' \<and> min_key m' = min_key m \<and>
    max_key m' = max_key m \<and> marked v m' = marked v m \<union> {lo..hi}"
proof -
  obtain m' where m': "set_range m lo hi v = Ret m'" "ok m'" "min_key m' = min_key m"
    "max_key m' = max_key m" "\<forall>k. min_key m \<le> k \<longrightarrow> k \<le> max_key m \<longrightarrow>
      get m' k = (if lo \<le> k \<and> k \<le> hi then Ret v else get m k)"
    using set_range_law [OF assms, of v] by blast
  have "marked v m' = marked v m \<union> {lo..hi}"
  proof (rule set_eqI)
    fix k
    show "k \<in> marked v m' \<longleftrightarrow> k \<in> marked v m \<union> {lo..hi}"
    proof (cases "min_key m \<le> k \<and> k \<le> max_key m")
      case True
      then show ?thesis using m' by (auto simp: marked_def)
    next
      case False
      then have "\<not> (lo \<le> k \<and> k \<le> hi)" using assms by (meson order.trans)
      then show ?thesis using m' False by (auto simp: marked_def)
    qed
  qed
  with m' show ?thesis by blast
qed

lemma range_of_marked:
  assumes "ok m" "min_key m \<le> k" "k \<le> max_key m" "range_of m k = Ret r"
  shows "min_key m \<le> low r" "low r \<le> k" "k \<le> high r" "high r \<le> max_key m"
    and "rval r = v \<Longrightarrow> {low r..high r} \<subseteq> marked v m"
proof -
  obtain r' where r': "range_of m k = Ret r'" "min_key m \<le> low r'" "low r' \<le> k" "k \<le> high r'"
    "high r' \<le> max_key m" "\<forall>j. low r' \<le> j \<longrightarrow> j \<le> high r' \<longrightarrow> get m j = Ret (rval r')"
    using range_of_law [OF assms(1-3)] by blast
  then have "r' = r" using assms(4) by simp
  with r' show "min_key m \<le> low r" "low r \<le> k" "k \<le> high r" "high r \<le> max_key m"
    "rval r = v \<Longrightarrow> {low r..high r} \<subseteq> marked v m"
    by (auto simp: marked_def)
qed

end

interpretation rm: range_map_api RangeMap rm_get rm_set rm_range_of rm_min rm_max rm_ok
proof (unfold_locales, goal_cases)
  case (1 l h v)
  then show ?case by (simp add: rm_ok_RangeMap) (simp add: RangeMap_def)
next
  case (2 l k h v)
  then show ?case
    by (simp add: rm_get_def RangeMap_def find_node_def find_node_loop.simps)
next
  case (3 m lo hi v)
  then obtain m' where "rm_set m lo hi v = Ret m'" "rm_ok m'" "rm_min m' = rm_min m"
    "rm_max m' = rm_max m" "\<And>k. rm_min m \<le> k \<Longrightarrow> k \<le> rm_max m \<Longrightarrow>
       rm_val m' k = (if lo \<le> k \<and> k \<le> hi then v else rm_val m k)"
    by (rule rm_set_Ret) (rule that)
  with 3 show ?case by (auto simp: rm_get_val)
next
  case (4 m k)
  then obtain i where "i < length (rm_ranges m)" "rm_range_of m k = Ret (node_range m i)"
    "low (node_range m i) \<le> k" "k \<le> high (node_range m i)"
    using rm_range_of_Ret by blast
  with 4 node_range_spec [of m i] show ?case by (auto simp: rm_get_val)
qed

section \<open>Sequences of updates\<close>

fun rm_sets :: "(u64 \<times> u64 \<times> 'a) list \<Rightarrow> 'a range_map \<Rightarrow> 'a range_map outcome" where
  "rm_sets [] m = Ret m"
| "rm_sets ((lo, hi, v) # us) m =
    (case rm_set m lo hi v of Ret m' \<Rightarrow> rm_sets us m' | Throw e \<Rightarrow> Throw e | Abort c \<Rightarrow> Abort c)"

lemma rm_set_guard: "rm_set m lo hi v = Ret m' \<Longrightarrow> rm_min m \<le> lo \<and> lo \<le> hi \<and> hi \<le> rm_max m"
  by (simp add: rm_set_def split: if_splits)

lemma rm_sets_ok: "rm_sets us m = Ret m' \<Longrightarrow> rm_ok m \<Longrightarrow> rm_ok m' \<and> rm_min m' = rm_min m \<and> rm_max m' = rm_max m"
proof (induction us m rule: rm_sets.induct)
  case (2 lo hi v us m)
  from 2(2) obtain m1 where m1: "rm_set m lo hi v = Ret m1" "rm_sets us m1 = Ret m'"
    by (cases "rm_set m lo hi v") simp_all
  have "rm_ok m1 \<and> rm_min m1 = rm_min m \<and> rm_max m1 = rm_max m"
    using rm.set_range_law [OF 2(3), of lo hi v] rm_set_guard [OF m1(1)] m1(1) by auto
  then show ?case using 2(1) [OF m1] by simp
qed simp

lemma rm_ok_unique:
  assumes "rm_ok m" "rm_ok m'" "rm_min m' = rm_min m" "rm_max m' = rm_max m"
    and "\<forall>k. rm_min m \<le> k \<longrightarrow> k \<le> rm_max m \<longrightarrow> rm_get m' k = rm_get m k"
  shows "m' = m"
proof -
  have "nval (node_at (rm_ranges m) k) = nval (node_at (rm_ranges m') k)" if "rm_min m \<le> k" "k \<le> rm_max m" for k
    using assms that rm_get_val [of m k] rm_get_val [of m' k] by (simp add: rm_val_def)
  then have "rm_ranges m = rm_ranges m'"
    using assms by (intro nodes_unique [of "rm_min m" "rm_max m"]) (auto simp: rm_ok_def)
  with assms show ?thesis by simp
qed

text \<open>The nodes start where the value changes.\<close>

lemma word_sub_le_of_pos: "(a :: 'w::len word) < b \<Longrightarrow> b - 1 \<le> b"
  by (metis word_le_dec order.refl order.strict_implies_order)

lemma node_starts:
  assumes "rm_ok m"
  shows "beg_key ` set (rm_ranges m) =
    {k. rm_min m \<le> k \<and> k \<le> rm_max m \<and> (k = rm_min m \<or> rm_get m (k - 1) \<noteq> rm_get m k)}"
  (is "?B = ?R")
proof (intro set_eqI iffI)
  fix k assume "k \<in> ?B"
  then obtain i where i: "i < length (rm_ranges m)" "low (node_range m i) = k"
    by (auto simp: in_set_conv_nth node_range_def Let_def)
  note spec = node_range_spec [OF assms i(1), unfolded i(2)]
  have "rm_get m (k - 1) \<noteq> rm_get m k" if "k \<noteq> rm_min m"
  proof -
    have "rm_min m < k" using spec(2) that by simp
    then have "rm_min m \<le> k - 1" "k - 1 \<le> k" by (simp_all add: word_le_dec word_sub_le_of_pos)
    then show ?thesis using spec(1,2,3) spec(4) [of k] spec(5) [OF that] by (auto simp: rm_get_val [OF assms])
  qed
  then show "k \<in> ?R" using spec(1-3) by auto
next
  fix k assume k: "k \<in> ?R"
  then obtain i where i: "i < length (rm_ranges m)" "low (node_range m i) \<le> k" "k \<le> high (node_range m i)"
    using rm_range_of_Ret [OF assms] by blast
  note spec = node_range_spec [OF assms i(1)]
  have "k = low (node_range m i)"
  proof (rule ccontr)
    assume "k \<noteq> low (node_range m i)"
    then have low: "low (node_range m i) < k" using i(2) by simp
    then have "low (node_range m i) \<le> k - 1" "k - 1 \<le> k" by (simp_all add: word_le_dec word_sub_le_of_pos)
    then have "rm_get m (k - 1) = rm_get m k"
      using spec(2,3) spec(4) [of k] spec(4) [of "k - 1"] i(2,3) by (auto simp: rm_get_val [OF assms])
    then show False using k low spec(2) by auto
  qed
  then show "k \<in> ?B" using i(1) by (auto simp: node_range_def Let_def)
qed

lemma rm_size_runs:
  assumes "rm_ok m"
  shows "rm_size m = card {k. rm_min m \<le> k \<and> k \<le> rm_max m \<and> (k = rm_min m \<or> rm_get m (k - 1) \<noteq> rm_get m k)}"
proof -
  have "distinct (map beg_key (rm_ranges m))"
    using assms by (auto simp: rm_ok_def rm_nodes_ok_def strict_sorted_iff)
  then have "rm_size m = card (set (map beg_key (rm_ranges m)))" by (simp only: distinct_card rm_size_def length_map)
  then show ?thesis using node_starts [OF assms] by simp
qed

section \<open>Properties\<close>

text \<open>
  C4. \<open>RangeMap::set\<close> on a range inside the key interval never fails an assertion, keeps the
  representation invariant and the key interval, and afterwards \<open>get\<close> returns the new value on
  exactly the keys of the range and the old value everywhere else.
\<close>

theorem range_map_set_get:
  assumes "rm_ok m" and "rm_min m \<le> lo" and "lo \<le> hi" and "hi \<le> rm_max m"
  shows "\<exists>m'. rm_set m lo hi v = Ret m' \<and> rm_ok m' \<and>
    rm_min m' = rm_min m \<and> rm_max m' = rm_max m \<and>
    (\<forall>k. rm_min m \<le> k \<longrightarrow> k \<le> rm_max m \<longrightarrow>
      rm_get m' k = (if lo \<le> k \<and> k \<le> hi then Ret v else rm_get m k))"
  using assms by (rule rm.set_range_law)

theorem range_map_set_get_witness:
  "rm_ok (RangeMap 0 150 (78 :: int)) \<and>
   (\<exists>m'. rm_set (RangeMap 0 150 (78 :: int)) 10 20 5 = Ret m' \<and> rm_get m' 15 = Ret 5 \<and>
     rm_get m' 21 = rm_get (RangeMap 0 150 78) 21)"
proof -
  let ?m = "RangeMap 0 150 (78 :: int)"
  have ok: "rm_ok ?m" and b: "rm_min ?m \<le> 10" "(10 :: u64) \<le> 20" "20 \<le> rm_max ?m"
    by (simp_all add: rm_ok_RangeMap) (simp_all add: RangeMap_def)
  from range_map_set_get [OF ok b, of 5] obtain m' where
    "rm_set ?m 10 20 5 = Ret m'"
    "\<forall>k. rm_min ?m \<le> k \<longrightarrow> k \<le> rm_max ?m \<longrightarrow>
      rm_get m' k = (if 10 \<le> k \<and> k \<le> 20 then Ret 5 else rm_get ?m k)" by blast
  then have "rm_set ?m 10 20 5 = Ret m' \<and> rm_get m' 15 = Ret 5 \<and> rm_get m' 21 = rm_get ?m 21"
    by (auto simp: RangeMap_def)
  with ok show ?thesis by blast
qed

text \<open>
  C12. Updates keep the stored ranges canonical: after any sequence of calls of \<open>set\<close> on a new map that
  all return, \<open>size()\<close> is the number of the keys where the value changes (and the first key), and two
  maps over the same interval that were updated in different ways but agree on every key hold the
  very same ranges.
\<close>

theorem range_map_canonical:
  assumes "l \<le> h" and "rm_sets us (RangeMap l h v) = Ret m"
  shows "rm_size m = card {k. l \<le> k \<and> k \<le> h \<and> (k = l \<or> rm_get m (k - 1) \<noteq> rm_get m k)} \<and>
    (\<forall>us' v' m'. rm_sets us' (RangeMap l h v') = Ret m' \<longrightarrow>
      (\<forall>k. l \<le> k \<longrightarrow> k \<le> h \<longrightarrow> rm_get m' k = rm_get m k) \<longrightarrow> m' = m)"
proof -
  have new: "rm_ok (RangeMap l h w)" "rm_min (RangeMap l h w) = l" "rm_max (RangeMap l h w) = h" for w :: 'a
    using rm.ok_make [OF assms(1), of w] by simp_all
  note m = rm_sets_ok [OF assms(2) new(1), unfolded new]
  have "m' = m" if "rm_sets us' (RangeMap l h v') = Ret m'" "\<forall>k. l \<le> k \<longrightarrow> k \<le> h \<longrightarrow> rm_get m' k = rm_get m k"
    for us' v' m'
    using rm_ok_unique [of m m'] rm_sets_ok [OF that(1) new(1), unfolded new] m that(2) by simp
  then show ?thesis using m rm_size_runs [of m] by blast
qed

theorem range_map_canonical_witness:
  "rm_size (RangeMap 0 9 (0 :: int)) =
      card {k. 0 \<le> k \<and> k \<le> 9 \<and> (k = 0 \<or> rm_get (RangeMap 0 9 (0 :: int)) (k - 1) \<noteq> rm_get (RangeMap 0 9 0) k)} \<and>
    rm_set (RangeMap 0 9 (0 :: int)) 2 3 0 = Ret (RangeMap 0 9 0)"
proof -
  let ?m = "RangeMap 0 9 (0 :: int)"
  have ok: "rm_ok ?m" and b: "rm_min ?m \<le> 2" "(2 :: u64) \<le> 3" "3 \<le> rm_max ?m"
    by (simp_all add: rm_ok_RangeMap) (simp_all add: RangeMap_def)
  from rm.set_range_law [OF ok b, of 0] obtain m' where m': "rm_set ?m 2 3 0 = Ret m'"
    "\<forall>k. rm_min ?m \<le> k \<longrightarrow> k \<le> rm_max ?m \<longrightarrow> rm_get m' k = (if 2 \<le> k \<and> k \<le> 3 then Ret 0 else rm_get ?m k)" by blast
  have "rm_get m' k = rm_get ?m k" if "0 \<le> k" "k \<le> 9" for k
    using m' that rm.get_make [of 0 k 9 "0 :: int"] by (auto simp: RangeMap_def)
  moreover have "rm_sets [] ?m = Ret ?m" "rm_sets [(2, 3, 0)] ?m = Ret m'" using m'(1) by simp_all
  moreover have size: "rm_size ?m = card {k. 0 \<le> k \<and> k \<le> 9 \<and> (k = 0 \<or> rm_get ?m (k - 1) \<noteq> rm_get ?m k)}"
    and same: "rm_sets us' (RangeMap 0 9 v') = Ret n \<Longrightarrow> \<forall>k. 0 \<le> k \<longrightarrow> k \<le> 9 \<longrightarrow> rm_get n k = rm_get ?m k \<Longrightarrow> n = ?m"
    for us' v' n
    using range_map_canonical [of 0 9 "[]" "0 :: int" ?m] by simp_all
  ultimately have "m' = ?m" by blast
  with size m'(1) show ?thesis by simp
qed

text \<open>
  C11. \<open>range_of(key)\<close> returns the maximal interval around the key on which the map is constant:
  the key is inside, every key of the interval has the returned value, and the keys just outside
  (when there are any) have another one.
\<close>

theorem range_map_range_of_maximal:
  assumes "rm_ok m" and "rm_min m \<le> key" and "key \<le> rm_max m"
  shows "\<exists>r. rm_range_of m key = Ret r \<and> low r \<le> key \<and> key \<le> high r \<and>
    (\<forall>k. low r \<le> k \<longrightarrow> k \<le> high r \<longrightarrow> rm_get m k = Ret (rval r)) \<and>
    (low r = rm_min m \<or> rm_get m (low r - 1) \<noteq> Ret (rval r)) \<and>
    (high r = rm_max m \<or> rm_get m (high r + 1) \<noteq> Ret (rval r))"
proof -
  obtain i where i: "i < length (rm_ranges m)" and r: "rm_range_of m key = Ret (node_range m i)"
    and key: "low (node_range m i) \<le> key" "key \<le> high (node_range m i)"
    using rm_range_of_Ret [OF assms] by blast
  note spec = node_range_spec [OF assms(1) i]
  have get: "rm_get m k = Ret x \<Longrightarrow> rm_val m k = x" for k x
    using rm_get_val [OF assms(1), of k] by (auto simp: rm_get_def split: if_splits)
  show ?thesis
    using r key spec assms by (intro exI [of _ "node_range m i"]) (auto simp: rm_get_val dest: get)
qed

theorem range_map_range_of_maximal_witness:
  "\<exists>r. rm_range_of (RangeMap 0 150 (78 :: int)) 149 = Ret r \<and> low r \<le> 149 \<and> 149 \<le> high r \<and>
    rm_get (RangeMap 0 150 78) 149 = Ret (rval r)"
proof -
  have "rm_ok (RangeMap 0 150 (78 :: int))" "rm_min (RangeMap 0 150 (78 :: int)) \<le> 149"
    "149 \<le> rm_max (RangeMap 0 150 (78 :: int))"
    by (simp_all add: rm_ok_RangeMap) (simp_all add: RangeMap_def)
  from range_map_range_of_maximal [OF this] show ?thesis by blast
qed

end
