(* ===== verification/Debugger.thy ===== *)
theory Debugger
  imports Vm_Types Std_Map Range_Map
begin

text \<open>
  The class \<open>Debugger\<close> of \<open>include/odb/server/debugger.hh\<close> and \<open>src/server/debugger.cc\<close>: the
  debugging logic of the server. The state is the record of the private members, the state of the
  machine behind \<open>_vm\<close> included; each method is an action on it. \<open>d_garbage\<close> is the value that
  storage the constructor leaves uninitialised happens to hold (\<open>CallInfos::call_addr\<close> of a fresh
  frame, a fresh \<open>RegInfos\<close>). The log of
  \<open>ODB_SERVER_DB_LOG\<close> is the subject of theory \<open>Debugger_Log\<close>.
\<close>

section \<open>State\<close>

datatype db_state = NOT_STARTED | STOPPED | RUNNING_TOFINISH | RUNNING_BKP | RUNNING_STEP
  | RUNNING_STEP_OVER | RUNNING_STEP_OUT | ERROR | EXIT

record 'v Debugger =
  d_vm :: 'v
  d_infos :: VMInfos
  d_state :: db_state
  d_call_stack :: CallStack
  d_ins_addr :: vm_ptr_t
  d_map_regs :: "(vm_reg_t, RegInfos) std_map"
  d_smap_regs :: "(string, vm_reg_t) std_map"
  d_map_syms :: "(vm_sym_t, SymbolInfos) std_map"
  d_smap_syms :: "(string, vm_sym_t) std_map"
  d_syms_ranges :: "int range_map option"
  d_syms_pos :: "(vm_ptr_t, vm_sym_t) std_map"
  d_breakpts :: "vm_ptr_t set"
  d_step_over_depth :: nat
  d_garbage :: vm_ptr_t

definition SYM_LOAD_SIZE :: vm_size_t where
  "SYM_LOAD_SIZE = 256"

text \<open>The constructor; \<open>infos0\<close> and \<open>garbage\<close> are the uninitialised members.\<close>

definition Debugger_new :: "'v \<Rightarrow> VMInfos \<Rightarrow> vm_ptr_t \<Rightarrow> 'v Debugger" where
  "Debugger_new vm infos0 garbage =
    \<lparr>d_vm = vm, d_infos = infos0, d_state = NOT_STARTED, d_call_stack = [], d_ins_addr = garbage,
     d_map_regs = smap_empty, d_smap_regs = smap_empty, d_map_syms = smap_empty,
     d_smap_syms = smap_empty, d_syms_ranges = None, d_syms_pos = smap_empty, d_breakpts = {},
     d_step_over_depth = unat garbage, d_garbage = garbage\<rparr>"

definition vm_call :: "('v, 'a) act \<Rightarrow> ('v Debugger, 'a) act" where
  "vm_call m = lift_act d_vm (\<lambda>v d. d\<lparr>d_vm := v\<rparr>) m"

definition set_state :: "db_state \<Rightarrow> ('v Debugger, unit) act" where
  "set_state st = modify (\<lambda>d. d\<lparr>d_state := st\<rparr>)"

section \<open>Program flow\<close>

definition on_init :: "'v VMApi \<Rightarrow> ('v Debugger, unit) act" where
  "on_init api = bind_act (gets d_state) (\<lambda>st.
    then_act (assert_act (st = NOT_STARTED)) (
    then_act (set_state RUNNING_TOFINISH) (
    bind_act (vm_call (api_get_vm_infos api)) (\<lambda>infos.
    then_act (modify (\<lambda>d. d\<lparr>d_infos := infos,
        d_syms_ranges := Some (RangeMap 0 (vi_memory_size infos - 1) 0)\<rparr>)) (
    bind_act (vm_call (api_get_update_infos api)) (\<lambda>upd.
    then_act (assert_act (ud_state upd = US_OK)) (
    modify (\<lambda>d. d\<lparr>d_ins_addr := ud_act_addr upd,
      d_call_stack := d_call_stack d @
        [\<lparr>caller_start_addr = ud_act_addr upd, call_addr = d_garbage d\<rparr>]\<rparr>))))))))"

text \<open>The call stack after an instruction: a call records its address and pushes a frame.\<close>

definition track_call_stack :: "UpdateInfos \<Rightarrow> vm_ptr_t \<Rightarrow> ('v Debugger, unit) act" where
  "track_call_stack udp old_addr = bind_act (gets d_call_stack) (\<lambda>cs.
    if ud_state udp = US_CALL_SUB then
      then_act (in_bounds (cs \<noteq> []))
        (modify (\<lambda>d. d\<lparr>d_call_stack := butlast cs @ [(last cs)\<lparr>call_addr := old_addr\<rparr>] @
          [\<lparr>caller_start_addr = d_ins_addr d, call_addr = d_garbage d\<rparr>]\<rparr>))
    else if ud_state udp = US_RET_SUB then
      then_act (assert_act (cs \<noteq> [])) (modify (\<lambda>d. d\<lparr>d_call_stack := butlast cs\<rparr>))
    else ret ())"

text \<open>Whether execution stops here, in the order of the tests of \<open>on_update\<close>.\<close>

definition check_stop :: "UpdateInfos \<Rightarrow> ('v Debugger, unit) act" where
  "check_stop udp = bind_act (gets id) (\<lambda>d.
    if d_state d = RUNNING_TOFINISH then ret ()
    else if d_state d = RUNNING_STEP then set_state STOPPED
    else if d_state d = RUNNING_STEP_OVER \<and> d_step_over_depth d \<ge> length (d_call_stack d)
      then set_state STOPPED
    else if d_state d = RUNNING_STEP_OUT \<and> ud_state udp = US_RET_SUB then set_state STOPPED
    else if d_ins_addr d \<in> d_breakpts d then set_state STOPPED
    else ret ())"

definition on_update :: "'v VMApi \<Rightarrow> ('v Debugger, unit) act" where
  "on_update api = bind_act (gets d_state) (\<lambda>st.
    then_act (assert_act (st \<noteq> NOT_STARTED \<and> st \<noteq> STOPPED \<and> st \<noteq> ERROR \<and> st \<noteq> EXIT)) (
    bind_act (vm_call (api_get_update_infos api)) (\<lambda>udp.
    if ud_state udp = US_ERROR then set_state ERROR
    else if ud_state udp = US_EXIT then set_state EXIT
    else bind_act (gets d_ins_addr) (\<lambda>old_addr.
      then_act (modify (\<lambda>d. d\<lparr>d_ins_addr := ud_act_addr udp\<rparr>)) (
      then_act (track_call_stack udp old_addr) (check_stop udp))))))"

definition resume :: "ResumeType \<Rightarrow> ('v Debugger, unit) act" where
  "resume type = bind_act (gets d_state) (\<lambda>st.
    if st = EXIT \<or> st = ERROR
    then throw ''cannot resume execution: program already finished''
    else if type = ToFinish then set_state RUNNING_TOFINISH
    else if type = Continue then set_state RUNNING_BKP
    else if type = Step then set_state RUNNING_STEP
    else if type = StepOver then
      then_act (set_state RUNNING_STEP_OVER)
        (modify (\<lambda>d. d\<lparr>d_step_over_depth := length (d_call_stack d)\<rparr>))
    else if type = StepOut then set_state RUNNING_STEP_OUT
    else ret ())"

definition stop :: "('v Debugger, unit) act" where
  "stop = bind_act (gets d_state) (\<lambda>st.
    then_act (assert_act (st \<noteq> NOT_STARTED)) (
    if st = EXIT \<or> st = ERROR then throw ''cannot stop execution: program already finished''
    else if st = STOPPED then throw ''cannot stop execution: program already stopped''
    else set_state STOPPED))"

section \<open>Breakpoints\<close>

definition add_breakpoint :: "vm_ptr_t \<Rightarrow> ('v Debugger, unit) act" where
  "add_breakpoint addr = bind_act (gets id) (\<lambda>d.
    if addr \<ge> vi_memory_size (d_infos d)
    then throw ''cannot add breakpoint: address outside of memory range''
    else if addr \<in> d_breakpts d
    then throw ''cannot add breakpoint: There is already one at this address''
    else modify (\<lambda>d. d\<lparr>d_breakpts := insert addr (d_breakpts d)\<rparr>))"

definition has_breakpoint :: "vm_ptr_t \<Rightarrow> ('v Debugger, bool) act" where
  "has_breakpoint addr = bind_act (gets id) (\<lambda>d.
    if addr \<ge> vi_memory_size (d_infos d)
    then throw ''cannot get breakpoint: address outside of memory range''
    else ret (addr \<in> d_breakpts d))"

definition del_breakpoint :: "vm_ptr_t \<Rightarrow> ('v Debugger, unit) act" where
  "del_breakpoint addr = bind_act (gets id) (\<lambda>d.
    if addr \<ge> vi_memory_size (d_infos d)
    then throw ''cannot delete breakpoint: address outside of memory range''
    else if addr \<notin> d_breakpts d
    then throw ''cannot delete breakpoint: there is none at this address''
    else modify (\<lambda>d. d\<lparr>d_breakpts := d_breakpts d - {addr}\<rparr>))"

section \<open>Registers\<close>

definition fresh_reg_infos :: "vm_ptr_t \<Rightarrow> RegInfos" where
  "fresh_reg_infos g = \<lparr>ri_idx = ucast g, ri_name = [], ri_size = g, ri_kind = RegKind_raw (ucast g),
     ri_val = []\<rparr>"

definition load_reg :: "'v VMApi \<Rightarrow> vm_reg_t \<Rightarrow> ('v Debugger, unit) act" where
  "load_reg api rid = bind_act (gets (\<lambda>d. (smap_find (d_map_regs d) rid, d_garbage d))) (\<lambda>(old, g).
    if old \<noteq> None then ret ()
    else bind_act (vm_call (api_get_reg api rid (fresh_reg_infos g) False)) (\<lambda>infos.
      let infos' = infos\<lparr>ri_val := vec_resize (unat (ri_size infos)) 0 (ri_val infos)\<rparr> in
      modify (\<lambda>d. d\<lparr>d_map_regs := smap_emplace rid infos' (d_map_regs d),
        d_smap_regs := smap_emplace (ri_name infos') rid (d_smap_regs d)\<rparr>)))"

text \<open>\<open>_map_regs.find(idx)->second\<close>: dereferencing the end iterator is out of bounds.\<close>

definition reg_entry :: "vm_reg_t \<Rightarrow> ('v Debugger, RegInfos) act" where
  "reg_entry idx = bind_act (gets (\<lambda>d. smap_find (d_map_regs d) idx))
    (\<lambda>e. case e of None \<Rightarrow> abort Out_of_bounds | Some infos \<Rightarrow> ret infos)"

definition get_reg :: "'v VMApi \<Rightarrow> vm_reg_t \<Rightarrow> ('v Debugger, bytes) act" where
  "get_reg api idx = then_act (load_reg api idx) (bind_act (reg_entry idx) (\<lambda>infos.
    bind_act (vm_call (api_get_reg api idx infos True)) (\<lambda>infos'.
    then_act (modify (\<lambda>d. d\<lparr>d_map_regs := smap_assign idx infos' (d_map_regs d)\<rparr>)) (
    then_act (in_bounds (unat (ri_size infos') \<le> length (ri_val infos')))
      (ret (take (unat (ri_size infos')) (ri_val infos')))))))"

definition set_reg :: "'v VMApi \<Rightarrow> vm_reg_t \<Rightarrow> bytes \<Rightarrow> ('v Debugger, unit) act" where
  "set_reg api idx new_val = vm_call (api_set_reg api idx new_val)"

definition get_reg_infos :: "'v VMApi \<Rightarrow> vm_reg_t \<Rightarrow> ('v Debugger, RegInfos) act" where
  "get_reg_infos api idx = then_act (load_reg api idx) (reg_entry idx)"

definition find_reg_id :: "'v VMApi \<Rightarrow> string \<Rightarrow> ('v Debugger, vm_reg_t) act" where
  "find_reg_id api name = bind_act (gets (\<lambda>d. smap_find (d_smap_regs d) name)) (\<lambda>e. case e of
      Some rid \<Rightarrow> ret rid
    | None \<Rightarrow> bind_act (vm_call (api_find_reg_id api name)) (\<lambda>rid.
        then_act (load_reg api rid) (ret rid)))"

definition list_regs :: "VMInfos \<Rightarrow> RegKind \<Rightarrow> vm_reg_t list outcome" where
  "list_regs infos kind =
    (if kind = general then Ret (vi_regs_general infos)
     else if kind = program_counter then Ret (vi_regs_program_counter infos)
     else if kind = stack_pointer then Ret (vi_regs_stack_pointer infos)
     else if kind = base_pointer then Ret (vi_regs_base_pointer infos)
     else if kind = flags then Ret (vi_regs_flags infos)
     else Throw ''list_regs: invalid reg kind'')"

section \<open>Memory and code\<close>

definition read_mem :: "'v VMApi \<Rightarrow> vm_ptr_t \<Rightarrow> vm_size_t \<Rightarrow> ('v Debugger, bytes) act" where
  "read_mem api addr sz = vm_call (api_read_mem api addr sz)"

definition write_mem :: "'v VMApi \<Rightarrow> vm_ptr_t \<Rightarrow> vm_size_t \<Rightarrow> bytes \<Rightarrow> ('v Debugger, unit) act" where
  "write_mem api addr sz buf = vm_call (api_write_mem api addr sz buf)"

definition get_code_text :: "'v VMApi \<Rightarrow> vm_ptr_t \<Rightarrow> ('v Debugger, string \<times> vm_size_t) act" where
  "get_code_text api addr = vm_call (api_get_code_text api addr)"

section \<open>Symbols\<close>

definition load_symbol :: "'v VMApi \<Rightarrow> vm_sym_t \<Rightarrow> ('v Debugger, unit) act" where
  "load_symbol api sid = bind_act (gets (\<lambda>d. smap_find (d_map_syms d) sid)) (\<lambda>e.
    if e \<noteq> None then ret ()
    else bind_act (vm_call (api_get_symb_infos api sid)) (\<lambda>infos.
      modify (\<lambda>d. d\<lparr>d_map_syms := smap_emplace sid infos (d_map_syms d),
        d_smap_syms := smap_emplace (si_name infos) sid (d_smap_syms d),
        d_syms_pos := smap_emplace (si_addr infos) sid (d_syms_pos d)\<rparr>)))"

definition syms_range_of :: "vm_ptr_t \<Rightarrow> ('v Debugger, int krange) act" where
  "syms_range_of key = bind_act (gets d_syms_ranges) (\<lambda>r. case r of
      None \<Rightarrow> abort Out_of_bounds
    | Some m \<Rightarrow> call_act (rm_range_of m key))"

definition syms_set_loaded :: "vm_ptr_t \<Rightarrow> vm_ptr_t \<Rightarrow> ('v Debugger, unit) act" where
  "syms_set_loaded lo hi = bind_act (gets d_syms_ranges) (\<lambda>r. case r of
      None \<Rightarrow> abort Out_of_bounds
    | Some m \<Rightarrow> bind_act (call_act (rm_set m lo hi 1))
        (\<lambda>m'. modify (\<lambda>d. d\<lparr>d_syms_ranges := Some m'\<rparr>)))"

text \<open>The end of \<open>_preload_symbols\<close>: ask the machine, mark the range, load each symbol.\<close>

definition load_symbols_in :: "'v VMApi \<Rightarrow> vm_ptr_t \<Rightarrow> vm_ptr_t \<Rightarrow> ('v Debugger, unit) act" where
  "load_symbols_in api addr end_addr =
    bind_act (vm_call (api_get_symbols api addr (end_addr - addr + 1))) (\<lambda>syms.
    then_act (syms_set_loaded addr end_addr) (iter_act (load_symbol api) syms))"

definition preload_high :: "'v VMApi \<Rightarrow> vm_ptr_t \<Rightarrow> vm_ptr_t \<Rightarrow> ('v Debugger, unit) act" where
  "preload_high api addr end_addr = bind_act (syms_range_of end_addr) (\<lambda>high_range.
    if rval high_range = 1 then
      (let end' = low high_range - 1 in
       if low high_range = 0 \<or> end' < addr then ret () else load_symbols_in api addr end')
    else load_symbols_in api addr end_addr)"

definition preload_symbols :: "'v VMApi \<Rightarrow> vm_ptr_t \<Rightarrow> vm_size_t \<Rightarrow> ('v Debugger, unit) act" where
  "preload_symbols api addr sz = bind_act (gets (\<lambda>d. vi_memory_size (d_infos d))) (\<lambda>memory_size.
    let sz' = max sz SYM_LOAD_SIZE;
        end_addr = min (addr + sz' - 1) (memory_size - 1)
    in bind_act (syms_range_of addr) (\<lambda>low_range.
       if rval low_range = 1 then
         (let addr' = high low_range + 1 in
          if addr' = 0 \<or> addr' > end_addr then ret () else preload_high api addr' end_addr)
       else preload_high api addr end_addr))"

definition preload_symbols_around :: "'v VMApi \<Rightarrow> vm_ptr_t \<Rightarrow> ('v Debugger, unit) act" where
  "preload_symbols_around api addr =
    preload_symbols api (if addr < SYM_LOAD_SIZE div 2 then 0 else addr - SYM_LOAD_SIZE div 2)
      SYM_LOAD_SIZE"

definition get_symbol_at :: "'v VMApi \<Rightarrow> vm_ptr_t \<Rightarrow> ('v Debugger, vm_sym_t) act" where
  "get_symbol_at api addr = then_act (preload_symbols_around api addr)
    (bind_act (gets (\<lambda>d. smap_find (d_syms_pos d) addr))
      (\<lambda>e. ret (case e of None \<Rightarrow> VM_SYM_NULL | Some sid \<Rightarrow> sid)))"

definition get_symbols :: "'v VMApi \<Rightarrow> vm_ptr_t \<Rightarrow> vm_size_t \<Rightarrow> ('v Debugger, vm_sym_t list) act" where
  "get_symbols api addr sz = then_act (preload_symbols api addr sz)
    (gets (\<lambda>d. smap_slice addr (addr + sz) (d_syms_pos d)))"

definition get_symbol_infos :: "'v VMApi \<Rightarrow> vm_sym_t \<Rightarrow> ('v Debugger, SymbolInfos) act" where
  "get_symbol_infos api idx = then_act (load_symbol api idx)
    (bind_act (gets (\<lambda>d. smap_find (d_map_syms d) idx))
      (\<lambda>e. case e of None \<Rightarrow> abort Assert_failed | Some infos \<Rightarrow> ret infos))"

definition find_sym_id :: "'v VMApi \<Rightarrow> string \<Rightarrow> ('v Debugger, vm_sym_t) act" where
  "find_sym_id api name = bind_act (vm_call (api_find_sym_id api name)) (\<lambda>sid.
    then_act (load_symbol api sid) (ret sid))"

end
