(* ===== verification/Debugger_Flow.thy ===== *)
theory Debugger_Flow
  imports Debugger
begin

text \<open>
  The program flow of the debugger: what \<open>resume\<close> followed by the machine's instructions (each
  reported to \<open>on_update\<close>) does. A run is the sequence of the update reports the machine gave; the
  machine may change its own state in any way between two calls. The abstract specification
  \<open>stops_at\<close> says, from the kind of the resume and the reports alone, where execution stops.
\<close>

section \<open>Runs\<close>

definition running :: "db_state \<Rightarrow> bool" where
  "running st \<longleftrightarrow> st \<notin> {NOT_STARTED, STOPPED, ERROR, EXIT}"

text \<open>
  \<open>db_run api d us d'\<close>: starting in \<open>d\<close>, the machine executes one instruction after the other while
  the debugger is running, \<open>on_update\<close> is called after each and sees the reports \<open>us\<close>.
\<close>

inductive db_run :: "'v VMApi \<Rightarrow> 'v Debugger \<Rightarrow> UpdateInfos list \<Rightarrow> 'v Debugger \<Rightarrow> bool"
  for api :: "'v VMApi" where
  db_run_nil: "db_run api d [] d"
| db_run_snoc: "db_run api d us d1 \<Longrightarrow> running (d_state d1) \<Longrightarrow>
    api_get_update_infos api v = (Ret u, v') \<Longrightarrow>
    on_update api (d1\<lparr>d_vm := v\<rparr>) = (Ret (), d2) \<Longrightarrow> db_run api d (us @ [u]) d2"

section \<open>The abstract specification\<close>

text \<open>The call stack and the execution point after a report.\<close>

fun spec_stack :: "vm_ptr_t \<Rightarrow> vm_ptr_t \<Rightarrow> UpdateInfos \<Rightarrow> CallStack \<Rightarrow> CallStack" where
  "spec_stack g old u cs =
    (case ud_state u of
       US_CALL_SUB \<Rightarrow> butlast cs @ [(last cs)\<lparr>call_addr := old\<rparr>,
         \<lparr>caller_start_addr = ud_act_addr u, call_addr = g\<rparr>]
     | US_RET_SUB \<Rightarrow> butlast cs
     | _ \<Rightarrow> cs)"

fun spec_flow :: "vm_ptr_t \<Rightarrow> UpdateInfos \<Rightarrow> vm_ptr_t \<times> CallStack \<Rightarrow> vm_ptr_t \<times> CallStack" where
  "spec_flow g u (addr, cs) =
    (if ud_state u = US_ERROR \<or> ud_state u = US_EXIT then (addr, cs)
     else (ud_act_addr u, spec_stack g addr u cs))"

text \<open>The depth of the call stack after the reports, from its depth before them.\<close>

fun depth_after :: "UpdateInfos \<Rightarrow> nat \<Rightarrow> nat" where
  "depth_after u n = (case ud_state u of US_CALL_SUB \<Rightarrow> n + 1 | US_RET_SUB \<Rightarrow> n - 1 | _ \<Rightarrow> n)"

text \<open>Where a resume stops: at a nonempty sequence of reports, by the last of them.\<close>

definition stops_at :: "ResumeType \<Rightarrow> vm_ptr_t set \<Rightarrow> nat \<Rightarrow> UpdateInfos list \<Rightarrow> bool" where
  "stops_at type bps n us \<longleftrightarrow>
    (case type of
       ToFinish \<Rightarrow> False
     | Step \<Rightarrow> True
     | StepOver \<Rightarrow> fold depth_after us n \<le> n \<or> ud_act_addr (last us) \<in> bps
     | StepOut \<Rightarrow> ud_state (last us) = US_RET_SUB \<or> ud_act_addr (last us) \<in> bps
     | _ \<Rightarrow> ud_act_addr (last us) \<in> bps)"

definition mode_of :: "ResumeType \<Rightarrow> db_state" where
  "mode_of type = (case type of
       ToFinish \<Rightarrow> RUNNING_TOFINISH
     | Continue \<Rightarrow> RUNNING_BKP
     | Step \<Rightarrow> RUNNING_STEP
     | StepOver \<Rightarrow> RUNNING_STEP_OVER
     | StepOut \<Rightarrow> RUNNING_STEP_OUT
     | ResumeType_raw _ \<Rightarrow> STOPPED)"

definition spec_state :: "ResumeType \<Rightarrow> vm_ptr_t set \<Rightarrow> nat \<Rightarrow> UpdateInfos list \<Rightarrow> db_state" where
  "spec_state type bps n us =
    (if us = [] then mode_of type
     else case ud_state (last us) of
       US_ERROR \<Rightarrow> ERROR
     | US_EXIT \<Rightarrow> EXIT
     | _ \<Rightarrow> if stops_at type bps n us then STOPPED else mode_of type)"

section \<open>One report\<close>

lemma on_update_error:
  assumes "running (d_state d)" "api_get_update_infos api (d_vm d) = (Ret u, v')"
    "ud_state u = US_ERROR \<or> ud_state u = US_EXIT"
  shows "on_update api d = (Ret (),
    d\<lparr>d_vm := v', d_state := (if ud_state u = US_ERROR then ERROR else EXIT)\<rparr>)"
  using assms
  by (auto simp: on_update_def running_def vm_call_def lift_act_def bind_act_def set_state_def)

lemma on_update_run:
  assumes "running (d_state d)" "api_get_update_infos api (d_vm d) = (Ret u, v')"
    "ud_state u \<noteq> US_ERROR" "ud_state u \<noteq> US_EXIT"
  shows "on_update api d =
    then_act (track_call_stack u (d_ins_addr d)) (check_stop u)
      (d\<lparr>d_vm := v', d_ins_addr := ud_act_addr u\<rparr>)"
  using assms
  by (auto simp: on_update_def running_def vm_call_def lift_act_def bind_act_def then_act_def)

lemma track_call_stack_run:
  "d_call_stack d \<noteq> [] \<Longrightarrow> track_call_stack u old d =
    (Ret (), if ud_state u = US_CALL_SUB \<or> ud_state u = US_RET_SUB then
       d\<lparr>d_call_stack := spec_stack (d_garbage d) old (u\<lparr>ud_act_addr := d_ins_addr d\<rparr>)
          (d_call_stack d)\<rparr> else d)"
  by (cases "ud_state u") (auto simp: track_call_stack_def)

text \<open>On an empty call stack a return fails the assertion and a call reads past the vector.\<close>

lemma track_call_stack_empty:
  "d_call_stack d = [] \<Longrightarrow> track_call_stack u old d =
    (case ud_state u of
       US_CALL_SUB \<Rightarrow> (Abort Out_of_bounds, d)
     | US_RET_SUB \<Rightarrow> (Abort Assert_failed, d)
     | _ \<Rightarrow> (Ret (), d))"
  by (cases "ud_state u") (auto simp: track_call_stack_def)

lemma length_spec_stack:
  "cs \<noteq> [] \<Longrightarrow> length (spec_stack g old u cs) = depth_after u (length cs)"
  by (cases "ud_state u") auto

definition stop_now :: "UpdateInfos \<Rightarrow> 'v Debugger \<Rightarrow> bool" where
  "stop_now u d \<longleftrightarrow> d_state d = RUNNING_STEP \<or>
    d_state d = RUNNING_STEP_OVER \<and> length (d_call_stack d) \<le> d_step_over_depth d \<or>
    d_state d = RUNNING_STEP_OUT \<and> ud_state u = US_RET_SUB \<or>
    d_state d \<noteq> RUNNING_TOFINISH \<and> d_ins_addr d \<in> d_breakpts d"

lemma check_stop_run:
  "check_stop u d = (Ret (), if stop_now u d then d\<lparr>d_state := STOPPED\<rparr> else d)"
  by (auto simp: check_stop_def stop_now_def set_state_def)

lemma spec_stack_addr [simp]:
  "spec_stack g old (u\<lparr>ud_act_addr := ud_act_addr u\<rparr>) cs = spec_stack g old u cs"
  by simp

lemma on_update_Ret:
  assumes "running (d_state d)" "api_get_update_infos api (d_vm d) = (Ret u, v')"
    "on_update api d = (Ret (), d')"
  shows "(d_ins_addr d', d_call_stack d') = spec_flow (d_garbage d) u (d_ins_addr d, d_call_stack d)"
    and "length (d_call_stack d') = depth_after u (length (d_call_stack d))"
    and "d_state d' = (case ud_state u of US_ERROR \<Rightarrow> ERROR | US_EXIT \<Rightarrow> EXIT
      | _ \<Rightarrow> if stop_now u (d'\<lparr>d_state := d_state d\<rparr>) then STOPPED else d_state d)"
    and "d_breakpts d' = d_breakpts d" "d_garbage d' = d_garbage d"
    and "d_step_over_depth d' = d_step_over_depth d"
proof -
  let ?e = "ud_state u = US_ERROR \<or> ud_state u = US_EXIT"
  have empty: "ud_state u = US_OK" if "\<not> ?e" "d_call_stack d = []"
    using assms that
    by (cases "ud_state u") (simp_all add: on_update_run then_act_def bind_act_def track_call_stack_empty)
  then have run: "d' = (if ?e then d\<lparr>d_vm := v', d_state := (if ud_state u = US_ERROR then ERROR else EXIT)\<rparr>
    else let d1 = d\<lparr>d_vm := v', d_ins_addr := ud_act_addr u,
        d_call_stack := spec_stack (d_garbage d) (d_ins_addr d) u (d_call_stack d)\<rparr>
      in if stop_now u d1 then d1\<lparr>d_state := STOPPED\<rparr> else d1)"
  proof (cases ?e)
    case True
    then show ?thesis using assms on_update_error [OF assms(1,2)] by simp
  next
    case False
    have "track_call_stack u (d_ins_addr d) (d\<lparr>d_vm := v', d_ins_addr := ud_act_addr u\<rparr>) =
      (Ret (), d\<lparr>d_vm := v', d_ins_addr := ud_act_addr u,
        d_call_stack := spec_stack (d_garbage d) (d_ins_addr d) u (d_call_stack d)\<rparr>)"
      using empty [OF False] False
      by (cases "d_call_stack d = []"; cases "ud_state u")
        (simp_all add: track_call_stack_run track_call_stack_empty)
    then show ?thesis
      using assms(3) False on_update_run [OF assms(1,2)]
      by (simp add: then_act_Ret check_stop_run Let_def split: if_splits)
  qed
  have len: "length (spec_stack (d_garbage d) (d_ins_addr d) u (d_call_stack d)) =
    depth_after u (length (d_call_stack d))" if "\<not> ?e"
    using empty [OF that] by (cases "d_call_stack d = []"; cases "ud_state u") auto
  show "(d_ins_addr d', d_call_stack d') = spec_flow (d_garbage d) u (d_ins_addr d, d_call_stack d)"
    unfolding run by (simp add: Let_def)
  show "length (d_call_stack d') = depth_after u (length (d_call_stack d))"
    unfolding run using len by (auto simp: Let_def simp del: spec_stack.simps)
  show "d_state d' = (case ud_state u of US_ERROR \<Rightarrow> ERROR | US_EXIT \<Rightarrow> EXIT
      | _ \<Rightarrow> if stop_now u (d'\<lparr>d_state := d_state d\<rparr>) then STOPPED else d_state d)"
    unfolding run
    by (cases "ud_state u") (simp_all add: Let_def stop_now_def del: spec_stack.simps)
  show "d_breakpts d' = d_breakpts d" "d_garbage d' = d_garbage d"
    "d_step_over_depth d' = d_step_over_depth d"
    unfolding run by (simp_all add: Let_def)
qed


declare spec_stack.simps [simp del] depth_after.simps [simp del]

lemma run_step_facts:
  assumes "running (d_state d)" "api_get_update_infos api v = (Ret u, v')"
    "on_update api (d\<lparr>d_vm := v\<rparr>) = (Ret (), d')"
  shows "(d_ins_addr d', d_call_stack d') = spec_flow (d_garbage d) u (d_ins_addr d, d_call_stack d)"
    and "length (d_call_stack d') = depth_after u (length (d_call_stack d))"
    and "d_state d' = (case ud_state u of US_ERROR \<Rightarrow> ERROR | US_EXIT \<Rightarrow> EXIT
      | _ \<Rightarrow> if stop_now u (d'\<lparr>d_state := d_state d\<rparr>) then STOPPED else d_state d)"
    and "d_breakpts d' = d_breakpts d \<and> d_garbage d' = d_garbage d \<and>
      d_step_over_depth d' = d_step_over_depth d"
  using on_update_Ret [of "d\<lparr>d_vm := v\<rparr>" api u v' d'] assms
  by (simp_all del: spec_flow.simps cong: UpdateState.case_cong)

section \<open>Runs follow the specification\<close>

lemma spec_state_snoc:
  "spec_state type bps n (us @ [u]) = (case ud_state u of US_ERROR \<Rightarrow> ERROR | US_EXIT \<Rightarrow> EXIT
     | _ \<Rightarrow> if stops_at type bps n (us @ [u]) then STOPPED else mode_of type)"
  by (simp add: spec_state_def)

lemma running_mode [simp]:
  "running NOT_STARTED = False" "running STOPPED = False" "running ERROR = False"
  "running EXIT = False" "running RUNNING_TOFINISH" "running RUNNING_BKP" "running RUNNING_STEP"
  "running RUNNING_STEP_OVER" "running RUNNING_STEP_OUT"
  by (simp_all add: running_def)

lemma spec_state_running: "running (spec_state type bps n us) \<Longrightarrow> spec_state type bps n us = mode_of type"
  by (auto simp: spec_state_def split: UpdateState.splits if_splits)

lemma spec_state_running_last:
  "running (spec_state type bps n us) \<Longrightarrow> us \<noteq> [] \<Longrightarrow>
    \<not> stops_at type bps n us \<and> ud_state (last us) \<noteq> US_ERROR \<and> ud_state (last us) \<noteq> US_EXIT"
  by (auto simp: spec_state_def split: UpdateState.splits if_splits)

lemma db_run_frame:
  "db_run api d us d' \<Longrightarrow> d_breakpts d' = d_breakpts d \<and> d_garbage d' = d_garbage d \<and>
    d_step_over_depth d' = d_step_over_depth d"
proof (induction rule: db_run.induct)
  case (db_run_snoc d us d1 v u v' d2)
  then show ?case using run_step_facts(4) [OF db_run_snoc.hyps(2-4)] by simp
qed simp

lemma db_run_flow:
  "db_run api d us d' \<Longrightarrow>
    (d_ins_addr d', d_call_stack d') = fold (spec_flow (d_garbage d)) us (d_ins_addr d, d_call_stack d)
    \<and> length (d_call_stack d') = fold depth_after us (length (d_call_stack d))"
proof (induction rule: db_run.induct)
  case (db_run_snoc d us d1 v u v' d2)
  note upd = run_step_facts [OF db_run_snoc.hyps(2-4)]
  show ?case
    using db_run_snoc.IH upd(1,2) db_run_frame [OF db_run_snoc.hyps(1)]
    by (simp del: spec_flow.simps)
qed simp

lemma stop_now_stops_at:
  assumes "d_state d = mode_of type" "d_breakpts d = bps" "running (mode_of type)"
    "d_ins_addr d = ud_act_addr u"
    "type = StepOver \<Longrightarrow> d_step_over_depth d = n" "length (d_call_stack d) = fold depth_after (us @ [u]) n"
  shows "stop_now u d = stops_at type bps n (us @ [u])"
  using assms by (cases type) (auto simp: stop_now_def stops_at_def mode_of_def)

lemma db_run_state:
  assumes "db_run api d us d'" "d_state d = mode_of type" "running (mode_of type)"
    "type = StepOver \<Longrightarrow> d_step_over_depth d = length (d_call_stack d)"
  shows "d_state d' = spec_state type (d_breakpts d) (length (d_call_stack d)) us"
  using assms
proof (induction rule: db_run.induct)
  case (db_run_nil d)
  then show ?case by (simp add: spec_state_def)
next
  case (db_run_snoc d us d1 v u v' d2)
  let ?n = "length (d_call_stack d)"
  note upd = run_step_facts [OF db_run_snoc.hyps(2-4)]
  have run2: "db_run api d (us @ [u]) d2" using db_run_snoc.hyps by (rule db_run.db_run_snoc)
  have d1: "d_state d1 = mode_of type"
    using db_run_snoc.IH db_run_snoc.hyps(2) db_run_snoc.prems spec_state_running by metis
  have addr: "d_ins_addr d2 = ud_act_addr u" if "ud_state u \<noteq> US_ERROR" "ud_state u \<noteq> US_EXIT"
    using upd(1) that by simp
  have "stop_now u (d2\<lparr>d_state := d_state d1\<rparr>) = stops_at type (d_breakpts d) ?n (us @ [u])"
    if "ud_state u \<noteq> US_ERROR" "ud_state u \<noteq> US_EXIT"
    using d1 db_run_snoc.prems addr [OF that] db_run_frame [OF run2] db_run_flow [OF run2]
    by (intro stop_now_stops_at) auto
  with d1 show ?case
    unfolding spec_state_snoc upd(3) by (cases "ud_state u") simp_all
qed

lemma db_run_prefix:
  "db_run api d us d' \<Longrightarrow> k < length us \<Longrightarrow> \<exists>d1. db_run api d (take k us) d1 \<and> running (d_state d1)"
proof (induction rule: db_run.induct)
  case (db_run_snoc d us d1 v u v' d2)
  then show ?case by (cases "k = length us") (auto simp: less_Suc_eq)
qed simp


lemma resume_Ret:
  assumes "resume type d0 = (Ret (), d)" "\<And>b. type \<noteq> ResumeType_raw b"
  shows "d_state d = mode_of type" "running (mode_of type)"
    "type = StepOver \<Longrightarrow> d_step_over_depth d = length (d_call_stack d0)"
    "d_call_stack d = d_call_stack d0" "d_breakpts d = d_breakpts d0" "d_ins_addr d = d_ins_addr d0"
    "d_garbage d = d_garbage d0"
  using assms by (cases type; auto simp: resume_def set_state_def mode_of_def split: if_splits)+

lemma on_update_progress:
  assumes "running (d_state d)" "d_call_stack d \<noteq> []" "api_get_update_infos api (d_vm d) = (Ret u, v')"
  shows "\<exists>d'. on_update api d = (Ret (), d')"
proof (cases "ud_state u = US_ERROR \<or> ud_state u = US_EXIT")
  case True
  then show ?thesis using on_update_error [OF assms(1,3)] by blast
next
  case False
  then show ?thesis
    using assms on_update_run [OF assms(1,3)] by (simp add: then_act_def bind_act_def track_call_stack_run check_stop_run)
qed

section \<open>A scripted machine\<close>

definition script_infos :: VMInfos where
  "script_infos = \<lparr>vi_name = ''script'', vi_regs_count = 0, vi_regs_general = [],
    vi_regs_program_counter = [], vi_regs_stack_pointer = [], vi_regs_base_pointer = [],
    vi_regs_flags = [], vi_memory_size = 64, vi_symbols_count = 0, vi_pointer_size = 4,
    vi_integer_size = 4, vi_use_opcode = False\<rparr>"

text \<open>A machine whose state is the list of the reports it will give; its memory has
  64 cells and it answers nothing else.\<close>

definition script_vm :: "UpdateInfos list VMApi" where
  "script_vm = \<lparr>api_get_vm_infos = ret script_infos,
    api_get_update_infos = (\<lambda>us. case us of [] \<Rightarrow> (Throw ''end of script'', []) | u # us' \<Rightarrow> (Ret u, us')),
    api_get_reg = (\<lambda>_ _ _. throw ''none''), api_set_reg = (\<lambda>_ _. throw ''none''),
    api_find_reg_id = (\<lambda>_. throw ''none''), api_read_mem = (\<lambda>_ _. throw ''none''),
    api_write_mem = (\<lambda>_ _ _. throw ''none''), api_get_symbols = (\<lambda>_ _. throw ''none''),
    api_get_symb_infos = (\<lambda>_. throw ''none''), api_find_sym_id = (\<lambda>_. throw ''none''),
    api_get_code_text = (\<lambda>_. throw ''none'')\<rparr>"

definition script_debugger :: "UpdateInfos list Debugger" where
  "script_debugger = (Debugger_new [] script_infos 0)\<lparr>d_state := STOPPED, d_ins_addr := 0,
    d_call_stack := [\<lparr>caller_start_addr = 0, call_addr = 0\<rparr>]\<rparr>"

definition call_then_return :: "UpdateInfos list" where
  "call_then_return = [\<lparr>ud_state = US_CALL_SUB, ud_act_addr = 10\<rparr>,
    \<lparr>ud_state = US_OK, ud_act_addr = 11\<rparr>, \<lparr>ud_state = US_RET_SUB, ud_act_addr = 1\<rparr>]"

definition call_return :: "UpdateInfos list" where
  "call_return = [\<lparr>ud_state = US_CALL_SUB, ud_act_addr = 10\<rparr>, \<lparr>ud_state = US_RET_SUB, ud_act_addr = 1\<rparr>]"

text \<open>The debugger after the reports of a script, each seen by one call of \<open>on_update\<close>.\<close>

fun script_run :: "UpdateInfos list \<Rightarrow> UpdateInfos list Debugger \<Rightarrow> UpdateInfos list Debugger" where
  "script_run us d = foldl (\<lambda>d u. snd (on_update script_vm (d\<lparr>d_vm := [u]\<rparr>))) d us"

definition script_alive :: "UpdateInfos list \<Rightarrow> UpdateInfos list Debugger \<Rightarrow> bool" where
  "script_alive us d \<longleftrightarrow> list_all (\<lambda>k. running (d_state (script_run (take k us) d)) \<and>
    d_call_stack (script_run (take k us) d) \<noteq> []) [0..<length us]"

lemma script_db_run:
  assumes "script_alive us d"
  shows "db_run script_vm d us (script_run us d)"
  using assms
proof (induction us rule: rev_induct)
  case Nil
  show ?case by (simp add: db_run_nil)
next
  case (snoc u us)
  let ?d = "script_run us d"
  have run: "running (d_state ?d)" "d_call_stack ?d \<noteq> []"
    using snoc.prems by (auto simp: script_alive_def)
  have vm: "api_get_update_infos script_vm [u] = (Ret u, [])" by (simp add: script_vm_def)
  have "on_update script_vm (?d\<lparr>d_vm := [u]\<rparr>) = (Ret (), script_run (us @ [u]) d)"
    using on_update_progress [of "?d\<lparr>d_vm := [u]\<rparr>" script_vm u "[]"] run vm by auto
  moreover have "db_run script_vm d us ?d"
    using snoc.prems by (intro snoc.IH) (auto simp: script_alive_def list_all_iff)
  ultimately show ?case using run(1) vm by (rule db_run_snoc [rotated 3])
qed

section \<open>Properties\<close>

text \<open>
  C1. After \<open>resume(type)\<close>, execution follows the specification of the kind of resume: the debugger
  ignores breakpoints (to finish), stops at the first breakpoint (continue), after one instruction
  (step), at the first point where the call stack is no deeper than at the start or on a breakpoint
  (step over), at the first return or breakpoint (step out), and in the error or exit state when
  the machine reports it. Execution point and call stack are those the reports imply, and no
  earlier report was a stopping point.
\<close>

theorem resume_run_spec:
  assumes "resume type d0 = (Ret (), d)" "\<forall>b. type \<noteq> ResumeType_raw b"
    and "db_run api d us d'"
  shows "d_state d' = spec_state type (d_breakpts d0) (length (d_call_stack d0)) us \<and>
    (d_ins_addr d', d_call_stack d') =
      fold (spec_flow (d_garbage d0)) us (d_ins_addr d0, d_call_stack d0) \<and>
    length (d_call_stack d') = fold depth_after us (length (d_call_stack d0)) \<and>
    (\<forall>k. 0 < k \<longrightarrow> k < length us \<longrightarrow>
      \<not> stops_at type (d_breakpts d0) (length (d_call_stack d0)) (take k us))"
proof (intro conjI)
  note res = resume_Ret [OF assms(1)]
  have type: "\<And>b. type \<noteq> ResumeType_raw b" using assms(2) by simp
  have state: "d_state d1 = spec_state type (d_breakpts d0) (length (d_call_stack d0)) ws"
    if "db_run api d ws d1" for ws d1
    using db_run_state [OF that] res [OF type] by metis
  show "d_state d' = spec_state type (d_breakpts d0) (length (d_call_stack d0)) us"
    using assms(3) by (rule state)
  show "(d_ins_addr d', d_call_stack d') =
      fold (spec_flow (d_garbage d0)) us (d_ins_addr d0, d_call_stack d0)"
    "length (d_call_stack d') = fold depth_after us (length (d_call_stack d0))"
    using db_run_flow [OF assms(3)] res(4,6,7) [OF type] by simp_all
  show "\<forall>k. 0 < k \<longrightarrow> k < length us \<longrightarrow>
      \<not> stops_at type (d_breakpts d0) (length (d_call_stack d0)) (take k us)"
  proof (intro allI impI)
    fix k
    assume k: "0 < k" "k < length us"
    then obtain d1 where "db_run api d (take k us) d1" "running (d_state d1)"
      using db_run_prefix [OF assms(3)] by blast
    then show "\<not> stops_at type (d_breakpts d0) (length (d_call_stack d0)) (take k us)"
      using state spec_state_running_last k by (metis length_greater_0_conv less_trans take_eq_Nil2 neq0_conv)
  qed
qed


theorem resume_run_spec_witness:
  "d_state (script_run call_then_return (snd (resume StepOver script_debugger))) = STOPPED"
proof -
  have "db_run script_vm (snd (resume StepOver script_debugger)) call_then_return
    (script_run call_then_return (snd (resume StepOver script_debugger)))"
    by (rule script_db_run) code_simp
  moreover have "resume StepOver script_debugger = (Ret (), snd (resume StepOver script_debugger))"
    by (simp add: resume_def script_debugger_def set_state_def then_act_def bind_act_def)
  ultimately have "d_state (script_run call_then_return (snd (resume StepOver script_debugger))) =
    spec_state StepOver (d_breakpts script_debugger) (length (d_call_stack script_debugger)) call_then_return"
    using resume_run_spec by blast
  also have "\<dots> = STOPPED" by code_simp
  finally show ?thesis .
qed


text \<open>
  C10. A run never gets stuck in the debugger: while it is running and a frame is on the call stack,
  every report of the machine is processed to a normal return, so the run continues with it.
\<close>

theorem run_never_stuck:
  assumes "db_run api d us d1" "running (d_state d1)" "d_call_stack d1 \<noteq> []"
    and "api_get_update_infos api v = (Ret u, v')"
  shows "\<exists>d2. on_update api (d1\<lparr>d_vm := v\<rparr>) = (Ret (), d2) \<and> db_run api d (us @ [u]) d2"
proof -
  obtain d2 where "on_update api (d1\<lparr>d_vm := v\<rparr>) = (Ret (), d2)"
    using on_update_progress [of "d1\<lparr>d_vm := v\<rparr>" api u v'] assms by auto
  with assms(1,2,4) show ?thesis by (blast intro: db_run_snoc)
qed

theorem run_never_stuck_witness:
  "\<exists>d2. on_update script_vm ((snd (resume Continue script_debugger))\<lparr>d_vm := call_then_return\<rparr>) =
    (Ret (), d2) \<and> db_run script_vm (snd (resume Continue script_debugger)) ([] @ [hd call_then_return]) d2"
  by (rule run_never_stuck [OF db_run_nil, where v' = "tl call_then_return"])
    (simp_all add: resume_def script_debugger_def set_state_def script_vm_def call_then_return_def)

section \<open>Breakpoints\<close>

text \<open>
  The breakpoints behave as a set of addresses of the memory: adding and deleting change exactly
  the given address and return normally exactly when it is inside the memory and absent
  (present); \<open>has_breakpoint\<close> reads the set; an operation that throws changes nothing.
\<close>

theorem breakpoint_operations:
  fixes d :: "'v Debugger"
  shows "(fst (add_breakpoint a d) = Ret () \<longleftrightarrow> a < vi_memory_size (d_infos d) \<and> a \<notin> d_breakpts d) \<and>
    snd (add_breakpoint a d) =
      (if a < vi_memory_size (d_infos d) then d\<lparr>d_breakpts := insert a (d_breakpts d)\<rparr> else d) \<and>
    (fst (del_breakpoint a d) = Ret () \<longleftrightarrow> a < vi_memory_size (d_infos d) \<and> a \<in> d_breakpts d) \<and>
    snd (del_breakpoint a d) =
      (if a < vi_memory_size (d_infos d) then d\<lparr>d_breakpts := d_breakpts d - {a}\<rparr> else d) \<and>
    has_breakpoint b (snd (add_breakpoint a d)) =
      (if b < vi_memory_size (d_infos d) then Ret (b \<in> d_breakpts d \<or> a = b)
       else Throw ''cannot get breakpoint: address outside of memory range'', snd (add_breakpoint a d)) \<and>
    has_breakpoint b (snd (del_breakpoint a d)) =
      (if b < vi_memory_size (d_infos d) then Ret (b \<in> d_breakpts d \<and> a \<noteq> b)
       else Throw ''cannot get breakpoint: address outside of memory range'', snd (del_breakpoint a d))"
  by (auto simp: add_breakpoint_def del_breakpoint_def has_breakpoint_def insert_absorb not_le)

end
