(* ===== verification/Debugger_Invariant.thy ===== *)
theory Debugger_Invariant
  imports Debugger_Flow
begin

text \<open>
  The states a debugger can be in: \<open>on_init\<close> followed by any sequence of calls of its methods (each
  call with any arguments, a thrown error included) and of steps of the machine. The invariant
  \<open>db_ok\<close> ties the register and symbol tables together, the range map to the memory size and the
  breakpoints to the memory; it holds in every reachable state whatever the machine answers.
\<close>

section \<open>Reachable states\<close>

inductive db_step :: "'v VMApi \<Rightarrow> 'v Debugger \<Rightarrow> 'v Debugger \<Rightarrow> bool" for api :: "'v VMApi" where
  step_vm: "db_step api d (d\<lparr>d_vm := v\<rparr>)"
| step_update: "db_step api d (snd (on_update api d))"
| step_resume: "db_step api d (snd (resume type d))"
| step_stop: "db_step api d (snd (stop d))"
| step_add_breakpoint: "db_step api d (snd (add_breakpoint addr d))"
| step_has_breakpoint: "db_step api d (snd (has_breakpoint addr d))"
| step_del_breakpoint: "db_step api d (snd (del_breakpoint addr d))"
| step_get_reg: "db_step api d (snd (get_reg api idx d))"
| step_set_reg: "db_step api d (snd (set_reg api idx val d))"
| step_get_reg_infos: "db_step api d (snd (get_reg_infos api idx d))"
| step_find_reg_id: "db_step api d (snd (find_reg_id api name d))"
| step_read_mem: "db_step api d (snd (read_mem api addr sz d))"
| step_write_mem: "db_step api d (snd (write_mem api addr sz buf d))"
| step_get_symbol_at: "db_step api d (snd (get_symbol_at api addr d))"
| step_get_symbols: "db_step api d (snd (get_symbols api addr sz d))"
| step_get_symbol_infos: "db_step api d (snd (get_symbol_infos api sid d))"
| step_find_sym_id: "db_step api d (snd (find_sym_id api name d))"
| step_get_code_text: "db_step api d (snd (get_code_text api addr d))"

inductive db_reach :: "'v VMApi \<Rightarrow> 'v Debugger \<Rightarrow> bool" for api :: "'v VMApi" where
  reach_init: "on_init api (Debugger_new vm infos0 g) = (Ret (), d) \<Longrightarrow> db_reach api d"
| reach_step: "db_reach api d \<Longrightarrow> db_step api d d' \<Longrightarrow> db_reach api d'"

section \<open>The invariant\<close>

definition regs_ok :: "'v Debugger \<Rightarrow> bool" where
  "regs_ok d \<longleftrightarrow> smap_ok (d_map_regs d) \<and> smap_ok (d_smap_regs d) \<and>
    (\<forall>n r. smap_find (d_smap_regs d) n = Some r \<longrightarrow> smap_find (d_map_regs d) r \<noteq> None)"

definition syms_ok :: "'v Debugger \<Rightarrow> bool" where
  "syms_ok d \<longleftrightarrow> smap_ok (d_map_syms d) \<and> smap_ok (d_smap_syms d) \<and> smap_ok (d_syms_pos d) \<and>
    (\<forall>a s. smap_find (d_syms_pos d) a = Some s \<longrightarrow>
      (\<exists>i. smap_find (d_map_syms d) s = Some i \<and> si_addr i = a)) \<and>
    (\<forall>n s. smap_find (d_smap_syms d) n = Some s \<longrightarrow>
      (\<exists>i. smap_find (d_map_syms d) s = Some i \<and> si_name i = n)) \<and>
    (\<forall>s i. smap_find (d_map_syms d) s = Some i \<longrightarrow>
      smap_find (d_syms_pos d) (si_addr i) \<noteq> None \<and> smap_find (d_smap_syms d) (si_name i) \<noteq> None)"

definition ranges_ok :: "'v Debugger \<Rightarrow> bool" where
  "ranges_ok d \<longleftrightarrow> (\<exists>m. d_syms_ranges d = Some m \<and> rm_ok m \<and> rm_min m = 0 \<and>
    rm_max m = vi_memory_size (d_infos d) - 1)"

definition bkps_ok :: "'v Debugger \<Rightarrow> bool" where
  "bkps_ok d \<longleftrightarrow> (\<forall>a \<in> d_breakpts d. a < vi_memory_size (d_infos d))"

definition db_ok :: "'v Debugger \<Rightarrow> bool" where
  "db_ok d \<longleftrightarrow> d_state d \<noteq> NOT_STARTED \<and> regs_ok d \<and> syms_ok d \<and> ranges_ok d \<and> bkps_ok d"

lemmas db_ok_defs = db_ok_def regs_ok_def syms_ok_def ranges_ok_def bkps_ok_def

section \<open>What every method keeps\<close>

text \<open>Only \<open>resume\<close>, \<open>stop\<close>, \<open>on_init\<close> and \<open>on_update\<close> change the state of the debugger.\<close>

named_theorems state_frame \<open>methods that leave the debugger's state alone\<close>

abbreviation keeps_state :: "('v Debugger, 'a) act \<Rightarrow> bool" where
  "keeps_state m \<equiv> \<forall>st. keeps (\<lambda>d. d_state d = st) m"

lemma keeps_case_option [keeps_rules]:
  "keeps P m \<Longrightarrow> (\<And>x. keeps P (f x)) \<Longrightarrow> keeps P (case v of None \<Rightarrow> m | Some x \<Rightarrow> f x)"
  by (cases v) auto

lemma keeps_case_prod [keeps_rules]: "(\<And>x y. keeps P (f x y)) \<Longrightarrow> keeps P (case p of (x, y) \<Rightarrow> f x y)"
  by (cases p) auto

lemma keeps_Let [keeps_rules]: "(\<And>x. keeps P (f x)) \<Longrightarrow> keeps P (let x = e in f x)"
  by simp

lemma keeps_vm_call [keeps_rules]: "(\<And>d v. P d \<Longrightarrow> P (d\<lparr>d_vm := v\<rparr>)) \<Longrightarrow> keeps P (vm_call m)"
  unfolding vm_call_def by (rule keeps_lift) simp

lemmas method_defs = get_reg_def set_reg_def get_reg_infos_def find_reg_id_def read_mem_def
  write_mem_def get_code_text_def get_symbol_at_def get_symbols_def get_symbol_infos_def
  find_sym_id_def load_reg_def reg_entry_def load_symbol_def syms_range_of_def syms_set_loaded_def
  load_symbols_in_def preload_high_def preload_symbols_def preload_symbols_around_def
  add_breakpoint_def has_breakpoint_def del_breakpoint_def

lemma keeps_state_methods:
  shows "keeps_state (add_breakpoint a)" "keeps_state (has_breakpoint a)"
    "keeps_state (del_breakpoint a)" "keeps_state (get_reg api r)" "keeps_state (set_reg api r v)"
    "keeps_state (get_reg_infos api r)" "keeps_state (find_reg_id api n)"
    "keeps_state (read_mem api a s)" "keeps_state (write_mem api a s b)"
    "keeps_state (get_symbol_at api a)" "keeps_state (get_symbols api a s)"
    "keeps_state (get_symbol_infos api i)" "keeps_state (find_sym_id api n)"
    "keeps_state (get_code_text api a)"
  unfolding method_defs by (intro allI keeps_rules keeps_modify; simp)+

lemma keeps_state_snd: "keeps_state m \<Longrightarrow> d_state (snd (m d)) = d_state d"
  by (auto simp: keeps_def)

lemma finished_step:
  assumes "db_step api d d'" "d_state d \<in> {EXIT, ERROR}"
  shows "d_state d' = d_state d"
  using assms
proof cases
  case step_update
  then show ?thesis using assms(2) by (auto simp: on_update_def)
next
  case (step_resume type)
  then show ?thesis using assms(2) by (auto simp: resume_def)
next
  case step_stop
  then show ?thesis using assms(2) by (auto simp: stop_def)
qed (simp_all add: keeps_state_methods keeps_state_snd)

section \<open>The invariant is kept\<close>

text \<open>A change of a part of the object that a component of the invariant does not read.\<close>

lemma db_ok_frame [simp]:
  "db_ok (d\<lparr>d_vm := v\<rparr>) = db_ok d" "db_ok (d\<lparr>d_ins_addr := a\<rparr>) = db_ok d"
  "db_ok (d\<lparr>d_call_stack := cs\<rparr>) = db_ok d" "db_ok (d\<lparr>d_step_over_depth := n\<rparr>) = db_ok d"
  by (simp_all add: db_ok_defs)

lemma db_ok_state: "db_ok d \<Longrightarrow> st \<noteq> NOT_STARTED \<Longrightarrow> db_ok (d\<lparr>d_state := st\<rparr>)"
  by (simp add: db_ok_defs)

lemma keeps_ok_set_state [keeps_rules]: "st \<noteq> NOT_STARTED \<Longrightarrow> keeps db_ok (set_state st)"
  unfolding set_state_def by (rule keeps_modify) (rule db_ok_state)

lemma keeps_ok_flow [keeps_rules]:
  "keeps db_ok (on_update api)" "keeps db_ok (resume type)" "keeps db_ok stop"
  unfolding on_update_def track_call_stack_def check_stop_def resume_def stop_def
  by (intro keeps_rules keeps_modify; simp)+

lemma keeps_ok_breakpoints [keeps_rules]:
  "keeps db_ok (add_breakpoint a)" "keeps db_ok (has_breakpoint a)" "keeps db_ok (del_breakpoint a)"
  by (auto simp: keeps_def db_ok_defs add_breakpoint_def has_breakpoint_def del_breakpoint_def not_le)

lemma db_ok_add_reg:
  "db_ok d \<Longrightarrow> db_ok (d\<lparr>d_map_regs := smap_emplace r i (d_map_regs d),
    d_smap_regs := smap_emplace n r (d_smap_regs d)\<rparr>)"
  by (auto simp: db_ok_defs smap_ok_emplace smap_find_emplace)

lemma db_ok_assign_reg: "db_ok d \<Longrightarrow> db_ok (d\<lparr>d_map_regs := smap_assign r i (d_map_regs d)\<rparr>)"
  by (auto simp: db_ok_defs smap_find_assign)

lemma keeps_ok_load_reg [keeps_rules]: "keeps db_ok (load_reg api r)"
  unfolding load_reg_def by (intro keeps_rules keeps_modify db_ok_add_reg) simp_all

lemma keeps_ok_regs [keeps_rules]:
  "keeps db_ok (get_reg api r)" "keeps db_ok (set_reg api r v)" "keeps db_ok (get_reg_infos api r)"
  "keeps db_ok (find_reg_id api n)"
  unfolding get_reg_def set_reg_def get_reg_infos_def find_reg_id_def reg_entry_def
  by (intro keeps_rules keeps_modify db_ok_assign_reg; simp)+

lemma keeps_ok_mem [keeps_rules]:
  "keeps db_ok (read_mem api a s)" "keeps db_ok (write_mem api a s b)" "keeps db_ok (get_code_text api a)"
  unfolding read_mem_def write_mem_def get_code_text_def by (intro keeps_rules; simp)+

lemma syms_ok_add:
  assumes "syms_ok d" "smap_find (d_map_syms d) s = None"
  shows "syms_ok (d\<lparr>d_map_syms := smap_emplace s i (d_map_syms d),
    d_smap_syms := smap_emplace (si_name i) s (d_smap_syms d),
    d_syms_pos := smap_emplace (si_addr i) s (d_syms_pos d)\<rparr>)"
proof -
  have "smap_find (d_syms_pos d) a \<noteq> Some s" "smap_find (d_smap_syms d) n \<noteq> Some s" for a n
    using assms unfolding syms_ok_def by (metis option.distinct(1))+
  with assms show ?thesis by (auto simp: syms_ok_def smap_ok_emplace smap_find_emplace)
qed

lemma keeps_ok_load_symbol [keeps_rules]: "keeps db_ok (load_symbol api s)"
proof (rule keepsI)
  fix d r d'
  assume d: "db_ok d" and run: "load_symbol api s d = (r, d')"
  show "db_ok d'"
  proof (cases "smap_find (d_map_syms d) s")
    case None
    obtain r1 v where vm: "api_get_symb_infos api s (d_vm d) = (r1, v)" by force
    have "syms_ok (d\<lparr>d_vm := v\<rparr>)" using d by (simp add: db_ok_defs)
    then have "db_ok (d\<lparr>d_vm := v, d_map_syms := smap_emplace s i (d_map_syms d),
      d_smap_syms := smap_emplace (si_name i) s (d_smap_syms d),
      d_syms_pos := smap_emplace (si_addr i) s (d_syms_pos d)\<rparr>)" for i
      using d syms_ok_add [of "d\<lparr>d_vm := v\<rparr>" s i] None
      by (simp add: db_ok_def regs_ok_def ranges_ok_def bkps_ok_def)
    with run None vm d show ?thesis
      by (cases r1) (auto simp: load_symbol_def vm_call_def lift_act_def bind_act_def)
  next
    case (Some i)
    with run d show ?thesis by (simp add: load_symbol_def)
  qed
qed

lemma rm_set_asserts: "rm_set m lo hi v = Ret m' \<Longrightarrow> rm_min m \<le> lo \<and> lo \<le> hi \<and> hi \<le> rm_max m"
  by (auto simp: rm_set_def split: if_splits)

lemma keeps_ok_set_loaded [keeps_rules]: "keeps db_ok (syms_set_loaded lo hi)"
proof (rule keepsI)
  fix d r d'
  assume d: "db_ok d" and run: "syms_set_loaded lo hi d = (r, d')"
  then obtain m where m: "d_syms_ranges d = Some m" "rm_ok m" "rm_min m = 0"
    "rm_max m = vi_memory_size (d_infos d) - 1"
    by (auto simp: db_ok_def ranges_ok_def)
  show "db_ok d'"
  proof (cases "rm_set m lo hi 1")
    case (Ret m')
    with m have "rm_ok m' \<and> rm_min m' = rm_min m \<and> rm_max m' = rm_max m"
      using rm.set_range_law [of m lo hi 1] rm_set_asserts [OF Ret] by auto
    with run m d Ret show ?thesis
      by (auto simp: syms_set_loaded_def bind_act_def db_ok_defs)
  qed (use run m d in \<open>simp_all add: syms_set_loaded_def bind_act_def\<close>)
qed

lemma keeps_ok_syms [keeps_rules]:
  "keeps db_ok (get_symbol_at api a)" "keeps db_ok (get_symbols api a s)"
  "keeps db_ok (get_symbol_infos api i)" "keeps db_ok (find_sym_id api n)"
  unfolding get_symbol_at_def get_symbols_def get_symbol_infos_def find_sym_id_def
    preload_symbols_around_def preload_symbols_def preload_high_def load_symbols_in_def syms_range_of_def
  by (intro keeps_rules keeps_modify; simp)+

lemma keeps_snd: "keeps P m \<Longrightarrow> P d \<Longrightarrow> P (snd (m d))"
  by (simp add: keeps_def)

lemma db_ok_step: "db_step api d d' \<Longrightarrow> db_ok d \<Longrightarrow> db_ok d'"
  by (induction rule: db_step.induct) (auto intro: keeps_snd keeps_rules)

lemma RangeMap_bounds [simp]: "rm_min (RangeMap l h v) = l" "rm_max (RangeMap l h v) = h"
  by (simp_all add: RangeMap_def)

lemma on_init_Ret:
  assumes "on_init api (Debugger_new vm infos0 g) = (Ret (), d)"
  shows "db_ok d" "d_state d = RUNNING_TOFINISH" "length (d_call_stack d) = 1"
  using assms
  by (auto simp: on_init_def Debugger_new_def set_state_def vm_call_def lift_act_def bind_act_def
      then_act_def db_ok_defs smap_empty_def rm_ok_RangeMap
      split: prod.splits outcome.splits if_splits)

section \<open>Properties\<close>

text \<open>
  C8. In every state the debugger can reach, whatever the machine answers and whatever the callers do:
  the register and symbol tables are consistent with each other (each name or address entry leads
  to the stored information it was taken from, each stored symbol is found by address and name),
  the range map is well formed and spans exactly the memory, every breakpoint is inside it.
\<close>

theorem reachable_ok:
  assumes "db_reach api d"
  shows "db_ok d"
  using assms by (induction rule: db_reach.induct) (auto intro: on_init_Ret db_ok_step)

theorem reachable_ok_witness:
  "db_ok (snd (add_breakpoint 3 (snd (on_init script_vm
     (Debugger_new [\<lparr>ud_state = US_OK, ud_act_addr = 5\<rparr>] script_infos 0)))))"
proof (rule reachable_ok)
  let ?d = "Debugger_new [\<lparr>ud_state = US_OK, ud_act_addr = 5\<rparr>] script_infos 0"
  have "fst (on_init script_vm ?d) = Ret ()" by code_simp
  then have "db_reach script_vm (snd (on_init script_vm ?d))"
    by (intro reach_init) (simp add: prod_eq_iff)
  then show "db_reach script_vm (snd (add_breakpoint 3 (snd (on_init script_vm ?d))))"
    by (rule reach_step) (rule step_add_breakpoint)
qed

text \<open>
  Exit and error are final: once the program has finished, no sequence of calls changes the state,
  and \<open>resume\<close> and \<open>stop\<close> throw without changing anything.
\<close>

theorem finished_is_final:
  assumes "d_state d \<in> {EXIT, ERROR}" "(db_step api)\<^sup>*\<^sup>* d d'"
  shows "d_state d' = d_state d \<and>
    resume type d' = (Throw ''cannot resume execution: program already finished'', d') \<and>
    stop d' = (Throw ''cannot stop execution: program already finished'', d')"
proof -
  have "d_state d' = d_state d"
    using assms(2,1) by (induction rule: rtranclp_induct) (auto dest: finished_step)
  with assms(1) show ?thesis by (auto simp: resume_def stop_def)
qed

theorem finished_is_final_witness:
  "d_state (snd (add_breakpoint 3 (script_debugger\<lparr>d_state := EXIT\<rparr>))) = EXIT"
proof -
  have "(db_step script_vm)\<^sup>*\<^sup>* (script_debugger\<lparr>d_state := EXIT\<rparr>)
    (snd (add_breakpoint 3 (script_debugger\<lparr>d_state := EXIT\<rparr>)))"
    by (rule r_into_rtranclp) (rule step_add_breakpoint)
  then show ?thesis
    using finished_is_final [of "script_debugger\<lparr>d_state := EXIT\<rparr>"] by fastforce
qed

end
