(* ===== verification/Serial.thy ===== *)
theory Serial
  imports Odb_Prelude
begin

text \<open>
  The serialization layer: \<open>SerialOutBuff\<close> and \<open>SerialInBuff\<close> of \<open>include/odb/mess/serial.hh\<close>,
  the raw integer, string and vector codecs of \<open>src/mess/request.cc\<close>. The output buffer is its
  byte list; the input buffer keeps the read position, with the \<open>size_t\<close> sum of
  \<open>assert(_pos + len <= _data.size())\<close> in 64-bit arithmetic. Raw values are stored in the byte
  order of the host (little endian on the x64 platform the README names).

  The contract of a codec, the locale \<open>codec_api\<close>, is that reading back what was written yields
  the value and consumes exactly its bytes; codecs compose.
\<close>

section \<open>Buffers\<close>

type_synonym out_buff = bytes

record in_buff =
  in_data :: bytes
  in_pos :: u64

definition sib_reset :: "bytes \<Rightarrow> in_buff" where
  "sib_reset data = \<lparr>in_data = data, in_pos = 0\<rparr>"

definition sob_write :: "bytes \<Rightarrow> (out_buff, unit) act" where
  "sob_write data = modify (\<lambda>os. os @ data)"

text \<open>
  \<open>SerialInBuff::read\<close>: the assertion is on the wrapped sum; a copy that passes it and still
  leaves the vector is an access out of bounds.
\<close>

definition sib_read :: "u64 \<Rightarrow> (in_buff, bytes) act" where
  "sib_read len = (\<lambda>b.
    if \<not> in_pos b + len \<le> of_nat (length (in_data b)) then (Abort Assert_failed, b)
    else if \<not> unat (in_pos b) + unat len \<le> length (in_data b) then (Abort Out_of_bounds, b)
    else (Ret (take (unat len) (drop (unat (in_pos b)) (in_data b))), b\<lparr>in_pos := in_pos b + len\<rparr>))"

definition sib_check_eof :: "(in_buff, unit) act" where
  "sib_check_eof = (\<lambda>b. assert_act (in_pos b = of_nat (length (in_data b))) b)"

section \<open>Raw integers\<close>

fun le_bytes :: "nat \<Rightarrow> 'a :: len word \<Rightarrow> bytes" where
  "le_bytes 0 w = []"
| "le_bytes (Suc n) w = ucast w # le_bytes n (drop_bit 8 w)"

fun of_le_bytes :: "bytes \<Rightarrow> 'a :: len word" where
  "of_le_bytes [] = 0"
| "of_le_bytes (b # bs) = or (ucast b) (push_bit 8 (of_le_bytes bs))"

definition raw_size :: "'a :: len word itself \<Rightarrow> nat" where
  "raw_size _ = LENGTH('a) div 8"

definition sb_serial_raw :: "'a :: len word \<Rightarrow> bytes" where
  "sb_serial_raw x = le_bytes (raw_size TYPE('a word)) x"

definition sb_unserial_raw :: "(in_buff, 'a :: len word) act" where
  "sb_unserial_raw =
    bind_act (sib_read (of_nat (raw_size TYPE('a word)))) (\<lambda>bs. ret (of_le_bytes bs))"

section \<open>Strings and vectors\<close>

definition byte_of_char :: "char \<Rightarrow> u8" where
  "byte_of_char c = of_nat (of_char c)"

definition char_of_byte :: "u8 \<Rightarrow> char" where
  "char_of_byte b = char_of (unat b)"

definition ser_string :: "string \<Rightarrow> bytes" where
  "ser_string s = sb_serial_raw (of_nat (length s) :: u64) @ map byte_of_char s"

definition unser_string :: "(in_buff, string) act" where
  "unser_string = bind_act sb_unserial_raw (\<lambda>size. bind_act (sib_read size)
    (\<lambda>bs. ret (map char_of_byte bs)))"

definition ser_vector :: "('a \<Rightarrow> bytes) \<Rightarrow> 'a list \<Rightarrow> bytes" where
  "ser_vector ser v = sb_serial_raw (of_nat (length v) :: u64) @ concat (map ser v)"

definition unser_vector :: "(in_buff, 'a) act \<Rightarrow> (in_buff, 'a list) act" where
  "unser_vector unser =
    bind_act (sb_unserial_raw :: (in_buff, u64) act) (\<lambda>size. repeat_act (unat size) unser)"

section \<open>Consuming bytes\<close>

text \<open>A vector of bytes has at most \<open>PTRDIFF_MAX\<close> elements.\<close>

definition in_ok :: "in_buff \<Rightarrow> bool" where
  "in_ok b \<longleftrightarrow> length (in_data b) < 2 ^ 63 \<and> unat (in_pos b) \<le> length (in_data b)"

definition in_rest :: "in_buff \<Rightarrow> bytes" where
  "in_rest b = drop (unat (in_pos b)) (in_data b)"

definition in_skip :: "nat \<Rightarrow> in_buff \<Rightarrow> in_buff" where
  "in_skip n b = b\<lparr>in_pos := in_pos b + of_nat n\<rparr>"

definition parses :: "(in_buff, 'a) act \<Rightarrow> bytes \<Rightarrow> 'a \<Rightarrow> bool" where
  "parses m xs x \<longleftrightarrow> (\<forall>b ys. in_ok b \<longrightarrow> in_rest b = xs @ ys \<longrightarrow>
     m b = (Ret x, in_skip (length xs) b))"

named_theorems parses_rules \<open>what a reader consumes and returns\<close>

lemma in_skip_0 [simp]: "in_skip 0 b = b"
  by (simp add: in_skip_def)

lemma in_skip_skip [simp]: "in_skip m (in_skip n b) = in_skip (n + m) b"
  by (simp add: in_skip_def algebra_simps)

lemma in_skip_pos:
  assumes "in_ok b" "in_rest b = xs @ ys"
  shows "unat (in_pos b + of_nat (length xs)) = unat (in_pos b) + length xs"
proof -
  have "length xs \<le> length (in_data b) - unat (in_pos b)"
    using assms(2) by (metis in_rest_def le_add1 length_append length_drop)
  then have le: "unat (in_pos b) + length xs < 2 ^ 63"
    using assms(1) unfolding in_ok_def by linarith
  then have "unat (of_nat (length xs) :: u64) = length xs"
    by (intro unat_of_nat_id) simp
  with le show ?thesis by (simp add: unat_word_ariths)
qed

lemma in_skip_rest:
  assumes "in_ok b" "in_rest b = xs @ ys"
  shows "in_ok (in_skip (length xs) b)" "in_rest (in_skip (length xs) b) = ys"
proof -
  have "length xs \<le> length (in_data b) - unat (in_pos b)"
    using assms(2) by (metis in_rest_def le_add1 length_append length_drop)
  then show "in_ok (in_skip (length xs) b)"
    using assms in_skip_pos [OF assms] unfolding in_ok_def in_skip_def by simp linarith
  show "in_rest (in_skip (length xs) b) = ys"
    using assms(2) in_skip_pos [OF assms]
    by (simp add: in_rest_def in_skip_def add.commute [of _ "length xs"] flip: drop_drop)
qed

lemma in_ok_reset: "length bs < 2 ^ 63 \<Longrightarrow> in_ok (sib_reset bs)"
  and in_rest_reset [simp]: "in_rest (sib_reset bs) = bs"
  by (simp_all add: in_ok_def in_rest_def sib_reset_def)

lemma parses_run: "parses m bs x \<Longrightarrow> length bs < 2 ^ 63 \<Longrightarrow>
    m (sib_reset bs) = (Ret x, in_skip (length bs) (sib_reset bs))"
  using in_ok_reset [of bs] by (auto simp: parses_def dest: spec [of _ "sib_reset bs"])

lemma parses_ret [parses_rules]: "parses (ret x) [] x"
  by (simp add: parses_def)

lemma parses_bind [parses_rules]:
  "parses m xs x \<Longrightarrow> parses (f x) ys y \<Longrightarrow> parses (bind_act m f) (xs @ ys) y"
  unfolding parses_def by (auto simp: bind_act_def in_skip_rest)

lemma parses_bind_ret [parses_rules]:
  "parses m xs x \<Longrightarrow> y = g x \<Longrightarrow> parses (bind_act m (\<lambda>x. ret (g x))) xs y"
  using parses_bind [of m xs x "\<lambda>x. ret (g x)" "[]"] parses_ret by fastforce

lemma parses_read [parses_rules]:
  assumes "length xs = unat len"
  shows "parses (sib_read len) xs xs"
  unfolding parses_def
proof (intro allI impI)
  fix b ys
  assume ok: "in_ok b" and rest: "in_rest b = xs @ ys"
  have le: "unat (in_pos b) + length xs \<le> length (in_data b)"
    using rest ok by (metis in_ok_def in_rest_def le_add1 le_add_diff_inverse length_append
        length_drop nat_add_left_cancel_le)
  have pos: "unat (in_pos b + len) = unat (in_pos b) + length xs"
    using in_skip_pos [OF ok rest] assms by simp
  have "length (in_data b) < 2 ^ LENGTH(64)" using ok by (simp add: in_ok_def)
  then have "in_pos b + len \<le> of_nat (length (in_data b))"
    using le pos by (simp only: word_le_nat_alt unat_of_nat_id)
  moreover have "take (unat len) (drop (unat (in_pos b)) (in_data b)) = xs"
    using rest assms [symmetric] by (simp add: in_rest_def)
  ultimately show "sib_read len b = (Ret xs, in_skip (length xs) b)"
    using le by (simp add: sib_read_def in_skip_def assms)
qed

lemma parses_repeat:
  "(\<And>x. x \<in> set xs \<Longrightarrow> parses m (enc x) x) \<Longrightarrow>
    parses (repeat_act (length xs) m) (concat (map enc xs)) xs"
  by (induction xs) (auto intro!: parses_rules)

section \<open>The contract of a codec\<close>

locale codec_api =
  fixes enc :: "'a \<Rightarrow> bytes"
    and dec :: "(in_buff, 'a) act"
    and valid :: "'a \<Rightarrow> bool"
  assumes dec_enc: "valid x \<Longrightarrow> parses dec (enc x) x"
begin

lemma enc_injective: "valid x \<Longrightarrow> valid y \<Longrightarrow> length (enc x) < 2 ^ 63 \<Longrightarrow> enc x = enc y \<Longrightarrow> x = y"
  using parses_run [OF dec_enc] by (metis Pair_inject outcome.inject(1))

lemma dec_enc_all: "(\<And>x. x \<in> set xs \<Longrightarrow> valid x) \<Longrightarrow>
    parses (repeat_act (length xs) dec) (concat (map enc xs)) xs"
  by (rule parses_repeat) (rule dec_enc)

end

lemma length_le_bytes [simp]: "length (le_bytes n w) = n"
  by (induction n w rule: le_bytes.induct) auto

lemma of_le_le_bytes:
  "8 * n \<le> LENGTH('a) \<Longrightarrow> of_le_bytes (le_bytes n w) = take_bit (8 * n) (w :: 'a :: len word)"
proof (induction n arbitrary: w)
  case (Suc n)
  then have IH: "of_le_bytes (le_bytes n (drop_bit 8 w)) = take_bit (8 * n) (drop_bit 8 w)"
    by simp
  show ?case
    by (rule bit_word_eqI) (use Suc.prems in \<open>auto simp: IH bit_simps\<close>)
qed simp

lemma parses_raw [parses_rules]:
  "8 dvd LENGTH('a) \<Longrightarrow> LENGTH('a) < 2 ^ 60 \<Longrightarrow>
    parses sb_unserial_raw (sb_serial_raw x) (x :: 'a :: len word)"
  unfolding sb_unserial_raw_def
  by (rule parses_bind_ret, rule parses_read)
    (auto simp: sb_serial_raw_def raw_size_def unat_of_nat_id of_le_le_bytes)

interpretation u8c: codec_api "sb_serial_raw :: u8 \<Rightarrow> bytes" sb_unserial_raw "\<lambda>_. True"
  by unfold_locales (rule parses_raw; simp)

interpretation u16c: codec_api "sb_serial_raw :: u16 \<Rightarrow> bytes" sb_unserial_raw "\<lambda>_. True"
  by unfold_locales (rule parses_raw; simp)

interpretation u32c: codec_api "sb_serial_raw :: u32 \<Rightarrow> bytes" sb_unserial_raw "\<lambda>_. True"
  by unfold_locales (rule parses_raw; simp)

interpretation u64c: codec_api "sb_serial_raw :: u64 \<Rightarrow> bytes" sb_unserial_raw "\<lambda>_. True"
  by unfold_locales (rule parses_raw; simp)

lemma char_of_byte_of_char [simp]: "char_of_byte (byte_of_char c) = c"
proof -
  have "(of_char c :: nat) < 256"
    by (metis mod_less_divisor of_char_mod_256 zero_less_numeral)
  then show ?thesis by (simp add: char_of_byte_def byte_of_char_def unat_of_nat_id)
qed

definition fits :: "'a list \<Rightarrow> bool" where
  "fits xs \<longleftrightarrow> length xs < 2 ^ 64"

lemma unat_fits [simp]: "fits xs \<Longrightarrow> unat (of_nat (length xs) :: u64) = length xs"
  by (simp add: fits_def unat_of_nat_id)

interpretation stringc: codec_api ser_string unser_string fits
proof unfold_locales
  fix s :: string
  assume "fits s"
  then have "parses (sib_read (of_nat (length s))) (map byte_of_char s) (map byte_of_char s)"
    by (intro parses_read) simp
  then show "parses unser_string (ser_string s) s"
    unfolding unser_string_def ser_string_def
    by (intro parses_bind [OF u64c.dec_enc] parses_bind_ret) (auto simp: comp_def)
qed

context codec_api
begin

lemma vector_codec:
  "codec_api (ser_vector enc) (unser_vector dec) (\<lambda>v. fits v \<and> (\<forall>x \<in> set v. valid x))"
proof
  fix v :: "'a list"
  assume v: "fits v \<and> (\<forall>x \<in> set v. valid x)"
  then have "parses (repeat_act (unat (of_nat (length v) :: u64)) dec) (concat (map enc v)) v"
    by (simp add: dec_enc_all)
  then show "parses (unser_vector dec) (ser_vector enc v) v"
    unfolding unser_vector_def ser_vector_def by (intro parses_bind [OF u64c.dec_enc]) simp_all
qed

end

end
