(* ===== verification/Request_Handler.thy ===== *)
theory Request_Handler
  imports Serial
begin

text \<open>
  \<open>RequestHandler\<close> of \<open>include/odb/mess/request-handler.hh\<close>: one traversal of a request
  (\<open>prepare_request\<close>) serves four purposes, selected by the mode: the client writes the input fields
  (\<open>HandlerCliSend\<close>), the server reads them and allocates the output buffers (\<open>HandlerServRecv\<close>),
  the server writes the output fields (\<open>HandlerServSend\<close>), the client reads them
  (\<open>HandlerCliRecv\<close>). An operation takes the present value of a field and returns its new value.

  A pointer with its length is the list of the objects it points to; the rows of a 2-D buffer are
  separate objects, and an access past the end of one is out of bounds. Allocation succeeds.

  The lemmas compose: \<open>transfers\<close> relates what one side writes with what the other reads.
\<close>

section \<open>The handlers\<close>

text \<open>A type that can be serialized: its writer, its reader and its value-initialised object \<open>T{}\<close>.\<close>

record 'a codec =
  cenc :: "'a \<Rightarrow> bytes"
  cdec :: "(in_buff, 'a) act"
  cnull :: 'a

datatype hmode = CLI_RECV | CLI_SEND | SERV_RECV | SERV_SEND

record hstate =
  h_mode :: hmode
  h_out :: out_buff
  h_in :: in_buff

definition h_write :: "bytes \<Rightarrow> (hstate, unit) act" where
  "h_write bs = lift_act h_out (\<lambda>o' h. h\<lparr>h_out := o'\<rparr>) (sob_write bs)"

definition h_read :: "(in_buff, 'a) act \<Rightarrow> (hstate, 'a) act" where
  "h_read m = lift_act h_in (\<lambda>i h. h\<lparr>h_in := i\<rparr>) m"

definition dispatch :: "(hmode \<Rightarrow> (hstate, 'a) act) \<Rightarrow> (hstate, 'a) act" where
  "dispatch f = bind_act (gets h_mode) f"

definition put_item :: "'a codec \<Rightarrow> 'a \<Rightarrow> (hstate, unit) act" where
  "put_item c x = h_write (cenc c x)"

definition get_item :: "'a codec \<Rightarrow> (hstate, 'a) act" where
  "get_item c = h_read (cdec c)"

text \<open>\<open>for (i = 0; i < size; ++i) *_out << ptr[i];\<close>\<close>

definition put_items :: "'a codec \<Rightarrow> 'a list \<Rightarrow> nat \<Rightarrow> (hstate, unit) act" where
  "put_items c xs n = then_act (in_bounds (n \<le> length xs)) (iter_act (put_item c) (take n xs))"

text \<open>\<open>for (i = 0; i < size; ++i) *_in >> ptr[i];\<close>\<close>

definition get_items :: "'a codec \<Rightarrow> nat \<Rightarrow> (hstate, 'a list) act" where
  "get_items c n = repeat_act n (get_item c)"

definition fill_items :: "'a codec \<Rightarrow> 'a list \<Rightarrow> nat \<Rightarrow> (hstate, 'a list) act" where
  "fill_items c ys n = then_act (in_bounds (n \<le> length ys))
    (bind_act (get_items c n) (\<lambda>xs. ret (xs @ drop n ys)))"

definition object_in :: "'a codec \<Rightarrow> 'a \<Rightarrow> (hstate, 'a) act" where
  "object_in c item = dispatch (\<lambda>mode. case mode of
      CLI_SEND \<Rightarrow> then_act (put_item c item) (ret item)
    | SERV_RECV \<Rightarrow> get_item c
    | _ \<Rightarrow> ret item)"

definition object_out :: "'a codec \<Rightarrow> 'a \<Rightarrow> (hstate, 'a) act" where
  "object_out c item = dispatch (\<lambda>mode. case mode of
      CLI_RECV \<Rightarrow> get_item c
    | SERV_SEND \<Rightarrow> then_act (put_item c item) (ret item)
    | _ \<Rightarrow> ret item)"

definition buffer_in :: "'a codec \<Rightarrow> 'a list \<Rightarrow> nat \<Rightarrow> (hstate, 'a list) act" where
  "buffer_in c ptr size1 = dispatch (\<lambda>mode. case mode of
      CLI_SEND \<Rightarrow> then_act (put_items c ptr size1) (ret ptr)
    | SERV_RECV \<Rightarrow> get_items c size1
    | _ \<Rightarrow> ret ptr)"

definition buffer_out :: "'a codec \<Rightarrow> 'a list \<Rightarrow> nat \<Rightarrow> (hstate, 'a list) act" where
  "buffer_out c ptr size1 = dispatch (\<lambda>mode. case mode of
      CLI_RECV \<Rightarrow> fill_items c ptr size1
    | SERV_RECV \<Rightarrow> ret (replicate size1 (cnull c))
    | SERV_SEND \<Rightarrow> then_act (put_items c ptr size1) (ret ptr)
    | _ \<Rightarrow> ret ptr)"

text \<open>The rows of a linear buffer, from the row sizes.\<close>

fun split_rows :: "nat list \<Rightarrow> 'a list \<Rightarrow> 'a list list" where
  "split_rows [] xs = []"
| "split_rows (n # ns) xs = take n xs # split_rows ns (drop n xs)"

definition put_rows :: "'a codec \<Rightarrow> 'a list list \<Rightarrow> nat list \<Rightarrow> (hstate, unit) act" where
  "put_rows c rows sizes2 = then_act (in_bounds (length sizes2 \<le> length rows))
    (iter_act (\<lambda>(row, n). put_items c row n) (zip rows sizes2))"

definition fill_rows :: "'a codec \<Rightarrow> 'a list list \<Rightarrow> nat list \<Rightarrow> (hstate, 'a list list) act" where
  "fill_rows c rows sizes2 = then_act (in_bounds (length sizes2 \<le> length rows))
    (bind_act (map_act (\<lambda>(row, n). fill_items c row n) (zip rows sizes2))
      (\<lambda>rows'. ret (rows' @ drop (length sizes2) rows)))"

text \<open>The linear buffer of the server has \<open>size1 * size2\<close> elements, a product of \<open>size_t\<close>.\<close>

definition buffer_2d_in :: "'a codec \<Rightarrow> 'a list list \<Rightarrow> nat \<Rightarrow> u64 \<Rightarrow> (hstate, 'a list list) act" where
  "buffer_2d_in c ptr size1 size2 = dispatch (\<lambda>mode. case mode of
      CLI_SEND \<Rightarrow> then_act (put_rows c ptr (replicate size1 (unat size2))) (ret ptr)
    | SERV_RECV \<Rightarrow> bind_act (get_items c (unat (of_nat size1 * size2)))
        (\<lambda>all_buf. ret (split_rows (replicate size1 (unat size2)) all_buf))
    | _ \<Rightarrow> ret ptr)"

definition buffer_2d_out :: "'a codec \<Rightarrow> 'a list list \<Rightarrow> nat \<Rightarrow> u64 \<Rightarrow> (hstate, 'a list list) act" where
  "buffer_2d_out c ptr size1 size2 = dispatch (\<lambda>mode. case mode of
      CLI_RECV \<Rightarrow> fill_rows c ptr (replicate size1 (unat size2))
    | SERV_RECV \<Rightarrow> ret (split_rows (replicate size1 (unat size2))
        (replicate (unat (of_nat size1 * size2)) (cnull c)))
    | SERV_SEND \<Rightarrow> then_act (put_rows c ptr (replicate size1 (unat size2))) (ret ptr)
    | _ \<Rightarrow> ret ptr)"

text \<open>\<open>sizes2[i]\<close> for \<open>i < size1\<close>; the total is a sum of \<open>vm_size_t\<close>.\<close>

definition sizes_upto :: "u64 list \<Rightarrow> nat \<Rightarrow> (hstate, u64 list) act" where
  "sizes_upto sizes2 size1 = then_act (in_bounds (size1 \<le> length sizes2)) (ret (take size1 sizes2))"

definition buffer_2dvar_in :: "'a codec \<Rightarrow> 'a list list \<Rightarrow> nat \<Rightarrow> u64 list \<Rightarrow> (hstate, 'a list list) act" where
  "buffer_2dvar_in c ptr size1 sizes2 = dispatch (\<lambda>mode. case mode of
      CLI_SEND \<Rightarrow> bind_act (sizes_upto sizes2 size1) (\<lambda>ss.
        then_act (put_rows c ptr (map unat ss)) (ret ptr))
    | SERV_RECV \<Rightarrow> bind_act (sizes_upto sizes2 size1) (\<lambda>ss.
        bind_act (get_items c (unat (sum_list ss)))
          (\<lambda>all_buf. ret (split_rows (map unat ss) all_buf)))
    | _ \<Rightarrow> ret ptr)"

definition buffer_2dvar_out :: "'a codec \<Rightarrow> 'a list list \<Rightarrow> nat \<Rightarrow> u64 list \<Rightarrow> (hstate, 'a list list) act" where
  "buffer_2dvar_out c ptr size1 sizes2 = dispatch (\<lambda>mode. case mode of
      CLI_RECV \<Rightarrow> bind_act (sizes_upto sizes2 size1) (\<lambda>ss. fill_rows c ptr (map unat ss))
    | SERV_RECV \<Rightarrow> bind_act (sizes_upto sizes2 size1) (\<lambda>ss.
        ret (split_rows (map unat ss) (replicate (unat (sum_list ss)) (cnull c))))
    | SERV_SEND \<Rightarrow> bind_act (sizes_upto sizes2 size1) (\<lambda>ss.
        then_act (put_rows c ptr (map unat ss)) (ret ptr))
    | _ \<Rightarrow> ret ptr)"

text \<open>
  Zero-terminated strings: the bytes before the first zero, written with the zero. The total size
  is truncated to 16 bits; reading needs a zero for each string.
\<close>

definition cstr_bytes :: "string \<Rightarrow> bytes" where
  "cstr_bytes s = map byte_of_char (takeWhile (\<lambda>c. c \<noteq> CHR 0x00) s) @ [0]"

fun split_cstrs :: "nat \<Rightarrow> bytes \<Rightarrow> (hstate, string list) act" where
  "split_cstrs 0 bs = ret []"
| "split_cstrs (Suc n) bs = then_act (in_bounds (0 \<in> set bs))
    (bind_act (split_cstrs n (tl (dropWhile (\<lambda>b. b \<noteq> 0) bs)))
      (\<lambda>ss. ret (map char_of_byte (takeWhile (\<lambda>b. b \<noteq> 0) bs) # ss)))"

definition buffer_2d_in_cstr :: "string list \<Rightarrow> nat \<Rightarrow> (hstate, string list) act" where
  "buffer_2d_in_cstr ptr size1 = dispatch (\<lambda>mode. case mode of
      CLI_SEND \<Rightarrow> then_act (in_bounds (size1 \<le> length ptr))
        (let strs = map cstr_bytes (take size1 ptr) in
         then_act (h_write (sb_serial_raw (of_nat (sum_list (map length strs)) :: u16)))
         (then_act (iter_act h_write strs) (ret ptr)))
    | SERV_RECV \<Rightarrow> bind_act (h_read (sb_unserial_raw :: (in_buff, u16) act)) (\<lambda>total_size.
        bind_act (h_read (sib_read (ucast total_size))) (\<lambda>full_buf. split_cstrs size1 full_buf))
    | _ \<Rightarrow> ret ptr)"

section \<open>What an action writes and reads\<close>

definition emits :: "hmode \<Rightarrow> (hstate, 'a) act \<Rightarrow> bytes \<Rightarrow> 'a \<Rightarrow> bool" where
  "emits mode m bs x \<longleftrightarrow> (\<forall>h. h_mode h = mode \<longrightarrow> m h = (Ret x, h\<lparr>h_out := h_out h @ bs\<rparr>))"

definition consumes :: "hmode \<Rightarrow> (hstate, 'a) act \<Rightarrow> bytes \<Rightarrow> 'a \<Rightarrow> bool" where
  "consumes mode m bs x \<longleftrightarrow> (\<forall>h ys. h_mode h = mode \<longrightarrow> in_ok (h_in h) \<longrightarrow> in_rest (h_in h) = bs @ ys \<longrightarrow>
    m h = (Ret x, h\<lparr>h_in := in_skip (length bs) (h_in h)\<rparr>))"

text \<open>One side runs \<open>m\<close> in mode \<open>sm\<close> and writes, the other runs \<open>n\<close> in mode \<open>rm\<close> on what was written.\<close>

definition transfers :: "hmode \<Rightarrow> hmode \<Rightarrow> (hstate, 'a) act \<Rightarrow> (hstate, 'b) act \<Rightarrow> 'a \<Rightarrow> 'b \<Rightarrow> bool" where
  "transfers sm rm m n x y \<longleftrightarrow> (\<exists>bs. emits sm m bs x \<and> consumes rm n bs y)"

named_theorems transfers_rules \<open>what the operations of the handler transfer\<close>

lemma emits_ret: "emits mode (ret x) [] x"
  by (simp add: emits_def)

lemma emits_bind: "emits mode m bs x \<Longrightarrow> emits mode (f x) bs' y \<Longrightarrow> emits mode (bind_act m f) (bs @ bs') y"
  by (simp add: emits_def bind_act_def)

lemma emits_then: "emits mode m bs x \<Longrightarrow> emits mode n bs' y \<Longrightarrow> emits mode (then_act m n) (bs @ bs') y"
  by (simp add: then_act_def emits_bind)

lemma emits_then_ret: "emits mode m bs () \<Longrightarrow> emits mode (then_act m (ret x)) bs x"
  using emits_then [OF _ emits_ret] by fastforce

lemma emits_write: "emits mode (h_write bs) bs ()"
  by (simp add: emits_def h_write_def lift_act_def sob_write_def)

lemma emits_in_bounds: "b \<Longrightarrow> emits mode m bs x \<Longrightarrow> emits mode (then_act (in_bounds b) m) bs x"
  by (simp add: emits_def)

lemma emits_dispatch: "emits mode (f mode) bs x \<Longrightarrow> emits mode (dispatch f) bs x"
  by (simp add: emits_def dispatch_def)

lemma emits_iter:
  "(\<And>x. x \<in> set xs \<Longrightarrow> emits mode (f x) (g x) ()) \<Longrightarrow> emits mode (iter_act f xs) (concat (map g xs)) ()"
  by (induction xs) (auto intro!: emits_ret emits_then)

lemma consumes_ret: "consumes mode (ret x) [] x"
  by (simp add: consumes_def)

lemma consumes_bind:
  "consumes mode m bs x \<Longrightarrow> consumes mode (f x) bs' y \<Longrightarrow> consumes mode (bind_act m f) (bs @ bs') y"
  unfolding consumes_def by (auto simp: bind_act_def in_skip_rest)

lemma consumes_bind_ret: "consumes mode m bs x \<Longrightarrow> y = g x \<Longrightarrow> consumes mode (bind_act m (\<lambda>x. ret (g x))) bs y"
  using consumes_bind [of mode m bs x "\<lambda>x. ret (g x)" "[]"] consumes_ret by fastforce

lemma consumes_read: "parses m bs x \<Longrightarrow> consumes mode (h_read m) bs x"
  by (simp add: consumes_def parses_def h_read_def lift_act_def)

lemma consumes_in_bounds: "b \<Longrightarrow> consumes mode m bs x \<Longrightarrow> consumes mode (then_act (in_bounds b) m) bs x"
  by (simp add: consumes_def)

lemma consumes_dispatch: "consumes mode (f mode) bs x \<Longrightarrow> consumes mode (dispatch f) bs x"
  by (simp add: consumes_def dispatch_def)

lemma transfersI: "emits sm m bs x \<Longrightarrow> consumes rm n bs y \<Longrightarrow> transfers sm rm m n x y"
  by (auto simp: transfers_def)

lemma transfers_ret [transfers_rules]: "transfers sm rm (ret x) (ret y) x y"
  by (rule transfersI [OF emits_ret consumes_ret])

lemma transfers_bind [transfers_rules]:
  "transfers sm rm m n x y \<Longrightarrow> transfers sm rm (f x) (g y) x' y' \<Longrightarrow>
    transfers sm rm (bind_act m f) (bind_act n g) x' y'"
  by (auto simp: transfers_def intro: transfersI [unfolded transfers_def, OF emits_bind consumes_bind])

section \<open>The contract of a serializable type\<close>

locale item_codec =
  fixes c :: "'a codec" and valid :: "'a \<Rightarrow> bool"
  assumes item_codec: "codec_api (cenc c) (cdec c) valid"
begin

lemma consumes_item: "valid x \<Longrightarrow> consumes mode (get_item c) (cenc c x) x"
  unfolding get_item_def by (intro consumes_read codec_api.dec_enc [OF item_codec])

lemma emits_item: "emits mode (put_item c x) (cenc c x) ()"
  unfolding put_item_def by (rule emits_write)

lemma emits_items: "n \<le> length xs \<Longrightarrow> emits mode (put_items c xs n) (concat (map (cenc c) (take n xs))) ()"
  unfolding put_items_def by (intro emits_in_bounds emits_iter emits_item)

lemma emits_put: "length xs = n \<Longrightarrow> emits mode (then_act (put_items c xs n) (ret y)) (concat (map (cenc c) xs)) y"
  using emits_then_ret [OF emits_items [of n xs]] by simp

lemma consumes_items:
  "\<forall>x \<in> set xs. valid x \<Longrightarrow> length xs = n \<Longrightarrow>
    consumes mode (get_items c n) (concat (map (cenc c) xs)) xs"
  unfolding get_items_def
  by (induction xs arbitrary: n)
    (auto intro!: consumes_ret consumes_bind consumes_bind_ret consumes_item)

lemma consumes_fill:
  "\<forall>x \<in> set xs. valid x \<Longrightarrow> length xs = n \<Longrightarrow> n \<le> length ys \<Longrightarrow>
    consumes mode (fill_items c ys n) (concat (map (cenc c) xs)) (xs @ drop n ys)"
  unfolding fill_items_def by (intro consumes_in_bounds consumes_bind_ret [OF consumes_items]) simp_all

lemma object_in_request [transfers_rules]:
  "valid x \<Longrightarrow> transfers CLI_SEND SERV_RECV (object_in c x) (object_in c y) x x"
  unfolding object_in_def
  by (rule transfersI [where bs = "cenc c x", OF emits_dispatch consumes_dispatch])
    (simp_all add: emits_then_ret [OF emits_item] consumes_item)

lemma object_out_request [transfers_rules]:
  "transfers CLI_SEND SERV_RECV (object_out c x) (object_out c y) x y"
  unfolding object_out_def
  by (rule transfersI [where bs = "[]", OF emits_dispatch consumes_dispatch])
    (simp_all add: emits_ret consumes_ret)

lemma object_in_response [transfers_rules]:
  "transfers SERV_SEND CLI_RECV (object_in c x) (object_in c y) x y"
  unfolding object_in_def
  by (rule transfersI [where bs = "[]", OF emits_dispatch consumes_dispatch])
    (simp_all add: emits_ret consumes_ret)

lemma object_out_response [transfers_rules]:
  "valid x \<Longrightarrow> transfers SERV_SEND CLI_RECV (object_out c x) (object_out c y) x x"
  unfolding object_out_def
  by (rule transfersI [where bs = "cenc c x", OF emits_dispatch consumes_dispatch])
    (simp_all add: emits_then_ret [OF emits_item] consumes_item)

lemma buffer_in_request [transfers_rules]:
  "length xs = n \<Longrightarrow> \<forall>x \<in> set xs. valid x \<Longrightarrow>
    transfers CLI_SEND SERV_RECV (buffer_in c xs n) (buffer_in c ys n) xs xs"
  unfolding buffer_in_def
  by (rule transfersI [where bs = "concat (map (cenc c) xs)", OF emits_dispatch consumes_dispatch])
    (simp_all add: emits_put consumes_items)

lemma buffer_out_request [transfers_rules]:
  "transfers CLI_SEND SERV_RECV (buffer_out c xs n) (buffer_out c ys n) xs (replicate n (cnull c))"
  unfolding buffer_out_def
  by (rule transfersI [where bs = "[]", OF emits_dispatch consumes_dispatch])
    (simp_all add: emits_ret consumes_ret)

lemma buffer_in_response [transfers_rules]:
  "transfers SERV_SEND CLI_RECV (buffer_in c xs n) (buffer_in c ys k) xs ys"
  unfolding buffer_in_def
  by (rule transfersI [where bs = "[]", OF emits_dispatch consumes_dispatch])
    (simp_all add: emits_ret consumes_ret)

lemma buffer_out_response [transfers_rules]:
  "length xs = n \<Longrightarrow> length ys = n \<Longrightarrow> \<forall>x \<in> set xs. valid x \<Longrightarrow>
    transfers SERV_SEND CLI_RECV (buffer_out c xs n) (buffer_out c ys n) xs xs"
  unfolding buffer_out_def
  by (rule transfersI [where bs = "concat (map (cenc c) xs)", OF emits_dispatch consumes_dispatch])
    (use consumes_fill [of xs n ys CLI_RECV] in \<open>simp_all add: emits_put\<close>)

end

section \<open>Rows and strings\<close>

lemma split_rows_concat: "map length rows = ns \<Longrightarrow> split_rows ns (concat rows) = rows"
  by (induction rows arbitrary: ns) auto

lemma split_rows_replicate:
  "split_rows ns (replicate (sum_list ns) x) = map (\<lambda>n. replicate n x) ns"
  by (induction ns) (simp_all add: replicate_add)

lemma length_concat_rows: "map length rows = ns \<Longrightarrow> length (concat rows) = sum_list ns"
  by (auto simp: length_concat)

lemma emits_rows:
  "map length rows = ns \<Longrightarrow> emits mode (put_rows c rows ns) (concat (map (cenc c) (concat rows))) ()"
proof -
  have "emits mode (iter_act (\<lambda>(row, n). put_items c row n) (zip rows (map length rows)))
    (concat (map (\<lambda>(row, n). concat (map (cenc c) row)) (zip rows (map length rows)))) ()"
    by (rule emits_iter)
      (auto simp: zip_map2 zip_same put_items_def put_item_def intro!: emits_in_bounds emits_iter emits_write)
  also have "concat (map (\<lambda>(row, n). concat (map (cenc c) row)) (zip rows (map length rows))) =
      concat (map (cenc c) (concat rows))"
    by (induction rows) auto
  finally show "map length rows = ns \<Longrightarrow> ?thesis"
    unfolding put_rows_def by (intro emits_in_bounds) auto
qed

lemma sizes_upto_all: "length ss = n \<Longrightarrow> sizes_upto ss n = ret ss"
  by (simp add: sizes_upto_def fun_eq_iff)

context item_codec
begin

lemma consumes_rows:
  assumes "map length rows = ns" "map length ys = ns" "\<forall>x \<in> set (concat rows). valid x"
  shows "consumes mode (fill_rows c ys ns) (concat (map (cenc c) (concat rows))) rows"
proof -
  have "consumes mode (map_act (\<lambda>(row, n). fill_items c row n) (zip ys ns))
    (concat (map (cenc c) (concat rows))) rows"
    using assms
  proof (induction rows arbitrary: ys ns)
    case (Cons row rows)
    then obtain y ys' where ys: "ys = y # ys'" "length y = length row" by (cases ys) auto
    have "consumes mode (fill_items c y (length row)) (concat (map (cenc c) row)) row"
      using consumes_fill [of row "length row" y mode] Cons.prems ys by simp
    moreover have "consumes mode (map_act (\<lambda>(row, n). fill_items c row n) (zip ys' (map length rows)))
      (concat (map (cenc c) (concat rows))) rows"
      using Cons.prems ys by (intro Cons.IH) auto
    ultimately show ?case
      using Cons.prems ys by (auto intro!: consumes_bind consumes_bind_ret)
  qed (simp add: consumes_ret)
  moreover have "length ns = length ys" using assms(2) by auto
  ultimately show ?thesis
    unfolding fill_rows_def by (intro consumes_in_bounds consumes_bind_ret) simp_all
qed

lemma consumes_split:
  "map length rows = ns \<Longrightarrow> \<forall>x \<in> set (concat rows). valid x \<Longrightarrow> k = sum_list ns \<Longrightarrow>
    consumes mode (bind_act (get_items c k) (\<lambda>all_buf. ret (split_rows ns all_buf)))
      (concat (map (cenc c) (concat rows))) rows"
  by (intro consumes_bind_ret [OF consumes_items]) (simp_all add: length_concat_rows split_rows_concat)

lemma unat_rows: "n * unat sz < 2 ^ 64 \<Longrightarrow> n < 2 ^ 16 \<Longrightarrow> unat (of_nat n * sz :: u64) = sum_list (replicate n (unat sz))"
  by (simp add: unat_word_ariths sum_list_replicate unat_of_nat_id)

lemma buffer_2d_in_request [transfers_rules]:
  "map length rows = replicate n (unat sz) \<Longrightarrow> n * unat sz < 2 ^ 64 \<Longrightarrow> n < 2 ^ 16 \<Longrightarrow>
    \<forall>x \<in> set (concat rows). valid x \<Longrightarrow>
    transfers CLI_SEND SERV_RECV (buffer_2d_in c rows n sz) (buffer_2d_in c ys n sz) rows rows"
  unfolding buffer_2d_in_def
  by (rule transfersI [where bs = "concat (map (cenc c) (concat rows))", OF emits_dispatch consumes_dispatch])
    (simp_all add: emits_then_ret [OF emits_rows] consumes_split unat_rows)

lemma buffer_2d_out_request [transfers_rules]:
  "n * unat sz < 2 ^ 64 \<Longrightarrow> n < 2 ^ 16 \<Longrightarrow>
    transfers CLI_SEND SERV_RECV (buffer_2d_out c rows n sz) (buffer_2d_out c ys n sz) rows
      (replicate n (replicate (unat sz) (cnull c)))"
  unfolding buffer_2d_out_def
  by (rule transfersI [where bs = "[]", OF emits_dispatch consumes_dispatch])
    (simp_all add: emits_ret consumes_ret unat_rows split_rows_replicate)

lemma buffer_2d_in_response [transfers_rules]:
  "transfers SERV_SEND CLI_RECV (buffer_2d_in c rows n sz) (buffer_2d_in c ys k sz') rows ys"
  unfolding buffer_2d_in_def
  by (rule transfersI [where bs = "[]", OF emits_dispatch consumes_dispatch])
    (simp_all add: emits_ret consumes_ret)

lemma buffer_2d_out_response [transfers_rules]:
  "map length rows = replicate n (unat sz) \<Longrightarrow> map length ys = replicate n (unat sz) \<Longrightarrow>
    \<forall>x \<in> set (concat rows). valid x \<Longrightarrow>
    transfers SERV_SEND CLI_RECV (buffer_2d_out c rows n sz) (buffer_2d_out c ys n sz) rows rows"
  unfolding buffer_2d_out_def
  by (rule transfersI [where bs = "concat (map (cenc c) (concat rows))", OF emits_dispatch consumes_dispatch])
    (simp_all add: emits_then_ret [OF emits_rows] consumes_rows)

lemma unat_sum_list: "sum_list (map unat ss) < 2 ^ 64 \<Longrightarrow> unat (sum_list ss :: u64) = sum_list (map unat ss)"
  by (induction ss) (simp_all add: unat_word_ariths)

lemma buffer_2dvar_in_request [transfers_rules]:
  "map length rows = map unat ss \<Longrightarrow> length ss = n \<Longrightarrow> sum_list (map unat ss) < 2 ^ 64 \<Longrightarrow>
    \<forall>x \<in> set (concat rows). valid x \<Longrightarrow>
    transfers CLI_SEND SERV_RECV (buffer_2dvar_in c rows n ss) (buffer_2dvar_in c ys n ss) rows rows"
  unfolding buffer_2dvar_in_def
  by (rule transfersI [where bs = "concat (map (cenc c) (concat rows))", OF emits_dispatch consumes_dispatch])
    (simp_all add: emits_then_ret [OF emits_rows] consumes_split unat_sum_list sizes_upto_all)

lemma buffer_2dvar_out_request [transfers_rules]:
  "length ss = n \<Longrightarrow> sum_list (map unat ss) < 2 ^ 64 \<Longrightarrow>
    transfers CLI_SEND SERV_RECV (buffer_2dvar_out c rows n ss) (buffer_2dvar_out c ys n ss) rows
      (map (\<lambda>s. replicate (unat s) (cnull c)) ss)"
  unfolding buffer_2dvar_out_def
  by (rule transfersI [where bs = "[]", OF emits_dispatch consumes_dispatch])
    (simp_all add: emits_ret consumes_def unat_sum_list split_rows_replicate sizes_upto_all comp_def)

lemma buffer_2dvar_in_response [transfers_rules]:
  "transfers SERV_SEND CLI_RECV (buffer_2dvar_in c rows n ss) (buffer_2dvar_in c ys k ss') rows ys"
  unfolding buffer_2dvar_in_def
  by (rule transfersI [where bs = "[]", OF emits_dispatch consumes_dispatch])
    (simp_all add: emits_ret consumes_ret)

lemma buffer_2dvar_out_response [transfers_rules]:
  "map length rows = map unat ss \<Longrightarrow> map length ys = map unat ss \<Longrightarrow> length ss = n \<Longrightarrow>
    \<forall>x \<in> set (concat rows). valid x \<Longrightarrow>
    transfers SERV_SEND CLI_RECV (buffer_2dvar_out c rows n ss) (buffer_2dvar_out c ys n ss) rows rows"
  unfolding buffer_2dvar_out_def
  by (rule transfersI [where bs = "concat (map (cenc c) (concat rows))", OF emits_dispatch consumes_dispatch])
    (simp_all add: emits_then_ret [OF emits_rows] consumes_rows sizes_upto_all)

end

definition cstr_ok :: "string \<Rightarrow> bool" where
  "cstr_ok s \<longleftrightarrow> CHR 0x00 \<notin> set s"

lemma byte_of_char_0: "byte_of_char c = 0 \<longleftrightarrow> c = CHR 0x00"
proof
  assume "byte_of_char c = 0"
  then have "c = char_of_byte 0" by (metis char_of_byte_of_char)
  then show "c = CHR 0x00" by (simp add: char_of_byte_def char_of_def)
qed (simp add: byte_of_char_def)

lemma cstr_bytes_ok: "cstr_ok s \<Longrightarrow> cstr_bytes s = map byte_of_char s @ [0] \<and> 0 \<notin> set (map byte_of_char s)"
proof -
  assume s: "cstr_ok s"
  then have tw: "takeWhile (\<lambda>c. c \<noteq> CHR 0x00) s = s"
    by (auto simp: cstr_ok_def takeWhile_eq_all_conv)
  have "0 \<notin> byte_of_char ` set s" using s byte_of_char_0 unfolding cstr_ok_def by (metis imageE)
  then show ?thesis unfolding cstr_bytes_def tw by simp
qed

lemma split_cstrs_concat:
  "\<forall>s \<in> set ss. cstr_ok s \<Longrightarrow> length ss = n \<Longrightarrow> split_cstrs n (concat (map cstr_bytes ss)) = ret ss"
proof (induction ss arbitrary: n)
  case (Cons s ss)
  then have s: "cstr_bytes s = map byte_of_char s @ [0]" "0 \<notin> set (map byte_of_char s)"
    using cstr_bytes_ok by auto
  let ?rest = "concat (map cstr_bytes ss)"
  have "takeWhile (\<lambda>b. b \<noteq> 0) (map byte_of_char s @ 0 # ?rest) = map byte_of_char s"
    "tl (dropWhile (\<lambda>b. b \<noteq> 0) (map byte_of_char s @ 0 # ?rest)) = ?rest"
    using s(2) by (subst takeWhile_append2 dropWhile_append2; auto)+
  then show ?case
    using Cons s(1) by (auto simp: fun_eq_iff comp_def bind_act_def)
qed simp

lemma buffer_2d_in_cstr_request [transfers_rules]:
  assumes "length ss = n" "\<forall>s \<in> set ss. cstr_ok s" "sum_list (map length (map cstr_bytes ss)) < 2 ^ 16"
  shows "transfers CLI_SEND SERV_RECV (buffer_2d_in_cstr ss n) (buffer_2d_in_cstr ys n) ss ss"
proof -
  let ?total = "of_nat (sum_list (map length (map cstr_bytes ss))) :: u16"
  let ?bs = "concat (map cstr_bytes ss)"
  have len: "length ?bs = unat (ucast ?total :: u64)"
    using assms(3) by (simp add: length_concat comp_def unsigned_ucast_eq unsigned_of_nat take_bit_nat_eq_self)
  have "emits CLI_SEND (buffer_2d_in_cstr ss n) (sb_serial_raw ?total @ ?bs) ss"
    unfolding buffer_2d_in_cstr_def
    using assms(1) emits_iter [of "map cstr_bytes ss" CLI_SEND h_write id]
    by (intro emits_dispatch)
      (simp add: Let_def emits_write emits_in_bounds emits_then [OF emits_write emits_then_ret])
  moreover have "consumes SERV_RECV (buffer_2d_in_cstr ys n) (sb_serial_raw ?total @ ?bs) ss"
  proof -
    have "consumes SERV_RECV (bind_act (h_read (sib_read (ucast ?total))) (split_cstrs n)) (?bs @ []) ss"
      using split_cstrs_concat [OF assms(2,1)] consumes_ret [of SERV_RECV ss]
      by (intro consumes_bind [OF consumes_read [OF parses_read [OF len]]]) simp
    then show ?thesis
      unfolding buffer_2d_in_cstr_def
      by (intro consumes_dispatch) (simp add: consumes_bind [OF consumes_read [OF u16c.dec_enc]])
  qed
  ultimately show ?thesis by (rule transfersI)
qed

lemma buffer_2d_in_cstr_response [transfers_rules]:
  "transfers SERV_SEND CLI_RECV (buffer_2d_in_cstr ss n) (buffer_2d_in_cstr ys k) ss ys"
  unfolding buffer_2d_in_cstr_def
  by (rule transfersI [where bs = "[]", OF emits_dispatch consumes_dispatch])
    (simp_all add: emits_ret consumes_ret)

end
