(* ===== verification/Request.thy ===== *)
theory Request
  imports Request_Handler Vm_Types
begin

text \<open>
  The requests of \<open>include/odb/mess/request.hh\<close> and their (un)serialization in
  \<open>src/mess/request.cc\<close>: one record per struct, one \<open>prepare_request\<close> per struct, the codecs of the
  types that travel. Round trips are proved for every request in both directions.

  A pointer member is the list of the objects it points to. \<open>RegInfos::val\<close> does not travel: the
  receiver's object is a fresh one, with an empty \<open>val\<close>. Scoped enumerations travel as one byte.
\<close>

section \<open>Codecs\<close>

definition raw_codec :: "'a :: len word codec" where
  "raw_codec = \<lparr>cenc = sb_serial_raw, cdec = sb_unserial_raw, cnull = 0\<rparr>"

definition string_codec :: "string codec" where
  "string_codec = \<lparr>cenc = ser_string, cdec = unser_string, cnull = []\<rparr>"

definition vector_codec :: "'a codec \<Rightarrow> 'a list codec" where
  "vector_codec c = \<lparr>cenc = ser_vector (cenc c), cdec = unser_vector (cdec c), cnull = []\<rparr>"

datatype ReqType = CONNECT | STOP | CHECK_STOPPED | GET_REGS | GET_REGS_VAR | SET_REGS | SET_REGS_VAR
  | GET_REGS_INFOS | FIND_REGS_IDS | READ_MEM | READ_MEM_VAR | WRITE_MEM | WRITE_MEM_VAR
  | GET_SYMS_BY_IDS | GET_SYMS_BY_ADDR | GET_SYMS_BY_NAMES | GET_CODE_TEXT | ADD_BKPS | DEL_BKPS
  | RESUME | ERR | ReqType_raw u8

fun byte_of_ReqType :: "ReqType \<Rightarrow> u8" where
  "byte_of_ReqType CONNECT = 0"
| "byte_of_ReqType STOP = 1"
| "byte_of_ReqType CHECK_STOPPED = 2"
| "byte_of_ReqType GET_REGS = 3"
| "byte_of_ReqType GET_REGS_VAR = 4"
| "byte_of_ReqType SET_REGS = 5"
| "byte_of_ReqType SET_REGS_VAR = 6"
| "byte_of_ReqType GET_REGS_INFOS = 7"
| "byte_of_ReqType FIND_REGS_IDS = 8"
| "byte_of_ReqType READ_MEM = 9"
| "byte_of_ReqType READ_MEM_VAR = 10"
| "byte_of_ReqType WRITE_MEM = 11"
| "byte_of_ReqType WRITE_MEM_VAR = 12"
| "byte_of_ReqType GET_SYMS_BY_IDS = 13"
| "byte_of_ReqType GET_SYMS_BY_ADDR = 14"
| "byte_of_ReqType GET_SYMS_BY_NAMES = 15"
| "byte_of_ReqType GET_CODE_TEXT = 16"
| "byte_of_ReqType ADD_BKPS = 17"
| "byte_of_ReqType DEL_BKPS = 18"
| "byte_of_ReqType RESUME = 19"
| "byte_of_ReqType ERR = 100"
| "byte_of_ReqType (ReqType_raw b) = b"

definition ReqType_of_byte :: "u8 \<Rightarrow> ReqType" where
  "ReqType_of_byte b =
    (if b = 0 then CONNECT
     else if b = 1 then STOP
     else if b = 2 then CHECK_STOPPED
     else if b = 3 then GET_REGS
     else if b = 4 then GET_REGS_VAR
     else if b = 5 then SET_REGS
     else if b = 6 then SET_REGS_VAR
     else if b = 7 then GET_REGS_INFOS
     else if b = 8 then FIND_REGS_IDS
     else if b = 9 then READ_MEM
     else if b = 10 then READ_MEM_VAR
     else if b = 11 then WRITE_MEM
     else if b = 12 then WRITE_MEM_VAR
     else if b = 13 then GET_SYMS_BY_IDS
     else if b = 14 then GET_SYMS_BY_ADDR
     else if b = 15 then GET_SYMS_BY_NAMES
     else if b = 16 then GET_CODE_TEXT
     else if b = 17 then ADD_BKPS
     else if b = 18 then DEL_BKPS
     else if b = 19 then RESUME
     else if b = 100 then ERR
     else ReqType_raw b)"

definition ReqType_codec :: "ReqType codec" where
  "ReqType_codec = \<lparr>cenc = (\<lambda>e. sb_serial_raw (byte_of_ReqType e)),
    cdec = bind_act sb_unserial_raw (\<lambda>b. ret (ReqType_of_byte b)), cnull = CONNECT\<rparr>"

definition ReqType_ok :: "ReqType \<Rightarrow> bool" where
  "ReqType_ok e \<longleftrightarrow> ReqType_of_byte (byte_of_ReqType e) = e"

fun byte_of_StoppedState :: "StoppedState \<Rightarrow> u8" where
  "byte_of_StoppedState SS_READY = 0"
| "byte_of_StoppedState SS_EXIT = 1"
| "byte_of_StoppedState SS_ERROR = 2"
| "byte_of_StoppedState (StoppedState_raw b) = b"

definition StoppedState_of_byte :: "u8 \<Rightarrow> StoppedState" where
  "StoppedState_of_byte b =
    (if b = 0 then SS_READY
     else if b = 1 then SS_EXIT
     else if b = 2 then SS_ERROR
     else StoppedState_raw b)"

definition StoppedState_codec :: "StoppedState codec" where
  "StoppedState_codec = \<lparr>cenc = (\<lambda>e. sb_serial_raw (byte_of_StoppedState e)),
    cdec = bind_act sb_unserial_raw (\<lambda>b. ret (StoppedState_of_byte b)), cnull = SS_READY\<rparr>"

definition StoppedState_ok :: "StoppedState \<Rightarrow> bool" where
  "StoppedState_ok e \<longleftrightarrow> StoppedState_of_byte (byte_of_StoppedState e) = e"

fun byte_of_RegKind :: "RegKind \<Rightarrow> u8" where
  "byte_of_RegKind general = 0"
| "byte_of_RegKind program_counter = 1"
| "byte_of_RegKind stack_pointer = 2"
| "byte_of_RegKind base_pointer = 3"
| "byte_of_RegKind flags = 4"
| "byte_of_RegKind (RegKind_raw b) = b"

definition RegKind_of_byte :: "u8 \<Rightarrow> RegKind" where
  "RegKind_of_byte b =
    (if b = 0 then general
     else if b = 1 then program_counter
     else if b = 2 then stack_pointer
     else if b = 3 then base_pointer
     else if b = 4 then flags
     else RegKind_raw b)"

definition RegKind_codec :: "RegKind codec" where
  "RegKind_codec = \<lparr>cenc = (\<lambda>e. sb_serial_raw (byte_of_RegKind e)),
    cdec = bind_act sb_unserial_raw (\<lambda>b. ret (RegKind_of_byte b)), cnull = general\<rparr>"

definition RegKind_ok :: "RegKind \<Rightarrow> bool" where
  "RegKind_ok e \<longleftrightarrow> RegKind_of_byte (byte_of_RegKind e) = e"

fun byte_of_ResumeType :: "ResumeType \<Rightarrow> u8" where
  "byte_of_ResumeType ToFinish = 0"
| "byte_of_ResumeType Continue = 1"
| "byte_of_ResumeType Step = 2"
| "byte_of_ResumeType StepOver = 3"
| "byte_of_ResumeType StepOut = 4"
| "byte_of_ResumeType (ResumeType_raw b) = b"

definition ResumeType_of_byte :: "u8 \<Rightarrow> ResumeType" where
  "ResumeType_of_byte b =
    (if b = 0 then ToFinish
     else if b = 1 then Continue
     else if b = 2 then Step
     else if b = 3 then StepOver
     else if b = 4 then StepOut
     else ResumeType_raw b)"

definition ResumeType_codec :: "ResumeType codec" where
  "ResumeType_codec = \<lparr>cenc = (\<lambda>e. sb_serial_raw (byte_of_ResumeType e)),
    cdec = bind_act sb_unserial_raw (\<lambda>b. ret (ResumeType_of_byte b)), cnull = ToFinish\<rparr>"

definition ResumeType_ok :: "ResumeType \<Rightarrow> bool" where
  "ResumeType_ok e \<longleftrightarrow> ResumeType_of_byte (byte_of_ResumeType e) = e"

text \<open>A \<open>bool\<close> travels as a \<open>uint8_t\<close>.\<close>

definition bool_codec :: "bool codec" where
  "bool_codec = \<lparr>cenc = (\<lambda>b. sb_serial_raw ((if b then 1 else 0) :: u8)),
    cdec = bind_act (sb_unserial_raw :: (in_buff, u8) act) (\<lambda>b. ret (b \<noteq> 0)), cnull = False\<rparr>"

definition ser_VMInfos :: "VMInfos \<Rightarrow> bytes" where
  "ser_VMInfos x =
    cenc string_codec (vi_name x) @
    cenc raw_codec (vi_regs_count x) @
    cenc (vector_codec raw_codec) (vi_regs_general x) @
    cenc (vector_codec raw_codec) (vi_regs_program_counter x) @
    cenc (vector_codec raw_codec) (vi_regs_stack_pointer x) @
    cenc (vector_codec raw_codec) (vi_regs_base_pointer x) @
    cenc (vector_codec raw_codec) (vi_regs_flags x) @
    cenc raw_codec (vi_memory_size x) @
    cenc raw_codec (vi_symbols_count x) @
    cenc raw_codec (vi_pointer_size x) @
    cenc raw_codec (vi_integer_size x) @
    cenc bool_codec (vi_use_opcode x)"

definition unser_VMInfos :: "(in_buff, VMInfos) act" where
  "unser_VMInfos =
    bind_act (cdec string_codec) (\<lambda>f0.
    bind_act (cdec raw_codec) (\<lambda>f1.
    bind_act (cdec (vector_codec raw_codec)) (\<lambda>f2.
    bind_act (cdec (vector_codec raw_codec)) (\<lambda>f3.
    bind_act (cdec (vector_codec raw_codec)) (\<lambda>f4.
    bind_act (cdec (vector_codec raw_codec)) (\<lambda>f5.
    bind_act (cdec (vector_codec raw_codec)) (\<lambda>f6.
    bind_act (cdec raw_codec) (\<lambda>f7.
    bind_act (cdec raw_codec) (\<lambda>f8.
    bind_act (cdec raw_codec) (\<lambda>f9.
    bind_act (cdec raw_codec) (\<lambda>f10.
    bind_act (cdec bool_codec) (\<lambda>f11.
    ret \<lparr>vi_name = f0, vi_regs_count = f1, vi_regs_general = f2, vi_regs_program_counter = f3, vi_regs_stack_pointer = f4, vi_regs_base_pointer = f5, vi_regs_flags = f6, vi_memory_size = f7, vi_symbols_count = f8, vi_pointer_size = f9, vi_integer_size = f10, vi_use_opcode = f11\<rparr>))))))))))))"

definition VMInfos_codec :: "VMInfos codec" where
  "VMInfos_codec = \<lparr>cenc = ser_VMInfos, cdec = unser_VMInfos, cnull =
    \<lparr>vi_name = [], vi_regs_count = 0, vi_regs_general = [], vi_regs_program_counter = [],
     vi_regs_stack_pointer = [], vi_regs_base_pointer = [], vi_regs_flags = [], vi_memory_size = 0,
     vi_symbols_count = 0, vi_pointer_size = 0, vi_integer_size = 0, vi_use_opcode = False\<rparr>\<rparr>"

definition ser_CallInfos :: "CallInfos \<Rightarrow> bytes" where
  "ser_CallInfos x =
    cenc raw_codec (caller_start_addr x) @
    cenc raw_codec (call_addr x)"

definition unser_CallInfos :: "(in_buff, CallInfos) act" where
  "unser_CallInfos =
    bind_act (cdec raw_codec) (\<lambda>f0.
    bind_act (cdec raw_codec) (\<lambda>f1.
    ret \<lparr>caller_start_addr = f0, call_addr = f1\<rparr>))"

definition CallInfos_codec :: "CallInfos codec" where
  "CallInfos_codec = \<lparr>cenc = ser_CallInfos, cdec = unser_CallInfos, cnull =
    \<lparr>caller_start_addr = 0, call_addr = 0\<rparr>\<rparr>"

definition ser_DBClientUpdate :: "DBClientUpdate \<Rightarrow> bytes" where
  "ser_DBClientUpdate x =
    cenc StoppedState_codec (up_vm_state x) @
    cenc bool_codec (up_stopped x) @
    cenc raw_codec (up_addr x) @
    cenc (vector_codec CallInfos_codec) (up_stack x)"

definition unser_DBClientUpdate :: "(in_buff, DBClientUpdate) act" where
  "unser_DBClientUpdate =
    bind_act (cdec StoppedState_codec) (\<lambda>f0.
    bind_act (cdec bool_codec) (\<lambda>f1.
    bind_act (cdec raw_codec) (\<lambda>f2.
    bind_act (cdec (vector_codec CallInfos_codec)) (\<lambda>f3.
    ret \<lparr>up_vm_state = f0, up_stopped = f1, up_addr = f2, up_stack = f3\<rparr>))))"

definition DBClientUpdate_codec :: "DBClientUpdate codec" where
  "DBClientUpdate_codec = \<lparr>cenc = ser_DBClientUpdate, cdec = unser_DBClientUpdate, cnull =
    \<lparr>up_vm_state = SS_READY, up_stopped = False, up_addr = 0, up_stack = []\<rparr>\<rparr>"

definition ser_RegInfos :: "RegInfos \<Rightarrow> bytes" where
  "ser_RegInfos x =
    cenc raw_codec (ri_idx x) @
    cenc string_codec (ri_name x) @
    cenc raw_codec (ri_size x) @
    cenc RegKind_codec (ri_kind x)"

definition unser_RegInfos :: "(in_buff, RegInfos) act" where
  "unser_RegInfos =
    bind_act (cdec raw_codec) (\<lambda>f0.
    bind_act (cdec string_codec) (\<lambda>f1.
    bind_act (cdec raw_codec) (\<lambda>f2.
    bind_act (cdec RegKind_codec) (\<lambda>f3.
    ret \<lparr>ri_idx = f0, ri_name = f1, ri_size = f2, ri_kind = f3, ri_val = []\<rparr>))))"

definition RegInfos_codec :: "RegInfos codec" where
  "RegInfos_codec = \<lparr>cenc = ser_RegInfos, cdec = unser_RegInfos, cnull =
    \<lparr>ri_idx = 0, ri_name = [], ri_size = 0, ri_kind = general, ri_val = []\<rparr>\<rparr>"

definition ser_SymbolInfos :: "SymbolInfos \<Rightarrow> bytes" where
  "ser_SymbolInfos x =
    cenc raw_codec (si_idx x) @
    cenc string_codec (si_name x) @
    cenc raw_codec (si_addr x)"

definition unser_SymbolInfos :: "(in_buff, SymbolInfos) act" where
  "unser_SymbolInfos =
    bind_act (cdec raw_codec) (\<lambda>f0.
    bind_act (cdec string_codec) (\<lambda>f1.
    bind_act (cdec raw_codec) (\<lambda>f2.
    ret \<lparr>si_idx = f0, si_name = f1, si_addr = f2\<rparr>)))"

definition SymbolInfos_codec :: "SymbolInfos codec" where
  "SymbolInfos_codec = \<lparr>cenc = ser_SymbolInfos, cdec = unser_SymbolInfos, cnull =
    \<lparr>si_idx = 0, si_name = [], si_addr = 0\<rparr>\<rparr>"

section \<open>Requests\<close>

record ReqConnect =
  cn_out_infos :: VMInfos
  cn_out_udp :: DBClientUpdate

record ReqStop =
  st_tag :: int

record ReqCheckStopped =
  cs_out_udp :: DBClientUpdate

record ReqGetRegs =
  gr_nregs :: u16
  gr_reg_size :: vm_size_t
  gr_ids :: "vm_reg_t list"
  gr_out_bufs :: "u8 list list"

record ReqGetRegsVar =
  grv_nregs :: u16
  grv_in_ids :: "vm_reg_t list"
  grv_in_regs_size :: "vm_size_t list"
  grv_out_bufs :: "u8 list list"

record ReqSetRegs =
  sr_nregs :: u16
  sr_reg_size :: vm_size_t
  sr_in_ids :: "vm_reg_t list"
  sr_in_bufs :: "u8 list list"

record ReqSetRegsVar =
  srv_nregs :: u16
  srv_in_ids :: "vm_reg_t list"
  srv_in_regs_size :: "vm_size_t list"
  srv_in_bufs :: "u8 list list"

record ReqGetRegsInfos =
  gri_nregs :: u16
  gri_ids :: "vm_reg_t list"
  gri_out_infos :: "RegInfos list"

record ReqFindRegsIds =
  fri_nregs :: u16
  fri_in_bufs :: "string list"
  fri_out_ids :: "vm_reg_t list"

record ReqReadMem =
  rm_nbufs :: u16
  rm_buf_size :: vm_size_t
  rm_in_addrs :: "vm_ptr_t list"
  rm_out_bufs :: "u8 list list"

record ReqReadMemVar =
  rmv_nbufs :: u16
  rmv_in_addrs :: "vm_ptr_t list"
  rmv_in_bufs_size :: "vm_size_t list"
  rmv_out_bufs :: "u8 list list"

record ReqWriteMem =
  wm_nbufs :: u16
  wm_buf_size :: vm_size_t
  wm_in_addrs :: "vm_ptr_t list"
  wm_in_bufs :: "u8 list list"

record ReqWriteMemVar =
  wmv_nbufs :: u16
  wmv_in_addrs :: "vm_ptr_t list"
  wmv_in_bufs_size :: "vm_size_t list"
  wmv_in_bufs :: "u8 list list"

record ReqGetSymsByIds =
  gsi_nsyms :: u16
  gsi_in_ids :: "vm_sym_t list"
  gsi_out_infos :: "SymbolInfos list"

record ReqGetSymsByAddr =
  gsa_addr :: vm_ptr_t
  gsa_size :: vm_size_t
  gsa_out_infos :: "SymbolInfos list"

record ReqGetSymsByNames =
  gsn_nsyms :: u16
  gsn_in_names :: "string list"
  gsn_out_infos :: "SymbolInfos list"

record ReqGetCodeText =
  gct_addr :: vm_ptr_t
  gct_nins :: vm_size_t
  gct_out_text :: "string list"
  gct_out_sizes :: "vm_size_t list"

record ReqAddBkps =
  ab_size :: u16
  ab_in_addrs :: "vm_ptr_t list"

record ReqDelBkps =
  dbk_size :: u16
  dbk_in_addrs :: "vm_ptr_t list"

record ReqResume =
  rs_type :: ResumeType

record ReqErr =
  er_msg :: string

text \<open>One traversal per request, in the order of the source.\<close>

definition prep_ReqConnect :: "ReqConnect \<Rightarrow> (hstate, ReqConnect) act" where
  "prep_ReqConnect r =
    bind_act (object_out VMInfos_codec (cn_out_infos r)) (\<lambda>out_infos.
    bind_act (object_out DBClientUpdate_codec (cn_out_udp r)) (\<lambda>out_udp.
    ret \<lparr>cn_out_infos = out_infos, cn_out_udp = out_udp\<rparr>))"

definition prep_ReqStop :: "ReqStop \<Rightarrow> (hstate, ReqStop) act" where
  "prep_ReqStop r =
    ret r"

definition prep_ReqCheckStopped :: "ReqCheckStopped \<Rightarrow> (hstate, ReqCheckStopped) act" where
  "prep_ReqCheckStopped r =
    bind_act (object_out DBClientUpdate_codec (cs_out_udp r)) (\<lambda>out_udp.
    ret \<lparr>cs_out_udp = out_udp\<rparr>)"

definition prep_ReqGetRegs :: "ReqGetRegs \<Rightarrow> (hstate, ReqGetRegs) act" where
  "prep_ReqGetRegs r =
    bind_act (object_in raw_codec (gr_nregs r)) (\<lambda>nregs.
    bind_act (object_in raw_codec (gr_reg_size r)) (\<lambda>reg_size.
    bind_act (buffer_in raw_codec (gr_ids r) (unat nregs)) (\<lambda>ids.
    bind_act (buffer_2d_out raw_codec (gr_out_bufs r) (unat nregs) reg_size) (\<lambda>out_bufs.
    ret \<lparr>gr_nregs = nregs, gr_reg_size = reg_size, gr_ids = ids, gr_out_bufs = out_bufs\<rparr>))))"

definition prep_ReqGetRegsVar :: "ReqGetRegsVar \<Rightarrow> (hstate, ReqGetRegsVar) act" where
  "prep_ReqGetRegsVar r =
    bind_act (object_in raw_codec (grv_nregs r)) (\<lambda>nregs.
    bind_act (buffer_in raw_codec (grv_in_ids r) (unat nregs)) (\<lambda>in_ids.
    bind_act (buffer_in raw_codec (grv_in_regs_size r) (unat nregs)) (\<lambda>in_regs_size.
    bind_act (buffer_2dvar_out raw_codec (grv_out_bufs r) (unat nregs) in_regs_size) (\<lambda>out_bufs.
    ret \<lparr>grv_nregs = nregs, grv_in_ids = in_ids, grv_in_regs_size = in_regs_size, grv_out_bufs = out_bufs\<rparr>))))"

definition prep_ReqSetRegs :: "ReqSetRegs \<Rightarrow> (hstate, ReqSetRegs) act" where
  "prep_ReqSetRegs r =
    bind_act (object_in raw_codec (sr_nregs r)) (\<lambda>nregs.
    bind_act (object_in raw_codec (sr_reg_size r)) (\<lambda>reg_size.
    bind_act (buffer_in raw_codec (sr_in_ids r) (unat nregs)) (\<lambda>in_ids.
    bind_act (buffer_2d_in raw_codec (sr_in_bufs r) (unat nregs) reg_size) (\<lambda>in_bufs.
    ret \<lparr>sr_nregs = nregs, sr_reg_size = reg_size, sr_in_ids = in_ids, sr_in_bufs = in_bufs\<rparr>))))"

definition prep_ReqSetRegsVar :: "ReqSetRegsVar \<Rightarrow> (hstate, ReqSetRegsVar) act" where
  "prep_ReqSetRegsVar r =
    bind_act (object_in raw_codec (srv_nregs r)) (\<lambda>nregs.
    bind_act (buffer_in raw_codec (srv_in_ids r) (unat nregs)) (\<lambda>in_ids.
    bind_act (buffer_in raw_codec (srv_in_regs_size r) (unat nregs)) (\<lambda>in_regs_size.
    bind_act (buffer_2dvar_in raw_codec (srv_in_bufs r) (unat nregs) in_regs_size) (\<lambda>in_bufs.
    ret \<lparr>srv_nregs = nregs, srv_in_ids = in_ids, srv_in_regs_size = in_regs_size, srv_in_bufs = in_bufs\<rparr>))))"

definition prep_ReqGetRegsInfos :: "ReqGetRegsInfos \<Rightarrow> (hstate, ReqGetRegsInfos) act" where
  "prep_ReqGetRegsInfos r =
    bind_act (object_in raw_codec (gri_nregs r)) (\<lambda>nregs.
    bind_act (buffer_in raw_codec (gri_ids r) (unat nregs)) (\<lambda>ids.
    bind_act (buffer_out RegInfos_codec (gri_out_infos r) (unat nregs)) (\<lambda>out_infos.
    ret \<lparr>gri_nregs = nregs, gri_ids = ids, gri_out_infos = out_infos\<rparr>)))"

definition prep_ReqFindRegsIds :: "ReqFindRegsIds \<Rightarrow> (hstate, ReqFindRegsIds) act" where
  "prep_ReqFindRegsIds r =
    bind_act (object_in raw_codec (fri_nregs r)) (\<lambda>nregs.
    bind_act (buffer_2d_in_cstr (fri_in_bufs r) (unat nregs)) (\<lambda>in_bufs.
    bind_act (buffer_out raw_codec (fri_out_ids r) (unat nregs)) (\<lambda>out_ids.
    ret \<lparr>fri_nregs = nregs, fri_in_bufs = in_bufs, fri_out_ids = out_ids\<rparr>)))"

definition prep_ReqReadMem :: "ReqReadMem \<Rightarrow> (hstate, ReqReadMem) act" where
  "prep_ReqReadMem r =
    bind_act (object_in raw_codec (rm_nbufs r)) (\<lambda>nbufs.
    bind_act (object_in raw_codec (rm_buf_size r)) (\<lambda>buf_size.
    bind_act (buffer_in raw_codec (rm_in_addrs r) (unat nbufs)) (\<lambda>in_addrs.
    bind_act (buffer_2d_out raw_codec (rm_out_bufs r) (unat nbufs) buf_size) (\<lambda>out_bufs.
    ret \<lparr>rm_nbufs = nbufs, rm_buf_size = buf_size, rm_in_addrs = in_addrs, rm_out_bufs = out_bufs\<rparr>))))"

definition prep_ReqReadMemVar :: "ReqReadMemVar \<Rightarrow> (hstate, ReqReadMemVar) act" where
  "prep_ReqReadMemVar r =
    bind_act (object_in raw_codec (rmv_nbufs r)) (\<lambda>nbufs.
    bind_act (buffer_in raw_codec (rmv_in_addrs r) (unat nbufs)) (\<lambda>in_addrs.
    bind_act (buffer_in raw_codec (rmv_in_bufs_size r) (unat nbufs)) (\<lambda>in_bufs_size.
    bind_act (buffer_2dvar_out raw_codec (rmv_out_bufs r) (unat nbufs) in_bufs_size) (\<lambda>out_bufs.
    ret \<lparr>rmv_nbufs = nbufs, rmv_in_addrs = in_addrs, rmv_in_bufs_size = in_bufs_size, rmv_out_bufs = out_bufs\<rparr>))))"

definition prep_ReqWriteMem :: "ReqWriteMem \<Rightarrow> (hstate, ReqWriteMem) act" where
  "prep_ReqWriteMem r =
    bind_act (object_in raw_codec (wm_nbufs r)) (\<lambda>nbufs.
    bind_act (object_in raw_codec (wm_buf_size r)) (\<lambda>buf_size.
    bind_act (buffer_in raw_codec (wm_in_addrs r) (unat nbufs)) (\<lambda>in_addrs.
    bind_act (buffer_2d_in raw_codec (wm_in_bufs r) (unat nbufs) buf_size) (\<lambda>in_bufs.
    ret \<lparr>wm_nbufs = nbufs, wm_buf_size = buf_size, wm_in_addrs = in_addrs, wm_in_bufs = in_bufs\<rparr>))))"

definition prep_ReqWriteMemVar :: "ReqWriteMemVar \<Rightarrow> (hstate, ReqWriteMemVar) act" where
  "prep_ReqWriteMemVar r =
    bind_act (object_in raw_codec (wmv_nbufs r)) (\<lambda>nbufs.
    bind_act (buffer_in raw_codec (wmv_in_addrs r) (unat nbufs)) (\<lambda>in_addrs.
    bind_act (buffer_in raw_codec (wmv_in_bufs_size r) (unat nbufs)) (\<lambda>in_bufs_size.
    bind_act (buffer_2dvar_in raw_codec (wmv_in_bufs r) (unat nbufs) in_bufs_size) (\<lambda>in_bufs.
    ret \<lparr>wmv_nbufs = nbufs, wmv_in_addrs = in_addrs, wmv_in_bufs_size = in_bufs_size, wmv_in_bufs = in_bufs\<rparr>))))"

definition prep_ReqGetSymsByIds :: "ReqGetSymsByIds \<Rightarrow> (hstate, ReqGetSymsByIds) act" where
  "prep_ReqGetSymsByIds r =
    bind_act (object_in raw_codec (gsi_nsyms r)) (\<lambda>nsyms.
    bind_act (buffer_in raw_codec (gsi_in_ids r) (unat nsyms)) (\<lambda>in_ids.
    bind_act (buffer_out SymbolInfos_codec (gsi_out_infos r) (unat nsyms)) (\<lambda>out_infos.
    ret \<lparr>gsi_nsyms = nsyms, gsi_in_ids = in_ids, gsi_out_infos = out_infos\<rparr>)))"

definition prep_ReqGetSymsByAddr :: "ReqGetSymsByAddr \<Rightarrow> (hstate, ReqGetSymsByAddr) act" where
  "prep_ReqGetSymsByAddr r =
    bind_act (object_in raw_codec (gsa_addr r)) (\<lambda>addr.
    bind_act (object_in raw_codec (gsa_size r)) (\<lambda>sz.
    bind_act (object_out (vector_codec SymbolInfos_codec) (gsa_out_infos r)) (\<lambda>out_infos.
    ret \<lparr>gsa_addr = addr, gsa_size = sz, gsa_out_infos = out_infos\<rparr>)))"

definition prep_ReqGetSymsByNames :: "ReqGetSymsByNames \<Rightarrow> (hstate, ReqGetSymsByNames) act" where
  "prep_ReqGetSymsByNames r =
    bind_act (object_in raw_codec (gsn_nsyms r)) (\<lambda>nsyms.
    bind_act (buffer_2d_in_cstr (gsn_in_names r) (unat nsyms)) (\<lambda>in_names.
    bind_act (buffer_out SymbolInfos_codec (gsn_out_infos r) (unat nsyms)) (\<lambda>out_infos.
    ret \<lparr>gsn_nsyms = nsyms, gsn_in_names = in_names, gsn_out_infos = out_infos\<rparr>)))"

definition prep_ReqGetCodeText :: "ReqGetCodeText \<Rightarrow> (hstate, ReqGetCodeText) act" where
  "prep_ReqGetCodeText r =
    bind_act (object_in raw_codec (gct_addr r)) (\<lambda>addr.
    bind_act (object_in raw_codec (gct_nins r)) (\<lambda>nins.
    bind_act (object_out (vector_codec string_codec) (gct_out_text r)) (\<lambda>out_text.
    bind_act (object_out (vector_codec raw_codec) (gct_out_sizes r)) (\<lambda>out_sizes.
    ret \<lparr>gct_addr = addr, gct_nins = nins, gct_out_text = out_text, gct_out_sizes = out_sizes\<rparr>))))"

definition prep_ReqAddBkps :: "ReqAddBkps \<Rightarrow> (hstate, ReqAddBkps) act" where
  "prep_ReqAddBkps r =
    bind_act (object_in raw_codec (ab_size r)) (\<lambda>sz.
    bind_act (buffer_in raw_codec (ab_in_addrs r) (unat sz)) (\<lambda>in_addrs.
    ret \<lparr>ab_size = sz, ab_in_addrs = in_addrs\<rparr>))"

definition prep_ReqDelBkps :: "ReqDelBkps \<Rightarrow> (hstate, ReqDelBkps) act" where
  "prep_ReqDelBkps r =
    bind_act (object_in raw_codec (dbk_size r)) (\<lambda>sz.
    bind_act (buffer_in raw_codec (dbk_in_addrs r) (unat sz)) (\<lambda>in_addrs.
    ret \<lparr>dbk_size = sz, dbk_in_addrs = in_addrs\<rparr>))"

definition prep_ReqResume :: "ReqResume \<Rightarrow> (hstate, ReqResume) act" where
  "prep_ReqResume r =
    bind_act (object_in ResumeType_codec (rs_type r)) (\<lambda>type.
    ret \<lparr>rs_type = type\<rparr>)"

definition prep_ReqErr :: "ReqErr \<Rightarrow> (hstate, ReqErr) act" where
  "prep_ReqErr r =
    bind_act (object_out string_codec (er_msg r)) (\<lambda>msg.
    ret \<lparr>er_msg = msg\<rparr>)"


section \<open>The codecs satisfy the contract\<close>

lemma codec_simps [simp]:
  "cenc raw_codec = sb_serial_raw" "cdec raw_codec = sb_unserial_raw" "cnull raw_codec = 0"
  "cenc string_codec = ser_string" "cdec string_codec = unser_string"
  "cenc (vector_codec c) = ser_vector (cenc c)" "cdec (vector_codec c) = unser_vector (cdec c)"
  by (simp_all add: raw_codec_def string_codec_def vector_codec_def)

interpretation c8: item_codec "raw_codec :: u8 codec" "\<lambda>_. True"
  by unfold_locales (simp add: parses_raw)

interpretation c16: item_codec "raw_codec :: u16 codec" "\<lambda>_. True"
  by unfold_locales (simp add: parses_raw)

interpretation c32: item_codec "raw_codec :: u32 codec" "\<lambda>_. True"
  by unfold_locales (simp add: parses_raw)

interpretation c64: item_codec "raw_codec :: u64 codec" "\<lambda>_. True"
  by unfold_locales (simp add: parses_raw)

interpretation cstring: item_codec string_codec fits
  by unfold_locales (simp add: stringc.dec_enc)

lemma parses_enum:
  assumes "of_b (to_b e) = e"
  shows "parses (bind_act sb_unserial_raw (\<lambda>b. ret (of_b b))) (sb_serial_raw (to_b e :: u8)) e"
  using assms by (intro parses_bind_ret [OF u8c.dec_enc]) simp_all

interpretation cReqType: item_codec ReqType_codec ReqType_ok
  by unfold_locales (simp add: ReqType_codec_def ReqType_ok_def parses_enum)

interpretation cStoppedState: item_codec StoppedState_codec StoppedState_ok
  by unfold_locales (simp add: StoppedState_codec_def StoppedState_ok_def parses_enum)

interpretation cRegKind: item_codec RegKind_codec RegKind_ok
  by unfold_locales (simp add: RegKind_codec_def RegKind_ok_def parses_enum)

interpretation cResumeType: item_codec ResumeType_codec ResumeType_ok
  by unfold_locales (simp add: ResumeType_codec_def ResumeType_ok_def parses_enum)

interpretation cbool: item_codec bool_codec "\<lambda>_. True"
  by unfold_locales (use parses_enum [of "\<lambda>b. b \<noteq> 0" "\<lambda>b. if b then 1 else 0"] in \<open>simp add: bool_codec_def\<close>)

context item_codec
begin

lemma parses_item [parses_rules]: "valid x \<Longrightarrow> parses (cdec c) (cenc c x) x"
  by (rule codec_api.dec_enc [OF item_codec])

lemma vector_item: "item_codec (vector_codec c) (\<lambda>v. fits v \<and> (\<forall>x \<in> set v. valid x))"
  using codec_api.vector_codec [OF item_codec] by (simp add: item_codec_def)

end

lemmas vec32 = c32.vector_item

definition VMInfos_ok :: "VMInfos \<Rightarrow> bool" where
  "VMInfos_ok x \<longleftrightarrow> fits (vi_name x) \<and> fits (vi_regs_general x) \<and> fits (vi_regs_program_counter x) \<and>
    fits (vi_regs_stack_pointer x) \<and> fits (vi_regs_base_pointer x) \<and> fits (vi_regs_flags x)"

definition DBClientUpdate_ok :: "DBClientUpdate \<Rightarrow> bool" where
  "DBClientUpdate_ok x \<longleftrightarrow> StoppedState_ok (up_vm_state x) \<and> fits (up_stack x)"

definition RegInfos_ok :: "RegInfos \<Rightarrow> bool" where
  "RegInfos_ok x \<longleftrightarrow> fits (ri_name x) \<and> RegKind_ok (ri_kind x) \<and> ri_val x = []"

definition SymbolInfos_ok :: "SymbolInfos \<Rightarrow> bool" where
  "SymbolInfos_ok x \<longleftrightarrow> fits (si_name x)"

lemmas parse_scalars = c32.parses_item c64.parses_item cstring.parses_item cbool.parses_item
  cStoppedState.parses_item cRegKind.parses_item

lemma parses_vec32: "fits v \<Longrightarrow> parses (cdec (vector_codec raw_codec)) (cenc (vector_codec raw_codec) v) (v :: u32 list)"
  by (rule item_codec.parses_item [OF vec32]) simp

lemma parses_VMInfos: "VMInfos_ok x \<Longrightarrow> parses unser_VMInfos (ser_VMInfos x) x"
  unfolding unser_VMInfos_def ser_VMInfos_def
  by (rule parses_bind, (rule parse_scalars parses_vec32, simp add: VMInfos_ok_def))+
    (rule parses_bind_ret, rule parse_scalars, simp_all)

interpretation cVMInfos: item_codec VMInfos_codec VMInfos_ok
  by unfold_locales (simp add: VMInfos_codec_def parses_VMInfos)

lemma parses_CallInfos: "parses unser_CallInfos (ser_CallInfos x) x"
  unfolding unser_CallInfos_def ser_CallInfos_def
  by (rule parses_bind, (rule parse_scalars, simp))+ (rule parses_bind_ret, rule parse_scalars, simp_all)

interpretation cCallInfos: item_codec CallInfos_codec "\<lambda>_. True"
  by unfold_locales (simp add: CallInfos_codec_def parses_CallInfos)

lemma parses_stack: "fits v \<Longrightarrow> parses (cdec (vector_codec CallInfos_codec)) (cenc (vector_codec CallInfos_codec) v) v"
  by (rule item_codec.parses_item [OF cCallInfos.vector_item]) simp

lemma parses_DBClientUpdate: "DBClientUpdate_ok x \<Longrightarrow> parses unser_DBClientUpdate (ser_DBClientUpdate x) x"
  unfolding unser_DBClientUpdate_def ser_DBClientUpdate_def
  by (rule parses_bind, (rule parse_scalars, simp add: DBClientUpdate_ok_def))+
    (rule parses_bind_ret, rule parses_stack, simp_all add: DBClientUpdate_ok_def)

interpretation cUpdate: item_codec DBClientUpdate_codec DBClientUpdate_ok
  by unfold_locales (simp add: DBClientUpdate_codec_def parses_DBClientUpdate)

lemma parses_RegInfos: "RegInfos_ok x \<Longrightarrow> parses unser_RegInfos (ser_RegInfos x) x"
  unfolding unser_RegInfos_def ser_RegInfos_def
  by (rule parses_bind, (rule parse_scalars, simp add: RegInfos_ok_def))+
    (rule parses_bind_ret, rule parse_scalars, simp_all add: RegInfos_ok_def)

interpretation cRegInfos: item_codec RegInfos_codec RegInfos_ok
  by unfold_locales (simp add: RegInfos_codec_def parses_RegInfos)

lemma parses_SymbolInfos: "SymbolInfos_ok x \<Longrightarrow> parses unser_SymbolInfos (ser_SymbolInfos x) x"
  unfolding unser_SymbolInfos_def ser_SymbolInfos_def
  by (rule parses_bind, (rule parse_scalars, simp add: SymbolInfos_ok_def))+
    (rule parses_bind_ret, rule parse_scalars, simp_all)

interpretation cSymbolInfos: item_codec SymbolInfos_codec SymbolInfos_ok
  by unfold_locales (simp add: SymbolInfos_codec_def parses_SymbolInfos)

interpretation cSyms: item_codec "vector_codec SymbolInfos_codec" "\<lambda>v. fits v \<and> (\<forall>x \<in> set v. SymbolInfos_ok x)"
  by (rule cSymbolInfos.vector_item)

interpretation cTexts: item_codec "vector_codec string_codec" "\<lambda>v. fits v \<and> (\<forall>x \<in> set v. fits x)"
  by (rule cstring.vector_item)

interpretation cSizes: item_codec "vector_codec raw_codec :: u64 list codec" "\<lambda>v. fits v \<and> (\<forall>x \<in> set v. True)"
  by (rule c64.vector_item)

section \<open>All requests\<close>

datatype request =
  Rq_Connect (un_Connect: ReqConnect)
  | Rq_Stop (un_Stop: ReqStop)
  | Rq_CheckStopped (un_CheckStopped: ReqCheckStopped)
  | Rq_GetRegs (un_GetRegs: ReqGetRegs)
  | Rq_GetRegsVar (un_GetRegsVar: ReqGetRegsVar)
  | Rq_SetRegs (un_SetRegs: ReqSetRegs)
  | Rq_SetRegsVar (un_SetRegsVar: ReqSetRegsVar)
  | Rq_GetRegsInfos (un_GetRegsInfos: ReqGetRegsInfos)
  | Rq_FindRegsIds (un_FindRegsIds: ReqFindRegsIds)
  | Rq_ReadMem (un_ReadMem: ReqReadMem)
  | Rq_ReadMemVar (un_ReadMemVar: ReqReadMemVar)
  | Rq_WriteMem (un_WriteMem: ReqWriteMem)
  | Rq_WriteMemVar (un_WriteMemVar: ReqWriteMemVar)
  | Rq_GetSymsByIds (un_GetSymsByIds: ReqGetSymsByIds)
  | Rq_GetSymsByAddr (un_GetSymsByAddr: ReqGetSymsByAddr)
  | Rq_GetSymsByNames (un_GetSymsByNames: ReqGetSymsByNames)
  | Rq_GetCodeText (un_GetCodeText: ReqGetCodeText)
  | Rq_AddBkps (un_AddBkps: ReqAddBkps)
  | Rq_DelBkps (un_DelBkps: ReqDelBkps)
  | Rq_Resume (un_Resume: ReqResume)
  | Rq_Err (un_Err: ReqErr)

fun req_type :: "request \<Rightarrow> ReqType" where
  "req_type (Rq_Connect _) = CONNECT"
| "req_type (Rq_Stop _) = STOP"
| "req_type (Rq_CheckStopped _) = CHECK_STOPPED"
| "req_type (Rq_GetRegs _) = GET_REGS"
| "req_type (Rq_GetRegsVar _) = GET_REGS_VAR"
| "req_type (Rq_SetRegs _) = SET_REGS"
| "req_type (Rq_SetRegsVar _) = SET_REGS_VAR"
| "req_type (Rq_GetRegsInfos _) = GET_REGS_INFOS"
| "req_type (Rq_FindRegsIds _) = FIND_REGS_IDS"
| "req_type (Rq_ReadMem _) = READ_MEM"
| "req_type (Rq_ReadMemVar _) = READ_MEM_VAR"
| "req_type (Rq_WriteMem _) = WRITE_MEM"
| "req_type (Rq_WriteMemVar _) = WRITE_MEM_VAR"
| "req_type (Rq_GetSymsByIds _) = GET_SYMS_BY_IDS"
| "req_type (Rq_GetSymsByAddr _) = GET_SYMS_BY_ADDR"
| "req_type (Rq_GetSymsByNames _) = GET_SYMS_BY_NAMES"
| "req_type (Rq_GetCodeText _) = GET_CODE_TEXT"
| "req_type (Rq_AddBkps _) = ADD_BKPS"
| "req_type (Rq_DelBkps _) = DEL_BKPS"
| "req_type (Rq_Resume _) = RESUME"
| "req_type (Rq_Err _) = ERR"

fun prepare_request :: "request \<Rightarrow> (hstate, request) act" where
  "prepare_request (Rq_Connect r) = bind_act (prep_ReqConnect r) (\<lambda>r. ret (Rq_Connect r))"
| "prepare_request (Rq_Stop r) = bind_act (prep_ReqStop r) (\<lambda>r. ret (Rq_Stop r))"
| "prepare_request (Rq_CheckStopped r) = bind_act (prep_ReqCheckStopped r) (\<lambda>r. ret (Rq_CheckStopped r))"
| "prepare_request (Rq_GetRegs r) = bind_act (prep_ReqGetRegs r) (\<lambda>r. ret (Rq_GetRegs r))"
| "prepare_request (Rq_GetRegsVar r) = bind_act (prep_ReqGetRegsVar r) (\<lambda>r. ret (Rq_GetRegsVar r))"
| "prepare_request (Rq_SetRegs r) = bind_act (prep_ReqSetRegs r) (\<lambda>r. ret (Rq_SetRegs r))"
| "prepare_request (Rq_SetRegsVar r) = bind_act (prep_ReqSetRegsVar r) (\<lambda>r. ret (Rq_SetRegsVar r))"
| "prepare_request (Rq_GetRegsInfos r) = bind_act (prep_ReqGetRegsInfos r) (\<lambda>r. ret (Rq_GetRegsInfos r))"
| "prepare_request (Rq_FindRegsIds r) = bind_act (prep_ReqFindRegsIds r) (\<lambda>r. ret (Rq_FindRegsIds r))"
| "prepare_request (Rq_ReadMem r) = bind_act (prep_ReqReadMem r) (\<lambda>r. ret (Rq_ReadMem r))"
| "prepare_request (Rq_ReadMemVar r) = bind_act (prep_ReqReadMemVar r) (\<lambda>r. ret (Rq_ReadMemVar r))"
| "prepare_request (Rq_WriteMem r) = bind_act (prep_ReqWriteMem r) (\<lambda>r. ret (Rq_WriteMem r))"
| "prepare_request (Rq_WriteMemVar r) = bind_act (prep_ReqWriteMemVar r) (\<lambda>r. ret (Rq_WriteMemVar r))"
| "prepare_request (Rq_GetSymsByIds r) = bind_act (prep_ReqGetSymsByIds r) (\<lambda>r. ret (Rq_GetSymsByIds r))"
| "prepare_request (Rq_GetSymsByAddr r) = bind_act (prep_ReqGetSymsByAddr r) (\<lambda>r. ret (Rq_GetSymsByAddr r))"
| "prepare_request (Rq_GetSymsByNames r) = bind_act (prep_ReqGetSymsByNames r) (\<lambda>r. ret (Rq_GetSymsByNames r))"
| "prepare_request (Rq_GetCodeText r) = bind_act (prep_ReqGetCodeText r) (\<lambda>r. ret (Rq_GetCodeText r))"
| "prepare_request (Rq_AddBkps r) = bind_act (prep_ReqAddBkps r) (\<lambda>r. ret (Rq_AddBkps r))"
| "prepare_request (Rq_DelBkps r) = bind_act (prep_ReqDelBkps r) (\<lambda>r. ret (Rq_DelBkps r))"
| "prepare_request (Rq_Resume r) = bind_act (prep_ReqResume r) (\<lambda>r. ret (Rq_Resume r))"
| "prepare_request (Rq_Err r) = bind_act (prep_ReqErr r) (\<lambda>r. ret (Rq_Err r))"

text \<open>
  The entry points of the handler: check the side the handler was constructed for (\<open>server\<close> is its
  member \<open>_server\<close>), set the mode, then traverse.
\<close>

definition run_mode :: "hmode \<Rightarrow> request \<Rightarrow> (hstate, request) act" where
  "run_mode mode r = then_act (modify (\<lambda>h. h\<lparr>h_mode := mode\<rparr>)) (prepare_request r)"

definition client_write_request :: "bool \<Rightarrow> request \<Rightarrow> out_buff \<Rightarrow> (request \<times> out_buff) outcome" where
  "client_write_request server r out =
    (case then_act (assert_act (\<not> server)) (run_mode CLI_SEND r) \<lparr>h_mode = CLI_SEND, h_out = out, h_in = sib_reset []\<rparr> of
       (Ret r', h) \<Rightarrow> Ret (r', h_out h) | (Throw e, _) \<Rightarrow> Throw e | (Abort c, _) \<Rightarrow> Abort c)"

definition server_write_response :: "bool \<Rightarrow> request \<Rightarrow> out_buff \<Rightarrow> (request \<times> out_buff) outcome" where
  "server_write_response server r out =
    (case then_act (assert_act server) (run_mode SERV_SEND r) \<lparr>h_mode = SERV_SEND, h_out = out, h_in = sib_reset []\<rparr> of
       (Ret r', h) \<Rightarrow> Ret (r', h_out h) | (Throw e, _) \<Rightarrow> Throw e | (Abort c, _) \<Rightarrow> Abort c)"

definition server_read_request :: "bool \<Rightarrow> request \<Rightarrow> (in_buff, request) act" where
  "server_read_request server r = (\<lambda>b.
    case then_act (assert_act server) (run_mode SERV_RECV r) \<lparr>h_mode = SERV_RECV, h_out = [], h_in = b\<rparr> of
      (res, h) \<Rightarrow> (res, h_in h))"

definition client_read_response :: "bool \<Rightarrow> request \<Rightarrow> (in_buff, request) act" where
  "client_read_response server r = (\<lambda>b.
    case then_act (assert_act (\<not> server)) (run_mode CLI_RECV r) \<lparr>h_mode = CLI_RECV, h_out = [], h_in = b\<rparr> of
      (res, h) \<Rightarrow> (res, h_in h))"

section \<open>Well-formed requests and what travels\<close>

text \<open>
  The client's side of a request: the buffers have the announced sizes, whose totals are not
  truncated; strings are zero-terminated without inner zeros.
\<close>

definition strip_val :: "RegInfos \<Rightarrow> RegInfos" where
  "strip_val i = i\<lparr>ri_val := []\<rparr>"

fun request_ok :: "request \<Rightarrow> bool" where
  "request_ok (Rq_Connect r) \<longleftrightarrow>
    True"
| "request_ok (Rq_Stop r) \<longleftrightarrow>
    True"
| "request_ok (Rq_CheckStopped r) \<longleftrightarrow>
    True"
| "request_ok (Rq_GetRegs r) \<longleftrightarrow>
    length (gr_ids r) = unat (gr_nregs r) \<and>
    unat (gr_nregs r) * unat (gr_reg_size r) < 2 ^ 64"
| "request_ok (Rq_GetRegsVar r) \<longleftrightarrow>
    length (grv_in_ids r) = unat (grv_nregs r) \<and>
    length (grv_in_regs_size r) = unat (grv_nregs r) \<and>
    sum_list (map unat (grv_in_regs_size r)) < 2 ^ 64"
| "request_ok (Rq_SetRegs r) \<longleftrightarrow>
    length (sr_in_ids r) = unat (sr_nregs r) \<and>
    map length (sr_in_bufs r) = replicate (unat (sr_nregs r)) (unat (sr_reg_size r)) \<and>
    unat (sr_nregs r) * unat (sr_reg_size r) < 2 ^ 64"
| "request_ok (Rq_SetRegsVar r) \<longleftrightarrow>
    length (srv_in_ids r) = unat (srv_nregs r) \<and>
    length (srv_in_regs_size r) = unat (srv_nregs r) \<and>
    map length (srv_in_bufs r) = map unat (srv_in_regs_size r) \<and>
    sum_list (map unat (srv_in_regs_size r)) < 2 ^ 64"
| "request_ok (Rq_GetRegsInfos r) \<longleftrightarrow>
    length (gri_ids r) = unat (gri_nregs r)"
| "request_ok (Rq_FindRegsIds r) \<longleftrightarrow>
    length (fri_in_bufs r) = unat (fri_nregs r) \<and>
    (\<forall>s \<in> set (fri_in_bufs r). cstr_ok s) \<and>
    sum_list (map length (map cstr_bytes (fri_in_bufs r))) < 2 ^ 16"
| "request_ok (Rq_ReadMem r) \<longleftrightarrow>
    length (rm_in_addrs r) = unat (rm_nbufs r) \<and>
    unat (rm_nbufs r) * unat (rm_buf_size r) < 2 ^ 64"
| "request_ok (Rq_ReadMemVar r) \<longleftrightarrow>
    length (rmv_in_addrs r) = unat (rmv_nbufs r) \<and>
    length (rmv_in_bufs_size r) = unat (rmv_nbufs r) \<and>
    sum_list (map unat (rmv_in_bufs_size r)) < 2 ^ 64"
| "request_ok (Rq_WriteMem r) \<longleftrightarrow>
    length (wm_in_addrs r) = unat (wm_nbufs r) \<and>
    map length (wm_in_bufs r) = replicate (unat (wm_nbufs r)) (unat (wm_buf_size r)) \<and>
    unat (wm_nbufs r) * unat (wm_buf_size r) < 2 ^ 64"
| "request_ok (Rq_WriteMemVar r) \<longleftrightarrow>
    length (wmv_in_addrs r) = unat (wmv_nbufs r) \<and>
    length (wmv_in_bufs_size r) = unat (wmv_nbufs r) \<and>
    map length (wmv_in_bufs r) = map unat (wmv_in_bufs_size r) \<and>
    sum_list (map unat (wmv_in_bufs_size r)) < 2 ^ 64"
| "request_ok (Rq_GetSymsByIds r) \<longleftrightarrow>
    length (gsi_in_ids r) = unat (gsi_nsyms r)"
| "request_ok (Rq_GetSymsByAddr r) \<longleftrightarrow>
    True"
| "request_ok (Rq_GetSymsByNames r) \<longleftrightarrow>
    length (gsn_in_names r) = unat (gsn_nsyms r) \<and>
    (\<forall>s \<in> set (gsn_in_names r). cstr_ok s) \<and>
    sum_list (map length (map cstr_bytes (gsn_in_names r))) < 2 ^ 16"
| "request_ok (Rq_GetCodeText r) \<longleftrightarrow>
    True"
| "request_ok (Rq_AddBkps r) \<longleftrightarrow>
    length (ab_in_addrs r) = unat (ab_size r)"
| "request_ok (Rq_DelBkps r) \<longleftrightarrow>
    length (dbk_in_addrs r) = unat (dbk_size r)"
| "request_ok (Rq_Resume r) \<longleftrightarrow>
    ResumeType_ok (rs_type r)"
| "request_ok (Rq_Err r) \<longleftrightarrow>
    True"

text \<open>What the server has after reading: the input fields, and its own output fields, allocated.\<close>

fun server_view :: "request \<Rightarrow> request \<Rightarrow> request" where
  "server_view r0 (Rq_Connect r) =
    Rq_Connect (r\<lparr>cn_out_infos := cn_out_infos (un_Connect r0), cn_out_udp := cn_out_udp (un_Connect r0)\<rparr>)"
| "server_view r0 (Rq_Stop r) =
    Rq_Stop (un_Stop r0)"
| "server_view r0 (Rq_CheckStopped r) =
    Rq_CheckStopped (r\<lparr>cs_out_udp := cs_out_udp (un_CheckStopped r0)\<rparr>)"
| "server_view r0 (Rq_GetRegs r) =
    Rq_GetRegs (r\<lparr>gr_out_bufs := replicate (unat (gr_nregs r)) (replicate (unat (gr_reg_size r)) 0)\<rparr>)"
| "server_view r0 (Rq_GetRegsVar r) =
    Rq_GetRegsVar (r\<lparr>grv_out_bufs := map (\<lambda>s. replicate (unat s) 0) (grv_in_regs_size r)\<rparr>)"
| "server_view r0 (Rq_SetRegs r) =
    Rq_SetRegs (r)"
| "server_view r0 (Rq_SetRegsVar r) =
    Rq_SetRegsVar (r)"
| "server_view r0 (Rq_GetRegsInfos r) =
    Rq_GetRegsInfos (r\<lparr>gri_out_infos := replicate (unat (gri_nregs r)) (cnull RegInfos_codec)\<rparr>)"
| "server_view r0 (Rq_FindRegsIds r) =
    Rq_FindRegsIds (r\<lparr>fri_out_ids := replicate (unat (fri_nregs r)) 0\<rparr>)"
| "server_view r0 (Rq_ReadMem r) =
    Rq_ReadMem (r\<lparr>rm_out_bufs := replicate (unat (rm_nbufs r)) (replicate (unat (rm_buf_size r)) 0)\<rparr>)"
| "server_view r0 (Rq_ReadMemVar r) =
    Rq_ReadMemVar (r\<lparr>rmv_out_bufs := map (\<lambda>s. replicate (unat s) 0) (rmv_in_bufs_size r)\<rparr>)"
| "server_view r0 (Rq_WriteMem r) =
    Rq_WriteMem (r)"
| "server_view r0 (Rq_WriteMemVar r) =
    Rq_WriteMemVar (r)"
| "server_view r0 (Rq_GetSymsByIds r) =
    Rq_GetSymsByIds (r\<lparr>gsi_out_infos := replicate (unat (gsi_nsyms r)) (cnull SymbolInfos_codec)\<rparr>)"
| "server_view r0 (Rq_GetSymsByAddr r) =
    Rq_GetSymsByAddr (r\<lparr>gsa_out_infos := gsa_out_infos (un_GetSymsByAddr r0)\<rparr>)"
| "server_view r0 (Rq_GetSymsByNames r) =
    Rq_GetSymsByNames (r\<lparr>gsn_out_infos := replicate (unat (gsn_nsyms r)) (cnull SymbolInfos_codec)\<rparr>)"
| "server_view r0 (Rq_GetCodeText r) =
    Rq_GetCodeText (r\<lparr>gct_out_text := gct_out_text (un_GetCodeText r0), gct_out_sizes := gct_out_sizes (un_GetCodeText r0)\<rparr>)"
| "server_view r0 (Rq_AddBkps r) =
    Rq_AddBkps (r)"
| "server_view r0 (Rq_DelBkps r) =
    Rq_DelBkps (r)"
| "server_view r0 (Rq_Resume r) =
    Rq_Resume (r)"
| "server_view r0 (Rq_Err r) =
    Rq_Err (r\<lparr>er_msg := er_msg (un_Err r0)\<rparr>)"

text \<open>The response of a server \<open>s\<close> to a client \<open>c\<close>: same sizes, output fields that can travel.\<close>

fun response_ok :: "request \<Rightarrow> request \<Rightarrow> bool" where
  "response_ok (Rq_Connect s) cl \<longleftrightarrow> req_type cl = req_type (Rq_Connect s) \<and> (let c = un_Connect cl in
    VMInfos_ok (cn_out_infos s) \<and>
    DBClientUpdate_ok (cn_out_udp s))"
| "response_ok (Rq_Stop s) cl \<longleftrightarrow> req_type cl = req_type (Rq_Stop s) \<and> (let c = un_Stop cl in
    True)"
| "response_ok (Rq_CheckStopped s) cl \<longleftrightarrow> req_type cl = req_type (Rq_CheckStopped s) \<and> (let c = un_CheckStopped cl in
    DBClientUpdate_ok (cs_out_udp s))"
| "response_ok (Rq_GetRegs s) cl \<longleftrightarrow> req_type cl = req_type (Rq_GetRegs s) \<and> (let c = un_GetRegs cl in
    gr_nregs s = gr_nregs c \<and>
    gr_reg_size s = gr_reg_size c \<and>
    map length (gr_out_bufs s) = replicate (unat (gr_nregs c)) (unat (gr_reg_size c)) \<and>
    map length (gr_out_bufs c) = replicate (unat (gr_nregs c)) (unat (gr_reg_size c)))"
| "response_ok (Rq_GetRegsVar s) cl \<longleftrightarrow> req_type cl = req_type (Rq_GetRegsVar s) \<and> (let c = un_GetRegsVar cl in
    grv_nregs s = grv_nregs c \<and>
    grv_in_regs_size s = grv_in_regs_size c \<and>
    length (grv_in_regs_size c) = unat (grv_nregs c) \<and>
    map length (grv_out_bufs s) = map unat (grv_in_regs_size c) \<and>
    map length (grv_out_bufs c) = map unat (grv_in_regs_size c))"
| "response_ok (Rq_SetRegs s) cl \<longleftrightarrow> req_type cl = req_type (Rq_SetRegs s) \<and> (let c = un_SetRegs cl in
    True)"
| "response_ok (Rq_SetRegsVar s) cl \<longleftrightarrow> req_type cl = req_type (Rq_SetRegsVar s) \<and> (let c = un_SetRegsVar cl in
    True)"
| "response_ok (Rq_GetRegsInfos s) cl \<longleftrightarrow> req_type cl = req_type (Rq_GetRegsInfos s) \<and> (let c = un_GetRegsInfos cl in
    gri_nregs s = gri_nregs c \<and>
    length (gri_out_infos s) = unat (gri_nregs c) \<and>
    length (gri_out_infos c) = unat (gri_nregs c) \<and>
    (\<forall>x \<in> set (gri_out_infos s). RegInfos_ok (strip_val x)))"
| "response_ok (Rq_FindRegsIds s) cl \<longleftrightarrow> req_type cl = req_type (Rq_FindRegsIds s) \<and> (let c = un_FindRegsIds cl in
    fri_nregs s = fri_nregs c \<and>
    length (fri_out_ids s) = unat (fri_nregs c) \<and>
    length (fri_out_ids c) = unat (fri_nregs c))"
| "response_ok (Rq_ReadMem s) cl \<longleftrightarrow> req_type cl = req_type (Rq_ReadMem s) \<and> (let c = un_ReadMem cl in
    rm_nbufs s = rm_nbufs c \<and>
    rm_buf_size s = rm_buf_size c \<and>
    map length (rm_out_bufs s) = replicate (unat (rm_nbufs c)) (unat (rm_buf_size c)) \<and>
    map length (rm_out_bufs c) = replicate (unat (rm_nbufs c)) (unat (rm_buf_size c)))"
| "response_ok (Rq_ReadMemVar s) cl \<longleftrightarrow> req_type cl = req_type (Rq_ReadMemVar s) \<and> (let c = un_ReadMemVar cl in
    rmv_nbufs s = rmv_nbufs c \<and>
    rmv_in_bufs_size s = rmv_in_bufs_size c \<and>
    length (rmv_in_bufs_size c) = unat (rmv_nbufs c) \<and>
    map length (rmv_out_bufs s) = map unat (rmv_in_bufs_size c) \<and>
    map length (rmv_out_bufs c) = map unat (rmv_in_bufs_size c))"
| "response_ok (Rq_WriteMem s) cl \<longleftrightarrow> req_type cl = req_type (Rq_WriteMem s) \<and> (let c = un_WriteMem cl in
    True)"
| "response_ok (Rq_WriteMemVar s) cl \<longleftrightarrow> req_type cl = req_type (Rq_WriteMemVar s) \<and> (let c = un_WriteMemVar cl in
    True)"
| "response_ok (Rq_GetSymsByIds s) cl \<longleftrightarrow> req_type cl = req_type (Rq_GetSymsByIds s) \<and> (let c = un_GetSymsByIds cl in
    gsi_nsyms s = gsi_nsyms c \<and>
    length (gsi_out_infos s) = unat (gsi_nsyms c) \<and>
    length (gsi_out_infos c) = unat (gsi_nsyms c) \<and>
    (\<forall>x \<in> set (gsi_out_infos s). SymbolInfos_ok x))"
| "response_ok (Rq_GetSymsByAddr s) cl \<longleftrightarrow> req_type cl = req_type (Rq_GetSymsByAddr s) \<and> (let c = un_GetSymsByAddr cl in
    fits (gsa_out_infos s) \<and>
    (\<forall>x \<in> set (gsa_out_infos s). SymbolInfos_ok x))"
| "response_ok (Rq_GetSymsByNames s) cl \<longleftrightarrow> req_type cl = req_type (Rq_GetSymsByNames s) \<and> (let c = un_GetSymsByNames cl in
    gsn_nsyms s = gsn_nsyms c \<and>
    length (gsn_out_infos s) = unat (gsn_nsyms c) \<and>
    length (gsn_out_infos c) = unat (gsn_nsyms c) \<and>
    (\<forall>x \<in> set (gsn_out_infos s). SymbolInfos_ok x))"
| "response_ok (Rq_GetCodeText s) cl \<longleftrightarrow> req_type cl = req_type (Rq_GetCodeText s) \<and> (let c = un_GetCodeText cl in
    fits (gct_out_text s) \<and>
    (\<forall>x \<in> set (gct_out_text s). fits x) \<and>
    fits (gct_out_sizes s))"
| "response_ok (Rq_AddBkps s) cl \<longleftrightarrow> req_type cl = req_type (Rq_AddBkps s) \<and> (let c = un_AddBkps cl in
    True)"
| "response_ok (Rq_DelBkps s) cl \<longleftrightarrow> req_type cl = req_type (Rq_DelBkps s) \<and> (let c = un_DelBkps cl in
    True)"
| "response_ok (Rq_Resume s) cl \<longleftrightarrow> req_type cl = req_type (Rq_Resume s) \<and> (let c = un_Resume cl in
    True)"
| "response_ok (Rq_Err s) cl \<longleftrightarrow> req_type cl = req_type (Rq_Err s) \<and> (let c = un_Err cl in
    fits (er_msg s))"

fun client_view :: "request \<Rightarrow> request \<Rightarrow> request" where
  "client_view c (Rq_Connect s) =
    Rq_Connect ((un_Connect c)\<lparr>cn_out_infos := cn_out_infos s, cn_out_udp := cn_out_udp s\<rparr>)"
| "client_view c (Rq_Stop s) =
    Rq_Stop ((un_Stop c))"
| "client_view c (Rq_CheckStopped s) =
    Rq_CheckStopped ((un_CheckStopped c)\<lparr>cs_out_udp := cs_out_udp s\<rparr>)"
| "client_view c (Rq_GetRegs s) =
    Rq_GetRegs ((un_GetRegs c)\<lparr>gr_out_bufs := gr_out_bufs s\<rparr>)"
| "client_view c (Rq_GetRegsVar s) =
    Rq_GetRegsVar ((un_GetRegsVar c)\<lparr>grv_out_bufs := grv_out_bufs s\<rparr>)"
| "client_view c (Rq_SetRegs s) =
    Rq_SetRegs ((un_SetRegs c))"
| "client_view c (Rq_SetRegsVar s) =
    Rq_SetRegsVar ((un_SetRegsVar c))"
| "client_view c (Rq_GetRegsInfos s) =
    Rq_GetRegsInfos ((un_GetRegsInfos c)\<lparr>gri_out_infos := map strip_val (gri_out_infos s)\<rparr>)"
| "client_view c (Rq_FindRegsIds s) =
    Rq_FindRegsIds ((un_FindRegsIds c)\<lparr>fri_out_ids := fri_out_ids s\<rparr>)"
| "client_view c (Rq_ReadMem s) =
    Rq_ReadMem ((un_ReadMem c)\<lparr>rm_out_bufs := rm_out_bufs s\<rparr>)"
| "client_view c (Rq_ReadMemVar s) =
    Rq_ReadMemVar ((un_ReadMemVar c)\<lparr>rmv_out_bufs := rmv_out_bufs s\<rparr>)"
| "client_view c (Rq_WriteMem s) =
    Rq_WriteMem ((un_WriteMem c))"
| "client_view c (Rq_WriteMemVar s) =
    Rq_WriteMemVar ((un_WriteMemVar c))"
| "client_view c (Rq_GetSymsByIds s) =
    Rq_GetSymsByIds ((un_GetSymsByIds c)\<lparr>gsi_out_infos := gsi_out_infos s\<rparr>)"
| "client_view c (Rq_GetSymsByAddr s) =
    Rq_GetSymsByAddr ((un_GetSymsByAddr c)\<lparr>gsa_out_infos := gsa_out_infos s\<rparr>)"
| "client_view c (Rq_GetSymsByNames s) =
    Rq_GetSymsByNames ((un_GetSymsByNames c)\<lparr>gsn_out_infos := gsn_out_infos s\<rparr>)"
| "client_view c (Rq_GetCodeText s) =
    Rq_GetCodeText ((un_GetCodeText c)\<lparr>gct_out_text := gct_out_text s, gct_out_sizes := gct_out_sizes s\<rparr>)"
| "client_view c (Rq_AddBkps s) =
    Rq_AddBkps ((un_AddBkps c))"
| "client_view c (Rq_DelBkps s) =
    Rq_DelBkps ((un_DelBkps c))"
| "client_view c (Rq_Resume s) =
    Rq_Resume ((un_Resume c))"
| "client_view c (Rq_Err s) =
    Rq_Err ((un_Err c)\<lparr>er_msg := er_msg s\<rparr>)"

section \<open>Round trip of every request\<close>

lemma transfers_ret_eq: "x = x' \<Longrightarrow> y = y' \<Longrightarrow> transfers sm rm (ret x) (ret y) x' y'"
  by (simp add: transfers_ret)

lemma transfers_map:
  "transfers sm rm m n x y \<Longrightarrow> transfers sm rm (bind_act m (\<lambda>r. ret (f r))) (bind_act n (\<lambda>r. ret (g r))) (f x) (g y)"
  by (rule transfers_bind) (auto intro: transfers_ret)

lemma unat_u16_less: "unat (n :: u16) < 2 ^ 16"
  using unsigned_less [of n] by simp

lemmas prep_defs = prep_ReqConnect_def prep_ReqStop_def prep_ReqCheckStopped_def
  prep_ReqGetRegs_def prep_ReqGetRegsVar_def prep_ReqSetRegs_def
  prep_ReqSetRegsVar_def prep_ReqGetRegsInfos_def prep_ReqFindRegsIds_def
  prep_ReqReadMem_def prep_ReqReadMemVar_def prep_ReqWriteMem_def
  prep_ReqWriteMemVar_def prep_ReqGetSymsByIds_def prep_ReqGetSymsByAddr_def
  prep_ReqGetSymsByNames_def prep_ReqGetCodeText_def prep_ReqAddBkps_def
  prep_ReqDelBkps_def prep_ReqResume_def prep_ReqErr_def

lemma request_ReqConnect:
  "request_ok (Rq_Connect r) \<Longrightarrow>
    transfers CLI_SEND SERV_RECV (prep_ReqConnect r) (prep_ReqConnect r0) r (r\<lparr>cn_out_infos := cn_out_infos r0, cn_out_udp := cn_out_udp r0\<rparr>)"
  unfolding prep_ReqConnect_def
  by ((rule transfers_bind, rule transfers_rules; (simp add: unat_u16_less [simplified])?)+, rule transfers_ret_eq) simp_all

lemma request_ReqStop:
  "request_ok (Rq_Stop r) \<Longrightarrow>
    transfers CLI_SEND SERV_RECV (prep_ReqStop r) (prep_ReqStop r0) r (r0)"
  unfolding prep_ReqStop_def
  by (rule transfers_ret_eq) simp_all

lemma request_ReqCheckStopped:
  "request_ok (Rq_CheckStopped r) \<Longrightarrow>
    transfers CLI_SEND SERV_RECV (prep_ReqCheckStopped r) (prep_ReqCheckStopped r0) r (r\<lparr>cs_out_udp := cs_out_udp r0\<rparr>)"
  unfolding prep_ReqCheckStopped_def
  by ((rule transfers_bind, rule transfers_rules; (simp add: unat_u16_less [simplified])?)+, rule transfers_ret_eq) simp_all

lemma request_ReqGetRegs:
  "request_ok (Rq_GetRegs r) \<Longrightarrow>
    transfers CLI_SEND SERV_RECV (prep_ReqGetRegs r) (prep_ReqGetRegs r0) r (r\<lparr>gr_out_bufs := replicate (unat (gr_nregs r)) (replicate (unat (gr_reg_size r)) 0)\<rparr>)"
  unfolding prep_ReqGetRegs_def
  by ((rule transfers_bind, rule transfers_rules; (simp add: unat_u16_less [simplified])?)+, rule transfers_ret_eq) simp_all

lemma request_ReqGetRegsVar:
  "request_ok (Rq_GetRegsVar r) \<Longrightarrow>
    transfers CLI_SEND SERV_RECV (prep_ReqGetRegsVar r) (prep_ReqGetRegsVar r0) r (r\<lparr>grv_out_bufs := map (\<lambda>s. replicate (unat s) 0) (grv_in_regs_size r)\<rparr>)"
  unfolding prep_ReqGetRegsVar_def
  by ((rule transfers_bind, rule transfers_rules; (simp add: unat_u16_less [simplified])?)+, rule transfers_ret_eq) simp_all

lemma request_ReqSetRegs:
  "request_ok (Rq_SetRegs r) \<Longrightarrow>
    transfers CLI_SEND SERV_RECV (prep_ReqSetRegs r) (prep_ReqSetRegs r0) r (r)"
  unfolding prep_ReqSetRegs_def
  by ((rule transfers_bind, rule transfers_rules; (simp add: unat_u16_less [simplified])?)+, rule transfers_ret_eq) simp_all

lemma request_ReqSetRegsVar:
  "request_ok (Rq_SetRegsVar r) \<Longrightarrow>
    transfers CLI_SEND SERV_RECV (prep_ReqSetRegsVar r) (prep_ReqSetRegsVar r0) r (r)"
  unfolding prep_ReqSetRegsVar_def
  by ((rule transfers_bind, rule transfers_rules; (simp add: unat_u16_less [simplified])?)+, rule transfers_ret_eq) simp_all

lemma request_ReqGetRegsInfos:
  "request_ok (Rq_GetRegsInfos r) \<Longrightarrow>
    transfers CLI_SEND SERV_RECV (prep_ReqGetRegsInfos r) (prep_ReqGetRegsInfos r0) r (r\<lparr>gri_out_infos := replicate (unat (gri_nregs r)) (cnull RegInfos_codec)\<rparr>)"
  unfolding prep_ReqGetRegsInfos_def
  by ((rule transfers_bind, rule transfers_rules; (simp add: unat_u16_less [simplified])?)+, rule transfers_ret_eq) simp_all

lemma request_ReqFindRegsIds:
  "request_ok (Rq_FindRegsIds r) \<Longrightarrow>
    transfers CLI_SEND SERV_RECV (prep_ReqFindRegsIds r) (prep_ReqFindRegsIds r0) r (r\<lparr>fri_out_ids := replicate (unat (fri_nregs r)) 0\<rparr>)"
  unfolding prep_ReqFindRegsIds_def
  by ((rule transfers_bind, rule transfers_rules; (simp add: unat_u16_less [simplified])?)+, rule transfers_ret_eq) simp_all

lemma request_ReqReadMem:
  "request_ok (Rq_ReadMem r) \<Longrightarrow>
    transfers CLI_SEND SERV_RECV (prep_ReqReadMem r) (prep_ReqReadMem r0) r (r\<lparr>rm_out_bufs := replicate (unat (rm_nbufs r)) (replicate (unat (rm_buf_size r)) 0)\<rparr>)"
  unfolding prep_ReqReadMem_def
  by ((rule transfers_bind, rule transfers_rules; (simp add: unat_u16_less [simplified])?)+, rule transfers_ret_eq) simp_all

lemma request_ReqReadMemVar:
  "request_ok (Rq_ReadMemVar r) \<Longrightarrow>
    transfers CLI_SEND SERV_RECV (prep_ReqReadMemVar r) (prep_ReqReadMemVar r0) r (r\<lparr>rmv_out_bufs := map (\<lambda>s. replicate (unat s) 0) (rmv_in_bufs_size r)\<rparr>)"
  unfolding prep_ReqReadMemVar_def
  by ((rule transfers_bind, rule transfers_rules; (simp add: unat_u16_less [simplified])?)+, rule transfers_ret_eq) simp_all

lemma request_ReqWriteMem:
  "request_ok (Rq_WriteMem r) \<Longrightarrow>
    transfers CLI_SEND SERV_RECV (prep_ReqWriteMem r) (prep_ReqWriteMem r0) r (r)"
  unfolding prep_ReqWriteMem_def
  by ((rule transfers_bind, rule transfers_rules; (simp add: unat_u16_less [simplified])?)+, rule transfers_ret_eq) simp_all

lemma request_ReqWriteMemVar:
  "request_ok (Rq_WriteMemVar r) \<Longrightarrow>
    transfers CLI_SEND SERV_RECV (prep_ReqWriteMemVar r) (prep_ReqWriteMemVar r0) r (r)"
  unfolding prep_ReqWriteMemVar_def
  by ((rule transfers_bind, rule transfers_rules; (simp add: unat_u16_less [simplified])?)+, rule transfers_ret_eq) simp_all

lemma request_ReqGetSymsByIds:
  "request_ok (Rq_GetSymsByIds r) \<Longrightarrow>
    transfers CLI_SEND SERV_RECV (prep_ReqGetSymsByIds r) (prep_ReqGetSymsByIds r0) r (r\<lparr>gsi_out_infos := replicate (unat (gsi_nsyms r)) (cnull SymbolInfos_codec)\<rparr>)"
  unfolding prep_ReqGetSymsByIds_def
  by ((rule transfers_bind, rule transfers_rules; (simp add: unat_u16_less [simplified])?)+, rule transfers_ret_eq) simp_all

lemma request_ReqGetSymsByAddr:
  "request_ok (Rq_GetSymsByAddr r) \<Longrightarrow>
    transfers CLI_SEND SERV_RECV (prep_ReqGetSymsByAddr r) (prep_ReqGetSymsByAddr r0) r (r\<lparr>gsa_out_infos := gsa_out_infos r0\<rparr>)"
  unfolding prep_ReqGetSymsByAddr_def
  by ((rule transfers_bind, rule transfers_rules; (simp add: unat_u16_less [simplified])?)+, rule transfers_ret_eq) simp_all

lemma request_ReqGetSymsByNames:
  "request_ok (Rq_GetSymsByNames r) \<Longrightarrow>
    transfers CLI_SEND SERV_RECV (prep_ReqGetSymsByNames r) (prep_ReqGetSymsByNames r0) r (r\<lparr>gsn_out_infos := replicate (unat (gsn_nsyms r)) (cnull SymbolInfos_codec)\<rparr>)"
  unfolding prep_ReqGetSymsByNames_def
  by ((rule transfers_bind, rule transfers_rules; (simp add: unat_u16_less [simplified])?)+, rule transfers_ret_eq) simp_all

lemma request_ReqGetCodeText:
  "request_ok (Rq_GetCodeText r) \<Longrightarrow>
    transfers CLI_SEND SERV_RECV (prep_ReqGetCodeText r) (prep_ReqGetCodeText r0) r (r\<lparr>gct_out_text := gct_out_text r0, gct_out_sizes := gct_out_sizes r0\<rparr>)"
  unfolding prep_ReqGetCodeText_def
  by ((rule transfers_bind, rule transfers_rules; (simp add: unat_u16_less [simplified])?)+, rule transfers_ret_eq) simp_all

lemma request_ReqAddBkps:
  "request_ok (Rq_AddBkps r) \<Longrightarrow>
    transfers CLI_SEND SERV_RECV (prep_ReqAddBkps r) (prep_ReqAddBkps r0) r (r)"
  unfolding prep_ReqAddBkps_def
  by ((rule transfers_bind, rule transfers_rules; (simp add: unat_u16_less [simplified])?)+, rule transfers_ret_eq) simp_all

lemma request_ReqDelBkps:
  "request_ok (Rq_DelBkps r) \<Longrightarrow>
    transfers CLI_SEND SERV_RECV (prep_ReqDelBkps r) (prep_ReqDelBkps r0) r (r)"
  unfolding prep_ReqDelBkps_def
  by ((rule transfers_bind, rule transfers_rules; (simp add: unat_u16_less [simplified])?)+, rule transfers_ret_eq) simp_all

lemma request_ReqResume:
  "request_ok (Rq_Resume r) \<Longrightarrow>
    transfers CLI_SEND SERV_RECV (prep_ReqResume r) (prep_ReqResume r0) r (r)"
  unfolding prep_ReqResume_def
  by ((rule transfers_bind, rule transfers_rules; (simp add: unat_u16_less [simplified])?)+, rule transfers_ret_eq) simp_all

lemma request_ReqErr:
  "request_ok (Rq_Err r) \<Longrightarrow>
    transfers CLI_SEND SERV_RECV (prep_ReqErr r) (prep_ReqErr r0) r (r\<lparr>er_msg := er_msg r0\<rparr>)"
  unfolding prep_ReqErr_def
  by ((rule transfers_bind, rule transfers_rules; (simp add: unat_u16_less [simplified])?)+, rule transfers_ret_eq) simp_all

lemma regs_infos_response:
  assumes "length xs = n" "length ys = n" "\<forall>x \<in> set xs. RegInfos_ok (strip_val x)"
  shows "transfers SERV_SEND CLI_RECV (buffer_out RegInfos_codec xs n) (buffer_out RegInfos_codec ys n)
    xs (map strip_val xs)"
proof -
  have "cenc RegInfos_codec (strip_val x) = cenc RegInfos_codec x" for x
    by (simp add: RegInfos_codec_def ser_RegInfos_def strip_val_def)
  then have bs: "concat (map (cenc RegInfos_codec) xs) = concat (map (cenc RegInfos_codec) (map strip_val xs))"
    by (simp add: comp_def)
  show ?thesis
    unfolding buffer_out_def
    by (rule transfersI [OF emits_dispatch consumes_dispatch])
      (simp, rule cRegInfos.emits_put, rule assms,
        simp only: bs hmode.case, use cRegInfos.consumes_fill [of "map strip_val xs" n ys CLI_RECV] assms in simp)
qed

lemma response_ReqConnect:
  "response_ok (Rq_Connect s) (Rq_Connect c) \<Longrightarrow>
    transfers SERV_SEND CLI_RECV (prep_ReqConnect s) (prep_ReqConnect c) s (c\<lparr>cn_out_infos := cn_out_infos s, cn_out_udp := cn_out_udp s\<rparr>)"
  unfolding prep_ReqConnect_def
  by ((rule transfers_bind, rule transfers_rules; (simp add: Let_def)?)+, rule transfers_ret_eq) (simp_all add: Let_def)

lemma response_ReqStop:
  "response_ok (Rq_Stop s) (Rq_Stop c) \<Longrightarrow>
    transfers SERV_SEND CLI_RECV (prep_ReqStop s) (prep_ReqStop c) s (c)"
  unfolding prep_ReqStop_def
  by (rule transfers_ret_eq) (simp_all add: Let_def)

lemma response_ReqCheckStopped:
  "response_ok (Rq_CheckStopped s) (Rq_CheckStopped c) \<Longrightarrow>
    transfers SERV_SEND CLI_RECV (prep_ReqCheckStopped s) (prep_ReqCheckStopped c) s (c\<lparr>cs_out_udp := cs_out_udp s\<rparr>)"
  unfolding prep_ReqCheckStopped_def
  by ((rule transfers_bind, rule transfers_rules; (simp add: Let_def)?)+, rule transfers_ret_eq) (simp_all add: Let_def)

lemma response_ReqGetRegs:
  "response_ok (Rq_GetRegs s) (Rq_GetRegs c) \<Longrightarrow>
    transfers SERV_SEND CLI_RECV (prep_ReqGetRegs s) (prep_ReqGetRegs c) s (c\<lparr>gr_out_bufs := gr_out_bufs s\<rparr>)"
  unfolding prep_ReqGetRegs_def
  by ((rule transfers_bind, rule transfers_rules; (simp add: Let_def)?)+, rule transfers_ret_eq) (simp_all add: Let_def)

lemma response_ReqGetRegsVar:
  "response_ok (Rq_GetRegsVar s) (Rq_GetRegsVar c) \<Longrightarrow>
    transfers SERV_SEND CLI_RECV (prep_ReqGetRegsVar s) (prep_ReqGetRegsVar c) s (c\<lparr>grv_out_bufs := grv_out_bufs s\<rparr>)"
  unfolding prep_ReqGetRegsVar_def
  by ((rule transfers_bind, rule transfers_rules; (simp add: Let_def)?)+, rule transfers_ret_eq) (simp_all add: Let_def)

lemma response_ReqSetRegs:
  "response_ok (Rq_SetRegs s) (Rq_SetRegs c) \<Longrightarrow>
    transfers SERV_SEND CLI_RECV (prep_ReqSetRegs s) (prep_ReqSetRegs c) s (c)"
  unfolding prep_ReqSetRegs_def
  by ((rule transfers_bind, rule transfers_rules; (simp add: Let_def)?)+, rule transfers_ret_eq) (simp_all add: Let_def)

lemma response_ReqSetRegsVar:
  "response_ok (Rq_SetRegsVar s) (Rq_SetRegsVar c) \<Longrightarrow>
    transfers SERV_SEND CLI_RECV (prep_ReqSetRegsVar s) (prep_ReqSetRegsVar c) s (c)"
  unfolding prep_ReqSetRegsVar_def
  by ((rule transfers_bind, rule transfers_rules; (simp add: Let_def)?)+, rule transfers_ret_eq) (simp_all add: Let_def)

lemma response_ReqGetRegsInfos:
  "response_ok (Rq_GetRegsInfos s) (Rq_GetRegsInfos c) \<Longrightarrow>
    transfers SERV_SEND CLI_RECV (prep_ReqGetRegsInfos s) (prep_ReqGetRegsInfos c) s (c\<lparr>gri_out_infos := map strip_val (gri_out_infos s)\<rparr>)"
  unfolding prep_ReqGetRegsInfos_def
  by ((rule transfers_bind, rule regs_infos_response transfers_rules; (simp add: Let_def)?)+, rule transfers_ret_eq) (simp_all add: Let_def)

lemma response_ReqFindRegsIds:
  "response_ok (Rq_FindRegsIds s) (Rq_FindRegsIds c) \<Longrightarrow>
    transfers SERV_SEND CLI_RECV (prep_ReqFindRegsIds s) (prep_ReqFindRegsIds c) s (c\<lparr>fri_out_ids := fri_out_ids s\<rparr>)"
  unfolding prep_ReqFindRegsIds_def
  by ((rule transfers_bind, rule transfers_rules; (simp add: Let_def)?)+, rule transfers_ret_eq) (simp_all add: Let_def)

lemma response_ReqReadMem:
  "response_ok (Rq_ReadMem s) (Rq_ReadMem c) \<Longrightarrow>
    transfers SERV_SEND CLI_RECV (prep_ReqReadMem s) (prep_ReqReadMem c) s (c\<lparr>rm_out_bufs := rm_out_bufs s\<rparr>)"
  unfolding prep_ReqReadMem_def
  by ((rule transfers_bind, rule transfers_rules; (simp add: Let_def)?)+, rule transfers_ret_eq) (simp_all add: Let_def)

lemma response_ReqReadMemVar:
  "response_ok (Rq_ReadMemVar s) (Rq_ReadMemVar c) \<Longrightarrow>
    transfers SERV_SEND CLI_RECV (prep_ReqReadMemVar s) (prep_ReqReadMemVar c) s (c\<lparr>rmv_out_bufs := rmv_out_bufs s\<rparr>)"
  unfolding prep_ReqReadMemVar_def
  by ((rule transfers_bind, rule transfers_rules; (simp add: Let_def)?)+, rule transfers_ret_eq) (simp_all add: Let_def)

lemma response_ReqWriteMem:
  "response_ok (Rq_WriteMem s) (Rq_WriteMem c) \<Longrightarrow>
    transfers SERV_SEND CLI_RECV (prep_ReqWriteMem s) (prep_ReqWriteMem c) s (c)"
  unfolding prep_ReqWriteMem_def
  by ((rule transfers_bind, rule transfers_rules; (simp add: Let_def)?)+, rule transfers_ret_eq) (simp_all add: Let_def)

lemma response_ReqWriteMemVar:
  "response_ok (Rq_WriteMemVar s) (Rq_WriteMemVar c) \<Longrightarrow>
    transfers SERV_SEND CLI_RECV (prep_ReqWriteMemVar s) (prep_ReqWriteMemVar c) s (c)"
  unfolding prep_ReqWriteMemVar_def
  by ((rule transfers_bind, rule transfers_rules; (simp add: Let_def)?)+, rule transfers_ret_eq) (simp_all add: Let_def)

lemma response_ReqGetSymsByIds:
  "response_ok (Rq_GetSymsByIds s) (Rq_GetSymsByIds c) \<Longrightarrow>
    transfers SERV_SEND CLI_RECV (prep_ReqGetSymsByIds s) (prep_ReqGetSymsByIds c) s (c\<lparr>gsi_out_infos := gsi_out_infos s\<rparr>)"
  unfolding prep_ReqGetSymsByIds_def
  by ((rule transfers_bind, rule transfers_rules; (simp add: Let_def)?)+, rule transfers_ret_eq) (simp_all add: Let_def)

lemma response_ReqGetSymsByAddr:
  "response_ok (Rq_GetSymsByAddr s) (Rq_GetSymsByAddr c) \<Longrightarrow>
    transfers SERV_SEND CLI_RECV (prep_ReqGetSymsByAddr s) (prep_ReqGetSymsByAddr c) s (c\<lparr>gsa_out_infos := gsa_out_infos s\<rparr>)"
  unfolding prep_ReqGetSymsByAddr_def
  by ((rule transfers_bind, rule transfers_rules; (simp add: Let_def)?)+, rule transfers_ret_eq) (simp_all add: Let_def)

lemma response_ReqGetSymsByNames:
  "response_ok (Rq_GetSymsByNames s) (Rq_GetSymsByNames c) \<Longrightarrow>
    transfers SERV_SEND CLI_RECV (prep_ReqGetSymsByNames s) (prep_ReqGetSymsByNames c) s (c\<lparr>gsn_out_infos := gsn_out_infos s\<rparr>)"
  unfolding prep_ReqGetSymsByNames_def
  by ((rule transfers_bind, rule transfers_rules; (simp add: Let_def)?)+, rule transfers_ret_eq) (simp_all add: Let_def)

lemma response_ReqGetCodeText:
  "response_ok (Rq_GetCodeText s) (Rq_GetCodeText c) \<Longrightarrow>
    transfers SERV_SEND CLI_RECV (prep_ReqGetCodeText s) (prep_ReqGetCodeText c) s (c\<lparr>gct_out_text := gct_out_text s, gct_out_sizes := gct_out_sizes s\<rparr>)"
  unfolding prep_ReqGetCodeText_def
  by ((rule transfers_bind, rule transfers_rules; (simp add: Let_def)?)+, rule transfers_ret_eq) (simp_all add: Let_def)

lemma response_ReqAddBkps:
  "response_ok (Rq_AddBkps s) (Rq_AddBkps c) \<Longrightarrow>
    transfers SERV_SEND CLI_RECV (prep_ReqAddBkps s) (prep_ReqAddBkps c) s (c)"
  unfolding prep_ReqAddBkps_def
  by ((rule transfers_bind, rule transfers_rules; (simp add: Let_def)?)+, rule transfers_ret_eq) (simp_all add: Let_def)

lemma response_ReqDelBkps:
  "response_ok (Rq_DelBkps s) (Rq_DelBkps c) \<Longrightarrow>
    transfers SERV_SEND CLI_RECV (prep_ReqDelBkps s) (prep_ReqDelBkps c) s (c)"
  unfolding prep_ReqDelBkps_def
  by ((rule transfers_bind, rule transfers_rules; (simp add: Let_def)?)+, rule transfers_ret_eq) (simp_all add: Let_def)

lemma response_ReqResume:
  "response_ok (Rq_Resume s) (Rq_Resume c) \<Longrightarrow>
    transfers SERV_SEND CLI_RECV (prep_ReqResume s) (prep_ReqResume c) s (c)"
  unfolding prep_ReqResume_def
  by ((rule transfers_bind, rule transfers_rules; (simp add: Let_def)?)+, rule transfers_ret_eq) (simp_all add: Let_def)

lemma response_ReqErr:
  "response_ok (Rq_Err s) (Rq_Err c) \<Longrightarrow>
    transfers SERV_SEND CLI_RECV (prep_ReqErr s) (prep_ReqErr c) s (c\<lparr>er_msg := er_msg s\<rparr>)"
  unfolding prep_ReqErr_def
  by ((rule transfers_bind, rule transfers_rules; (simp add: Let_def)?)+, rule transfers_ret_eq) (simp_all add: Let_def)

lemmas request_transfer_facts = request_ReqConnect request_ReqStop request_ReqCheckStopped
  request_ReqGetRegs request_ReqGetRegsVar request_ReqSetRegs
  request_ReqSetRegsVar request_ReqGetRegsInfos request_ReqFindRegsIds
  request_ReqReadMem request_ReqReadMemVar request_ReqWriteMem
  request_ReqWriteMemVar request_ReqGetSymsByIds request_ReqGetSymsByAddr
  request_ReqGetSymsByNames request_ReqGetCodeText request_ReqAddBkps
  request_ReqDelBkps request_ReqResume request_ReqErr

lemmas response_transfer_facts = response_ReqConnect response_ReqStop response_ReqCheckStopped
  response_ReqGetRegs response_ReqGetRegsVar response_ReqSetRegs
  response_ReqSetRegsVar response_ReqGetRegsInfos response_ReqFindRegsIds
  response_ReqReadMem response_ReqReadMemVar response_ReqWriteMem
  response_ReqWriteMemVar response_ReqGetSymsByIds response_ReqGetSymsByAddr
  response_ReqGetSymsByNames response_ReqGetCodeText response_ReqAddBkps
  response_ReqDelBkps response_ReqResume response_ReqErr

lemma request_transfers:
  assumes "request_ok r" "req_type r0 = req_type r"
  shows "transfers CLI_SEND SERV_RECV (prepare_request r) (prepare_request r0) r (server_view r0 r)"
  using assms by (cases r; cases r0; simp del: request_ok.simps; intro transfers_map request_transfer_facts)

lemma response_transfers:
  assumes "response_ok s c"
  shows "transfers SERV_SEND CLI_RECV (prepare_request s) (prepare_request c) s (client_view c s)"
proof -
  have "req_type c = req_type s" using assms by (cases s) simp_all
  then show ?thesis
    using assms
    by (cases s; cases c; simp del: response_ok.simps; intro transfers_map response_transfer_facts)
qed

end
