(* ===== verification/Vm_Side.thy ===== *)
theory Vm_Side
  imports Debugger_Invariant Request
begin

text \<open>
  \<open>DBClientImplVMSide\<close> of \<open>src/server/db-client-impl-vmside.cc\<close>: the debugger operations a client may
  ask for, executed directly on the debugger, and \<open>run_request\<close>: the calls \<open>DataClientHandler\<close> makes
  for each request it has read (\<open>src/server/data-client-handler.cc\<close>). Arrays are indexed as in the
  source; reading or writing past one of them is an access out of bounds.
\<close>

section \<open>Arrays\<close>

definition elem_at :: "'a list \<Rightarrow> nat \<Rightarrow> ('s, 'a) act" where
  "elem_at xs i = then_act (in_bounds (i < length xs)) (ret (xs ! i))"

text \<open>Bytes written at the start of a row.\<close>

definition store_row :: "bytes \<Rightarrow> bytes \<Rightarrow> ('s, bytes) act" where
  "store_row v row = then_act (in_bounds (length v \<le> length row)) (ret (v @ drop (length v) row))"

section \<open>The operations\<close>

definition is_running :: "'v Debugger \<Rightarrow> bool" where
  "is_running db \<longleftrightarrow> d_state db \<in> {RUNNING_TOFINISH, RUNNING_BKP, RUNNING_STEP, RUNNING_STEP_OVER, RUNNING_STEP_OUT}"

definition vms_check_stopped :: "DBClientUpdate \<Rightarrow> ('v Debugger, DBClientUpdate) act" where
  "vms_check_stopped udp = gets (\<lambda>db.
    if is_running db then udp\<lparr>up_stopped := False\<rparr>
    else udp\<lparr>up_vm_state := (case d_state db of ERROR \<Rightarrow> SS_ERROR | EXIT \<Rightarrow> SS_EXIT | _ \<Rightarrow> SS_READY),
      up_stopped := True, up_addr := d_ins_addr db, up_stack := d_call_stack db\<rparr>)"

definition vms_connect :: "DBClientUpdate \<Rightarrow> ('v Debugger, VMInfos \<times> DBClientUpdate) act" where
  "vms_connect udp = bind_act (gets d_infos) (\<lambda>infos.
    bind_act (vms_check_stopped udp) (\<lambda>udp'. ret (infos, udp')))"

definition vms_stop :: "('v Debugger, unit) act" where
  "vms_stop = stop"

definition vms_get_regs :: "'v VMApi \<Rightarrow> vm_reg_t list \<Rightarrow> bytes list \<Rightarrow> nat \<Rightarrow> ('v Debugger, bytes list) act" where
  "vms_get_regs api ids out_bufs nregs = bind_act (map_act (\<lambda>i.
      bind_act (elem_at ids i) (\<lambda>rid. bind_act (elem_at out_bufs i) (\<lambda>buf.
      bind_act (get_reg api rid) (\<lambda>v. store_row v buf)))) [0..<nregs])
    (\<lambda>rows. ret (rows @ drop nregs out_bufs))"

definition vms_set_regs :: "'v VMApi \<Rightarrow> vm_reg_t list \<Rightarrow> bytes list \<Rightarrow> nat \<Rightarrow> ('v Debugger, unit) act" where
  "vms_set_regs api ids in_bufs nregs = iter_act (\<lambda>i.
      bind_act (elem_at ids i) (\<lambda>rid. bind_act (elem_at in_bufs i) (\<lambda>buf. set_reg api rid buf)))
    [0..<nregs]"

text \<open>\<open>out[i] = f(in[i])\<close> for \<open>i < n\<close>.\<close>

definition fill_array :: "('a \<Rightarrow> ('s, 'b) act) \<Rightarrow> 'a list \<Rightarrow> 'b list \<Rightarrow> nat \<Rightarrow> ('s, 'b list) act" where
  "fill_array f xs out n = bind_act (map_act (\<lambda>i.
      bind_act (elem_at xs i) (\<lambda>x. bind_act (f x) (\<lambda>y.
      then_act (in_bounds (i < length out)) (ret y)))) [0..<n])
    (\<lambda>ys. ret (ys @ drop n out))"

definition vms_get_regs_infos :: "'v VMApi \<Rightarrow> vm_reg_t list \<Rightarrow> RegInfos list \<Rightarrow> nat \<Rightarrow> ('v Debugger, RegInfos list) act" where
  "vms_get_regs_infos api ids out_infos nregs = fill_array (get_reg_infos api) ids out_infos nregs"

definition vms_find_regs_ids :: "'v VMApi \<Rightarrow> string list \<Rightarrow> vm_reg_t list \<Rightarrow> nat \<Rightarrow> ('v Debugger, vm_reg_t list) act" where
  "vms_find_regs_ids api reg_names out_ids nregs = fill_array (find_reg_id api) reg_names out_ids nregs"

definition vms_read_mem :: "'v VMApi \<Rightarrow> vm_ptr_t list \<Rightarrow> vm_size_t list \<Rightarrow> bytes list \<Rightarrow> nat \<Rightarrow>
    ('v Debugger, bytes list) act" where
  "vms_read_mem api src_addrs bufs_sizes out_bufs nbuffs = bind_act (map_act (\<lambda>i.
      bind_act (elem_at src_addrs i) (\<lambda>addr. bind_act (elem_at bufs_sizes i) (\<lambda>len.
      bind_act (elem_at out_bufs i) (\<lambda>buf.
      bind_act (read_mem api addr len) (\<lambda>v. store_row v buf))))) [0..<nbuffs])
    (\<lambda>rows. ret (rows @ drop nbuffs out_bufs))"

definition vms_write_mem :: "'v VMApi \<Rightarrow> vm_ptr_t list \<Rightarrow> vm_size_t list \<Rightarrow> bytes list \<Rightarrow> nat \<Rightarrow>
    ('v Debugger, unit) act" where
  "vms_write_mem api dst_addrs bufs_sizes in_bufs nbuffs = iter_act (\<lambda>i.
      bind_act (elem_at dst_addrs i) (\<lambda>addr. bind_act (elem_at bufs_sizes i) (\<lambda>len.
      bind_act (elem_at in_bufs i) (\<lambda>buf. write_mem api addr len buf)))) [0..<nbuffs]"

definition vms_get_symbols_by_ids :: "'v VMApi \<Rightarrow> vm_sym_t list \<Rightarrow> SymbolInfos list \<Rightarrow> nat \<Rightarrow>
    ('v Debugger, SymbolInfos list) act" where
  "vms_get_symbols_by_ids api ids out_infos nsyms = fill_array (get_symbol_infos api) ids out_infos nsyms"

definition vms_get_symbols_by_addr :: "'v VMApi \<Rightarrow> vm_ptr_t \<Rightarrow> vm_size_t \<Rightarrow> ('v Debugger, SymbolInfos list) act" where
  "vms_get_symbols_by_addr api addr sz = bind_act (get_symbols api addr sz) (\<lambda>ids.
    vms_get_symbols_by_ids api ids (replicate (length ids) (cnull SymbolInfos_codec)) (length ids))"

definition vms_get_symbols_by_names :: "'v VMApi \<Rightarrow> string list \<Rightarrow> SymbolInfos list \<Rightarrow> nat \<Rightarrow>
    ('v Debugger, SymbolInfos list) act" where
  "vms_get_symbols_by_names api names out_infos nsyms =
    fill_array (\<lambda>name. bind_act (find_sym_id api name) (get_symbol_infos api)) names out_infos nsyms"

fun code_text_loop :: "'v VMApi \<Rightarrow> nat \<Rightarrow> vm_ptr_t \<Rightarrow> ('v Debugger, (string \<times> vm_size_t) list) act" where
  "code_text_loop api 0 addr = ret []"
| "code_text_loop api (Suc n) addr = bind_act (get_code_text api addr) (\<lambda>(text, dist).
    bind_act (code_text_loop api n (addr + dist)) (\<lambda>rest. ret ((text, dist) # rest)))"

definition vms_get_code_text :: "'v VMApi \<Rightarrow> vm_ptr_t \<Rightarrow> nat \<Rightarrow> ('v Debugger, string list \<times> vm_size_t list) act" where
  "vms_get_code_text api addr nins =
    bind_act (code_text_loop api nins addr) (\<lambda>xs. ret (map fst xs, map snd xs))"

definition vms_add_breakpoints :: "vm_ptr_t list \<Rightarrow> nat \<Rightarrow> ('v Debugger, unit) act" where
  "vms_add_breakpoints addrs n = iter_act (\<lambda>i. bind_act (elem_at addrs i) add_breakpoint) [0..<n]"

definition vms_del_breakpoints :: "vm_ptr_t list \<Rightarrow> nat \<Rightarrow> ('v Debugger, unit) act" where
  "vms_del_breakpoints addrs n = iter_act (\<lambda>i. bind_act (elem_at addrs i) del_breakpoint) [0..<n]"

definition vms_resume :: "ResumeType \<Rightarrow> ('v Debugger, unit) act" where
  "vms_resume type = resume type"

section \<open>Executing a request\<close>

text \<open>
  The cases of the switch of \<open>DataClientHandler::run_command\<close>, between reading the request and
  writing the response. The requests with one common size pass the array \<open>{size, 0}\<close>.
\<close>

fun run_request :: "'v VMApi \<Rightarrow> request \<Rightarrow> ('v Debugger, request) act" where
  "run_request api (Rq_Connect r) = bind_act (vms_connect (cn_out_udp r))
     (\<lambda>(infos, udp). ret (Rq_Connect (r\<lparr>cn_out_infos := infos, cn_out_udp := udp\<rparr>)))"
| "run_request api (Rq_Stop r) = throw (''Cannot stop already stopped program'' @ [CHR 0x0A])"
| "run_request api (Rq_CheckStopped r) = bind_act (vms_check_stopped (cs_out_udp r))
     (\<lambda>udp. ret (Rq_CheckStopped (r\<lparr>cs_out_udp := udp\<rparr>)))"
| "run_request api (Rq_GetRegs r) = bind_act (vms_get_regs api (gr_ids r) (gr_out_bufs r) (unat (gr_nregs r)))
     (\<lambda>bufs. ret (Rq_GetRegs (r\<lparr>gr_out_bufs := bufs\<rparr>)))"
| "run_request api (Rq_GetRegsVar r) = bind_act (vms_get_regs api (grv_in_ids r) (grv_out_bufs r) (unat (grv_nregs r)))
     (\<lambda>bufs. ret (Rq_GetRegsVar (r\<lparr>grv_out_bufs := bufs\<rparr>)))"
| "run_request api (Rq_SetRegs r) = then_act (vms_set_regs api (sr_in_ids r) (sr_in_bufs r) (unat (sr_nregs r)))
     (ret (Rq_SetRegs r))"
| "run_request api (Rq_SetRegsVar r) = then_act (vms_set_regs api (srv_in_ids r) (srv_in_bufs r) (unat (srv_nregs r)))
     (ret (Rq_SetRegsVar r))"
| "run_request api (Rq_GetRegsInfos r) = bind_act (vms_get_regs_infos api (gri_ids r) (gri_out_infos r) (unat (gri_nregs r)))
     (\<lambda>infos. ret (Rq_GetRegsInfos (r\<lparr>gri_out_infos := infos\<rparr>)))"
| "run_request api (Rq_FindRegsIds r) = bind_act (vms_find_regs_ids api (fri_in_bufs r) (fri_out_ids r) (unat (fri_nregs r)))
     (\<lambda>ids. ret (Rq_FindRegsIds (r\<lparr>fri_out_ids := ids\<rparr>)))"
| "run_request api (Rq_ReadMem r) = bind_act (vms_read_mem api (rm_in_addrs r) [rm_buf_size r, 0] (rm_out_bufs r) (unat (rm_nbufs r)))
     (\<lambda>bufs. ret (Rq_ReadMem (r\<lparr>rm_out_bufs := bufs\<rparr>)))"
| "run_request api (Rq_ReadMemVar r) = bind_act (vms_read_mem api (rmv_in_addrs r) (rmv_in_bufs_size r) (rmv_out_bufs r) (unat (rmv_nbufs r)))
     (\<lambda>bufs. ret (Rq_ReadMemVar (r\<lparr>rmv_out_bufs := bufs\<rparr>)))"
| "run_request api (Rq_WriteMem r) = then_act (vms_write_mem api (wm_in_addrs r) [wm_buf_size r, 0] (wm_in_bufs r) (unat (wm_nbufs r)))
     (ret (Rq_WriteMem r))"
| "run_request api (Rq_WriteMemVar r) = then_act (vms_write_mem api (wmv_in_addrs r) (wmv_in_bufs_size r) (wmv_in_bufs r) (unat (wmv_nbufs r)))
     (ret (Rq_WriteMemVar r))"
| "run_request api (Rq_GetSymsByIds r) = bind_act (vms_get_symbols_by_ids api (gsi_in_ids r) (gsi_out_infos r) (unat (gsi_nsyms r)))
     (\<lambda>infos. ret (Rq_GetSymsByIds (r\<lparr>gsi_out_infos := infos\<rparr>)))"
| "run_request api (Rq_GetSymsByAddr r) = bind_act (vms_get_symbols_by_addr api (gsa_addr r) (gsa_size r))
     (\<lambda>infos. ret (Rq_GetSymsByAddr (r\<lparr>gsa_out_infos := infos\<rparr>)))"
| "run_request api (Rq_GetSymsByNames r) = bind_act (vms_get_symbols_by_names api (gsn_in_names r) (gsn_out_infos r) (unat (gsn_nsyms r)))
     (\<lambda>infos. ret (Rq_GetSymsByNames (r\<lparr>gsn_out_infos := infos\<rparr>)))"
| "run_request api (Rq_GetCodeText r) = bind_act (vms_get_code_text api (gct_addr r) (unat (gct_nins r)))
     (\<lambda>(text, sizes). ret (Rq_GetCodeText (r\<lparr>gct_out_text := text, gct_out_sizes := sizes\<rparr>)))"
| "run_request api (Rq_AddBkps r) = then_act (vms_add_breakpoints (ab_in_addrs r) (unat (ab_size r))) (ret (Rq_AddBkps r))"
| "run_request api (Rq_DelBkps r) = then_act (vms_del_breakpoints (dbk_in_addrs r) (unat (dbk_size r))) (ret (Rq_DelBkps r))"
| "run_request api (Rq_Resume r) = then_act (vms_resume (rs_type r)) (ret (Rq_Resume r))"
| "run_request api (Rq_Err r) = throw ''Bad API request''"

text \<open>The requests \<open>DataClientHandler::check_stopped\<close> serves while the machine runs.\<close>

fun run_request_running :: "request \<Rightarrow> ('v Debugger, request) act" where
  "run_request_running (Rq_Stop r) = then_act vms_stop (ret (Rq_Stop r))"
| "run_request_running (Rq_CheckStopped r) = bind_act (vms_check_stopped (cs_out_udp r))
     (\<lambda>udp. ret (Rq_CheckStopped (r\<lparr>cs_out_udp := udp\<rparr>)))"
| "run_request_running _ = throw ''Only stop and check stopped request can be sent while VM running''"

section \<open>Invariants\<close>

lemma keeps_elem_at [keeps_rules]: "keeps P (elem_at xs i)"
  unfolding elem_at_def by (intro keeps_rules)

lemma keeps_store_row [keeps_rules]: "keeps P (store_row v row)"
  unfolding store_row_def by (intro keeps_rules)

lemma keeps_fill_array [keeps_rules]: "(\<And>x. keeps P (f x)) \<Longrightarrow> keeps P (fill_array f xs out n)"
  unfolding fill_array_def by (intro keeps_rules)

lemma keeps_code_text_loop [keeps_rules]:
  "(\<And>a. keeps P (get_code_text api a)) \<Longrightarrow> keeps P (code_text_loop api n addr)"
  by (induction n arbitrary: addr) (auto intro!: keeps_rules)

lemmas vms_defs = vms_check_stopped_def vms_connect_def vms_get_regs_def vms_set_regs_def
  vms_get_regs_infos_def vms_find_regs_ids_def vms_read_mem_def vms_write_mem_def
  vms_get_symbols_by_ids_def vms_get_symbols_by_addr_def vms_get_symbols_by_names_def
  vms_get_code_text_def vms_add_breakpoints_def vms_del_breakpoints_def vms_resume_def vms_stop_def

lemma keeps_ok_run_request: "keeps db_ok (run_request api r)"
  by (cases r; simp add: vms_defs; intro keeps_rules)

lemma keeps_ok_run_request_running: "keeps db_ok (run_request_running r)"
  by (cases r; simp add: vms_defs; intro keeps_rules)

end
