(* ===== verification/Data_Client.thy ===== *)
theory Data_Client
  imports Vm_Side
begin

text \<open>
  Both ends of the data protocol: the server's answer to a received message
  (\<open>DataClientHandler::run_command\<close> and \<open>check_stopped\<close> once the runner has a request,
  \<open>src/server/data-client-handler.cc\<close>) and the client's \<open>send_req\<close>
  (\<open>src/client/db-client-impl-data.cc\<close>). The transport is the pair of operations of
  \<open>AbstractDataClient\<close>; the locale \<open>data_link\<close> states what a transport connected to a server does and
  \<open>debugger_link\<close> what a client then gets; the TCP transport is proved to be one in \<open>Tcp_Session\<close>.
  The server's handler is constructed with \<open>_rh(true)\<close>, the client's with \<open>_rh(false)\<close>.
\<close>

section \<open>Server\<close>

text \<open>
  The request object of a \<open>case\<close> before it is read. Of the members the constructor leaves
  uninitialised only the update \<open>udp0\<close> is not overwritten before it is used.
\<close>

fun blank_request :: "DBClientUpdate \<Rightarrow> ReqType \<Rightarrow> request" where
  "blank_request udp0 CONNECT = Rq_Connect \<lparr>cn_out_infos = cnull VMInfos_codec, cn_out_udp = udp0\<rparr>"
| "blank_request udp0 STOP = Rq_Stop \<lparr>st_tag = 0\<rparr>"
| "blank_request udp0 CHECK_STOPPED = Rq_CheckStopped \<lparr>cs_out_udp = udp0\<rparr>"
| "blank_request udp0 GET_REGS = Rq_GetRegs \<lparr>gr_nregs = 0, gr_reg_size = 0, gr_ids = [], gr_out_bufs = []\<rparr>"
| "blank_request udp0 GET_REGS_VAR =
     Rq_GetRegsVar \<lparr>grv_nregs = 0, grv_in_ids = [], grv_in_regs_size = [], grv_out_bufs = []\<rparr>"
| "blank_request udp0 SET_REGS = Rq_SetRegs \<lparr>sr_nregs = 0, sr_reg_size = 0, sr_in_ids = [], sr_in_bufs = []\<rparr>"
| "blank_request udp0 SET_REGS_VAR =
     Rq_SetRegsVar \<lparr>srv_nregs = 0, srv_in_ids = [], srv_in_regs_size = [], srv_in_bufs = []\<rparr>"
| "blank_request udp0 GET_REGS_INFOS = Rq_GetRegsInfos \<lparr>gri_nregs = 0, gri_ids = [], gri_out_infos = []\<rparr>"
| "blank_request udp0 FIND_REGS_IDS = Rq_FindRegsIds \<lparr>fri_nregs = 0, fri_in_bufs = [], fri_out_ids = []\<rparr>"
| "blank_request udp0 READ_MEM = Rq_ReadMem \<lparr>rm_nbufs = 0, rm_buf_size = 0, rm_in_addrs = [], rm_out_bufs = []\<rparr>"
| "blank_request udp0 READ_MEM_VAR =
     Rq_ReadMemVar \<lparr>rmv_nbufs = 0, rmv_in_addrs = [], rmv_in_bufs_size = [], rmv_out_bufs = []\<rparr>"
| "blank_request udp0 WRITE_MEM = Rq_WriteMem \<lparr>wm_nbufs = 0, wm_buf_size = 0, wm_in_addrs = [], wm_in_bufs = []\<rparr>"
| "blank_request udp0 WRITE_MEM_VAR =
     Rq_WriteMemVar \<lparr>wmv_nbufs = 0, wmv_in_addrs = [], wmv_in_bufs_size = [], wmv_in_bufs = []\<rparr>"
| "blank_request udp0 GET_SYMS_BY_IDS = Rq_GetSymsByIds \<lparr>gsi_nsyms = 0, gsi_in_ids = [], gsi_out_infos = []\<rparr>"
| "blank_request udp0 GET_SYMS_BY_ADDR = Rq_GetSymsByAddr \<lparr>gsa_addr = 0, gsa_size = 0, gsa_out_infos = []\<rparr>"
| "blank_request udp0 GET_SYMS_BY_NAMES = Rq_GetSymsByNames \<lparr>gsn_nsyms = 0, gsn_in_names = [], gsn_out_infos = []\<rparr>"
| "blank_request udp0 GET_CODE_TEXT =
     Rq_GetCodeText \<lparr>gct_addr = 0, gct_nins = 0, gct_out_text = [], gct_out_sizes = []\<rparr>"
| "blank_request udp0 ADD_BKPS = Rq_AddBkps \<lparr>ab_size = 0, ab_in_addrs = []\<rparr>"
| "blank_request udp0 DEL_BKPS = Rq_DelBkps \<lparr>dbk_size = 0, dbk_in_addrs = []\<rparr>"
| "blank_request udp0 RESUME = Rq_Resume \<lparr>rs_type = ToFinish\<rparr>"
| "blank_request udp0 ERR = Rq_Err \<lparr>er_msg = []\<rparr>"
| "blank_request udp0 (ReqType_raw b) = Rq_Err \<lparr>er_msg = []\<rparr>"

text \<open>The request types a switch refuses, with the error it throws.\<close>

fun rejects_stopped :: "ReqType \<Rightarrow> string option" where
  "rejects_stopped STOP = Some (''Cannot stop already stopped program'' @ [CHR 0x0A])"
| "rejects_stopped ERR = Some ''Bad API request''"
| "rejects_stopped (ReqType_raw b) = Some ''Bad API request''"
| "rejects_stopped _ = None"

fun rejects_running :: "ReqType \<Rightarrow> string option" where
  "rejects_running STOP = None"
| "rejects_running CHECK_STOPPED = None"
| "rejects_running _ = Some ''Only stop and check stopped request can be sent while VM running''"

definition write_response :: "ReqType \<Rightarrow> request \<Rightarrow> bytes outcome" where
  "write_response ty r = (case server_write_response True r (cenc ReqType_codec ty) of
      Ret (_, out) \<Rightarrow> Ret out | Throw e \<Rightarrow> Throw e | Abort c \<Rightarrow> Abort c)"

text \<open>\<open>e.what()\<close> is a zero-terminated string.\<close>

definition what :: "string \<Rightarrow> string" where
  "what msg = takeWhile (\<lambda>c. c \<noteq> CHR 0x00) msg"

definition error_response :: "string \<Rightarrow> ('s, bytes) act" where
  "error_response msg = call_act (write_response ERR (Rq_Err \<lparr>er_msg = what msg\<rparr>))"

text \<open>
  The body of \<open>run_command\<close> and \<open>check_stopped\<close>: read the type, execute the request, write the
  response; a thrown \<open>VMApi::Error\<close> becomes an error response.
\<close>

definition answer :: "(ReqType \<Rightarrow> string option) \<Rightarrow> (request \<Rightarrow> ('s, request) act) \<Rightarrow> DBClientUpdate \<Rightarrow>
    bytes \<Rightarrow> ('s, bytes) act" where
  "answer rejects run udp0 msg =
    (case cdec ReqType_codec (sib_reset msg) of
       (Ret ty, is) \<Rightarrow> catch_act
         (case rejects ty of
            Some e \<Rightarrow> throw e
          | None \<Rightarrow> bind_act (call_act (fst (server_read_request True (blank_request udp0 ty) is))) (\<lambda>r.
              bind_act (run r) (\<lambda>r'. call_act (write_response ty r'))))
         error_response
     | (Throw e, _) \<Rightarrow> throw e
     | (Abort c, _) \<Rightarrow> abort c)"

definition serve_stopped :: "'v VMApi \<Rightarrow> DBClientUpdate \<Rightarrow> bytes \<Rightarrow> ('v Debugger, bytes) act" where
  "serve_stopped api = answer rejects_stopped (run_request api)"

definition serve_running :: "DBClientUpdate \<Rightarrow> bytes \<Rightarrow> ('v Debugger, bytes) act" where
  "serve_running = answer rejects_running run_request_running"

section \<open>Client\<close>

definition client_send :: "request \<Rightarrow> bytes outcome" where
  "client_send r = (case client_write_request False r (cenc ReqType_codec (req_type r)) of
      Ret (_, out) \<Rightarrow> Ret out | Throw e \<Rightarrow> Throw e | Abort c \<Rightarrow> Abort c)"

definition handle_err :: "(in_buff, request) act" where
  "handle_err = bind_act (client_read_response False (Rq_Err \<lparr>er_msg = []\<rparr>)) (\<lambda>e. throw (er_msg (un_Err e)))"

definition client_receive :: "request \<Rightarrow> (in_buff, request) act" where
  "client_receive r = bind_act (cdec ReqType_codec) (\<lambda>res_ty.
    if res_ty = ERR then handle_err
    else then_act (assert_act (res_ty = req_type r)) (client_read_response False r))"

definition send_req :: "(bytes \<Rightarrow> ('s, bool) act) \<Rightarrow> ('s, bytes option) act \<Rightarrow> request \<Rightarrow> ('s, request) act" where
  "send_req send_data recv_data r = bind_act (call_act (client_send r)) (\<lambda>os.
    bind_act (send_data os) (\<lambda>sent.
    if \<not> sent then throw ''Failed to send request to DB server''
    else bind_act recv_data (\<lambda>received. case received of
        None \<Rightarrow> throw ''Failed to receive response from DB server''
      | Some is \<Rightarrow> call_act (fst (client_receive r (sib_reset is))))))"

section \<open>Messages of both ends\<close>

lemma req_type_ok [simp]: "ReqType_ok (req_type r)"
  by (cases r) (simp_all add: ReqType_ok_def ReqType_of_byte_def)

lemma req_type_blank: "rejects_stopped ty = None \<or> rejects_running ty = None \<Longrightarrow> req_type (blank_request udp0 ty) = ty"
  by (cases ty) simp_all

lemma transfersE:
  assumes "transfers sm rm m n x y"
  obtains bs where "emits sm m bs x" "consumes rm n bs y"
  using assms by (auto simp: transfers_def)

lemma ReqType_prefix:
  assumes "ReqType_ok ty" "length (cenc ReqType_codec ty @ bs) < 2 ^ 63"
  shows "\<exists>is. cdec ReqType_codec (sib_reset (cenc ReqType_codec ty @ bs)) = (Ret ty, is) \<and> in_ok is \<and> in_rest is = bs"
proof -
  let ?b = "sib_reset (cenc ReqType_codec ty @ bs)"
  have ok: "in_ok ?b" "in_rest ?b = cenc ReqType_codec ty @ bs"
    using in_ok_reset [OF assms(2)] by simp_all
  then have "cdec ReqType_codec ?b = (Ret ty, in_skip (length (cenc ReqType_codec ty)) ?b)"
    using cReqType.parses_item [OF assms(1)] unfolding parses_def by blast
  with in_skip_rest [OF ok] show ?thesis by blast
qed

lemma emits_run_mode:
  "emits mode (prepare_request r) bs x \<Longrightarrow>
    run_mode mode r \<lparr>h_mode = mode, h_out = out, h_in = i\<rparr> = (Ret x, \<lparr>h_mode = mode, h_out = out @ bs, h_in = i\<rparr>)"
  by (simp add: run_mode_def emits_def)

lemma consumes_run_mode:
  "consumes mode (prepare_request r) bs x \<Longrightarrow> in_ok i \<Longrightarrow> in_rest i = bs \<Longrightarrow>
    run_mode mode r \<lparr>h_mode = mode, h_out = out, h_in = i\<rparr> =
      (Ret x, \<lparr>h_mode = mode, h_out = out, h_in = in_skip (length bs) i\<rparr>)"
  by (simp add: run_mode_def consumes_def)

text \<open>The request as the client writes it is the request the server reads, for both directions.\<close>

lemma request_message:
  assumes "request_ok r" "req_type r0 = req_type r"
  obtains bs where "client_send r = Ret (cenc ReqType_codec (req_type r) @ bs)"
    "\<And>i. in_ok i \<Longrightarrow> in_rest i = bs \<Longrightarrow> server_read_request True r0 i = (Ret (server_view r0 r), in_skip (length bs) i)"
proof -
  obtain bs where bs: "emits CLI_SEND (prepare_request r) bs r" "consumes SERV_RECV (prepare_request r0) bs (server_view r0 r)"
    using request_transfers [OF assms] by (rule transfersE)
  show thesis
    by (rule that [of bs])
      (simp_all add: client_send_def client_write_request_def server_read_request_def emits_run_mode [OF bs(1)]
        consumes_run_mode [OF bs(2)])
qed

lemma response_message:
  assumes "response_ok s c"
  obtains bs where "write_response ty s = Ret (cenc ReqType_codec ty @ bs)"
    "\<And>i. in_ok i \<Longrightarrow> in_rest i = bs \<Longrightarrow> client_read_response False c i = (Ret (client_view c s), in_skip (length bs) i)"
proof -
  obtain bs where bs: "emits SERV_SEND (prepare_request s) bs s" "consumes CLI_RECV (prepare_request c) bs (client_view c s)"
    using response_transfers [OF assms] by (rule transfersE)
  show thesis
    by (rule that [of bs])
      (simp_all add: write_response_def server_write_response_def client_read_response_def emits_run_mode [OF bs(1)]
        consumes_run_mode [OF bs(2)])
qed

lemma answer_read:
  assumes "request_ok r" "req_type (blank_request udp0 (req_type r)) = req_type r" "rejects (req_type r) = None"
    and "client_send r = Ret msg" "length msg < 2 ^ 63"
  shows "answer rejects run udp0 msg = catch_act
    (bind_act (run (server_view (blank_request udp0 (req_type r)) r)) (\<lambda>r'. call_act (write_response (req_type r) r')))
    error_response"
proof -
  obtain bs where bs: "client_send r = Ret (cenc ReqType_codec (req_type r) @ bs)"
    "\<And>i. in_ok i \<Longrightarrow> in_rest i = bs \<Longrightarrow>
      server_read_request True (blank_request udp0 (req_type r)) i =
        (Ret (server_view (blank_request udp0 (req_type r)) r), in_skip (length bs) i)"
    using request_message [OF assms(1,2)] by blast
  then have msg: "msg = cenc ReqType_codec (req_type r) @ bs" using assms(4) by simp
  obtain ib where ib: "cdec ReqType_codec (sib_reset msg) = (Ret (req_type r), ib)" "in_ok ib" "in_rest ib = bs"
    using ReqType_prefix [OF req_type_ok] assms(5) unfolding msg by blast
  show ?thesis
    unfolding answer_def ib(1) by (simp add: assms(3) bs(2) ib) (simp add: call_act_def bind_act_def)
qed

lemma client_receive_Ret:
  assumes "response_ok s c" "write_response (req_type c) s = Ret out" "length out < 2 ^ 63" "req_type c \<noteq> ERR"
  shows "fst (client_receive c (sib_reset out)) = Ret (client_view c s)"
proof -
  obtain bs where bs: "write_response (req_type c) s = Ret (cenc ReqType_codec (req_type c) @ bs)"
    "\<And>i. in_ok i \<Longrightarrow> in_rest i = bs \<Longrightarrow> client_read_response False c i = (Ret (client_view c s), in_skip (length bs) i)"
    using response_message [OF assms(1)] by blast
  then have out: "out = cenc ReqType_codec (req_type c) @ bs" using assms(2) by simp
  obtain ib where ib: "cdec ReqType_codec (sib_reset out) = (Ret (req_type c), ib)" "in_ok ib" "in_rest ib = bs"
    using ReqType_prefix [OF req_type_ok] assms(3) unfolding out by blast
  show ?thesis
    using assms(4) ib bs(2) by (simp add: client_receive_def bind_act_def then_act_def)
qed

lemma error_message:
  assumes "fits (what e)"
  obtains out where "write_response ERR (Rq_Err \<lparr>er_msg = what e\<rparr>) = Ret out"
    "length out < 2 ^ 63 \<Longrightarrow> fst (client_receive c (sib_reset out)) = Throw (what e)"
proof -
  let ?s = "Rq_Err \<lparr>er_msg = what e\<rparr>" and ?c = "Rq_Err \<lparr>er_msg = []\<rparr>"
  have "response_ok ?s ?c" using assms by simp
  then obtain bs where bs: "write_response ERR ?s = Ret (cenc ReqType_codec ERR @ bs)"
    "\<And>i. in_ok i \<Longrightarrow> in_rest i = bs \<Longrightarrow> client_read_response False ?c i = (Ret (client_view ?c ?s), in_skip (length bs) i)"
    using response_message [of ?s ?c ERR] by blast
  show thesis
  proof (rule that [OF bs(1)])
    assume "length (cenc ReqType_codec ERR @ bs) < 2 ^ 63"
    then obtain ib where "cdec ReqType_codec (sib_reset (cenc ReqType_codec ERR @ bs)) = (Ret ERR, ib)"
      "in_ok ib" "in_rest ib = bs"
      using ReqType_prefix [of ERR bs] by (auto simp: ReqType_ok_def ReqType_of_byte_def)
    then show "fst (client_receive c (sib_reset (cenc ReqType_codec ERR @ bs))) = Throw (what e)"
      using bs(2) by (simp add: client_receive_def handle_err_def bind_act_def)
  qed
qed

section \<open>A transport connected to a server\<close>

text \<open>
  What a transport promises: when the peer turns a message into a response, both below the limit of
  the transport, sending the message succeeds and the next receive yields that response, the peer
  having moved to its next state.
\<close>

locale data_link =
  fixes send_data :: "bytes \<Rightarrow> ('l, bool) act"
    and recv_data :: "('l, bytes option) act"
    and peer :: "bytes \<Rightarrow> ('s, bytes) act"
    and idle :: "'s \<Rightarrow> 'l \<Rightarrow> bool"
    and limit :: nat
  assumes exchange: "idle s l \<Longrightarrow> length msg < limit \<Longrightarrow> length out < limit \<Longrightarrow> peer msg s = (Ret out, s') \<Longrightarrow>
    \<exists>l1 l2. send_data msg l = (Ret True, l1) \<and> recv_data l1 = (Ret (Some out), l2) \<and> idle s' l2"
begin

lemma send_req_exchange:
  assumes "client_send r = Ret msg" "peer msg s = (Ret out, s')" "idle s l" "length msg < limit" "length out < limit"
  shows "\<exists>l'. send_req send_data recv_data r l = (fst (client_receive r (sib_reset out)), l') \<and> idle s' l'"
  using exchange [OF assms(3,4,5,2)] assms(1) by (auto simp: send_req_def bind_act_def)

end

text \<open>
  What the server does with a request it has read, without the message: the dispatch of \<open>run_command\<close>
  on the request with its output buffers allocated.
\<close>

definition local_call :: "'v VMApi \<Rightarrow> DBClientUpdate \<Rightarrow> request \<Rightarrow> ('v Debugger, request) act" where
  "local_call api udp0 r = run_request api (server_view (blank_request udp0 (req_type r)) r)"

definition short_message :: "nat \<Rightarrow> bytes outcome \<Rightarrow> bool" where
  "short_message n m = (case m of Ret bs \<Rightarrow> length bs < n | _ \<Rightarrow> True)"

lemma request_accepted:
  "rejects_stopped (req_type r) = None \<Longrightarrow> req_type (blank_request udp0 (req_type r)) = req_type r \<and> req_type r \<noteq> ERR"
  by (cases r) simp_all

lemma send_Ret:
  assumes "request_ok r"
  obtains msg where "client_send r = Ret msg"
  using request_message [OF assms refl] by blast

lemma serve_request:
  assumes "request_ok r" "rejects_stopped (req_type r) = None" "client_send r = Ret msg" "length msg < 2 ^ 63"
  shows "serve_stopped api udp0 msg = catch_act
    (bind_act (local_call api udp0 r) (\<lambda>r'. call_act (write_response (req_type r) r'))) error_response"
  unfolding serve_stopped_def local_call_def
  using answer_read [of r udp0 rejects_stopped msg] assms request_accepted [OF assms(2), of udp0] by simp

text \<open>A transport to a server that serves a stopped debugger; a buffer holds less than \<open>2 ^ 63\<close> bytes.\<close>

locale debugger_link = data_link send_data recv_data "serve_stopped api udp0" idle limit
  for send_data :: "bytes \<Rightarrow> ('l, bool) act" and recv_data :: "('l, bytes option) act" and api :: "'v VMApi"
    and udp0 :: DBClientUpdate and idle :: "'v Debugger \<Rightarrow> 'l \<Rightarrow> bool" and limit :: nat +
  assumes limit: "limit \<le> 2 ^ 63"
begin

lemma remote_Ret:
  assumes r: "request_ok r" "rejects_stopped (req_type r) = None" "short_message limit (client_send r)" and l: "idle d l"
    and call: "local_call api udp0 r d = (Ret s, d')" and s: "response_ok s r" "short_message limit (write_response (req_type r) s)"
  shows "\<exists>l'. send_req send_data recv_data r l = (Ret (client_view r s), l') \<and> idle d' l'"
proof -
  obtain msg where msg: "client_send r = Ret msg" using r(1) by (rule send_Ret)
  then have len: "length msg < limit" "length msg < 2 ^ 63" using r(3) limit by (simp_all add: short_message_def)
  obtain out where out: "write_response (req_type r) s = Ret out" using response_message [OF s(1)] by blast
  then have olen: "length out < limit" "length out < 2 ^ 63" using s(2) limit by (simp_all add: short_message_def)
  have "serve_stopped api udp0 msg d = (Ret out, d')"
    unfolding serve_request [OF r(1,2) msg len(2)] using call out by (simp add: catch_act_def bind_act_def)
  from send_req_exchange [OF msg this l len(1) olen(1)] show ?thesis
    using client_receive_Ret [OF s(1) out olen(2)] request_accepted [OF r(2)] by simp
qed

lemma remote_Throw:
  assumes r: "request_ok r" "rejects_stopped (req_type r) = None" "short_message limit (client_send r)" and l: "idle d l"
    and call: "local_call api udp0 r d = (Throw e, d')"
    and e: "fits (what e)" "short_message limit (write_response ERR (Rq_Err \<lparr>er_msg = what e\<rparr>))"
  shows "\<exists>l'. send_req send_data recv_data r l = (Throw (what e), l') \<and> idle d' l'"
proof -
  obtain msg where msg: "client_send r = Ret msg" using r(1) by (rule send_Ret)
  then have len: "length msg < limit" "length msg < 2 ^ 63" using r(3) limit by (simp_all add: short_message_def)
  obtain out where out: "write_response ERR (Rq_Err \<lparr>er_msg = what e\<rparr>) = Ret out"
    "length out < 2 ^ 63 \<Longrightarrow> fst (client_receive r (sib_reset out)) = Throw (what e)"
    using error_message [OF e(1)] by blast
  then have olen: "length out < limit" "length out < 2 ^ 63" using e(2) limit by (simp_all add: short_message_def)
  have "serve_stopped api udp0 msg d = (Ret out, d')"
    unfolding serve_request [OF r(1,2) msg len(2)] using call out(1) by (simp add: catch_act_def bind_act_def error_response_def)
  from send_req_exchange [OF msg this l len(1) olen(1)] show ?thesis using out(2) olen(2) by simp
qed

end

section \<open>Properties\<close>

text \<open>
  C9. A request survives the wire: what the server reads from the bytes the client wrote is the
  client's request, every input field with its value, the output buffers allocated to their sizes;
  the message is consumed to its last byte. This holds for all requests of the protocol.
\<close>

theorem request_round_trip:
  assumes "request_ok r" "req_type r0 = req_type r" "short_message (2 ^ 63) (client_send r)"
  shows "\<exists>msg b b'. client_send r = Ret msg \<and> cdec ReqType_codec (sib_reset msg) = (Ret (req_type r), b) \<and>
    server_read_request True r0 b = (Ret (server_view r0 r), b') \<and> sib_check_eof b' = (Ret (), b')"
proof -
  obtain bs where bs: "client_send r = Ret (cenc ReqType_codec (req_type r) @ bs)"
    "\<And>i. in_ok i \<Longrightarrow> in_rest i = bs \<Longrightarrow> server_read_request True r0 i = (Ret (server_view r0 r), in_skip (length bs) i)"
    using request_message [OF assms(1,2)] by blast
  let ?msg = "cenc ReqType_codec (req_type r) @ bs"
  have len: "length ?msg < 2 ^ 63" using assms(3) bs(1) by (simp add: short_message_def)
  obtain ib where ib: "cdec ReqType_codec (sib_reset ?msg) = (Ret (req_type r), ib)" "in_ok ib" "in_rest ib = bs"
    using ReqType_prefix [OF req_type_ok len] by blast
  have "ib = in_skip (length (cenc ReqType_codec (req_type r))) (sib_reset ?msg)"
    using cReqType.parses_item [OF req_type_ok] ib(1) in_ok_reset [OF len] in_rest_reset [of ?msg]
    unfolding parses_def by (metis prod.inject)
  then have "sib_check_eof (in_skip (length bs) ib) = (Ret (), in_skip (length bs) ib)"
    by (simp add: sib_check_eof_def) (simp add: in_skip_def sib_reset_def)
  then show ?thesis using bs ib by blast
qed

definition sample_update :: DBClientUpdate where
  "sample_update = \<lparr>up_vm_state = SS_READY, up_stopped = False, up_addr = 0, up_stack = []\<rparr>"

definition sample_request :: request where
  "sample_request = Rq_AddBkps \<lparr>ab_size = 2, ab_in_addrs = [5, 7]\<rparr>"

lemma sample_messages:
  "client_send sample_request = Ret [17, 2, 0, 5, 0, 0, 0, 0, 0, 0, 0, 7, 0, 0, 0, 0, 0, 0, 0]"
  "write_response (req_type sample_request) sample_request = Ret [17]"
  by code_simp+

lemma sample_request_facts:
  "request_ok sample_request" "rejects_stopped (req_type sample_request) = None"
  "short_message (2 ^ 63) (client_send sample_request)"
  by (simp_all add: sample_request_def) (simp add: short_message_def sample_messages flip: sample_request_def)

lemma sample_local_call:
  "local_call script_vm sample_update sample_request script_debugger =
    (Ret sample_request, script_debugger\<lparr>d_breakpts := {5, 7}\<rparr>)"
  by (simp add: local_call_def sample_request_def vms_add_breakpoints_def upt_rec elem_at_def
      add_breakpoint_def script_debugger_def Debugger_new_def script_infos_def then_act_def bind_act_def
      insert_commute)

theorem request_round_trip_witness:
  "\<exists>msg b b'. client_send sample_request = Ret msg \<and>
    cdec ReqType_codec (sib_reset msg) = (Ret (req_type sample_request), b) \<and>
    server_read_request True (blank_request sample_update ADD_BKPS) b =
      (Ret (server_view (blank_request sample_update ADD_BKPS) sample_request), b') \<and>
    sib_check_eof b' = (Ret (), b')"
  using request_round_trip [OF sample_request_facts(1) _ sample_request_facts(3)]
  by (simp add: sample_request_def)

end
