(* ===== verification/Tcp_Transfer.thy ===== *)
theory Tcp_Transfer
  imports Serial
begin

text \<open>
  The TCP transport: the length-prefixed messages of \<open>src/mess/tcp-transfer.cc\<close>, \<open>TCPDataServer\<close>
  (\<open>src/server/tcp-data-server.cc\<close>) and \<open>TCPDataClient\<close> (\<open>src/client/tcp-data-client.cc\<close>). The system
  calls are the parameter \<open>net\<close> over a kernel state; \<open>stream_in\<close>, \<open>stream_out\<close> and \<open>stream_eof\<close> say what
  \<open>read\<close> and \<open>send\<close> do on a connected stream socket: they move at least one byte and at most as many
  as asked, in order. Messages then arrive whole and in order however the kernel cuts them. The
  warnings on standard error are left out.
\<close>

section \<open>System calls\<close>

text \<open>
  A result of \<open>read\<close> is the bytes it stored, \<open>None\<close> for -1; of \<open>send\<close> the number of bytes taken, \<open>None\<close>
  for -1. The other calls return the C integer.
\<close>

datatype sock_opt = SO_REUSEADDR | TCP_NODELAY

record 'k net =
  nt_socket :: "'k \<Rightarrow> int \<times> 'k"
  nt_setsockopt :: "int \<Rightarrow> sock_opt \<Rightarrow> 'k \<Rightarrow> int \<times> 'k"
  nt_bind :: "int \<Rightarrow> u16 \<Rightarrow> 'k \<Rightarrow> int \<times> 'k"
  nt_listen :: "int \<Rightarrow> 'k \<Rightarrow> int \<times> 'k"
  nt_accept :: "int \<Rightarrow> 'k \<Rightarrow> int \<times> 'k"
  nt_inet_pton :: "string \<Rightarrow> u32 option"
  nt_connect :: "int \<Rightarrow> u32 \<Rightarrow> u16 \<Rightarrow> 'k \<Rightarrow> int \<times> 'k"
  nt_read :: "int \<Rightarrow> nat \<Rightarrow> 'k \<Rightarrow> bytes option \<times> 'k"
  nt_send :: "int \<Rightarrow> bytes \<Rightarrow> 'k \<Rightarrow> nat option \<times> 'k"
  nt_close :: "int \<Rightarrow> 'k \<Rightarrow> 'k"

section \<open>Messages\<close>

text \<open>
  \<open>read_mult\<close> fills the buffer it is given; the part not read keeps its contents. A kernel that stored
  more than asked would have written past the buffer.
\<close>

function read_mult :: "'k net \<Rightarrow> int \<Rightarrow> bytes \<Rightarrow> ('k, bytes \<times> bool) act" where
  "read_mult nt fd buf k =
    (if buf = [] then (Ret ([], True), k)
     else case nt_read nt fd (length buf) k of
         (None, k') \<Rightarrow> (Ret (buf, False), k')
       | (Some bs, k') \<Rightarrow>
           if bs = [] then (Ret (buf, False), k')
           else if length buf < length bs then (Abort Out_of_bounds, k')
           else (case read_mult nt fd (drop (length bs) buf) k' of
               (Ret (rest, ok), k'') \<Rightarrow> (Ret (bs @ rest, ok), k'')
             | (Throw e, k'') \<Rightarrow> (Throw e, k'')
             | (Abort c, k'') \<Rightarrow> (Abort c, k'')))"
  by auto

termination by (relation "measure (\<lambda>(nt, fd, buf, k). length buf)") auto

function write_mult :: "'k net \<Rightarrow> int \<Rightarrow> bytes \<Rightarrow> ('k, bool) act" where
  "write_mult nt fd buf k =
    (if buf = [] then (Ret True, k)
     else case nt_send nt fd buf k of
         (None, k') \<Rightarrow> (Ret False, k')
       | (Some n, k') \<Rightarrow>
           if n = 0 then (Ret False, k')
           else if length buf < n then (Abort Out_of_bounds, k')
           else write_mult nt fd (drop n buf) k')"
  by auto

termination by (relation "measure (\<lambda>(nt, fd, buf, k). length buf)") auto

declare read_mult.simps [simp del] write_mult.simps [simp del]

type_synonym msg_size_t = u32

definition send_data_tcp :: "'k net \<Rightarrow> out_buff \<Rightarrow> int \<Rightarrow> ('k, bool) act" where
  "send_data_tcp nt os fd = (let sz = of_nat (length os) :: msg_size_t in
    bind_act (write_mult nt fd (sb_serial_raw sz)) (\<lambda>ok.
      if ok then write_mult nt fd (take (unat sz) os) else ret False))"

text \<open>The bytes of \<open>size\<close> before it is read are not used; the buffer is resized, which keeps old bytes.\<close>

definition recv_data_tcp :: "'k net \<Rightarrow> in_buff \<Rightarrow> int \<Rightarrow> ('k, in_buff \<times> bool) act" where
  "recv_data_tcp nt is fd =
    bind_act (read_mult nt fd (replicate (raw_size TYPE(msg_size_t)) 0)) (\<lambda>(hd, ok).
      if \<not> ok then ret (is, False)
      else let sz = of_le_bytes hd :: msg_size_t in
        bind_act (read_mult nt fd (vec_resize (unat sz) 0 (in_data is))) (\<lambda>(data, ok').
          ret (\<lparr>in_data = data, in_pos = 0\<rparr>, ok')))"

section \<open>Server and client sockets\<close>

record TCPDataServer =
  ts_port :: int
  ts_serv_fd :: int
  ts_cli_fd :: int

definition TCPDataServer_new :: "int \<Rightarrow> TCPDataServer" where
  "TCPDataServer_new port = \<lparr>ts_port = port, ts_serv_fd = -1, ts_cli_fd = -1\<rparr>"

definition TCPDataServer_delete :: "'k net \<Rightarrow> TCPDataServer \<Rightarrow> 'k \<Rightarrow> 'k" where
  "TCPDataServer_delete nt t k =
    (let k' = if ts_serv_fd t \<noteq> -1 then nt_close nt (ts_serv_fd t) k else k
     in if ts_cli_fd t \<noteq> -1 then nt_close nt (ts_cli_fd t) k' else k')"

definition ts_connect :: "'k net \<Rightarrow> TCPDataServer \<Rightarrow> 'k \<Rightarrow> bool \<times> TCPDataServer \<times> 'k" where
  "ts_connect nt t k =
    (let (fd, k) = nt_socket nt k; t = t\<lparr>ts_serv_fd := fd\<rparr> in
     if fd < 0 then (False, t, k)
     else let (r, k) = nt_setsockopt nt fd SO_REUSEADDR k in
     if r = -1 then (False, t, k)
     else let (r, k) = nt_bind nt fd (word_of_int (ts_port t)) k in
     if r < 0 then (False, t, k)
     else let (r, k) = nt_listen nt fd k in
     if r < 0 then (False, t, k)
     else let (cfd, k) = nt_accept nt fd k; t = t\<lparr>ts_cli_fd := cfd\<rparr> in
     if cfd < 0 then (False, t, k)
     else let (r, k) = nt_setsockopt nt cfd TCP_NODELAY k in
     if r = -1 then (False, t, k) else (True, t, k))"

definition ts_send_data :: "'k net \<Rightarrow> TCPDataServer \<Rightarrow> out_buff \<Rightarrow> ('k, bool) act" where
  "ts_send_data nt t os = send_data_tcp nt os (ts_cli_fd t)"

definition ts_recv_data :: "'k net \<Rightarrow> TCPDataServer \<Rightarrow> in_buff \<Rightarrow> ('k, in_buff \<times> bool) act" where
  "ts_recv_data nt t is = recv_data_tcp nt is (ts_cli_fd t)"

record TCPDataClient =
  tc_hostname :: string
  tc_port :: int
  tc_fd :: int

definition TCPDataClient_new :: "string \<Rightarrow> int \<Rightarrow> TCPDataClient" where
  "TCPDataClient_new hostname port = \<lparr>tc_hostname = hostname, tc_port = port, tc_fd = -1\<rparr>"

definition TCPDataClient_delete :: "'k net \<Rightarrow> TCPDataClient \<Rightarrow> 'k \<Rightarrow> 'k" where
  "TCPDataClient_delete nt t k = (if tc_fd t \<noteq> -1 then nt_close nt (tc_fd t) k else k)"

definition tc_connect :: "'k net \<Rightarrow> TCPDataClient \<Rightarrow> 'k \<Rightarrow> bool \<times> TCPDataClient \<times> 'k" where
  "tc_connect nt t k =
    (let (fd, k) = nt_socket nt k; t = t\<lparr>tc_fd := fd\<rparr> in
     if fd < 0 then (False, t, k)
     else case nt_inet_pton nt (tc_hostname t) of
       None \<Rightarrow> (False, t, k)
     | Some addr \<Rightarrow>
         let (r, k) = nt_connect nt fd addr (word_of_int (tc_port t)) k in
         if r < 0 then (False, t, k)
         else let (r, k) = nt_setsockopt nt fd TCP_NODELAY k in
         if r = -1 then (False, t, k) else (True, t, k))"

definition tc_send_data :: "'k net \<Rightarrow> TCPDataClient \<Rightarrow> out_buff \<Rightarrow> ('k, bool) act" where
  "tc_send_data nt t os = send_data_tcp nt os (tc_fd t)"

definition tc_recv_data :: "'k net \<Rightarrow> TCPDataClient \<Rightarrow> in_buff \<Rightarrow> ('k, in_buff \<times> bool) act" where
  "tc_recv_data nt t is = recv_data_tcp nt is (tc_fd t)"

section \<open>Stream sockets\<close>

text \<open>
  \<open>pend k\<close> are the bytes that arrived on the descriptor and were not read; \<open>sent k\<close> those handed to the
  kernel so far.
\<close>

definition stream_in :: "'k net \<Rightarrow> int \<Rightarrow> ('k \<Rightarrow> bytes) \<Rightarrow> bool" where
  "stream_in nt fd pend \<longleftrightarrow> (\<forall>k n. 0 < n \<longrightarrow> pend k \<noteq> [] \<longrightarrow>
    (\<exists>bs k'. nt_read nt fd n k = (Some bs, k') \<and> bs \<noteq> [] \<and> length bs \<le> n \<and> pend k = bs @ pend k'))"

definition stream_eof :: "'k net \<Rightarrow> int \<Rightarrow> ('k \<Rightarrow> bytes) \<Rightarrow> bool" where
  "stream_eof nt fd pend \<longleftrightarrow> (\<forall>k n. 0 < n \<longrightarrow> pend k = [] \<longrightarrow> nt_read nt fd n k = (Some [], k))"

definition stream_out :: "'k net \<Rightarrow> int \<Rightarrow> ('k \<Rightarrow> bytes) \<Rightarrow> bool" where
  "stream_out nt fd sent \<longleftrightarrow> (\<forall>k buf. buf \<noteq> [] \<longrightarrow>
    (\<exists>n k'. nt_send nt fd buf k = (Some n, k') \<and> 0 < n \<and> n \<le> length buf \<and> sent k' = sent k @ take n buf))"

text \<open>The bytes of a message on the wire.\<close>

definition frame :: "bytes \<Rightarrow> bytes" where
  "frame msg = sb_serial_raw (of_nat (length msg) :: u32) @ msg"

lemma write_mult_stream:
  assumes "stream_out nt fd sent"
  shows "\<exists>k'. write_mult nt fd buf k = (Ret True, k') \<and> sent k' = sent k @ buf"
proof (induction "length buf" arbitrary: buf k rule: less_induct)
  case less
  show ?case
  proof (cases "buf = []")
    case False
    then obtain n k1 where k1: "nt_send nt fd buf k = (Some n, k1)" "0 < n" "n \<le> length buf" "sent k1 = sent k @ take n buf"
      using assms unfolding stream_out_def by meson
    then obtain k2 where "write_mult nt fd (drop n buf) k1 = (Ret True, k2)" "sent k2 = sent k1 @ drop n buf"
      using less [of "drop n buf" k1] False by auto
    then show ?thesis using k1 False by (subst write_mult.simps) auto
  qed (simp add: write_mult.simps)
qed

lemma read_mult_stream:
  assumes "stream_in nt fd pend" "pend k = bs @ rest" "length buf = length bs"
  shows "\<exists>k'. read_mult nt fd buf k = (Ret (bs, True), k') \<and> pend k' = rest"
  using assms(2,3)
proof (induction "length buf" arbitrary: buf bs k rule: less_induct)
  case less
  show ?case
  proof (cases "buf = []")
    case False
    then obtain xs k1 where k1: "nt_read nt fd (length buf) k = (Some xs, k1)" "xs \<noteq> []" "length xs \<le> length buf"
      "pend k = xs @ pend k1"
      using assms(1) less.prems unfolding stream_in_def by (metis append_is_Nil_conv length_0_conv length_greater_0_conv)
    have "xs @ pend k1 = bs @ rest" "length xs \<le> length bs" using k1(3,4) less.prems by simp_all
    then obtain ys where ys: "bs = xs @ ys" "pend k1 = ys @ rest" by (auto simp: append_eq_append_conv2)
    have "length (drop (length xs) buf) < length buf" "length (drop (length xs) buf) = length ys"
      using k1(2) False ys(1) less.prems(2) by simp_all
    from less.hyps [OF this(1) ys(2) this(2)] obtain k2 where
      "read_mult nt fd (drop (length xs) buf) k1 = (Ret (ys, True), k2)" "pend k2 = rest" by blast
    then show ?thesis using k1 ys False by (subst read_mult.simps) simp
  qed (use less in \<open>simp add: read_mult.simps\<close>)
qed

lemma read_mult_short:
  assumes "stream_in nt fd pend" "stream_eof nt fd pend" "length (pend k) < length buf"
  shows "\<exists>bs k'. read_mult nt fd buf k = (Ret (bs, False), k')"
  using assms(3)
proof (induction "length buf" arbitrary: buf k rule: less_induct)
  case less
  then have ne: "buf \<noteq> []" by auto
  show ?case
  proof (cases "pend k = []")
    case True
    then show ?thesis using assms(2) ne by (subst read_mult.simps) (simp add: stream_eof_def)
  next
    case False
    then obtain xs k1 where k1: "nt_read nt fd (length buf) k = (Some xs, k1)" "xs \<noteq> []" "length xs \<le> length buf"
      "pend k = xs @ pend k1"
      using assms(1) ne unfolding stream_in_def by (metis length_greater_0_conv)
    have "length (drop (length xs) buf) < length buf" "length (pend k1) < length (drop (length xs) buf)"
      using k1(2,4) ne less.prems by simp_all
    from less.hyps [OF this] obtain bs k2 where "read_mult nt fd (drop (length xs) buf) k1 = (Ret (bs, False), k2)" by blast
    then show ?thesis using k1 ne by (subst read_mult.simps) simp
  qed
qed

lemma length_frame_header [simp]: "length (sb_serial_raw (w :: u32)) = 4"
  by (simp add: sb_serial_raw_def raw_size_def)

lemma of_le_raw_u32 [simp]: "of_le_bytes (sb_serial_raw (w :: u32)) = w"
  using take_bit_length_eq [of w] by (simp add: sb_serial_raw_def raw_size_def of_le_le_bytes)

lemma send_data_stream:
  assumes "stream_out nt fd sent"
  shows "\<exists>k'. send_data_tcp nt os fd k = (Ret True, k') \<and>
    sent k' = sent k @ sb_serial_raw (of_nat (length os) :: u32) @ take (length os mod 2 ^ 32) os"
proof -
  let ?s = "of_nat (length os) :: u32"
  obtain k1 where k1: "write_mult nt fd (sb_serial_raw ?s) k = (Ret True, k1)" "sent k1 = sent k @ sb_serial_raw ?s"
    using write_mult_stream [OF assms] by blast
  obtain k2 where "write_mult nt fd (take (unat ?s) os) k1 = (Ret True, k2)" "sent k2 = sent k1 @ take (unat ?s) os"
    using write_mult_stream [OF assms] by blast
  with k1 show ?thesis by (simp add: send_data_tcp_def Let_def bind_act_def unat_of_nat)
qed

lemma send_data_frame:
  assumes "stream_out nt fd sent" "length os < 2 ^ 32"
  shows "\<exists>k'. send_data_tcp nt os fd k = (Ret True, k') \<and> sent k' = sent k @ frame os"
  using send_data_stream [OF assms(1), of os k] assms(2) by (simp add: frame_def)

lemma recv_data_frame:
  assumes "stream_in nt fd pend" "pend k = frame msg @ rest" "length msg < 2 ^ 32"
  shows "\<exists>k'. recv_data_tcp nt is fd k = (Ret (sib_reset msg, True), k') \<and> pend k' = rest"
proof -
  let ?h = "sb_serial_raw (of_nat (length msg) :: u32)"
  have len: "unat (of_nat (length msg) :: u32) = length msg" using assms(3) by (simp add: unat_of_nat)
  obtain k1 where k1: "read_mult nt fd (replicate 4 0) k = (Ret (?h, True), k1)" "pend k1 = msg @ rest"
    using read_mult_stream [OF assms(1), of k ?h "msg @ rest" "replicate 4 0"] assms(2) by (auto simp: frame_def)
  obtain k2 where "read_mult nt fd (vec_resize (length msg) 0 (in_data is)) k1 = (Ret (msg, True), k2)" "pend k2 = rest"
    using read_mult_stream [OF assms(1) k1(2), of "vec_resize (length msg) 0 (in_data is)"] by auto
  with k1 show ?thesis
    by (simp add: recv_data_tcp_def Let_def bind_act_def raw_size_def len sib_reset_def)
qed

section \<open>Properties\<close>

lemma send_all_frames:
  assumes "stream_out nt fd sent" "\<forall>m \<in> set msgs. length m < 2 ^ 32"
  shows "\<exists>k'. map_act (\<lambda>m. send_data_tcp nt m fd) msgs k = (Ret (replicate (length msgs) True), k') \<and>
    sent k' = sent k @ concat (map frame msgs)"
  using assms(2)
proof (induction msgs arbitrary: k)
  case (Cons m ms)
  obtain k1 where k1: "send_data_tcp nt m fd k = (Ret True, k1)" "sent k1 = sent k @ frame m"
    using send_data_frame [OF assms(1), of m k] Cons.prems by auto
  obtain k2 where "map_act (\<lambda>m. send_data_tcp nt m fd) ms k1 = (Ret (replicate (length ms) True), k2)"
    "sent k2 = sent k1 @ concat (map frame ms)"
    using Cons by fastforce
  with k1 show ?case by (simp add: bind_act_def)
qed simp

lemma recv_all_frames:
  assumes "stream_in nt fd pend" "\<forall>m \<in> set msgs. length m < 2 ^ 32" "pend k = concat (map frame msgs) @ rest"
  shows "\<exists>k'. map_act (\<lambda>b. recv_data_tcp nt b fd) (replicate (length msgs) b) k =
    (Ret (map (\<lambda>m. (sib_reset m, True)) msgs), k') \<and> pend k' = rest"
  using assms(2,3)
proof (induction msgs arbitrary: k)
  case (Cons m ms)
  obtain k1 where k1: "recv_data_tcp nt b fd k = (Ret (sib_reset m, True), k1)" "pend k1 = concat (map frame ms) @ rest"
    using recv_data_frame [OF assms(1), of k m "concat (map frame ms) @ rest" b] Cons.prems by auto
  obtain k2 where "map_act (\<lambda>b. recv_data_tcp nt b fd) (replicate (length ms) b) k1 =
    (Ret (map (\<lambda>m. (sib_reset m, True)) ms), k2)" "pend k2 = rest"
    using Cons.IH [OF _ k1(2)] Cons.prems by auto
  with k1 show ?case by (simp add: bind_act_def)
qed simp

section \<open>A kernel for examples\<close>

text \<open>
  One queue of bytes between all descriptors, cut by a schedule of chunk sizes, and the set of open
  descriptors.
\<close>

record pipe_kernel =
  pk_queue :: bytes
  pk_chunks :: "nat list"
  pk_open :: "int set"
  pk_next :: nat

definition pk_cut :: "nat \<Rightarrow> pipe_kernel \<Rightarrow> nat" where
  "pk_cut n k = (case pk_chunks k of [] \<Rightarrow> n | c # _ \<Rightarrow> max 1 (min c n))"

definition pk_open_fd :: "pipe_kernel \<Rightarrow> int \<times> pipe_kernel" where
  "pk_open_fd k = (int (pk_next k), k\<lparr>pk_open := insert (int (pk_next k)) (pk_open k), pk_next := Suc (pk_next k)\<rparr>)"

definition pipe_net :: "pipe_kernel net" where
  "pipe_net = \<lparr>nt_socket = pk_open_fd, nt_setsockopt = (\<lambda>fd opt k. (0, k)), nt_bind = (\<lambda>fd port k. (0, k)),
    nt_listen = (\<lambda>fd k. (0, k)), nt_accept = (\<lambda>fd. pk_open_fd), nt_inet_pton = (\<lambda>name. Some 0x0100007F),
    nt_connect = (\<lambda>fd addr port k. (0, k)),
    nt_read = (\<lambda>fd n k. if pk_queue k = [] then (Some [], k)
      else (Some (take (pk_cut n k) (pk_queue k)), k\<lparr>pk_queue := drop (pk_cut n k) (pk_queue k), pk_chunks := tl (pk_chunks k)\<rparr>)),
    nt_send = (\<lambda>fd buf k. (Some (pk_cut (length buf) k),
      k\<lparr>pk_queue := pk_queue k @ take (pk_cut (length buf) k) buf, pk_chunks := tl (pk_chunks k)\<rparr>)),
    nt_close = (\<lambda>fd k. k\<lparr>pk_open := pk_open k - {fd}\<rparr>)\<rparr>"

definition pk_fds :: "pipe_kernel \<Rightarrow> int set" where
  "pk_fds k = {fd \<in> pk_open k. fd < int (pk_next k)}"

lemma pk_cut_bounds: "0 < n \<Longrightarrow> 0 < pk_cut n k \<and> pk_cut n k \<le> n"
  by (auto simp: pk_cut_def split: list.split)

lemma pipe_streams: "stream_in pipe_net fd pk_queue" "stream_out pipe_net fd pk_queue" "stream_eof pipe_net fd pk_queue"
  using pk_cut_bounds by (auto simp: stream_in_def stream_out_def stream_eof_def pipe_net_def min_le_iff_disj)

definition sample_kernel :: pipe_kernel where
  "sample_kernel = \<lparr>pk_queue = [], pk_chunks = [3, 1, 0, 2, 1, 7], pk_open = {0, 1, 2}, pk_next = 3\<rparr>"

section \<open>Messages arrive whole\<close>

text \<open>
  C30. Messages sent over a stream are received whole, in order and with nothing left over, however
  the kernel cuts the bytes on both sides, for messages shorter than \<open>2 ^ 32\<close> bytes.
\<close>

theorem tcp_round_trip:
  assumes "stream_out nt fd q" "stream_in nt fd' q" "q k = []" "\<forall>m \<in> set msgs. length m < 2 ^ 32"
  shows "\<exists>k1 k2. map_act (\<lambda>m. send_data_tcp nt m fd) msgs k = (Ret (replicate (length msgs) True), k1) \<and>
    map_act (\<lambda>b. recv_data_tcp nt b fd') (replicate (length msgs) b) k1 = (Ret (map (\<lambda>m. (sib_reset m, True)) msgs), k2) \<and>
    q k2 = []"
  using send_all_frames [OF assms(1,4), of k] recv_all_frames [OF assms(2,4), of _ "[]"] assms(3) by fastforce

theorem tcp_round_trip_witness:
  "\<exists>k1 k2. map_act (\<lambda>m. send_data_tcp pipe_net m 3) [[1, 2, 3], [], [4]] sample_kernel = (Ret [True, True, True], k1) \<and>
    map_act (\<lambda>b. recv_data_tcp pipe_net b 4) (replicate 3 (sib_reset [])) k1 =
      (Ret [(sib_reset [1, 2, 3], True), (sib_reset [], True), (sib_reset [4], True)], k2) \<and> pk_queue k2 = []"
  using tcp_round_trip [OF pipe_streams(2) pipe_streams(1), where k = sample_kernel and msgs = "[[1, 2, 3], [], [4]]" and b = "sib_reset []"]
  by (simp add: sample_kernel_def numeral_3_eq_3 del: map_act.simps)

text \<open>
  A connection that ends inside a message, in its header or in its contents, makes the receive
  fail: no part of a message is ever delivered as a whole one.
\<close>

theorem recv_incomplete:
  assumes "stream_in nt fd pend" "stream_eof nt fd pend" "length msg < 2 ^ 32"
    and "n < length (frame msg)" "pend k = take n (frame msg)"
  shows "\<exists>b' k'. recv_data_tcp nt b fd k = (Ret (b', False), k')"
proof (cases "n < 4")
  case True
  then have "length (pend k) < length (replicate 4 0 :: bytes)" using assms(5) by simp
  from read_mult_short [OF assms(1,2) this] show ?thesis
    by (auto simp: recv_data_tcp_def raw_size_def bind_act_def)
next
  case False
  let ?h = "sb_serial_raw (of_nat (length msg) :: u32)"
  have "pend k = ?h @ take (n - 4) msg" using False assms(5) by (simp add: frame_def)
  from read_mult_stream [OF assms(1) this, of "replicate 4 0"] obtain k1 where
    k1: "read_mult nt fd (replicate 4 0) k = (Ret (?h, True), k1)" "pend k1 = take (n - 4) msg" by auto
  have len: "unat (of_nat (length msg) :: u32) = length msg" using assms(3) by (simp add: unat_of_nat)
  have "length (pend k1) < length (vec_resize (length msg) 0 (in_data b))"
    using k1(2) assms(4) False by (simp add: frame_def)
  from read_mult_short [OF assms(1,2) this] k1(1) show ?thesis
    by (auto simp: recv_data_tcp_def raw_size_def bind_act_def Let_def len)
qed

theorem recv_incomplete_witness:
  "\<exists>b' k'. recv_data_tcp pipe_net (sib_reset []) 4 (sample_kernel\<lparr>pk_queue := take 6 (frame [1, 2, 3])\<rparr>) = (Ret (b', False), k')"
  using recv_incomplete [OF pipe_streams(1) pipe_streams(3), of "[1, 2, 3]" 6] by (simp add: frame_def)

text \<open>
  C31. The size of a message is cut to 32 bits: of a longer message only the first \<open>size mod 2 ^ 32\<close>
  bytes are sent, the send reports success, and the other end takes them for the whole message.
\<close>

theorem send_cuts_long_messages:
  assumes "stream_out nt fd q" "stream_in nt fd' q" "q k = []"
  shows "\<exists>k1 k2. send_data_tcp nt os fd k = (Ret True, k1) \<and>
    recv_data_tcp nt b fd' k1 = (Ret (sib_reset (take (length os mod 2 ^ 32) os), True), k2)"
proof -
  let ?m = "take (length os mod 2 ^ 32) os"
  have len: "length ?m = length os mod 2 ^ 32" by simp
  have "of_nat (length os) = (of_nat (length ?m) :: u32)"
    unfolding len by (simp add: word_unat_eq_iff unat_of_nat)
  moreover obtain k1 where k1: "send_data_tcp nt os fd k = (Ret True, k1)"
    "q k1 = sb_serial_raw (of_nat (length os) :: u32) @ ?m" using send_data_stream [OF assms(1), of os k] assms(3) by auto
  ultimately have "q k1 = frame ?m @ []" by (simp add: frame_def)
  from recv_data_frame [OF assms(2) this] len k1(1) show ?thesis by fastforce
qed

theorem send_cuts_long_messages_witness:
  "\<exists>k1 k2. send_data_tcp pipe_net (replicate (2 ^ 32 + 1) 7) 3 sample_kernel = (Ret True, k1) \<and>
    recv_data_tcp pipe_net (sib_reset []) 4 k1 = (Ret (sib_reset [7], True), k2)"
proof -
  have "take (length (replicate (2 ^ 32 + 1) (7 :: u8)) mod 2 ^ 32) (replicate (2 ^ 32 + 1) (7 :: u8)) = [7]" by simp
  with send_cuts_long_messages [OF pipe_streams(2) pipe_streams(1), where k = sample_kernel and os = "replicate (2 ^ 32 + 1) 7" and b = "sib_reset []"]
  show ?thesis by (simp only: sample_kernel_def pipe_kernel.simps simp_thms)
qed

section \<open>Descriptors\<close>

text \<open>The open descriptors of the process: what the calls add and remove.\<close>

definition opens_fd :: "('k \<Rightarrow> int set) \<Rightarrow> ('k \<Rightarrow> int \<times> 'k) \<Rightarrow> bool" where
  "opens_fd opn f \<longleftrightarrow> (\<forall>k fd k'. f k = (fd, k') \<longrightarrow>
    fd = -1 \<and> opn k' = opn k \<or> 0 \<le> fd \<and> fd \<notin> opn k \<and> opn k' = insert fd (opn k))"

definition keeps_fds :: "('k \<Rightarrow> int set) \<Rightarrow> ('k \<Rightarrow> int \<times> 'k) \<Rightarrow> bool" where
  "keeps_fds opn f \<longleftrightarrow> (\<forall>k r k'. f k = (r, k') \<longrightarrow> opn k' = opn k)"

definition fd_table :: "'k net \<Rightarrow> ('k \<Rightarrow> int set) \<Rightarrow> bool" where
  "fd_table nt opn \<longleftrightarrow> opens_fd opn (nt_socket nt) \<and> (\<forall>fd. opens_fd opn (nt_accept nt fd)) \<and>
    (\<forall>fd opt. keeps_fds opn (nt_setsockopt nt fd opt)) \<and> (\<forall>fd port. keeps_fds opn (nt_bind nt fd port)) \<and>
    (\<forall>fd. keeps_fds opn (nt_listen nt fd)) \<and> (\<forall>fd addr port. keeps_fds opn (nt_connect nt fd addr port)) \<and>
    (\<forall>fd k. opn (nt_close nt fd k) = opn k - {fd})"

lemma opens_fdD:
  "opens_fd opn f \<Longrightarrow> f k = (fd, k') \<Longrightarrow> fd = -1 \<and> opn k' = opn k \<or> 0 \<le> fd \<and> fd \<notin> opn k \<and> opn k' = insert fd (opn k)"
  by (simp add: opens_fd_def)

lemma keeps_fdsD: "keeps_fds opn f \<Longrightarrow> f k = (r, k') \<Longrightarrow> opn k' = opn k"
  by (simp add: keeps_fds_def)

lemma fd_table_calls:
  assumes "fd_table nt opn"
  shows "opens_fd opn (nt_socket nt)" "opens_fd opn (nt_accept nt fd)" "keeps_fds opn (nt_setsockopt nt fd opt)"
    "keeps_fds opn (nt_bind nt fd port)" "keeps_fds opn (nt_listen nt fd)" "keeps_fds opn (nt_connect nt fd addr port)"
    "opn (nt_close nt fd k) = opn k - {fd}"
  using assms by (simp_all add: fd_table_def)

lemma ts_connect_fds:
  assumes "fd_table nt opn" "ts_connect nt (TCPDataServer_new port) k = (ok, t, k')"
  shows "(ts_serv_fd t = -1 \<and> ts_cli_fd t = -1 \<and> opn k' = opn k) \<or>
    (0 \<le> ts_serv_fd t \<and> ts_serv_fd t \<notin> opn k \<and>
      (ts_cli_fd t = -1 \<and> opn k' = insert (ts_serv_fd t) (opn k) \<or>
       0 \<le> ts_cli_fd t \<and> ts_cli_fd t \<notin> insert (ts_serv_fd t) (opn k) \<and> opn k' = insert (ts_cli_fd t) (insert (ts_serv_fd t) (opn k))))"
proof -
  note fds = fd_table_calls [OF assms(1)]
  obtain fd k1 where c1: "nt_socket nt k = (fd, k1)" by fastforce
  obtain r2 k2 where c2: "nt_setsockopt nt fd SO_REUSEADDR k1 = (r2, k2)" by fastforce
  obtain r3 k3 where c3: "nt_bind nt fd (word_of_int port) k2 = (r3, k3)" by fastforce
  obtain r4 k4 where c4: "nt_listen nt fd k3 = (r4, k4)" by fastforce
  obtain cfd k5 where c5: "nt_accept nt fd k4 = (cfd, k5)" by fastforce
  obtain r6 k6 where c6: "nt_setsockopt nt cfd TCP_NODELAY k5 = (r6, k6)" by fastforce
  note calls = c1 c2 c3 c4 c5 c6
  have same: "opn k2 = opn k1" "opn k3 = opn k1" "opn k4 = opn k1" "opn k6 = opn k5"
    using keeps_fdsD [OF fds(3) c2] keeps_fdsD [OF fds(4) c3] keeps_fdsD [OF fds(5) c4] keeps_fdsD [OF fds(3) c6] by simp_all
  from assms(2) have "ts_serv_fd t = fd \<and> (fd < 0 \<and> ts_cli_fd t = -1 \<and> k' = k1 \<or>
      \<not> fd < 0 \<and> ts_cli_fd t = -1 \<and> (k' = k2 \<or> k' = k3 \<or> k' = k4) \<or>
      \<not> fd < 0 \<and> ts_cli_fd t = cfd \<and> (k' = k5 \<or> k' = k6))"
    by (auto simp: ts_connect_def TCPDataServer_new_def calls Let_def split: if_splits)
  with opens_fdD [OF fds(1) c1] opens_fdD [OF fds(2) c5] show ?thesis
    by (elim disjE conjE) (simp_all add: same)
qed

lemma tc_connect_fds:
  assumes "fd_table nt opn" "tc_connect nt (TCPDataClient_new host port) k = (ok, t, k')"
  shows "tc_fd t = -1 \<and> opn k' = opn k \<or> 0 \<le> tc_fd t \<and> tc_fd t \<notin> opn k \<and> opn k' = insert (tc_fd t) (opn k)"
proof -
  note fds = fd_table_calls [OF assms(1)]
  obtain fd k1 where c1: "nt_socket nt k = (fd, k1)" by fastforce
  show ?thesis
  proof (cases "nt_inet_pton nt host")
    case None
    with assms(2) have "tc_fd t = fd \<and> k' = k1"
      by (auto simp: tc_connect_def TCPDataClient_new_def c1 Let_def split: if_splits)
    with opens_fdD [OF fds(1) c1] show ?thesis by simp
  next
    case (Some addr)
    obtain r2 k2 where c2: "nt_connect nt fd addr (word_of_int port) k1 = (r2, k2)" by fastforce
    obtain r3 k3 where c3: "nt_setsockopt nt fd TCP_NODELAY k2 = (r3, k3)" by fastforce
    have same: "opn k2 = opn k1" "opn k3 = opn k1" using keeps_fdsD [OF fds(6) c2] keeps_fdsD [OF fds(3) c3] by simp_all
    from assms(2) Some have "tc_fd t = fd \<and> (fd < 0 \<and> k' = k1 \<or> \<not> fd < 0 \<and> (k' = k2 \<or> k' = k3))"
      by (auto simp: tc_connect_def TCPDataClient_new_def c1 c2 c3 Let_def split: if_splits)
    with opens_fdD [OF fds(1) c1] show ?thesis by (elim disjE conjE) (simp_all add: same)
  qed
qed

text \<open>
  C40. Neither end leaks or closes a foreign descriptor: whichever call of \<open>connect\<close> fails, or none,
  destroying the object closes exactly the descriptors it opened.
\<close>

theorem sockets_closed:
  assumes "fd_table nt opn" "ts_connect nt (TCPDataServer_new port) k = (ok, t, k1)"
    and "tc_connect nt (TCPDataClient_new host port) k1 = (ok', c, k2)"
  shows "opn (TCPDataServer_delete nt t (TCPDataClient_delete nt c k2)) = opn k"
proof -
  note close = fd_table_calls(7) [OF assms(1)]
  have "opn (TCPDataClient_delete nt c k2) = opn k1"
    using tc_connect_fds [OF assms(1,3)] by (elim disjE conjE) (simp_all add: TCPDataClient_delete_def close)
  with ts_connect_fds [OF assms(1,2)] show ?thesis
    by (elim disjE conjE) (auto simp: TCPDataServer_delete_def close)
qed

lemma pipe_fd_table: "fd_table pipe_net pk_fds"
  by (auto simp: fd_table_def opens_fd_def keeps_fds_def pipe_net_def pk_open_fd_def pk_fds_def)

theorem sockets_closed_witness:
  "pk_fds (TCPDataServer_delete pipe_net \<lparr>ts_port = 12644, ts_serv_fd = 3, ts_cli_fd = 4\<rparr>
      (TCPDataClient_delete pipe_net \<lparr>tc_hostname = ''127.0.0.1'', tc_port = 12644, tc_fd = 5\<rparr>
        (sample_kernel\<lparr>pk_open := {0, 1, 2, 3, 4, 5}, pk_next := 6\<rparr>))) = {0, 1, 2}"
proof -
  let ?k = "sample_kernel\<lparr>pk_open := {0, 1, 2, 3, 4, 5}, pk_next := 6\<rparr>"
  have "ts_connect pipe_net (TCPDataServer_new 12644) sample_kernel =
      (True, \<lparr>ts_port = 12644, ts_serv_fd = 3, ts_cli_fd = 4\<rparr>, sample_kernel\<lparr>pk_open := {0, 1, 2, 3, 4}, pk_next := 5\<rparr>)"
    by code_simp
  moreover have "tc_connect pipe_net (TCPDataClient_new ''127.0.0.1'' 12644) (sample_kernel\<lparr>pk_open := {0, 1, 2, 3, 4}, pk_next := 5\<rparr>) =
      (True, \<lparr>tc_hostname = ''127.0.0.1'', tc_port = 12644, tc_fd = 5\<rparr>, ?k)"
    by code_simp
  ultimately have "pk_fds (TCPDataServer_delete pipe_net \<lparr>ts_port = 12644, ts_serv_fd = 3, ts_cli_fd = 4\<rparr>
      (TCPDataClient_delete pipe_net \<lparr>tc_hostname = ''127.0.0.1'', tc_port = 12644, tc_fd = 5\<rparr> ?k)) = pk_fds sample_kernel"
    by (rule sockets_closed [OF pipe_fd_table])
  moreover have "pk_fds sample_kernel = {0, 1, 2}" by (auto simp: pk_fds_def sample_kernel_def)
  ultimately show ?thesis by simp
qed

end
