(* ===== verification/Server_Runner.thy ===== *)
theory Server_Runner
  imports Data_Client Tcp_Transfer
begin

text \<open>
  The two threads of \<open>DataClientHandler\<close> (\<open>src/server/data-client-handler.cc\<close>):
  \<open>DataClientServerRunner::loop\<close> receives requests and sends responses on a thread of its own, the
  main thread executes them; they meet at the atomic \<open>_state\<close> and \<open>_stop\<close>. Each thread is a program
  counter; one step does at most one access to a shared atomic, one blocking call of the
  \<open>AbstractDataServer\<close>, or the execution of one request. Runs interleave the steps of both threads in
  any order. The atomics are sequentially consistent, which is the default of \<open>std::atomic\<close>.

  The invariant of all runs: the assertions of both threads hold, the buffers \<open>_in\<close> and \<open>_out\<close> are
  never used by both threads at once, and requests, executions and responses alternate.
\<close>

section \<open>State\<close>

datatype runner_state = R_CONNECTING | R_NO_REQ | R_SENDING_RES | R_HAS_REQ | R_ERROR

text \<open>The virtual methods of \<open>AbstractDataServer\<close>.\<close>

record 'k DataServer =
  sv_connect :: "('k, bool) act"
  sv_send_data :: "out_buff \<Rightarrow> ('k, bool) act"
  sv_recv_data :: "in_buff \<Rightarrow> ('k, in_buff \<times> bool) act"

text \<open>Positions of \<open>loop\<close>, named after what is executed next.\<close>

datatype worker_pc = W_connect | W_connected | W_loop | W_recv | W_received | W_wait_stop | W_wait_state |
  W_woken | W_check | W_send | W_sent | W_set_stop | W_set_error | W_done

text \<open>
  Positions of \<open>run_command\<close> and \<open>check_stopped\<close>; the flag of the shared tail tells them apart.
\<close>

datatype main_pc = M_idle | M_poll_req | M_poll_err | C_poll_req | M_check_err bool | M_get_req bool | M_get_res bool |
  M_execute bool | M_signal

text \<open>
  What an observer of the handler sees: a request received, its execution (by \<open>run_command\<close> or by
  \<open>check_stopped\<close>) and the response it gave, a response sent.
\<close>

datatype event = Received bytes | Executed bool bytes bytes | Sent bytes

record ('k, 's) runner =
  rn_state :: runner_state
  rn_stop :: bool
  rn_in :: in_buff
  rn_out :: out_buff
  rn_worker :: worker_pc
  rn_main :: main_pc
  rn_disconnected :: bool
  rn_net :: 'k
  rn_db :: 's

definition runner_start :: "'k \<Rightarrow> 's \<Rightarrow> ('k, 's) runner" where
  "runner_start net db = \<lparr>rn_state = R_CONNECTING, rn_stop = False, rn_in = sib_reset [], rn_out = [],
    rn_worker = W_connect, rn_main = M_idle, rn_disconnected = False, rn_net = net, rn_db = db\<rparr>"

section \<open>Steps\<close>

definition goto_w :: "worker_pc \<Rightarrow> (('k, 's) runner, event list) act" where
  "goto_w pc = then_act (modify (\<lambda>s. s\<lparr>rn_worker := pc\<rparr>)) (ret [])"

definition goto_m :: "main_pc \<Rightarrow> (('k, 's) runner, event list) act" where
  "goto_m pc = then_act (modify (\<lambda>s. s\<lparr>rn_main := pc\<rparr>)) (ret [])"

definition on_net :: "('k, 'a) act \<Rightarrow> (('k, 's) runner, 'a) act" where
  "on_net m = lift_act rn_net (\<lambda>k s. s\<lparr>rn_net := k\<rparr>) m"

definition put_state :: "runner_state \<Rightarrow> (('k, 's) runner, unit) act" where
  "put_state st = modify (\<lambda>s. s\<lparr>rn_state := st\<rparr>)"

text \<open>\<open>DataClientServerRunner::loop\<close> and \<open>stop\<close>.\<close>

fun worker_at :: "'k DataServer \<Rightarrow> worker_pc \<Rightarrow> (('k, 's) runner, event list) act" where
  "worker_at sv W_connect = bind_act (on_net (sv_connect sv)) (\<lambda>ok. goto_w (if ok then W_connected else W_set_stop))"
| "worker_at sv W_connected = then_act (put_state R_NO_REQ) (goto_w W_loop)"
| "worker_at sv W_loop = bind_act (gets rn_stop) (\<lambda>stop. goto_w (if stop then W_done else W_recv))"
| "worker_at sv W_recv = bind_act (gets rn_in) (\<lambda>b. bind_act (on_net (sv_recv_data sv b)) (\<lambda>(b', ok).
     then_act (modify (\<lambda>s. s\<lparr>rn_in := b'\<rparr>))
       (if ok then then_act (goto_w W_received) (ret [Received (in_data b')]) else goto_w W_set_stop)))"
| "worker_at sv W_received = then_act (put_state R_HAS_REQ) (goto_w W_wait_stop)"
| "worker_at sv W_wait_stop = bind_act (gets rn_stop) (\<lambda>stop. goto_w (if stop then W_woken else W_wait_state))"
| "worker_at sv W_wait_state = bind_act (gets rn_state) (\<lambda>st. goto_w (if st = R_HAS_REQ then W_wait_stop else W_woken))"
| "worker_at sv W_woken = bind_act (gets rn_stop) (\<lambda>stop. goto_w (if stop then W_done else W_check))"
| "worker_at sv W_check = bind_act (gets rn_state) (\<lambda>st. then_act (assert_act (st = R_SENDING_RES)) (goto_w W_send))"
| "worker_at sv W_send = bind_act (gets rn_out) (\<lambda>out. bind_act (on_net (sv_send_data sv out)) (\<lambda>ok.
     if ok then then_act (goto_w W_sent) (ret [Sent out]) else goto_w W_set_stop))"
| "worker_at sv W_sent = then_act (put_state R_NO_REQ) (goto_w W_loop)"
| "worker_at sv W_set_stop = then_act (modify (\<lambda>s. s\<lparr>rn_stop := True\<rparr>)) (goto_w W_set_error)"
| "worker_at sv W_set_error = then_act (put_state R_ERROR) (goto_w W_done)"
| "worker_at sv W_done = ret []"

definition worker_step :: "'k DataServer \<Rightarrow> (('k, 's) runner, event list) act" where
  "worker_step sv = bind_act (gets rn_worker) (worker_at sv)"

text \<open>
  \<open>run_command\<close> polls until there is a request or an error, \<open>check_stopped\<close> polls once; both then
  execute the request into the cleared response buffer. \<open>serve stopped\<close> is the execution of a request
  by \<open>run_command\<close>, with \<open>False\<close> by \<open>check_stopped\<close>; an exception that leaves it ends the process.
\<close>

definition execute :: "(bool \<Rightarrow> bytes \<Rightarrow> ('s, bytes) act) \<Rightarrow> bool \<Rightarrow> (('k, 's) runner, event list) act" where
  "execute serve stopped = bind_act (gets rn_in) (\<lambda>b.
    bind_act (catch_act (lift_act rn_db (\<lambda>d s. s\<lparr>rn_db := d\<rparr>) (serve stopped (in_data b))) (\<lambda>e. abort Terminated)) (\<lambda>out.
      then_act (modify (\<lambda>s. s\<lparr>rn_out := out\<rparr>)) (then_act (goto_m M_signal) (ret [Executed stopped (in_data b) out]))))"

fun main_at :: "(bool \<Rightarrow> bytes \<Rightarrow> ('s, bytes) act) \<Rightarrow> main_pc \<Rightarrow> (('k, 's) runner, event list) act" where
  "main_at serve M_idle = ret []"
| "main_at serve M_poll_req = bind_act (gets rn_state) (\<lambda>st. goto_m (if st = R_HAS_REQ then M_check_err True else M_poll_err))"
| "main_at serve M_poll_err = bind_act (gets rn_state) (\<lambda>st. goto_m (if st = R_ERROR then M_check_err True else M_poll_req))"
| "main_at serve C_poll_req = bind_act (gets rn_state) (\<lambda>st. goto_m (if st \<noteq> R_HAS_REQ then M_idle else M_check_err False))"
| "main_at serve (M_check_err b) = bind_act (gets rn_state) (\<lambda>st.
     if st = R_ERROR then then_act (modify (\<lambda>s. s\<lparr>rn_disconnected := True\<rparr>)) (goto_m M_idle) else goto_m (M_get_req b))"
| "main_at serve (M_get_req b) = bind_act (gets rn_state) (\<lambda>st. then_act (assert_act (st = R_HAS_REQ)) (goto_m (M_get_res b)))"
| "main_at serve (M_get_res b) = bind_act (gets rn_state) (\<lambda>st. then_act (assert_act (st = R_HAS_REQ)) (goto_m (M_execute b)))"
| "main_at serve (M_execute b) = execute serve b"
| "main_at serve M_signal = bind_act (gets rn_state) (\<lambda>st. then_act (assert_act (st = R_HAS_REQ))
     (then_act (put_state R_SENDING_RES) (goto_m M_idle)))"

definition main_step :: "(bool \<Rightarrow> bytes \<Rightarrow> ('s, bytes) act) \<Rightarrow> (('k, 's) runner, event list) act" where
  "main_step serve = bind_act (gets rn_main) (main_at serve)"

text \<open>The start of a call of \<open>run_command\<close> or of \<open>check_stopped\<close>.\<close>

definition call_run_command :: "('k, 's) runner \<Rightarrow> ('k, 's) runner" where
  "call_run_command s = s\<lparr>rn_main := M_poll_req\<rparr>"

definition call_check_stopped :: "('k, 's) runner \<Rightarrow> ('k, 's) runner" where
  "call_check_stopped s = s\<lparr>rn_main := C_poll_req\<rparr>"

section \<open>Runs\<close>

inductive runs :: "'k DataServer \<Rightarrow> (bool \<Rightarrow> bytes \<Rightarrow> ('s, bytes) act) \<Rightarrow> ('k, 's) runner \<Rightarrow> event list \<Rightarrow>
    ('k, 's) runner \<Rightarrow> bool" for sv serve s0 where
  runs_start: "runs sv serve s0 [] s0"
| runs_worker: "runs sv serve s0 tr s \<Longrightarrow> worker_step sv s = (Ret evs, s') \<Longrightarrow> runs sv serve s0 (tr @ evs) s'"
| runs_main: "runs sv serve s0 tr s \<Longrightarrow> main_step serve s = (Ret evs, s') \<Longrightarrow> runs sv serve s0 (tr @ evs) s'"
| runs_run_command: "runs sv serve s0 tr s \<Longrightarrow> rn_main s = M_idle \<Longrightarrow> runs sv serve s0 tr (call_run_command s)"
| runs_check_stopped: "runs sv serve s0 tr s \<Longrightarrow> rn_main s = M_idle \<Longrightarrow> runs sv serve s0 tr (call_check_stopped s)"

text \<open>The order of events: receive, execute what was received, send what was executed.\<close>

datatype phase = Ph_idle | Ph_request bytes | Ph_response bytes

fun phase_step :: "phase \<Rightarrow> event \<Rightarrow> phase option" where
  "phase_step Ph_idle (Received m) = Some (Ph_request m)"
| "phase_step (Ph_request m) (Executed b m' out) = (if m' = m then Some (Ph_response out) else None)"
| "phase_step (Ph_response out) (Sent out') = (if out' = out then Some Ph_idle else None)"
| "phase_step _ _ = None"

fun phases :: "phase \<Rightarrow> event list \<Rightarrow> phase option" where
  "phases p [] = Some p"
| "phases p (e # es) = (case phase_step p e of None \<Rightarrow> None | Some p' \<Rightarrow> phases p' es)"

lemma phases_append: "phases p (xs @ ys) = (case phases p xs of None \<Rightarrow> None | Some p' \<Rightarrow> phases p' ys)"
  by (induction xs arbitrary: p) (auto split: option.split)

text \<open>
  What the shared state is at each position. A main thread that has seen \<open>HAS_REQ\<close> holds the buffers
  until it signals; nothing else moves the state away from \<open>HAS_REQ\<close>.
\<close>

fun worker_ok :: "worker_pc \<Rightarrow> bool \<Rightarrow> runner_state \<Rightarrow> bool" where
  "worker_ok W_connect h st \<longleftrightarrow> \<not> h \<and> st = R_CONNECTING"
| "worker_ok W_connected h st \<longleftrightarrow> \<not> h \<and> st = R_CONNECTING"
| "worker_ok W_loop h st \<longleftrightarrow> \<not> h \<and> st = R_NO_REQ"
| "worker_ok W_recv h st \<longleftrightarrow> \<not> h \<and> st = R_NO_REQ"
| "worker_ok W_received h st \<longleftrightarrow> \<not> h \<and> st = R_NO_REQ"
| "worker_ok W_wait_stop h st \<longleftrightarrow> \<not> h \<and> (st = R_HAS_REQ \<or> st = R_SENDING_RES)"
| "worker_ok W_wait_state h st \<longleftrightarrow> \<not> h \<and> (st = R_HAS_REQ \<or> st = R_SENDING_RES)"
| "worker_ok W_woken h st \<longleftrightarrow> \<not> h \<and> st = R_SENDING_RES"
| "worker_ok W_check h st \<longleftrightarrow> \<not> h \<and> st = R_SENDING_RES"
| "worker_ok W_send h st \<longleftrightarrow> \<not> h \<and> st = R_SENDING_RES"
| "worker_ok W_sent h st \<longleftrightarrow> \<not> h \<and> st = R_SENDING_RES"
| "worker_ok W_set_stop h st \<longleftrightarrow> \<not> h \<and> st \<noteq> R_HAS_REQ \<and> st \<noteq> R_ERROR"
| "worker_ok W_set_error h st \<longleftrightarrow> h \<and> st \<noteq> R_HAS_REQ \<and> st \<noteq> R_ERROR"
| "worker_ok W_done h st \<longleftrightarrow> h \<and> st = R_ERROR"

fun main_ok :: "main_pc \<Rightarrow> runner_state \<Rightarrow> bool" where
  "main_ok (M_check_err b) st \<longleftrightarrow> st = R_HAS_REQ \<or> st = R_ERROR"
| "main_ok (M_get_req b) st \<longleftrightarrow> st = R_HAS_REQ"
| "main_ok (M_get_res b) st \<longleftrightarrow> st = R_HAS_REQ"
| "main_ok (M_execute b) st \<longleftrightarrow> st = R_HAS_REQ"
| "main_ok M_signal st \<longleftrightarrow> st = R_HAS_REQ"
| "main_ok _ st \<longleftrightarrow> True"

fun phase_at :: "worker_pc \<Rightarrow> bool \<Rightarrow> bytes \<Rightarrow> bytes \<Rightarrow> phase \<Rightarrow> bool" where
  "phase_at W_received req i out p \<longleftrightarrow> p = Ph_request i"
| "phase_at W_wait_stop req i out p \<longleftrightarrow> p = (if req then Ph_request i else Ph_response out)"
| "phase_at W_wait_state req i out p \<longleftrightarrow> p = (if req then Ph_request i else Ph_response out)"
| "phase_at W_woken req i out p \<longleftrightarrow> p = Ph_response out"
| "phase_at W_check req i out p \<longleftrightarrow> p = Ph_response out"
| "phase_at W_send req i out p \<longleftrightarrow> p = Ph_response out"
| "phase_at W_set_stop req i out p \<longleftrightarrow> True"
| "phase_at W_set_error req i out p \<longleftrightarrow> True"
| "phase_at W_done req i out p \<longleftrightarrow> True"
| "phase_at _ req i out p \<longleftrightarrow> p = Ph_idle"

definition threads_ok :: "('k, 's) runner \<Rightarrow> phase \<Rightarrow> bool" where
  "threads_ok s p \<longleftrightarrow> worker_ok (rn_worker s) (rn_stop s) (rn_state s) \<and> main_ok (rn_main s) (rn_state s) \<and>
    (rn_disconnected s \<longrightarrow> rn_state s = R_ERROR) \<and>
    phase_at (rn_worker s) (rn_state s = R_HAS_REQ \<and> rn_main s \<noteq> M_signal) (in_data (rn_in s)) (rn_out s) p"

lemma main_ok_free: "main_ok m st \<Longrightarrow> st \<noteq> R_HAS_REQ \<Longrightarrow> st \<noteq> R_ERROR \<Longrightarrow> main_ok m st' \<and> m \<noteq> M_signal"
  by (cases "(m, st)" rule: main_ok.cases) auto

lemmas step_defs = worker_step_def main_step_def goto_w_def goto_m_def on_net_def put_state_def execute_def
  bind_act_def then_act_def lift_act_def catch_act_def

lemma on_net_Ret:
  "on_net m s = (Ret x, s') \<Longrightarrow> \<exists>k. s' = s\<lparr>rn_net := k\<rparr>"
  by (auto simp: on_net_def lift_act_def split: prod.splits)

lemma goto_w_run [simp]: "goto_w pc s = (Ret [], s\<lparr>rn_worker := pc\<rparr>)"
  and goto_m_run [simp]: "goto_m mpc s = (Ret [], s\<lparr>rn_main := mpc\<rparr>)"
  and put_state_run [simp]: "put_state st s = (Ret (), s\<lparr>rn_state := st\<rparr>)"
  by (simp_all add: step_defs)

lemma worker_keeps:
  assumes "threads_ok s p" "worker_step sv s = (Ret evs, s')"
  shows "\<exists>p'. phases p evs = Some p' \<and> threads_ok s' p'"
proof (cases "rn_worker s")
  case W_connect
  with assms main_ok_free [of "rn_main s" R_CONNECTING] show ?thesis
    by (auto simp: worker_step_def bind_act_eq_Ret threads_ok_def dest!: on_net_Ret)
next
  case W_recv
  with assms main_ok_free [of "rn_main s" R_NO_REQ] show ?thesis
    by (auto simp: worker_step_def bind_act_eq_Ret then_act_eq_Ret threads_ok_def dest!: on_net_Ret split: if_splits)
next
  case W_send
  with assms main_ok_free [of "rn_main s" R_SENDING_RES] show ?thesis
    by (auto simp: worker_step_def bind_act_eq_Ret then_act_eq_Ret threads_ok_def dest!: on_net_Ret split: if_splits)
qed (use assms main_ok_free [of "rn_main s" "rn_state s"] in
    \<open>auto simp: worker_step_def bind_act_eq_Ret then_act_eq_Ret threads_ok_def split: if_splits\<close>)

lemma execute_Ret:
  assumes "execute serve b s = (Ret evs, s')"
  obtains out d where "serve b (in_data (rn_in s)) (rn_db s) = (Ret out, d)" "evs = [Executed b (in_data (rn_in s)) out]"
    "s' = s\<lparr>rn_db := d, rn_out := out, rn_main := M_signal\<rparr>"
  using assms
  by (auto simp: execute_def bind_act_eq_Ret then_act_eq_Ret catch_act_def lift_act_def split: prod.splits outcome.splits)

lemma main_keeps:
  assumes "threads_ok s p" "main_step serve s = (Ret evs, s')"
  shows "\<exists>p'. phases p evs = Some p' \<and> threads_ok s' p'"
proof (cases "rn_main s")
  case (M_execute b)
  with assms have x: "execute serve b s = (Ret evs, s')" "rn_state s = R_HAS_REQ" "worker_ok (rn_worker s) (rn_stop s) R_HAS_REQ"
    by (auto simp: main_step_def threads_ok_def)
  from x(3) have "rn_worker s = W_wait_stop \<or> rn_worker s = W_wait_state" by (cases "rn_worker s") auto
  moreover obtain out d where "evs = [Executed b (in_data (rn_in s)) out]" "s' = s\<lparr>rn_db := d, rn_out := out, rn_main := M_signal\<rparr>"
    using execute_Ret [OF x(1)] by metis
  ultimately show ?thesis using assms(1) x(2) M_execute by (auto simp: threads_ok_def)
next
  case M_signal
  with assms have "rn_state s = R_HAS_REQ" "worker_ok (rn_worker s) (rn_stop s) R_HAS_REQ" by (auto simp: threads_ok_def)
  from this(2) have "rn_worker s = W_wait_stop \<or> rn_worker s = W_wait_state" by (cases "rn_worker s") auto
  with assms M_signal show ?thesis by (auto simp: main_step_def threads_ok_def bind_act_def then_act_def)
qed (use assms in \<open>auto simp: main_step_def bind_act_eq_Ret then_act_eq_Ret threads_ok_def split: if_splits\<close>)

lemma worker_asserts: "threads_ok s p \<Longrightarrow> rn_worker s = W_check \<Longrightarrow> \<exists>s'. worker_step sv s = (Ret [], s')"
  by (simp add: threads_ok_def worker_step_def bind_act_def then_act_def)

lemma runs_ok:
  "runs sv serve s0 tr s \<Longrightarrow> s0 = runner_start net db \<Longrightarrow> \<exists>p. phases Ph_idle tr = Some p \<and> threads_ok s p"
proof (induction rule: runs.induct)
  case runs_start
  then show ?case by (simp add: threads_ok_def runner_start_def)
next
  case (runs_worker tr s evs s')
  then show ?case using worker_keeps by (fastforce simp: phases_append)
next
  case (runs_main tr s evs s')
  then show ?case using main_keeps by (fastforce simp: phases_append)
next
  case (runs_run_command tr s)
  then show ?case by (auto simp: threads_ok_def call_run_command_def)
next
  case (runs_check_stopped tr s)
  then show ?case by (auto simp: threads_ok_def call_check_stopped_def)
qed

section \<open>Serving one request\<close>

text \<open>
  One request of the server: the runner receives it, a call of \<open>run_command\<close> (or \<open>check_stopped\<close>) of the
  main thread executes it, the runner sends the response and waits for the next.
\<close>

definition serve_one :: "'k DataServer \<Rightarrow> (bool \<Rightarrow> bytes \<Rightarrow> ('s, bytes) act) \<Rightarrow> bool \<Rightarrow> (('k, 's) runner, event list) act" where
  "serve_one sv serve stopped =
    bind_act (repeat_act 2 (worker_step sv)) (\<lambda>es1.
    then_act (modify (if stopped then call_run_command else call_check_stopped))
    (bind_act (repeat_act 6 (main_step serve)) (\<lambda>es2.
     bind_act (repeat_act 7 (worker_step sv)) (\<lambda>es3. ret (concat (es1 @ es2 @ es3))))))"

lemma repeat_worker_runs:
  "runs sv serve s0 tr s \<Longrightarrow> repeat_act n (worker_step sv) s = (Ret es, s') \<Longrightarrow> runs sv serve s0 (tr @ concat es) s'"
proof (induction n arbitrary: tr s es)
  case (Suc n)
  from Suc.prems(2) obtain e s1 es' where e: "worker_step sv s = (Ret e, s1)" "repeat_act n (worker_step sv) s1 = (Ret es', s')"
    "es = e # es'" by (auto simp: bind_act_eq_Ret)
  from Suc.IH [OF runs_worker [OF Suc.prems(1) e(1)] e(2)] e(3) show ?case by simp
qed simp

lemma repeat_main_runs:
  "runs sv serve s0 tr s \<Longrightarrow> repeat_act n (main_step serve) s = (Ret es, s') \<Longrightarrow> runs sv serve s0 (tr @ concat es) s'"
proof (induction n arbitrary: tr s es)
  case (Suc n)
  from Suc.prems(2) obtain e s1 es' where e: "main_step serve s = (Ret e, s1)" "repeat_act n (main_step serve) s1 = (Ret es', s')"
    "es = e # es'" by (auto simp: bind_act_eq_Ret)
  from Suc.IH [OF runs_main [OF Suc.prems(1) e(1)] e(2)] e(3) show ?case by simp
qed simp

text \<open>A runner that waits for a request while the main thread is elsewhere.\<close>

definition waiting :: "('k, 's) runner \<Rightarrow> bool" where
  "waiting s \<longleftrightarrow> rn_worker s = W_recv \<and> rn_main s = M_idle \<and> rn_state s = R_NO_REQ \<and> \<not> rn_stop s"

lemma serve_one_waiting:
  assumes "waiting s" "sv_recv_data sv (rn_in s) (rn_net s) = (Ret (sib_reset msg, True), k1)"
    and "serve b msg (rn_db s) = (Ret out, d)" "sv_send_data sv out k1 = (Ret True, k2)"
  shows "\<exists>s'. serve_one sv serve b s = (Ret [Received msg, Executed b msg out, Sent out], s') \<and> waiting s' \<and>
    rn_net s' = k2 \<and> rn_db s' = d"
  using assms
  by (cases b) (auto simp: serve_one_def waiting_def numeral_nat step_defs call_run_command_def call_check_stopped_def sib_reset_def)

lemma worker_step_main: "worker_step sv s = (Ret evs, s') \<Longrightarrow> rn_main s' = rn_main s"
  by (cases "rn_worker s") (auto simp: worker_step_def bind_act_eq_Ret then_act_eq_Ret dest!: on_net_Ret split: if_splits)

lemma repeat_worker_main: "repeat_act n (worker_step sv) s = (Ret es, s') \<Longrightarrow> rn_main s' = rn_main s"
  by (induction n arbitrary: s es) (auto simp: bind_act_eq_Ret dest: worker_step_main)

text \<open>Serving a request this way is one of the interleavings of the two threads.\<close>

lemma serve_one_runs:
  assumes "runs sv serve s0 tr s" "rn_main s = M_idle" "serve_one sv serve b s = (Ret evs, s')"
  shows "runs sv serve s0 (tr @ evs) s'"
proof -
  obtain es1 s1 es2 s2 es3 where
    1: "repeat_act 2 (worker_step sv) s = (Ret es1, s1)"
    and 2: "repeat_act 6 (main_step serve) ((if b then call_run_command else call_check_stopped) s1) = (Ret es2, s2)"
    and 3: "repeat_act 7 (worker_step sv) s2 = (Ret es3, s')" "evs = concat (es1 @ es2 @ es3)"
    using assms(3) by (auto simp: serve_one_def bind_act_eq_Ret then_act_eq_Ret split del: if_split)
  have "runs sv serve s0 (tr @ concat es1) ((if b then call_run_command else call_check_stopped) s1)"
    using repeat_worker_runs [OF assms(1) 1] repeat_worker_main [OF 1] assms(2) by (simp add: runs_run_command runs_check_stopped)
  from repeat_worker_runs [OF repeat_main_runs [OF this 2] 3(1)] 3(2) show ?thesis by simp
qed

text \<open>The execution of requests by the main thread, stopped or running.\<close>

definition serve_debugger :: "'v VMApi \<Rightarrow> DBClientUpdate \<Rightarrow> bool \<Rightarrow> bytes \<Rightarrow> ('v Debugger, bytes) act" where
  "serve_debugger api udp0 stopped = (if stopped then serve_stopped api udp0 else serve_running udp0)"

section \<open>Properties\<close>

text \<open>What each thread does next to the shared buffers.\<close>

definition worker_uses_buffers :: "('k, 's) runner \<Rightarrow> bool" where
  "worker_uses_buffers s \<longleftrightarrow> rn_worker s = W_recv \<or> rn_worker s = W_send"

definition main_uses_buffers :: "('k, 's) runner \<Rightarrow> bool" where
  "main_uses_buffers s \<longleftrightarrow> (\<exists>b. rn_main s = M_execute b)"

text \<open>
  C28. No data race on the request and response buffers: in every interleaving of the two threads the
  main thread never executes a request while the other thread receives into or sends from the
  buffers.
\<close>

theorem runner_buffers_exclusive:
  assumes "runs sv serve (runner_start net db) tr s"
  shows "\<not> (worker_uses_buffers s \<and> main_uses_buffers s)"
  using runs_ok [OF assms refl] by (auto simp: threads_ok_def worker_uses_buffers_def main_uses_buffers_def)

text \<open>
  C29. The assertions of both threads hold in every interleaving: a step fails only when the transport or
  the execution of a request fails.
\<close>

theorem runner_asserts_hold:
  assumes "runs sv serve (runner_start net db) tr s"
  shows "(rn_worker s \<noteq> W_connect \<longrightarrow> \<not> worker_uses_buffers s \<longrightarrow> (\<exists>evs s'. worker_step sv s = (Ret evs, s'))) \<and>
    (\<not> main_uses_buffers s \<longrightarrow> (\<exists>evs s'. main_step serve s = (Ret evs, s')))"
proof -
  obtain p where p: "threads_ok s p" using runs_ok [OF assms refl] by blast
  show ?thesis
  proof (intro conjI impI)
    assume "rn_worker s \<noteq> W_connect" "\<not> worker_uses_buffers s"
    then show "\<exists>evs s'. worker_step sv s = (Ret evs, s')"
      using p by (cases "rn_worker s") (auto simp: worker_uses_buffers_def threads_ok_def worker_step_def bind_act_def then_act_def)
  next
    assume "\<not> main_uses_buffers s"
    then show "\<exists>evs s'. main_step serve s = (Ret evs, s')"
      using p by (cases "rn_main s") (auto simp: main_uses_buffers_def threads_ok_def main_step_def bind_act_def then_act_def)
  qed
qed

text \<open>The executions of a trace, replayed on the debugger one after the other.\<close>

fun replay :: "(bool \<Rightarrow> bytes \<Rightarrow> ('s, bytes) act) \<Rightarrow> 's \<Rightarrow> event list \<Rightarrow> 's option" where
  "replay serve d [] = Some d"
| "replay serve d (Executed b m out # es) =
     (case serve b m d of (Ret out', d') \<Rightarrow> if out' = out then replay serve d' es else None | _ \<Rightarrow> None)"
| "replay serve d (e # es) = replay serve d es"

lemma replay_append: "replay serve d (xs @ ys) = (case replay serve d xs of None \<Rightarrow> None | Some d' \<Rightarrow> replay serve d' ys)"
  by (induction serve d xs rule: replay.induct) (auto split: prod.split outcome.split)

lemma worker_replay: "worker_step sv s = (Ret evs, s') \<Longrightarrow> replay serve (rn_db s) evs = Some (rn_db s')"
  by (cases "rn_worker s") (auto simp: worker_step_def bind_act_eq_Ret then_act_eq_Ret dest!: on_net_Ret split: if_splits)

lemma main_replay: "main_step serve s = (Ret evs, s') \<Longrightarrow> replay serve (rn_db s) evs = Some (rn_db s')"
  by (cases "rn_main s") (auto simp: main_step_def bind_act_eq_Ret then_act_eq_Ret split: if_splits elim!: execute_Ret)

lemma runs_replay: "runs sv serve s0 tr s \<Longrightarrow> replay serve (rn_db s0) tr = Some (rn_db s)"
  by (induction rule: runs.induct)
    (simp_all add: replay_append worker_replay main_replay call_run_command_def call_check_stopped_def)

text \<open>
  C27. The two threads refine a sequential request-response server: in every interleaving the events
  are receive, execute the received request, send the computed response, and again; the debugger is
  in the state that executing the received requests one after the other gives.
\<close>

theorem runner_refines_protocol:
  assumes "runs sv serve (runner_start net db) tr s"
  shows "phases Ph_idle tr \<noteq> None \<and> replay serve db tr = Some (rn_db s)"
  using runs_ok [OF assms refl] runs_replay [OF assms] by (auto simp: runner_start_def)

section \<open>An example\<close>

text \<open>A transport with the messages to receive and those sent.\<close>

definition list_server :: "(bytes list \<times> bytes list) DataServer" where
  "list_server = \<lparr>sv_connect = ret True, sv_send_data = (\<lambda>os. then_act (modify (\<lambda>(i, out). (i, out @ [os]))) (ret True)),
    sv_recv_data = (\<lambda>b (i, out). case i of [] \<Rightarrow> (Ret (b, False), (i, out)) | m # i' \<Rightarrow> (Ret (sib_reset m, True), (i', out)))\<rparr>"

definition sample_msg :: bytes where
  "sample_msg = [17, 2, 0, 5, 0, 0, 0, 0, 0, 0, 0, 7, 0, 0, 0, 0, 0, 0, 0]"

definition sample_start :: "(bytes list \<times> bytes list, UpdateInfos list Debugger) runner" where
  "sample_start = runner_start ([sample_msg], []) script_debugger"

abbreviation sample_serve :: "bool \<Rightarrow> bytes \<Rightarrow> (UpdateInfos list Debugger, bytes) act" where
  "sample_serve \<equiv> serve_debugger script_vm sample_update"

lemma sample_serves: "sample_serve True sample_msg script_debugger = (Ret [17], script_debugger\<lparr>d_breakpts := {5, 7}\<rparr>)"
proof -
  have "client_send sample_request = Ret sample_msg" by (simp add: sample_messages sample_msg_def)
  then have "serve_stopped script_vm sample_update sample_msg = catch_act (bind_act (local_call script_vm sample_update sample_request)
      (\<lambda>r'. call_act (write_response (req_type sample_request) r'))) error_response"
    by (intro serve_request [OF sample_request_facts(1,2)]) (simp_all add: sample_msg_def)
  then show ?thesis
    using sample_local_call sample_messages(2) by (simp add: serve_debugger_def catch_act_def bind_act_def)
qed

lemma sample_connected:
  "repeat_act 3 (worker_step list_server) sample_start = (Ret [[], [], []], sample_start\<lparr>rn_worker := W_recv, rn_state := R_NO_REQ\<rparr>)"
  by (simp add: numeral_3_eq_3 step_defs sample_start_def runner_start_def list_server_def)

lemma sample_waiting:
  "runs list_server sample_serve sample_start [] (sample_start\<lparr>rn_worker := W_recv, rn_state := R_NO_REQ\<rparr>)"
  using repeat_worker_runs [OF runs_start sample_connected] by simp

lemma sample_served:
  "\<exists>s. runs list_server sample_serve sample_start [Received sample_msg, Executed True sample_msg [17], Sent [17]] s \<and>
    rn_db s = script_debugger\<lparr>d_breakpts := {5, 7}\<rparr>"
proof -
  let ?s = "sample_start\<lparr>rn_worker := W_recv, rn_state := R_NO_REQ\<rparr>"
  have "\<exists>s. serve_one list_server sample_serve True ?s = (Ret [Received sample_msg, Executed True sample_msg [17], Sent [17]], s) \<and>
      waiting s \<and> rn_net s = ([], [[17]]) \<and> rn_db s = script_debugger\<lparr>d_breakpts := {5, 7}\<rparr>"
    by (rule serve_one_waiting [where ?k1.0 = "([], [])"])
      (use sample_serves in \<open>simp_all add: waiting_def sample_start_def runner_start_def list_server_def then_act_def bind_act_def\<close>)
  then show ?thesis using serve_one_runs [OF sample_waiting, of True] by (fastforce simp: sample_start_def runner_start_def)
qed

lemma sample_executing:
  "\<exists>s. runs list_server sample_serve sample_start [Received sample_msg] s \<and> rn_main s = M_execute True"
proof -
  let ?s = "sample_start\<lparr>rn_worker := W_recv, rn_state := R_NO_REQ\<rparr>"
  let ?r = "?s\<lparr>rn_in := sib_reset sample_msg, rn_net := ([], []), rn_worker := W_wait_stop, rn_state := R_HAS_REQ\<rparr>"
  have "repeat_act 2 (worker_step list_server) ?s = (Ret [[Received sample_msg], []], ?r)"
    by (simp add: numeral_2_eq_2 step_defs sample_start_def runner_start_def list_server_def sib_reset_def)
  from repeat_worker_runs [OF sample_waiting this] have "runs list_server sample_serve sample_start [Received sample_msg] ?r" by simp
  from runs_run_command [OF this] have c: "runs list_server sample_serve sample_start [Received sample_msg] (call_run_command ?r)"
    by (simp add: sample_start_def runner_start_def)
  have "repeat_act 4 (main_step sample_serve) (call_run_command ?r) = (Ret [[], [], [], []], ?r\<lparr>rn_main := M_execute True\<rparr>)"
    by (simp add: numeral_nat step_defs call_run_command_def)
  from repeat_main_runs [OF c this] show ?thesis by fastforce
qed

theorem runner_buffers_exclusive_witness:
  "\<exists>s. runs list_server sample_serve sample_start [Received sample_msg] s \<and> main_uses_buffers s \<and> \<not> worker_uses_buffers s"
proof -
  obtain s where "runs list_server sample_serve sample_start [Received sample_msg] s" "rn_main s = M_execute True"
    using sample_executing by blast
  with runner_buffers_exclusive [of list_server sample_serve "([sample_msg], [])" script_debugger] show ?thesis
    by (fastforce simp: sample_start_def main_uses_buffers_def)
qed

theorem runner_asserts_hold_witness:
  "\<exists>evs s'. worker_step list_server sample_start = (Ret evs, s') \<and> main_step sample_serve sample_start = (Ret [], sample_start) \<and>
    (\<exists>evs' s''. worker_step list_server s' = (Ret evs', s''))"
proof -
  let ?s = "sample_start\<lparr>rn_worker := W_connected\<rparr>"
  have w: "worker_step list_server sample_start = (Ret [], ?s)" "main_step sample_serve sample_start = (Ret [], sample_start)"
    by (simp_all add: step_defs sample_start_def runner_start_def list_server_def)
  from runs_worker [OF runs_start w(1)] have "runs list_server sample_serve (runner_start ([sample_msg], []) script_debugger) [] ?s"
    by (simp add: sample_start_def)
  from runner_asserts_hold [OF this] show ?thesis using w by (auto simp: worker_uses_buffers_def)
qed

theorem runner_refines_protocol_witness:
  "phases Ph_idle [Received sample_msg, Executed True sample_msg [17], Sent [17]] \<noteq> None \<and>
    replay sample_serve script_debugger [Received sample_msg, Executed True sample_msg [17], Sent [17]] =
      Some (script_debugger\<lparr>d_breakpts := {5, 7}\<rparr>)"
proof -
  obtain s where "runs list_server sample_serve sample_start [Received sample_msg, Executed True sample_msg [17], Sent [17]] s"
    "rn_db s = script_debugger\<lparr>d_breakpts := {5, 7}\<rparr>" using sample_served by blast
  with runner_refines_protocol [of list_server sample_serve "([sample_msg], [])" script_debugger] show ?thesis
    unfolding sample_start_def by metis
qed

end
