(* ===== verification/Tcp_Session.thy ===== *)
theory Tcp_Session
  imports Server_Runner
begin

text \<open>
  A client and a debugged process connected by TCP: \<open>DBClientImplData\<close> over \<open>TCPDataClient\<close> on one side,
  \<open>TCPDataServer\<close>, the runner thread and the main thread of \<open>DataClientHandler\<close> on the other. The
  session is a transport in the sense of \<open>data_link\<close>, for any kernel with a stream in each direction,
  so a remote call over TCP is the call made directly on the debugger.
\<close>

section \<open>The server of a data handler\<close>

definition tcp_server :: "'k net \<Rightarrow> (TCPDataServer \<times> 'k) DataServer" where
  "tcp_server nt =
    \<lparr>sv_connect = (\<lambda>(t, k). case ts_connect nt t k of (ok, t', k') \<Rightarrow> (Ret ok, (t', k'))),
     sv_send_data = (\<lambda>os (t, k). case ts_send_data nt t os k of (r, k') \<Rightarrow> (r, (t, k'))),
     sv_recv_data = (\<lambda>b (t, k). case ts_recv_data nt t b k of (r, k') \<Rightarrow> (r, (t, k')))\<rparr>"

section \<open>The session\<close>

record ('k, 's) tcp_session =
  tp_client :: TCPDataClient
  tp_in :: in_buff
  tp_server :: "(TCPDataServer \<times> 'k, 's) runner"

definition tp_kernel :: "('k, 's) tcp_session \<Rightarrow> 'k" where
  "tp_kernel l = snd (rn_net (tp_server l))"

definition on_kernel :: "('k, 'a) act \<Rightarrow> (('k, 's) tcp_session, 'a) act" where
  "on_kernel m = lift_act tp_kernel (\<lambda>k l. l\<lparr>tp_server := (tp_server l)\<lparr>rn_net := (fst (rn_net (tp_server l)), k)\<rparr>\<rparr>) m"

definition tcp_send :: "'k net \<Rightarrow> bytes \<Rightarrow> (('k, 's) tcp_session, bool) act" where
  "tcp_send nt msg = bind_act (gets tp_client) (\<lambda>c. on_kernel (tc_send_data nt c msg))"

text \<open>While the client blocks in \<open>recv_data\<close> the server serves a request.\<close>

definition tcp_recv :: "'k net \<Rightarrow> (bool \<Rightarrow> bytes \<Rightarrow> ('s, bytes) act) \<Rightarrow> bool \<Rightarrow> (('k, 's) tcp_session, bytes option) act" where
  "tcp_recv nt serve stopped =
    then_act (lift_act tp_server (\<lambda>s l. l\<lparr>tp_server := s\<rparr>) (serve_one (tcp_server nt) serve stopped))
    (bind_act (gets tp_client) (\<lambda>c. bind_act (gets tp_in) (\<lambda>b. bind_act (on_kernel (tc_recv_data nt c b)) (\<lambda>(b', ok).
      then_act (modify (\<lambda>l. l\<lparr>tp_in := b'\<rparr>)) (ret (if ok then Some (in_data b') else None))))))"

text \<open>
  A connected pair of descriptors: bytes sent on one arrive on the other, in each direction, and the
  directions do not disturb each other.
\<close>

definition sends_keep :: "'k net \<Rightarrow> int \<Rightarrow> ('k \<Rightarrow> bytes) \<Rightarrow> bool" where
  "sends_keep nt fd q \<longleftrightarrow> (\<forall>buf k r k'. nt_send nt fd buf k = (r, k') \<longrightarrow> q k' = q k)"

definition reads_keep :: "'k net \<Rightarrow> int \<Rightarrow> ('k \<Rightarrow> bytes) \<Rightarrow> bool" where
  "reads_keep nt fd q \<longleftrightarrow> (\<forall>n k r k'. nt_read nt fd n k = (r, k') \<longrightarrow> q k' = q k)"

definition duplex :: "'k net \<Rightarrow> int \<Rightarrow> int \<Rightarrow> ('k \<Rightarrow> bytes) \<Rightarrow> ('k \<Rightarrow> bytes) \<Rightarrow> bool" where
  "duplex nt cfd sfd up down \<longleftrightarrow>
    stream_out nt cfd up \<and> sends_keep nt cfd down \<and> stream_in nt sfd up \<and> reads_keep nt sfd down \<and>
    stream_out nt sfd down \<and> sends_keep nt sfd up \<and> stream_in nt cfd down \<and> reads_keep nt cfd up"

lemma write_mult_keep: "sends_keep nt fd q \<Longrightarrow> write_mult nt fd buf k = (r, k') \<Longrightarrow> q k' = q k"
proof (induction nt fd buf k arbitrary: k' rule: write_mult.induct)
  case (1 nt fd buf k)
  show ?case
  proof (cases "buf = []")
    case False
    obtain n k1 where n: "nt_send nt fd buf k = (n, k1)" by fastforce
    then have "q k1 = q k" using 1(2) by (simp add: sends_keep_def)
    then show ?thesis using 1 False n by (subst (asm) write_mult.simps) (auto split: option.splits if_splits)
  qed (use 1 in \<open>simp add: write_mult.simps\<close>)
qed

lemma read_mult_keep: "reads_keep nt fd q \<Longrightarrow> read_mult nt fd buf k = (r, k') \<Longrightarrow> q k' = q k"
proof (induction nt fd buf k arbitrary: r k' rule: read_mult.induct)
  case (1 nt fd buf k)
  show ?case
  proof (cases "buf = []")
    case False
    obtain n k1 where n: "nt_read nt fd (length buf) k = (n, k1)" by fastforce
    then have "q k1 = q k" using 1(2) by (simp add: reads_keep_def)
    then show ?thesis using 1 False n by (subst (asm) read_mult.simps) (auto split: option.splits if_splits prod.splits outcome.splits)
  qed (use 1 in \<open>simp add: read_mult.simps\<close>)
qed

lemma send_data_keep:
  assumes "sends_keep nt fd q" "send_data_tcp nt os fd k = (Ret b, k')"
  shows "q k' = q k"
  using assms(2) by (auto simp: send_data_tcp_def Let_def bind_act_eq_Ret split: if_splits)
    (metis write_mult_keep [OF assms(1)])+

lemma recv_data_keep:
  assumes "reads_keep nt fd q" "recv_data_tcp nt b fd k = (Ret r, k')"
  shows "q k' = q k"
  using assms(2) by (auto simp: recv_data_tcp_def Let_def bind_act_eq_Ret split: if_splits)
    (metis read_mult_keep [OF assms(1)])+

text \<open>The session between two requests, with the debugger in state \<open>d\<close>.\<close>

definition tcp_idle :: "int \<Rightarrow> int \<Rightarrow> ('k \<Rightarrow> bytes) \<Rightarrow> ('k \<Rightarrow> bytes) \<Rightarrow> 's \<Rightarrow> ('k, 's) tcp_session \<Rightarrow> bool" where
  "tcp_idle cfd sfd up down d l \<longleftrightarrow> waiting (tp_server l) \<and> rn_db (tp_server l) = d \<and> tc_fd (tp_client l) = cfd \<and>
    ts_cli_fd (fst (rn_net (tp_server l))) = sfd \<and> up (tp_kernel l) = [] \<and> down (tp_kernel l) = []"

lemma tcp_data_link:
  assumes "duplex nt cfd sfd up down"
  shows "data_link (tcp_send nt) (tcp_recv nt serve b) (serve b) (tcp_idle cfd sfd up down) (2 ^ 32)"
proof
  fix d l msg out d'
  assume idle: "tcp_idle cfd sfd up down d l" and len: "length msg < 2 ^ 32" "length out < 2 ^ 32"
    and serve: "serve b msg d = (Ret out, d')"
  note dx = assms [unfolded duplex_def]
  let ?s = "tp_server l" and ?t = "fst (rn_net (tp_server l))" and ?k = "tp_kernel l"
  have i: "waiting ?s" "rn_db ?s = d" "tc_fd (tp_client l) = cfd" "ts_cli_fd ?t = sfd" "up ?k = []" "down ?k = []"
    using idle by (simp_all add: tcp_idle_def)
  obtain k1 where k1: "send_data_tcp nt msg cfd ?k = (Ret True, k1)" "up k1 = frame msg"
    using send_data_frame [of nt cfd up msg ?k] dx len i by auto
  have d1: "down k1 = []" using send_data_keep [OF _ k1(1), of down] dx i by simp
  obtain k2 where k2: "recv_data_tcp nt (rn_in ?s) sfd k1 = (Ret (sib_reset msg, True), k2)" "up k2 = []"
    using recv_data_frame [of nt sfd up k1 msg "[]" "rn_in ?s"] dx len k1 by auto
  have d2: "down k2 = []" using recv_data_keep [OF _ k2(1), of down] dx d1 by simp
  obtain k3 where k3: "send_data_tcp nt out sfd k2 = (Ret True, k3)" "down k3 = frame out"
    using send_data_frame [of nt sfd down out k2] dx len d2 by auto
  have u3: "up k3 = []" using send_data_keep [OF _ k3(1), of up] dx k2(2) by simp
  obtain k4 where k4: "recv_data_tcp nt (tp_in l) cfd k3 = (Ret (sib_reset out, True), k4)" "down k4 = []"
    using recv_data_frame [of nt cfd down k3 out "[]" "tp_in l"] dx len k3 by auto
  have u4: "up k4 = []" using recv_data_keep [OF _ k4(1), of up] dx u3 by simp
  let ?l1 = "l\<lparr>tp_server := ?s\<lparr>rn_net := (?t, k1)\<rparr>\<rparr>"
  have send: "tcp_send nt msg l = (Ret True, ?l1)"
    using k1(1) i(3) by (simp add: tcp_send_def on_kernel_def lift_act_def tc_send_data_def tp_kernel_def)
  have "\<exists>s'. serve_one (tcp_server nt) serve b (?s\<lparr>rn_net := (?t, k1)\<rparr>) =
      (Ret [Received msg, Executed b msg out, Sent out], s') \<and> waiting s' \<and> rn_net s' = (?t, k3) \<and> rn_db s' = d'"
  proof (rule serve_one_waiting)
    show "sv_recv_data (tcp_server nt) (rn_in (?s\<lparr>rn_net := (?t, k1)\<rparr>)) (rn_net (?s\<lparr>rn_net := (?t, k1)\<rparr>)) = (Ret (sib_reset msg, True), (?t, k2))"
      "sv_send_data (tcp_server nt) out (?t, k2) = (Ret True, (?t, k3))"
      using k2(1) k3(1) i(4) by (simp_all add: tcp_server_def ts_recv_data_def ts_send_data_def)
  qed (use i serve in \<open>simp_all add: waiting_def\<close>)
  then obtain s' where s': "serve_one (tcp_server nt) serve b (?s\<lparr>rn_net := (?t, k1)\<rparr>) =
      (Ret [Received msg, Executed b msg out, Sent out], s')" "waiting s'" "rn_net s' = (?t, k3)" "rn_db s' = d'" by blast
  let ?l2 = "?l1\<lparr>tp_server := s'\<lparr>rn_net := (?t, k4)\<rparr>, tp_in := sib_reset out\<rparr>"
  have "tcp_recv nt serve b ?l1 = (Ret (Some out), ?l2)"
    using s'(1,3) k4(1) i(3)
    by (simp add: tcp_recv_def on_kernel_def lift_act_def tc_recv_data_def tp_kernel_def then_act_def bind_act_def sib_reset_def)
  moreover have "tcp_idle cfd sfd up down d' ?l2"
    using s'(2-4) i(3,4) k4(2) u4 by (simp add: tcp_idle_def tp_kernel_def waiting_def)
  ultimately show "\<exists>l1 l2. tcp_send nt msg l = (Ret True, l1) \<and> tcp_recv nt serve b l1 = (Ret (Some out), l2) \<and>
      tcp_idle cfd sfd up down d' l2" using send by blast
qed

section \<open>Remote calls over TCP\<close>

definition tcp_call :: "'k net \<Rightarrow> 'v VMApi \<Rightarrow> DBClientUpdate \<Rightarrow> request \<Rightarrow> (('k, 'v Debugger) tcp_session, request) act" where
  "tcp_call nt api udp0 r = send_req (tcp_send nt) (tcp_recv nt (serve_debugger api udp0) True) r"

lemma tcp_debugger_link:
  assumes "duplex nt cfd sfd up down"
  shows "debugger_link (tcp_send nt) (tcp_recv nt (serve_debugger api udp0) True) api udp0 (tcp_idle cfd sfd up down) (2 ^ 32)"
  using tcp_data_link [OF assms, of "serve_debugger api udp0" True]
  by (simp add: debugger_link_def debugger_link_axioms_def serve_debugger_def)

text \<open>A connection: descriptors and a kernel with a stream in each direction. It links a client to the debugger.\<close>

locale tcp_connection =
  fixes nt :: "'k net" and cfd sfd :: int and up down :: "'k \<Rightarrow> bytes"
  assumes duplex: "duplex nt cfd sfd up down"

sublocale tcp_connection \<subseteq> link: debugger_link "tcp_send nt" "tcp_recv nt (serve_debugger api udp0) True" api udp0
  "tcp_idle cfd sfd up down" "2 ^ 32" for api udp0
  by (rule tcp_debugger_link [OF duplex])

text \<open>
  C26. A remote call over TCP is the direct call: for every request the stopped server accepts, with
  messages below \<open>2 ^ 32\<close> bytes, over any kernel with a stream in each direction, the client gets its
  request back with the output fields of the direct call and the debugger has its new state; an error
  of the direct call is thrown at the client with its message. The session is then ready for the
  next request.
\<close>

theorem tcp_call_is_local_call:
  assumes "duplex nt cfd sfd up down" "tcp_idle cfd sfd up down d l"
    and "request_ok r" "rejects_stopped (req_type r) = None" "short_message (2 ^ 32) (client_send r)"
  shows "(\<forall>s d'. local_call api udp0 r d = (Ret s, d') \<longrightarrow> response_ok s r \<longrightarrow>
      short_message (2 ^ 32) (write_response (req_type r) s) \<longrightarrow>
      (\<exists>l'. tcp_call nt api udp0 r l = (Ret (client_view r s), l') \<and> tcp_idle cfd sfd up down d' l')) \<and>
    (\<forall>e d'. local_call api udp0 r d = (Throw e, d') \<longrightarrow> fits (what e) \<longrightarrow>
      short_message (2 ^ 32) (write_response ERR (Rq_Err \<lparr>er_msg = what e\<rparr>)) \<longrightarrow>
      (\<exists>l'. tcp_call nt api udp0 r l = (Throw (what e), l') \<and> tcp_idle cfd sfd up down d' l'))"
  using debugger_link.remote_Ret [OF tcp_debugger_link [OF assms(1)], of r d l api udp0]
    debugger_link.remote_Throw [OF tcp_debugger_link [OF assms(1)], of r d l api udp0] assms(2-5)
  unfolding tcp_call_def by blast

text \<open>A connected pair of descriptors 4 and 5, one queue for each direction, in chunks of two bytes.\<close>

definition pair_net :: "(bytes \<times> bytes) net" where
  "pair_net = \<lparr>nt_socket = (\<lambda>k. (-1, k)), nt_setsockopt = (\<lambda>fd opt k. (-1, k)), nt_bind = (\<lambda>fd port k. (-1, k)),
    nt_listen = (\<lambda>fd k. (-1, k)), nt_accept = (\<lambda>fd k. (-1, k)), nt_inet_pton = (\<lambda>name. None),
    nt_connect = (\<lambda>fd addr port k. (-1, k)),
    nt_read = (\<lambda>fd n (u, w). if fd = 4 then (Some (take (min n 2) u), (drop (min n 2) u, w))
      else (Some (take (min n 2) w), (u, drop (min n 2) w))),
    nt_send = (\<lambda>fd buf (u, w). (Some (min (length buf) 2), if fd = 5 then (u @ take 2 buf, w) else (u, w @ take 2 buf))),
    nt_close = (\<lambda>fd k. k)\<rparr>"

lemma pair_duplex: "duplex pair_net 5 4 fst snd"
  by (auto simp: duplex_def stream_in_def stream_out_def sends_keep_def reads_keep_def pair_net_def min_def)

interpretation pair: tcp_connection pair_net 5 4 fst snd
  by unfold_locales (rule pair_duplex)

definition sample_session :: "(bytes \<times> bytes, UpdateInfos list Debugger) tcp_session" where
  "sample_session = \<lparr>tp_client = \<lparr>tc_hostname = ''127.0.0.1'', tc_port = 12644, tc_fd = 5\<rparr>, tp_in = sib_reset [],
    tp_server = (runner_start (\<lparr>ts_port = 12644, ts_serv_fd = 3, ts_cli_fd = 4\<rparr>, ([], [])) script_debugger)
      \<lparr>rn_worker := W_recv, rn_state := R_NO_REQ\<rparr>\<rparr>"

theorem tcp_call_is_local_call_witness:
  "\<exists>l'. tcp_call pair_net script_vm sample_update sample_request sample_session = (Ret sample_request, l') \<and>
    tcp_idle 5 4 fst snd (script_debugger\<lparr>d_breakpts := {5, 7}\<rparr>) l'"
proof -
  have idle: "tcp_idle 5 4 fst snd script_debugger sample_session"
    by (simp add: tcp_idle_def sample_session_def waiting_def runner_start_def tp_kernel_def)
  have "short_message (2 ^ 32) (client_send sample_request)"
    "short_message (2 ^ 32) (write_response (req_type sample_request) sample_request)"
    by (simp_all add: sample_messages short_message_def)
  moreover have "response_ok sample_request sample_request" "client_view sample_request sample_request = sample_request"
    by (simp_all add: sample_request_def)
  ultimately show ?thesis
    using tcp_call_is_local_call [OF pair_duplex idle sample_request_facts(1,2), of script_vm sample_update] sample_local_call
    by metis
qed

end
