(* ===== verification/Client_Impl.thy ===== *)
theory Client_Impl
  imports Data_Client
begin

text \<open>
  The abstract class \<open>DBClientImpl\<close> (\<open>include/odb/mess/db-client-impl.hh\<close>) as a record of its virtual
  methods, and its two implementations: \<open>DBClientImplVMSide\<close>, which works on the debugger of the same
  process, and \<open>DBClientImplData\<close> (\<open>src/client/db-client-impl-data.cc\<close>), which turns each call into a
  request. A pointer argument the callee fills is returned with its new contents.
\<close>

record 's DBClientImpl =
  im_connect :: "VMInfos \<Rightarrow> DBClientUpdate \<Rightarrow> ('s, VMInfos \<times> DBClientUpdate) act"
  im_stop :: "('s, unit) act"
  im_check_stopped :: "DBClientUpdate \<Rightarrow> ('s, DBClientUpdate) act"
  im_get_regs :: "vm_reg_t list \<Rightarrow> bytes list \<Rightarrow> vm_size_t list \<Rightarrow> nat \<Rightarrow> ('s, bytes list) act"
  im_set_regs :: "vm_reg_t list \<Rightarrow> bytes list \<Rightarrow> vm_size_t list \<Rightarrow> nat \<Rightarrow> ('s, unit) act"
  im_get_regs_infos :: "vm_reg_t list \<Rightarrow> RegInfos list \<Rightarrow> nat \<Rightarrow> ('s, RegInfos list) act"
  im_find_regs_ids :: "string list \<Rightarrow> vm_reg_t list \<Rightarrow> nat \<Rightarrow> ('s, vm_reg_t list) act"
  im_read_mem :: "vm_ptr_t list \<Rightarrow> vm_size_t list \<Rightarrow> bytes list \<Rightarrow> nat \<Rightarrow> ('s, bytes list) act"
  im_write_mem :: "vm_ptr_t list \<Rightarrow> vm_size_t list \<Rightarrow> bytes list \<Rightarrow> nat \<Rightarrow> ('s, unit) act"
  im_get_symbols_by_ids :: "vm_sym_t list \<Rightarrow> SymbolInfos list \<Rightarrow> nat \<Rightarrow> ('s, SymbolInfos list) act"
  im_get_symbols_by_addr :: "vm_ptr_t \<Rightarrow> vm_size_t \<Rightarrow> ('s, SymbolInfos list) act"
  im_get_symbols_by_names :: "string list \<Rightarrow> SymbolInfos list \<Rightarrow> nat \<Rightarrow> ('s, SymbolInfos list) act"
  im_get_code_text :: "vm_ptr_t \<Rightarrow> nat \<Rightarrow> ('s, string list \<times> vm_size_t list) act"
  im_add_breakpoints :: "vm_ptr_t list \<Rightarrow> nat \<Rightarrow> ('s, unit) act"
  im_del_breakpoints :: "vm_ptr_t list \<Rightarrow> nat \<Rightarrow> ('s, unit) act"
  im_resume :: "ResumeType \<Rightarrow> ('s, unit) act"

section \<open>On the debugger's side\<close>

definition vmside_impl :: "'v VMApi \<Rightarrow> 'v Debugger DBClientImpl" where
  "vmside_impl api =
    \<lparr>im_connect = (\<lambda>infos udp. vms_connect udp), im_stop = vms_stop, im_check_stopped = vms_check_stopped,
     im_get_regs = (\<lambda>ids bufs sizes n. vms_get_regs api ids bufs n),
     im_set_regs = (\<lambda>ids bufs sizes n. vms_set_regs api ids bufs n),
     im_get_regs_infos = vms_get_regs_infos api, im_find_regs_ids = vms_find_regs_ids api,
     im_read_mem = vms_read_mem api, im_write_mem = vms_write_mem api,
     im_get_symbols_by_ids = vms_get_symbols_by_ids api,
     im_get_symbols_by_addr = vms_get_symbols_by_addr api,
     im_get_symbols_by_names = vms_get_symbols_by_names api, im_get_code_text = vms_get_code_text api,
     im_add_breakpoints = vms_add_breakpoints, im_del_breakpoints = vms_del_breakpoints,
     im_resume = vms_resume\<rparr>"

section \<open>Over the data protocol\<close>

text \<open>\<open>conn\<close> is \<open>AbstractDataClient::connect\<close>, \<open>sr\<close> is \<open>send_req\<close>; counts are truncated to 16 bits.\<close>

type_synonym 's sender = "request \<Rightarrow> ('s, request) act"

definition data_connect :: "('s, bool) act \<Rightarrow> 's sender \<Rightarrow> VMInfos \<Rightarrow> DBClientUpdate \<Rightarrow>
    ('s, VMInfos \<times> DBClientUpdate) act" where
  "data_connect conn sr infos udp = bind_act conn (\<lambda>ok.
    if \<not> ok then throw ''Failed to connect to DB server''
    else bind_act (sr (Rq_Connect \<lparr>cn_out_infos = infos, cn_out_udp = udp\<rparr>)) (\<lambda>r.
      ret (cn_out_infos (un_Connect r), cn_out_udp (un_Connect r))))"

definition data_stop :: "'s sender \<Rightarrow> ('s, unit) act" where
  "data_stop sr = then_act (sr (Rq_Stop \<lparr>st_tag = 0\<rparr>)) (ret ())"

definition data_check_stopped :: "'s sender \<Rightarrow> DBClientUpdate \<Rightarrow> ('s, DBClientUpdate) act" where
  "data_check_stopped sr udp = bind_act (sr (Rq_CheckStopped \<lparr>cs_out_udp = udp\<rparr>))
    (\<lambda>r. ret (cs_out_udp (un_CheckStopped r)))"

text \<open>\<open>nregs < 2 || regs_size[1] == 0\<close>\<close>

definition same_size :: "vm_size_t list \<Rightarrow> nat \<Rightarrow> ('s, bool) act" where
  "same_size regs_size nregs = (if nregs < 2 then ret True else bind_act (elem_at regs_size 1) (\<lambda>s. ret (s = 0)))"

definition data_get_regs :: "'s sender \<Rightarrow> vm_reg_t list \<Rightarrow> bytes list \<Rightarrow> vm_size_t list \<Rightarrow> nat \<Rightarrow> ('s, bytes list) act" where
  "data_get_regs sr ids out_bufs regs_size nregs =
    (if nregs = 0 then ret out_bufs
     else bind_act (same_size regs_size nregs) (\<lambda>same.
       if same then bind_act (elem_at regs_size 0) (\<lambda>s0.
         bind_act (sr (Rq_GetRegs \<lparr>gr_nregs = of_nat nregs, gr_reg_size = s0, gr_ids = ids, gr_out_bufs = out_bufs\<rparr>))
           (\<lambda>r. ret (gr_out_bufs (un_GetRegs r))))
       else bind_act (sr (Rq_GetRegsVar \<lparr>grv_nregs = of_nat nregs, grv_in_ids = ids,
           grv_in_regs_size = regs_size, grv_out_bufs = out_bufs\<rparr>))
         (\<lambda>r. ret (grv_out_bufs (un_GetRegsVar r)))))"

definition data_set_regs :: "'s sender \<Rightarrow> vm_reg_t list \<Rightarrow> bytes list \<Rightarrow> vm_size_t list \<Rightarrow> nat \<Rightarrow> ('s, unit) act" where
  "data_set_regs sr ids in_bufs regs_size nregs =
    (if nregs = 0 then ret ()
     else bind_act (same_size regs_size nregs) (\<lambda>same.
       if same then bind_act (elem_at regs_size 0) (\<lambda>s0.
         then_act (sr (Rq_SetRegs \<lparr>sr_nregs = of_nat nregs, sr_reg_size = s0, sr_in_ids = ids, sr_in_bufs = in_bufs\<rparr>)) (ret ()))
       else then_act (sr (Rq_SetRegsVar \<lparr>srv_nregs = of_nat nregs, srv_in_ids = ids,
           srv_in_regs_size = regs_size, srv_in_bufs = in_bufs\<rparr>)) (ret ())))"

definition data_get_regs_infos :: "'s sender \<Rightarrow> vm_reg_t list \<Rightarrow> RegInfos list \<Rightarrow> nat \<Rightarrow> ('s, RegInfos list) act" where
  "data_get_regs_infos sr ids out_infos nregs =
    bind_act (sr (Rq_GetRegsInfos \<lparr>gri_nregs = of_nat nregs, gri_ids = ids, gri_out_infos = out_infos\<rparr>))
      (\<lambda>r. ret (gri_out_infos (un_GetRegsInfos r)))"

definition data_find_regs_ids :: "'s sender \<Rightarrow> string list \<Rightarrow> vm_reg_t list \<Rightarrow> nat \<Rightarrow> ('s, vm_reg_t list) act" where
  "data_find_regs_ids sr reg_names out_ids nregs =
    bind_act (sr (Rq_FindRegsIds \<lparr>fri_nregs = of_nat nregs, fri_in_bufs = reg_names, fri_out_ids = out_ids\<rparr>))
      (\<lambda>r. ret (fri_out_ids (un_FindRegsIds r)))"

definition data_read_mem :: "'s sender \<Rightarrow> vm_ptr_t list \<Rightarrow> vm_size_t list \<Rightarrow> bytes list \<Rightarrow> nat \<Rightarrow> ('s, bytes list) act" where
  "data_read_mem sr src_addrs bufs_sizes out_bufs nbuffs =
    (if nbuffs = 0 then ret out_bufs
     else bind_act (sr (Rq_ReadMemVar \<lparr>rmv_nbufs = of_nat nbuffs, rmv_in_addrs = src_addrs,
         rmv_in_bufs_size = bufs_sizes, rmv_out_bufs = out_bufs\<rparr>))
       (\<lambda>r. ret (rmv_out_bufs (un_ReadMemVar r))))"

definition data_write_mem :: "'s sender \<Rightarrow> vm_ptr_t list \<Rightarrow> vm_size_t list \<Rightarrow> bytes list \<Rightarrow> nat \<Rightarrow> ('s, unit) act" where
  "data_write_mem sr dst_addrs bufs_sizes in_bufs nbuffs =
    (if nbuffs = 0 then ret ()
     else then_act (sr (Rq_WriteMemVar \<lparr>wmv_nbufs = of_nat nbuffs, wmv_in_addrs = dst_addrs,
         wmv_in_bufs_size = bufs_sizes, wmv_in_bufs = in_bufs\<rparr>)) (ret ()))"

definition data_get_symbols_by_ids :: "'s sender \<Rightarrow> vm_sym_t list \<Rightarrow> SymbolInfos list \<Rightarrow> nat \<Rightarrow> ('s, SymbolInfos list) act" where
  "data_get_symbols_by_ids sr ids out_infos nsyms =
    bind_act (sr (Rq_GetSymsByIds \<lparr>gsi_nsyms = of_nat nsyms, gsi_in_ids = ids, gsi_out_infos = out_infos\<rparr>))
      (\<lambda>r. ret (gsi_out_infos (un_GetSymsByIds r)))"

definition data_get_symbols_by_addr :: "'s sender \<Rightarrow> vm_ptr_t \<Rightarrow> vm_size_t \<Rightarrow> ('s, SymbolInfos list) act" where
  "data_get_symbols_by_addr sr addr sz =
    bind_act (sr (Rq_GetSymsByAddr \<lparr>gsa_addr = addr, gsa_size = sz, gsa_out_infos = []\<rparr>))
      (\<lambda>r. ret (gsa_out_infos (un_GetSymsByAddr r)))"

definition data_get_symbols_by_names :: "'s sender \<Rightarrow> string list \<Rightarrow> SymbolInfos list \<Rightarrow> nat \<Rightarrow> ('s, SymbolInfos list) act" where
  "data_get_symbols_by_names sr names out_infos nsyms =
    bind_act (sr (Rq_GetSymsByNames \<lparr>gsn_nsyms = of_nat nsyms, gsn_in_names = names, gsn_out_infos = out_infos\<rparr>))
      (\<lambda>r. ret (gsn_out_infos (un_GetSymsByNames r)))"

definition data_get_code_text :: "'s sender \<Rightarrow> vm_ptr_t \<Rightarrow> nat \<Rightarrow> ('s, string list \<times> vm_size_t list) act" where
  "data_get_code_text sr addr nins =
    bind_act (sr (Rq_GetCodeText \<lparr>gct_addr = addr, gct_nins = of_nat nins, gct_out_text = [], gct_out_sizes = []\<rparr>))
      (\<lambda>r. ret (gct_out_text (un_GetCodeText r), gct_out_sizes (un_GetCodeText r)))"

definition data_add_breakpoints :: "'s sender \<Rightarrow> vm_ptr_t list \<Rightarrow> nat \<Rightarrow> ('s, unit) act" where
  "data_add_breakpoints sr addrs n =
    then_act (sr (Rq_AddBkps \<lparr>ab_size = of_nat n, ab_in_addrs = addrs\<rparr>)) (ret ())"

definition data_del_breakpoints :: "'s sender \<Rightarrow> vm_ptr_t list \<Rightarrow> nat \<Rightarrow> ('s, unit) act" where
  "data_del_breakpoints sr addrs n =
    then_act (sr (Rq_DelBkps \<lparr>dbk_size = of_nat n, dbk_in_addrs = addrs\<rparr>)) (ret ())"

definition data_resume :: "'s sender \<Rightarrow> ResumeType \<Rightarrow> ('s, unit) act" where
  "data_resume sr type = then_act (sr (Rq_Resume \<lparr>rs_type = type\<rparr>)) (ret ())"

definition data_impl :: "('s, bool) act \<Rightarrow> 's sender \<Rightarrow> 's DBClientImpl" where
  "data_impl conn sr =
    \<lparr>im_connect = data_connect conn sr, im_stop = data_stop sr, im_check_stopped = data_check_stopped sr,
     im_get_regs = data_get_regs sr, im_set_regs = data_set_regs sr,
     im_get_regs_infos = data_get_regs_infos sr, im_find_regs_ids = data_find_regs_ids sr,
     im_read_mem = data_read_mem sr, im_write_mem = data_write_mem sr,
     im_get_symbols_by_ids = data_get_symbols_by_ids sr,
     im_get_symbols_by_addr = data_get_symbols_by_addr sr,
     im_get_symbols_by_names = data_get_symbols_by_names sr, im_get_code_text = data_get_code_text sr,
     im_add_breakpoints = data_add_breakpoints sr, im_del_breakpoints = data_del_breakpoints sr,
     im_resume = data_resume sr\<rparr>"

end
