(* ===== verification/Db_Client.thy ===== *)
theory Db_Client
  imports Client_Impl
begin

text \<open>
  \<open>DBClient\<close> of \<open>src/mess/db-client.cc\<close>: the client object the user interfaces work with. It tracks
  whether the machine is stopped, checks that each call is made in the right state, and caches
  register descriptions (kept for ever) and register values (until the machine runs again).
\<close>

section \<open>State\<close>

datatype client_state = NOT_CONNECTED | DISCONNECTED | VM_STOPPED | VM_RUNNING

record 's DBClient =
  c_peer :: 's
  c_state :: client_state
  c_udp :: DBClientUpdate
  c_vm_infos :: VMInfos
  c_regi_arr :: "RegInfos list"
  c_regi_idx_map :: "(vm_reg_t, nat) std_map"
  c_regi_name_map :: "(string, nat) std_map"

definition DBClient_new :: "'s \<Rightarrow> DBClientUpdate \<Rightarrow> VMInfos \<Rightarrow> 's DBClient" where
  "DBClient_new peer udp0 infos0 =
    \<lparr>c_peer = peer, c_state = NOT_CONNECTED, c_udp = udp0, c_vm_infos = infos0, c_regi_arr = [],
     c_regi_idx_map = smap_empty, c_regi_name_map = smap_empty\<rparr>"

definition impl_call :: "('s, 'a) act \<Rightarrow> ('s DBClient, 'a) act" where
  "impl_call m = lift_act c_peer (\<lambda>s c. c\<lparr>c_peer := s\<rparr>) m"

definition assert_state :: "client_state \<Rightarrow> ('s DBClient, unit) act" where
  "assert_state st = bind_act (gets c_state) (\<lambda>st'. assert_act (st' = st))"

definition discard_tmp_cache :: "('s DBClient, unit) act" where
  "discard_tmp_cache = modify (\<lambda>c. c\<lparr>c_regi_arr := map (\<lambda>ri. ri\<lparr>ri_val := []\<rparr>) (c_regi_arr c)\<rparr>)"

section \<open>Connection and program flow\<close>

definition cl_connect :: "'s DBClientImpl \<Rightarrow> ('s DBClient, unit) act" where
  "cl_connect im = then_act (assert_state NOT_CONNECTED) (
    bind_act (gets (\<lambda>c. (c_vm_infos c, c_udp c))) (\<lambda>(infos0, udp0).
    bind_act (impl_call (im_connect im infos0 udp0)) (\<lambda>(infos, udp).
    modify (\<lambda>c. c\<lparr>c_vm_infos := infos, c_udp := udp,
      c_state := (if up_stopped udp then VM_STOPPED else VM_RUNNING)\<rparr>))))"

definition cl_update :: "'s DBClientImpl \<Rightarrow> ('s DBClient, unit) act" where
  "cl_update im = bind_act (gets c_udp) (\<lambda>udp0. bind_act (impl_call (im_check_stopped im udp0))
    (\<lambda>udp. modify (\<lambda>c. c\<lparr>c_udp := udp\<rparr>)))"

definition cl_stop :: "'s DBClientImpl \<Rightarrow> ('s DBClient, unit) act" where
  "cl_stop im = then_act (assert_state VM_RUNNING) (
    then_act (impl_call (im_stop im)) (
    then_act (modify (\<lambda>c. c\<lparr>c_state := VM_STOPPED\<rparr>)) (
    then_act (cl_update im) (
    bind_act (gets c_udp) (\<lambda>udp. assert_act (up_stopped udp))))))"

definition cl_check_stopped :: "'s DBClientImpl \<Rightarrow> ('s DBClient, unit) act" where
  "cl_check_stopped im = then_act (assert_state VM_RUNNING) (
    then_act (cl_update im) (
    bind_act (gets c_udp) (\<lambda>udp.
    if up_stopped udp then then_act (modify (\<lambda>c. c\<lparr>c_state := VM_STOPPED\<rparr>)) discard_tmp_cache
    else modify (\<lambda>c. c\<lparr>c_state := VM_RUNNING\<rparr>))))"

definition cl_resume :: "'s DBClientImpl \<Rightarrow> ResumeType \<Rightarrow> ('s DBClient, unit) act" where
  "cl_resume im type = then_act (assert_state VM_STOPPED) (
    then_act (impl_call (im_resume im type)) (modify (\<lambda>c. c\<lparr>c_state := VM_RUNNING\<rparr>)))"

section \<open>The register cache\<close>

text \<open>\<open>_regi_arr[it->second]\<close> for the entry \<open>it\<close> of a register, which is asserted to exist.\<close>

definition cache_pos :: "vm_reg_t \<Rightarrow> ('s DBClient, nat) act" where
  "cache_pos rid = bind_act (gets (\<lambda>c. (smap_find (c_regi_idx_map c) rid, length (c_regi_arr c)))) (\<lambda>(e, n).
    case e of None \<Rightarrow> abort Assert_failed | Some k \<Rightarrow> then_act (in_bounds (k < n)) (ret k))"

definition cached_reg :: "vm_reg_t \<Rightarrow> ('s DBClient, RegInfos) act" where
  "cached_reg rid = bind_act (cache_pos rid) (\<lambda>k. gets (\<lambda>c. c_regi_arr c ! k))"

definition set_cached_val :: "vm_reg_t \<Rightarrow> bytes \<Rightarrow> ('s DBClient, unit) act" where
  "set_cached_val rid v = bind_act (cache_pos rid) (\<lambda>k.
    modify (\<lambda>c. c\<lparr>c_regi_arr := (c_regi_arr c)[k := (c_regi_arr c ! k)\<lparr>ri_val := v\<rparr>]\<rparr>))"

text \<open>The loop that enters the descriptions appended to \<open>_regi_arr\<close> into the two maps.\<close>

fun index_infos :: "nat \<Rightarrow> RegInfos list \<Rightarrow> 's DBClient \<Rightarrow> 's DBClient" where
  "index_infos i [] c = c"
| "index_infos i (ri # ris) c = index_infos (Suc i) ris
     (c\<lparr>c_regi_idx_map := smap_emplace (ri_idx ri) i (c_regi_idx_map c),
        c_regi_name_map := smap_emplace (ri_name ri) i (c_regi_name_map c)\<rparr>)"

definition fetch_reg_infos_by_id :: "'s DBClientImpl \<Rightarrow> vm_reg_t list \<Rightarrow> ('s DBClient, unit) act" where
  "fetch_reg_infos_by_id im idxs =
    bind_act (gets (\<lambda>c. filter (\<lambda>r. smap_find (c_regi_idx_map c) r = None) idxs)) (\<lambda>miss.
    if miss = [] then ret ()
    else bind_act (impl_call (im_get_regs_infos im miss (replicate (length miss) (cnull RegInfos_codec)) (length miss))) (\<lambda>infos.
      modify (\<lambda>c. let infos' = map strip_val infos in
        index_infos (length (c_regi_arr c)) infos' (c\<lparr>c_regi_arr := c_regi_arr c @ infos'\<rparr>))))"

definition fetch_reg_infos_by_name :: "'s DBClientImpl \<Rightarrow> string list \<Rightarrow> ('s DBClient, unit) act" where
  "fetch_reg_infos_by_name im names =
    bind_act (gets (\<lambda>c. filter (\<lambda>n. smap_find (c_regi_name_map c) n = None) names)) (\<lambda>miss.
    if miss = [] then ret ()
    else bind_act (impl_call (im_find_regs_ids im miss (replicate (length miss) 0) (length miss)))
      (fetch_reg_infos_by_id im))"

text \<open>The registers of a list whose value is not in the cache, with their sizes.\<close>

fun missing_vals :: "vm_reg_t list \<Rightarrow> ('s DBClient, (vm_reg_t \<times> vm_size_t) list) act" where
  "missing_vals [] = ret []"
| "missing_vals (r # rs) = bind_act (cached_reg r) (\<lambda>reg. bind_act (missing_vals rs) (\<lambda>miss.
    ret (if ri_val reg = [] then (ri_idx reg, ri_size reg) # miss else miss)))"

text \<open>
  The values are loaded into one buffer cut into a row per register (rows are separate objects)
  and stored in the cache, \<open>val.resize(size)\<close> first.
\<close>

definition fetch_reg_vals_by_id :: "'s DBClientImpl \<Rightarrow> vm_reg_t list \<Rightarrow> ('s DBClient, unit) act" where
  "fetch_reg_vals_by_id im idxs = then_act (fetch_reg_infos_by_id im idxs) (
    bind_act (missing_vals idxs) (\<lambda>miss.
    if miss = [] then ret ()
    else bind_act (impl_call (im_get_regs im (map fst miss) (map (\<lambda>p. replicate (unat (snd p)) 0) miss)
        (map snd miss) (length miss))) (\<lambda>bufs.
      iter_act (\<lambda>(p, buf). set_cached_val (fst p) (take (unat (snd p)) buf)) (zip miss bufs))))"

text \<open>The size of the \<open>i\<close>-th register of a call: a second size 0 means they all have the first.\<close>

definition nth_size :: "vm_size_t list \<Rightarrow> nat \<Rightarrow> nat \<Rightarrow> ('s, vm_size_t) act" where
  "nth_size regs_size nregs i =
    (if nregs > 1 then bind_act (elem_at regs_size 1) (\<lambda>s1.
       if s1 = 0 then elem_at regs_size 0 else elem_at regs_size i)
     else elem_at regs_size i)"

definition cl_get_regs :: "'s DBClientImpl \<Rightarrow> vm_reg_t list \<Rightarrow> bytes list \<Rightarrow> vm_size_t list \<Rightarrow> ('s DBClient, bytes list) act" where
  "cl_get_regs im ids out_bufs regs_size = then_act (assert_state VM_STOPPED) (
    then_act (fetch_reg_vals_by_id im ids) (
    map_act (\<lambda>i. bind_act (nth_size regs_size (length ids) i) (\<lambda>reg_size.
      bind_act (cached_reg (ids ! i)) (\<lambda>reg.
      then_act (assert_act (ri_val reg \<noteq> [])) (
      then_act (in_bounds (unat reg_size \<le> length (ri_val reg))) (
      bind_act (elem_at out_bufs i) (store_row (take (unat reg_size) (ri_val reg)))))))) [0..<length ids]))"

definition cl_set_regs :: "'s DBClientImpl \<Rightarrow> vm_reg_t list \<Rightarrow> bytes list \<Rightarrow> vm_size_t list \<Rightarrow> ('s DBClient, unit) act" where
  "cl_set_regs im ids in_bufs regs_size = then_act (assert_state VM_STOPPED) (
    then_act (fetch_reg_infos_by_id im ids) (
    then_act (impl_call (im_set_regs im ids in_bufs regs_size (length ids))) (
    iter_act (\<lambda>i. bind_act (nth_size regs_size (length ids) i) (\<lambda>reg_size.
      bind_act (cached_reg (ids ! i)) (\<lambda>reg.
      then_act (assert_act (reg_size = ri_size reg)) (
      bind_act (elem_at in_bufs i) (\<lambda>buf.
      then_act (in_bounds (unat reg_size \<le> length buf))
        (set_cached_val (ids ! i) (take (unat reg_size) buf))))))) [0..<length ids])))"

definition cl_get_regs_infos :: "'s DBClientImpl \<Rightarrow> vm_reg_t list \<Rightarrow> ('s DBClient, RegInfos list) act" where
  "cl_get_regs_infos im ids = then_act (assert_state VM_STOPPED) (
    then_act (fetch_reg_infos_by_id im ids) (map_act cached_reg ids))"

definition cl_find_regs_ids :: "'s DBClientImpl \<Rightarrow> string list \<Rightarrow> ('s DBClient, vm_reg_t list) act" where
  "cl_find_regs_ids im reg_names = then_act (assert_state VM_STOPPED) (
    then_act (fetch_reg_infos_by_name im reg_names) (
    map_act (\<lambda>name. bind_act (gets (\<lambda>c. (smap_find (c_regi_name_map c) name, c_regi_arr c))) (\<lambda>(e, arr).
      case e of None \<Rightarrow> abort Assert_failed
      | Some k \<Rightarrow> then_act (in_bounds (k < length arr)) (ret (ri_idx (arr ! k))))) reg_names))"

section \<open>Calls passed on to the implementation\<close>

definition when_stopped :: "('s, 'a) act \<Rightarrow> ('s DBClient, 'a) act" where
  "when_stopped m = then_act (assert_state VM_STOPPED) (impl_call m)"

definition cl_read_mem where
  "cl_read_mem im src_addrs bufs_sizes out_bufs n = when_stopped (im_read_mem im src_addrs bufs_sizes out_bufs n)"

definition cl_write_mem where
  "cl_write_mem im dst_addrs bufs_sizes in_bufs n = when_stopped (im_write_mem im dst_addrs bufs_sizes in_bufs n)"

definition cl_get_symbols_by_addr where
  "cl_get_symbols_by_addr im addr sz = when_stopped (im_get_symbols_by_addr im addr sz)"

definition cl_get_symbols_by_ids where
  "cl_get_symbols_by_ids im ids out_infos n = when_stopped (im_get_symbols_by_ids im ids out_infos n)"

definition cl_get_symbols_by_names where
  "cl_get_symbols_by_names im names out_infos n = when_stopped (im_get_symbols_by_names im names out_infos n)"

definition cl_get_code_text where
  "cl_get_code_text im addr nins = when_stopped (im_get_code_text im addr nins)"

definition cl_add_breakpoints where
  "cl_add_breakpoints im addrs n = when_stopped (im_add_breakpoints im addrs n)"

definition cl_del_breakpoints where
  "cl_del_breakpoints im addrs n = when_stopped (im_del_breakpoints im addrs n)"

definition cl_get :: "('s DBClient \<Rightarrow> 'a) \<Rightarrow> ('s DBClient, 'a) act" where
  "cl_get f = then_act (assert_state VM_STOPPED) (gets f)"

definition cl_get_execution_point :: "('s DBClient, vm_ptr_t) act" where
  "cl_get_execution_point = cl_get (\<lambda>c. up_addr (c_udp c))"

definition cl_get_stopped_state :: "('s DBClient, StoppedState) act" where
  "cl_get_stopped_state = cl_get (\<lambda>c. up_vm_state (c_udp c))"

definition cl_get_call_stack :: "('s DBClient, CallStack) act" where
  "cl_get_call_stack = cl_get (\<lambda>c. up_stack (c_udp c))"

definition cl_vm_infos :: "(VMInfos \<Rightarrow> 'a) \<Rightarrow> ('s DBClient, 'a) act" where
  "cl_vm_infos f = cl_get (\<lambda>c. f (c_vm_infos c))"

definition cl_list_regs :: "RegKind \<Rightarrow> ('s DBClient, vm_reg_t list) act" where
  "cl_list_regs kind = then_act (assert_state VM_STOPPED)
    (bind_act (gets c_vm_infos) (\<lambda>infos. call_act (list_regs infos kind)))"

end
