(* ===== verification/Simple_Cli.thy ===== *)
theory Simple_Cli
  imports Db_Client
begin

text \<open>
  \<open>SimpleCLIClient\<close> of \<open>src/mess/simple-cli-client.cc\<close>: the command language of the debugger. A line is
  split into arguments, the command parses them, calls the \<open>DBClient\<close> and prints the result. Integers
  are modelled exactly, the conversion of \<open>std::stoll\<close> and the stream output included; what the program
  uses of the floating-point library is the record \<open>float_lib\<close>.
\<close>

section \<open>Library functions\<close>

text \<open>Digits of a number in a base, as streams print them.\<close>

fun digits_of :: "nat \<Rightarrow> nat \<Rightarrow> string" where
  "digits_of b n = (if n < b \<or> b < 2 then [digit_char n] else digits_of b (n div b) @ [digit_char (n mod b)])"

declare digits_of.simps [simp del]

definition hex_of :: "'a :: len word \<Rightarrow> string" where
  "hex_of w = ''0x'' @ digits_of 16 (unat w)"

definition nl :: string where
  "nl = [CHR 0x0A]"

definition is_space :: "char \<Rightarrow> bool" where
  "is_space c \<longleftrightarrow> c \<in> {CHR 0x20, CHR 0x09, CHR 0x0A, CHR 0x0B, CHR 0x0C, CHR 0x0D}"

definition is_digit :: "char \<Rightarrow> bool" where
  "is_digit c \<longleftrightarrow> (of_char c :: nat) \<in> {48..57}"

definition digit_val :: "char \<Rightarrow> nat option" where
  "digit_val c = (let k = of_char c :: nat in
     if 48 \<le> k \<and> k \<le> 57 then Some (k - 48)
     else if 97 \<le> k \<and> k \<le> 122 then Some (k - 87)
     else if 65 \<le> k \<and> k \<le> 90 then Some (k - 55)
     else None)"

definition base_digit :: "nat \<Rightarrow> char \<Rightarrow> bool" where
  "base_digit b c \<longleftrightarrow> (case digit_val c of Some d \<Rightarrow> d < b | None \<Rightarrow> False)"

definition digits_val :: "nat \<Rightarrow> string \<Rightarrow> nat" where
  "digits_val b ds = foldl (\<lambda>v c. b * v + the (digit_val c)) 0 ds"

text \<open>
  \<open>std::stoll\<close>: white space, a sign, \<open>0x\<close> in base 16, the longest run of digits; the value and the number
  of characters read, \<open>None\<close> where it throws (no digit, or outside the range of \<open>long long\<close>).
\<close>

definition stoll :: "string \<Rightarrow> nat \<Rightarrow> (int \<times> nat) option" where
  "stoll s base = (let
      s1 = dropWhile is_space s;
      neg = (s1 \<noteq> [] \<and> hd s1 = CHR ''-'');
      s2 = (if s1 \<noteq> [] \<and> (hd s1 = CHR ''-'' \<or> hd s1 = CHR ''+'') then tl s1 else s1);
      s3 = (if base = 16 \<and> length s2 > 2 \<and> s2 ! 0 = CHR ''0'' \<and> (s2 ! 1 = CHR ''x'' \<or> s2 ! 1 = CHR ''X'') \<and>
              base_digit 16 (s2 ! 2) then drop 2 s2 else s2);
      ds = takeWhile (base_digit base) s3;
      v = int (digits_val base ds);
      r = (if neg then - v else v)
    in if ds = [] \<or> r < - (2 ^ 63) \<or> r \<ge> 2 ^ 63 then None
       else Some (r, length s - length (dropWhile (base_digit base) s3)))"

text \<open>
  Floating point: \<open>stod\<close> with the characters read, the conversions of a \<open>double\<close> (given by its bits) to an
  integer (\<open>None\<close> for what is not finite) and to \<open>float\<close>, of an integer to \<open>double\<close>, and stream output.
\<close>

record float_lib =
  fl_stod :: "string \<Rightarrow> (u64 \<times> nat) option"
  fl_trunc :: "u64 \<Rightarrow> int option"
  fl_of_int :: "int \<Rightarrow> u64"
  fl_narrow :: "u64 \<Rightarrow> u32"
  fl_show32 :: "u32 \<Rightarrow> string"
  fl_show64 :: "u64 \<Rightarrow> string"

text \<open>The value of an integer converted to \<open>double\<close>: 53 significant bits, ties to even.\<close>

fun bit_len :: "int \<Rightarrow> nat" where
  "bit_len n = (if n \<le> 0 then 0 else Suc (bit_len (n div 2)))"

declare bit_len.simps [simp del]

definition double_int :: "int \<Rightarrow> int" where
  "double_int x = (let p = 2 ^ (bit_len \<bar>x\<bar> - 53); q = \<bar>x\<bar> div p; r = \<bar>x\<bar> mod p;
      q' = (if 2 * r > p \<or> 2 * r = p \<and> odd q then q + 1 else q)
    in sgn x * (q' * p))"

section \<open>Types and values\<close>

datatype TypeDesc = T_u8 | T_u16 | T_u32 | T_u64 | T_i8 | T_i16 | T_i32 | T_i64 | T_f32 | T_f64

definition type_strs :: "(string \<times> TypeDesc) list" where
  "type_strs = [(''u8'', T_u8), (''u16'', T_u16), (''u32'', T_u32), (''u64'', T_u64), (''i8'', T_i8),
    (''i16'', T_i16), (''i32'', T_i32), (''i64'', T_i64), (''f32'', T_f32), (''f64'', T_f64)]"

datatype RegVariant = Reg_id vm_reg_t | Reg_name string

datatype ValueVariant = V_ival int | V_dval u64 | V_sym_name string | V_sym_id vm_sym_t

fun type_desc_size :: "TypeDesc \<Rightarrow> nat" where
  "type_desc_size T_u8 = 1"
| "type_desc_size T_i8 = 1"
| "type_desc_size T_u16 = 2"
| "type_desc_size T_i16 = 2"
| "type_desc_size T_i32 = 4"
| "type_desc_size T_u32 = 4"
| "type_desc_size T_f32 = 4"
| "type_desc_size T_i64 = 8"
| "type_desc_size T_u64 = 8"
| "type_desc_size T_f64 = 8"

definition int_error :: "string \<Rightarrow> string" where
  "int_error str = ''Cannot parse `'' @ str @ [CHR 0x27] @ '' as an integer''"

text \<open>
  The local variable \<open>sign\<close> of \<open>parse_int\<close> is never set to true. When \<open>stoll\<close> (or \<open>stod\<close>) throws, the
  uninitialised \<open>len\<close> is still compared with the length of the string. As for the uninitialised members
  elsewhere, it holds some value; \<open>valid\<close> is already false, so the error is thrown for every value.
\<close>

definition parse_int :: "string \<Rightarrow> bool \<Rightarrow> int outcome" where
  "parse_int str is_signed =
    (if str \<noteq> [] \<and> hd str = CHR ''-'' \<and> \<not> is_signed then Throw (int_error str @ '': must be unsigned'')
     else let
       s1 = (if str \<noteq> [] \<and> hd str = CHR ''-'' then tl str else str);
       (base, s2) = (if length s1 > 1 \<and> s1 ! 0 = CHR ''0'' \<and> s1 ! 1 = CHR ''x'' then (16, drop 2 s1)
         else if length s1 > 1 \<and> s1 ! 0 = CHR ''0'' \<and> s1 ! 1 = CHR ''b'' then (2, drop 2 s1)
         else if s1 \<noteq> [] \<and> s1 ! 0 = CHR ''0'' then (8, s1) else (10, s1))
     in case stoll s2 base of
          Some (res, len) \<Rightarrow> if len = length s2 then Ret res else Throw (int_error str)
        | None \<Rightarrow> Throw (int_error str))"

definition parse_double :: "float_lib \<Rightarrow> string \<Rightarrow> u64 outcome" where
  "parse_double fl str = (case fl_stod fl str of
      Some (res, len) \<Rightarrow> if len = length str then Ret res
        else Throw (''Cannot parse `'' @ str @ [CHR 0x27] @ '' as a floating number'')
    | None \<Rightarrow> Throw (''Cannot parse `'' @ str @ [CHR 0x27] @ '' as a floating number''))"

definition type_desc_parse :: "string \<Rightarrow> TypeDesc outcome" where
  "type_desc_parse s = (case map_of type_strs s of
      Some ty \<Rightarrow> Ret ty
    | None \<Rightarrow> Throw (''Invalid command syntax: `'' @ s @ [CHR 0x27] @ '' is not a type''))"

definition r_reg :: "string \<Rightarrow> RegVariant outcome" where
  "r_reg s = (if s = [] \<or> hd s \<noteq> CHR ''%'' then Throw (''Syntax error: `'' @ s @ [CHR 0x27] @ '' is not a register.'')
     else let reg = tl s in
       if reg \<noteq> [] \<and> is_digit (hd reg) then (case parse_int reg False of
           Ret x \<Rightarrow> Ret (Reg_id (word_of_int x)) | Throw e \<Rightarrow> Throw e | Abort c \<Rightarrow> Abort c)
       else Ret (Reg_name (what reg)))"

definition r_value :: "float_lib \<Rightarrow> string \<Rightarrow> ValueVariant outcome" where
  "r_value fl s =
    (if length s > 1 \<and> hd s = CHR ''@'' then
       (if is_digit (s ! 1) then (case parse_int (tl s) False of
           Ret x \<Rightarrow> Ret (V_sym_id (word_of_int x)) | Throw e \<Rightarrow> Throw e | Abort c \<Rightarrow> Abort c)
        else Ret (V_sym_name (what (tl s))))
     else case parse_int s True of
         Ret x \<Rightarrow> Ret (V_ival x)
       | _ \<Rightarrow> (case parse_double fl s of Ret d \<Rightarrow> Ret (V_dval d) | Throw e \<Rightarrow> Throw e | Abort c \<Rightarrow> Abort c))"

fun is_signed_type :: "TypeDesc \<Rightarrow> bool" where
  "is_signed_type ty \<longleftrightarrow> ty \<in> {T_i8, T_i16, T_i32, T_i64}"

text \<open>
  The first \<open>type_desc_size ty\<close> bytes of a buffer, printed.
\<close>

definition print_val :: "float_lib \<Rightarrow> bytes \<Rightarrow> TypeDesc \<Rightarrow> string outcome" where
  "print_val fl buff ty = (let n = type_desc_size ty; bs = take n buff; u = (of_le_bytes bs :: u64) in
    if length buff < n then Abort Out_of_bounds
    else Ret (case ty of
        T_f32 \<Rightarrow> fl_show32 fl (of_le_bytes bs)
      | T_f64 \<Rightarrow> fl_show64 fl u
      | _ \<Rightarrow> if is_signed_type ty then dec_of_int (signed_take_bit (8 * n - 1) (uint u))
             else dec_of_nat (unat u)))"

text \<open>
  \<open>val.type == VALUE_IVAL ? val.ival : val.dval\<close> has type \<open>double\<close>; its conversion to an integer type is
  undefined when the truncated value is outside of it.
\<close>

definition int_bytes :: "TypeDesc \<Rightarrow> int \<Rightarrow> bytes outcome" where
  "int_bytes ty z = (let n = type_desc_size ty in
    if (if is_signed_type ty then - (2 ^ (8 * n - 1)) \<le> z \<and> z < 2 ^ (8 * n - 1) else 0 \<le> z \<and> z < 2 ^ (8 * n))
    then Ret (le_bytes n (word_of_int z :: u64)) else Abort Undefined)"

definition load_val :: "float_lib \<Rightarrow> ValueVariant \<Rightarrow> TypeDesc \<Rightarrow> bytes outcome" where
  "load_val fl val ty = (case val of
      V_ival x \<Rightarrow> (case ty of
          T_f32 \<Rightarrow> Ret (sb_serial_raw (fl_narrow fl (fl_of_int fl x)))
        | T_f64 \<Rightarrow> Ret (sb_serial_raw (fl_of_int fl x))
        | _ \<Rightarrow> int_bytes ty (double_int x))
    | V_dval d \<Rightarrow> (case ty of
          T_f32 \<Rightarrow> Ret (sb_serial_raw (fl_narrow fl d))
        | T_f64 \<Rightarrow> Ret (sb_serial_raw d)
        | _ \<Rightarrow> (case fl_trunc fl d of Some z \<Rightarrow> int_bytes ty z | None \<Rightarrow> Abort Undefined))
    | _ \<Rightarrow> Abort Undefined)"

section \<open>Registers and symbols of a command\<close>

fun fill_regs :: "RegVariant list \<Rightarrow> vm_reg_t list \<Rightarrow> vm_reg_t list" where
  "fill_regs [] ids = []"
| "fill_regs (Reg_id r # regs) ids = r # fill_regs regs ids"
| "fill_regs (Reg_name n # regs) ids = hd ids # fill_regs regs (tl ids)"

definition resolve_regs :: "'s DBClientImpl \<Rightarrow> RegVariant list \<Rightarrow> ('s DBClient, vm_reg_t list) act" where
  "resolve_regs im regs = (let names = concat (map (\<lambda>r. case r of Reg_name n \<Rightarrow> [n] | Reg_id _ \<Rightarrow> []) regs) in
    if names = [] then ret (fill_regs regs [])
    else bind_act (cl_find_regs_ids im names) (\<lambda>ids. ret (fill_regs regs ids)))"

text \<open>The addresses of the symbols, in order, in place of the values that \<open>sel\<close> selects.\<close>

fun fill_vals :: "(ValueVariant \<Rightarrow> bool) \<Rightarrow> ValueVariant list \<Rightarrow> SymbolInfos list \<Rightarrow> ValueVariant list" where
  "fill_vals sel [] syms = []"
| "fill_vals sel (v # vs) syms =
     (if sel v then V_ival (sint (si_addr (hd syms))) # fill_vals sel vs (tl syms) else v # fill_vals sel vs syms)"

definition resolve_vals :: "'s DBClientImpl \<Rightarrow> ValueVariant list \<Rightarrow> ('s DBClient, ValueVariant list) act" where
  "resolve_vals im vv = (let ids = concat (map (\<lambda>v. case v of V_sym_id i \<Rightarrow> [i] | _ \<Rightarrow> []) vv) in
    bind_act (if ids = [] then ret vv
      else bind_act (cl_get_symbols_by_ids im ids (replicate (length ids) (cnull SymbolInfos_codec)) (length ids))
        (\<lambda>syms. ret (fill_vals (\<lambda>v. case v of V_sym_id _ \<Rightarrow> True | _ \<Rightarrow> False) vv syms))) (\<lambda>vv.
    let names = concat (map (\<lambda>v. case v of V_sym_name n \<Rightarrow> [n] | _ \<Rightarrow> []) vv) in
    if names = [] then ret vv
    else bind_act (cl_get_symbols_by_names im names (replicate (length names) (cnull SymbolInfos_codec)) (length names))
      (\<lambda>syms. ret (fill_vals (\<lambda>v. case v of V_sym_name _ \<Rightarrow> True | _ \<Rightarrow> False) vv syms))))"

text \<open>The address a command is given: its resolved value is a non-negative integer.\<close>

definition address_of :: "string \<Rightarrow> string \<Rightarrow> ValueVariant list \<Rightarrow> ('s, vm_ptr_t) act" where
  "address_of cmd arg vals = (case vals of
      V_ival x # _ \<Rightarrow> if x < 0 then throw (cmd @ '': invalid address `'' @ arg @ [CHR 0x27]) else ret (word_of_int x)
    | _ \<Rightarrow> throw (cmd @ '': invalid address `'' @ arg @ [CHR 0x27]))"

definition read_address :: "'s DBClientImpl \<Rightarrow> float_lib \<Rightarrow> string \<Rightarrow> string \<Rightarrow> ('s DBClient, vm_ptr_t) act" where
  "read_address im fl cmd arg = bind_act (call_act (r_value fl arg)) (\<lambda>v.
    bind_act (resolve_vals im [v]) (address_of cmd arg))"

section \<open>Commands on registers and memory\<close>

definition cmd_preg :: "'s DBClientImpl \<Rightarrow> float_lib \<Rightarrow> string list \<Rightarrow> ('s DBClient, string) act" where
  "cmd_preg im fl cmd =
    (if length cmd < 3 then throw ''preg: missing arguments''
     else bind_act (call_act (type_desc_parse (cmd ! 1))) (\<lambda>ty.
       bind_act (map_act (\<lambda>a. call_act (r_reg a)) (drop 2 cmd)) (\<lambda>regs.
       bind_act (resolve_regs im regs) (\<lambda>ids.
       bind_act (cl_get_regs im ids (replicate (length ids) (replicate (type_desc_size ty) 0))
           [of_nat (type_desc_size ty), 0]) (\<lambda>bufs.
       bind_act (map_act (\<lambda>(a, buf). bind_act (call_act (print_val fl buf ty)) (\<lambda>v. ret (a @ '': '' @ v @ nl)))
           (zip (drop 2 cmd) bufs)) (\<lambda>ls. ret (concat ls)))))))"

fun arg_pairs :: "string list \<Rightarrow> (string \<times> string) list" where
  "arg_pairs (a # b # cmd) = (a, b) # arg_pairs cmd"
| "arg_pairs _ = []"

definition cmd_sreg :: "'s DBClientImpl \<Rightarrow> float_lib \<Rightarrow> string list \<Rightarrow> ('s DBClient, string) act" where
  "cmd_sreg im fl cmd =
    (if length cmd < 4 \<or> odd (length cmd) then throw ''sreg: missing arguments''
     else bind_act (call_act (type_desc_parse (cmd ! 1))) (\<lambda>ty.
       bind_act (map_act (\<lambda>(a, b). bind_act (call_act (r_reg a)) (\<lambda>r.
           bind_act (call_act (r_value fl b)) (\<lambda>v. ret (r, v)))) (arg_pairs (drop 2 cmd))) (\<lambda>rvs.
       bind_act (resolve_regs im (map fst rvs)) (\<lambda>ids.
       bind_act (resolve_vals im (map snd rvs)) (\<lambda>vals.
       bind_act (map_act (\<lambda>v. call_act (load_val fl v ty)) vals) (\<lambda>bufs.
       then_act (cl_set_regs im ids bufs [of_nat (type_desc_size ty), 0]) (ret [])))))))"

fun kind_text :: "RegKind \<Rightarrow> string" where
  "kind_text general = ''  General purpose register'' @ nl"
| "kind_text program_counter = ''  Program counter'' @ nl"
| "kind_text stack_pointer = ''  Stack pointer'' @ nl"
| "kind_text base_pointer = ''  Base pointer'' @ nl"
| "kind_text flags = ''  Flags register'' @ nl"
| "kind_text (RegKind_raw b) = []"

definition reg_infos_text :: "RegInfos \<Rightarrow> string" where
  "reg_infos_text ri = ''Register '' @ ri_name ri @ '' (#'' @ dec_of_nat (unat (ri_idx ri)) @ ''):'' @ nl @
    kind_text (ri_kind ri) @ ''  size: '' @ dec_of_nat (unat (ri_size ri)) @ '' bytes'' @ nl"

definition cmd_pregi :: "'s DBClientImpl \<Rightarrow> string list \<Rightarrow> ('s DBClient, string) act" where
  "cmd_pregi im cmd =
    (if length cmd < 2 then throw ''pregi: missing arguments''
     else bind_act (map_act (\<lambda>a. call_act (r_reg a)) (drop 1 cmd)) (\<lambda>regs.
       bind_act (resolve_regs im regs) (\<lambda>ids.
       bind_act (cl_get_regs_infos im ids) (\<lambda>infos. ret (concat (map reg_infos_text infos))))))"

text \<open>\<open>std::vector<char> buff(size)\<close> throws \<open>std::length_error\<close>, which nobody catches, above \<open>PTRDIFF_MAX\<close>.\<close>

definition new_buffer :: "vm_size_t \<Rightarrow> ('s, bytes) act" where
  "new_buffer sz = (if sz \<ge> 2 ^ 63 then abort Terminated else ret (replicate (unat sz) 0))"

definition cmd_pmem :: "'s DBClientImpl \<Rightarrow> float_lib \<Rightarrow> string list \<Rightarrow> ('s DBClient, string) act" where
  "cmd_pmem im fl cmd =
    (if length cmd \<noteq> 4 then throw ''pmem: missing arguments''
     else bind_act (call_act (type_desc_parse (cmd ! 1))) (\<lambda>ty.
       bind_act (call_act (parse_int (cmd ! 3) False)) (\<lambda>count.
       let ty_len = of_nat (type_desc_size ty); nb_items = word_of_int count; buff_size = nb_items * ty_len in
       bind_act (new_buffer buff_size) (\<lambda>buff.
       bind_act (read_address im fl ''pmem'' (cmd ! 2)) (\<lambda>addr.
       bind_act (cl_read_mem im [addr] [buff_size] [buff] 1) (\<lambda>bufs.
       bind_act (map_act (\<lambda>i. bind_act (call_act (print_val fl (drop (unat (of_nat i * ty_len)) (hd bufs)) ty))
           (\<lambda>v. ret (v @ '' ''))) [0..<unat nb_items]) (\<lambda>ls. ret (concat ls))))))))"

definition cmd_smem :: "'s DBClientImpl \<Rightarrow> float_lib \<Rightarrow> string list \<Rightarrow> ('s DBClient, string) act" where
  "cmd_smem im fl cmd =
    (if length cmd < 4 then throw ''smem: missing arguments''
     else bind_act (call_act (type_desc_parse (cmd ! 1))) (\<lambda>ty.
       let buff_size = of_nat (length cmd - 3) * of_nat (type_desc_size ty) in
       bind_act (map_act (\<lambda>a. call_act (r_value fl a)) (drop 2 cmd)) (\<lambda>vs.
       bind_act (resolve_vals im vs) (\<lambda>vals.
       bind_act (address_of ''smem'' (cmd ! 2) vals) (\<lambda>addr.
       bind_act (map_act (\<lambda>v. call_act (load_val fl v ty)) (tl vals)) (\<lambda>bufs.
       then_act (cl_write_mem im [addr] [buff_size] [concat bufs] 1) (ret [])))))))"

section \<open>Symbols and code\<close>

definition cmd_psym :: "'s DBClientImpl \<Rightarrow> float_lib \<Rightarrow> string list \<Rightarrow> ('s DBClient, string) act" where
  "cmd_psym im fl cmd =
    (if length cmd \<noteq> 2 then throw ''psym: missing arguments''
     else bind_act (call_act (r_value fl (cmd ! 1))) (\<lambda>val.
       bind_act (case val of
           V_sym_id i \<Rightarrow> cl_get_symbols_by_ids im [i] [cnull SymbolInfos_codec] 1
         | V_sym_name n \<Rightarrow> cl_get_symbols_by_names im [n] [cnull SymbolInfos_codec] 1
         | _ \<Rightarrow> throw (''psym: argument '' @ [CHR 0x27] @ cmd ! 1 @ [CHR 0x27] @ '' not a symbol'')) (\<lambda>syms.
       bind_act (elem_at syms 0) (\<lambda>infos.
       ret (''Symbol '' @ si_name infos @ '' (#'' @ dec_of_nat (unat (si_idx infos)) @ ''):'' @ nl @
         ''  address: '' @ hex_of (si_addr infos) @ nl)))))"

text \<open>\<open>l[pos]\<close> for \<open>pos \<le> l.size()\<close>: the terminating zero at the end.\<close>

definition char_at :: "string \<Rightarrow> nat \<Rightarrow> char" where
  "char_at l pos = (if pos < length l then l ! pos else CHR 0x00)"

definition sym_number :: "string \<Rightarrow> vm_sym_t" where
  "sym_number ds = foldl (\<lambda>v c. 10 * v + (of_nat (of_char c) - 48)) 0 ds"

text \<open>The symbol references \<open>{n}\<close> of a line from a position on: the symbol, where it starts and ends.\<close>

function find_refs :: "string \<Rightarrow> nat \<Rightarrow> (vm_sym_t \<times> nat \<times> nat) list" where
  "find_refs l pos = (let beg = pos + length (takeWhile (\<lambda>c. c \<noteq> CHR ''{'') (drop pos l)) in
    if pos < length l \<and> beg < length l then
      (let ds = takeWhile is_digit (drop (Suc beg) l); fin = Suc beg + length ds in
       if ds = [] then find_refs l (Suc beg)
       else if char_at l fin \<noteq> CHR ''}'' then find_refs l fin
       else (sym_number ds, beg, Suc fin) # find_refs l (Suc fin))
    else [])"
  by pat_completeness auto
termination
  by (relation "measure (\<lambda>(l, pos). length l - pos)") auto

declare find_refs.simps [simp del]

text \<open>A line with the references of it replaced by the names; \<open>off\<close> is where the rest begins.\<close>

fun render_line :: "string \<Rightarrow> nat \<Rightarrow> ((nat \<times> nat) \<times> string) list \<Rightarrow> string" where
  "render_line l off [] = (if off < length l then drop off l else [])"
| "render_line l off (((b, e), name) # refs) = take (b - off) (drop off l) @ name @ render_line l e refs"

text \<open>
  The listing: \<open>defs\<close> are the symbols defined that are still to print, \<open>refs\<close> the references still to
  replace, with their line; \<open>first\<close> is true before the first line printed.
\<close>

fun code_listing :: "vm_ptr_t \<Rightarrow> bool \<Rightarrow> SymbolInfos list \<Rightarrow> ((nat \<times> nat \<times> nat) \<times> string) list \<Rightarrow>
    (nat \<times> vm_ptr_t \<times> string) list \<Rightarrow> string" where
  "code_listing act_addr first defs refs [] = []"
| "code_listing act_addr first defs refs ((i, addr, l) # ls) =
    (let is_def = (defs \<noteq> [] \<and> si_addr (hd defs) = addr);
         defs' = (if is_def then tl defs else defs);
         header = (if is_def then (if first then [] else nl) @ ''     0x0'' @ digits_of 16 (unat addr) @ '' <'' @
             si_name (hd defs) @ ''>:'' @ nl else []);
         here = takeWhile (\<lambda>r. fst (fst r) = i) refs
     in if l = [] then header @ code_listing act_addr first defs' refs ls
        else header @ (if addr = act_addr then ''  ->  '' else ''      '') @ hex_of addr @ '':    '' @
          render_line l 0 (map (\<lambda>((_, b, e), name). ((b, e), name)) here) @ nl @
          code_listing act_addr False defs' (drop (length here) refs) ls)"

fun code_addrs :: "vm_ptr_t \<Rightarrow> vm_size_t list \<Rightarrow> vm_ptr_t list" where
  "code_addrs next_addr [] = []"
| "code_addrs next_addr (sz # szs) = next_addr # code_addrs (next_addr + sz) szs"

definition code_lines :: "'s DBClientImpl \<Rightarrow> vm_ptr_t \<Rightarrow> u64 \<Rightarrow> ('s DBClient, string) act" where
  "code_lines im act_addr n = (let addr = (if act_addr < n then 0 else act_addr - n) in
    bind_act (cl_get_code_text im addr (unat (2 * n + 1))) (\<lambda>(raw_code, code_sizes).
    let addrs = code_addrs addr code_sizes in
    then_act (in_bounds (addrs \<noteq> [])) (
    bind_act (cl_get_symbols_by_addr im (hd addrs) (last addrs - hd addrs + 1)) (\<lambda>sym_defs.
    let found = concat (map (\<lambda>(i, l). map (\<lambda>(sid, b, e). (sid, (i, b, e))) (find_refs l 0)) (enumerate 0 raw_code)) in
    bind_act (cl_get_symbols_by_ids im (map fst found) (replicate (length found) (cnull SymbolInfos_codec)) (length found))
      (\<lambda>syms. then_act (in_bounds (length raw_code \<le> length addrs))
        (ret (code_listing act_addr True sym_defs (zip (map snd found) (map si_name syms))
          (enumerate 0 (zip addrs raw_code)))))))))"

definition cmd_code :: "'s DBClientImpl \<Rightarrow> string list \<Rightarrow> ('s DBClient, string) act" where
  "cmd_code im cmd = bind_act cl_get_execution_point (\<lambda>act_addr.
    bind_act (if length cmd < 2 then ret 3 else call_act (parse_int (cmd ! 1) False)) (\<lambda>n.
    code_lines im act_addr (word_of_int n)))"

section \<open>Breakpoints and execution\<close>

definition cmd_b :: "'s DBClientImpl \<Rightarrow> float_lib \<Rightarrow> string list \<Rightarrow> ('s DBClient, string) act" where
  "cmd_b im fl cmd =
    (if length cmd \<noteq> 2 then throw ''b: missing arguments''
     else bind_act (read_address im fl ''b'' (cmd ! 1)) (\<lambda>addr.
       then_act (cl_add_breakpoints im [addr] 1)
         (ret (''Inserted breakpoint at `'' @ hex_of addr @ [CHR 0x27] @ nl))))"

definition cmd_delb :: "'s DBClientImpl \<Rightarrow> float_lib \<Rightarrow> string list \<Rightarrow> ('s DBClient, string) act" where
  "cmd_delb im fl cmd =
    (if length cmd \<noteq> 2 then throw ''delb: missing arguments''
     else bind_act (read_address im fl ''delb'' (cmd ! 1)) (\<lambda>addr.
       then_act (cl_del_breakpoints im [addr] 1)
         (ret (''Removed breakpoint at `'' @ hex_of addr @ [CHR 0x27] @ nl))))"

definition cmd_continue :: "'s DBClientImpl \<Rightarrow> ('s DBClient, string) act" where
  "cmd_continue im = then_act (cl_resume im Continue) (ret [])"

definition cmd_step :: "'s DBClientImpl \<Rightarrow> ('s DBClient, string) act" where
  "cmd_step im = then_act (cl_resume im Step) (ret [])"

definition cmd_next :: "'s DBClientImpl \<Rightarrow> ('s DBClient, string) act" where
  "cmd_next im = then_act (cl_resume im StepOver) (ret [])"

definition cmd_finish :: "'s DBClientImpl \<Rightarrow> ('s DBClient, string) act" where
  "cmd_finish im = then_act (cl_resume im StepOut) (ret [])"

definition cmd_state :: "'s DBClientImpl \<Rightarrow> ('s DBClient, string) act" where
  "cmd_state im = bind_act cl_get_execution_point (\<lambda>pos. bind_act cl_get_stopped_state (\<lambda>st.
    bind_act cl_get_call_stack (\<lambda>cs.
    then_act (in_bounds (cs \<noteq> [])) (
    let sub_addr = caller_start_addr (last cs) in
    bind_act (cl_get_symbols_by_addr im sub_addr 1) (\<lambda>syms.
    ret ((if st = SS_EXIT then ''Program exited normally at ''
          else if st = SS_ERROR then ''Program stopped from an error at '' else ''program stopped at '') @ hex_of pos @
      (if syms \<noteq> [] then '' (<'' @ si_name (hd syms) @ ''> + '' @ hex_of (pos - sub_addr) @ '')'' else []) @ nl))))))"

definition frame_text :: "vm_ptr_t \<Rightarrow> CallInfos \<Rightarrow> SymbolInfos option \<Rightarrow> string" where
  "frame_text pos ci si = hex_of pos @ '' ('' @
    (case si of Some s \<Rightarrow> if si_idx s = VM_SYM_NULL then hex_of (caller_start_addr ci) else ''<'' @ si_name s @ ''>''
     | None \<Rightarrow> hex_of (caller_start_addr ci)) @
    '' + '' @ hex_of (pos - caller_start_addr ci) @ '')'' @ nl"

definition cmd_bt :: "'s DBClientImpl \<Rightarrow> ('s DBClient, string) act" where
  "cmd_bt im = bind_act cl_get_call_stack (\<lambda>cs. bind_act cl_get_execution_point (\<lambda>curr.
    bind_act (map_act (\<lambda>ci. bind_act (cl_get_symbols_by_addr im (caller_start_addr ci) 1)
      (\<lambda>si. ret (if si = [] then None else Some (hd si)))) cs) (\<lambda>syms.
    ret (concat (rev (map (\<lambda>i. frame_text (if Suc i = length cs then curr else call_addr (cs ! i)) (cs ! i) (syms ! i))
      [0..<length cs]))))))"

definition cmd_vm :: "('s DBClient, string) act" where
  "cmd_vm = bind_act (cl_vm_infos vi_regs_count) (\<lambda>reg_count. bind_act (cl_vm_infos vi_memory_size) (\<lambda>mem_size.
    bind_act (cl_vm_infos vi_symbols_count) (\<lambda>sym_count.
    ret (''VM :'' @ nl @ ''Registers: '' @ dec_of_nat (unat reg_count) @ ''.'' @ nl @
      ''   Memory: '' @ dec_of_nat (unat mem_size) @ ''.'' @ nl @
      ''  Symbols: '' @ dec_of_nat (unat sym_count) @ ''.'' @ nl))))"

section \<open>A line\<close>

text \<open>The arguments \<open>while (is >> arg)\<close> reads: the runs of characters that are not white space.\<close>

function split_args :: "string \<Rightarrow> string list" where
  "split_args s = (let s' = dropWhile is_space s in
    if s' = [] then [] else takeWhile (\<lambda>c. \<not> is_space c) s' # split_args (dropWhile (\<lambda>c. \<not> is_space c) s'))"
  by pat_completeness auto
termination
proof (relation "measure length")
  fix s s' :: string
  assume "s' = dropWhile is_space s" "s' \<noteq> []"
  then have "\<not> is_space (hd s')" "length s' \<le> length s" by (auto simp: hd_dropWhile length_dropWhile_le)
  moreover have "length (dropWhile (\<lambda>c. \<not> is_space c) (hd s' # tl s')) \<le> length (tl s')"
    using \<open>\<not> is_space (hd s')\<close> by (simp add: length_dropWhile_le del: length_tl)
  ultimately show "(dropWhile (\<lambda>c. \<not> is_space c) s', s) \<in> measure length" using \<open>s' \<noteq> []\<close> by (cases s') auto
qed simp

declare split_args.simps [simp del]

definition run_cmd :: "'s DBClientImpl \<Rightarrow> float_lib \<Rightarrow> string list \<Rightarrow> ('s DBClient, string) act" where
  "run_cmd im fl cmd = (let name = hd cmd in
    if name = ''preg'' then cmd_preg im fl cmd
    else if name = ''sreg'' then cmd_sreg im fl cmd
    else if name = ''pregi'' then cmd_pregi im cmd
    else if name = ''pmem'' then cmd_pmem im fl cmd
    else if name = ''smem'' then cmd_smem im fl cmd
    else if name = ''psym'' then cmd_psym im fl cmd
    else if name = ''code'' then cmd_code im cmd
    else if name = ''b'' then cmd_b im fl cmd
    else if name = ''delb'' then cmd_delb im fl cmd
    else if name = ''c'' \<or> name = ''continue'' then cmd_continue im
    else if name = ''s'' \<or> name = ''step'' then cmd_step im
    else if name = ''n'' \<or> name = ''next'' then cmd_next im
    else if name = ''fin'' \<or> name = ''finish'' then cmd_finish im
    else if name = ''state'' then cmd_state im
    else if name = ''bt'' then cmd_bt im
    else if name = ''vm'' then cmd_vm
    else throw (''Unknown command `'' @ name @ [CHR 0x27]))"

definition exec :: "'s DBClientImpl \<Rightarrow> float_lib \<Rightarrow> string \<Rightarrow> ('s DBClient, string) act" where
  "exec im fl line = (let cmd = split_args line in
    if cmd = [] then ret []
    else catch_act (run_cmd im fl cmd) (\<lambda>e. ret (''Error: '' @ what e)))"

end
