(* ===== verification/Server_App.thy ===== *)
theory Server_App
  imports Tcp_Session Simple_Cli Debugger_Invariant
begin

text \<open>
  The server side of a debugged process: \<open>ServerApp\<close> (\<open>src/server/server-app.cc\<close>), whose \<open>loop\<close> the
  virtual machine calls before each instruction, the client handlers \<open>CLIClientHandler\<close>
  (\<open>src/server/cli-client-handler.cc\<close>) and \<open>DataClientHandler\<close> (\<open>src/server/data-client-handler.cc\<close>), and
  \<open>MultiClientHandler\<close> (\<open>src/server/multi-client-handler.cc\<close>), which takes the first that connects.

  A method that may block for ever is a \<open>proc\<close>: its result is \<open>None\<close> when it does not return. The
  environment of the process (standard input and output, signals, the progress of the runner thread
  between two steps of the main thread, the network) is part of the state. The debugger, which the
  C++ objects share by reference, is passed to each handler call and taken back.
\<close>

section \<open>Procedures\<close>

type_synonym ('s, 'a) proc = "'s \<Rightarrow> ('a outcome \<times> 's) option"

definition bind_proc :: "('s, 'a) proc \<Rightarrow> ('a \<Rightarrow> ('s, 'b) proc) \<Rightarrow> ('s, 'b) proc" where
  "bind_proc m f = (\<lambda>s. Option.bind (m s) (\<lambda>(r, s'). case r of
      Ret x \<Rightarrow> f x s' | Throw e \<Rightarrow> Some (Throw e, s') | Abort c \<Rightarrow> Some (Abort c, s')))"

definition proc_of :: "('s, 'a) act \<Rightarrow> ('s, 'a) proc" where
  "proc_of m = (\<lambda>s. Some (m s))"

definition lift_proc :: "('t \<Rightarrow> 's) \<Rightarrow> ('s \<Rightarrow> 't \<Rightarrow> 't) \<Rightarrow> ('s, 'a) proc \<Rightarrow> ('t, 'a) proc" where
  "lift_proc sel upd m = (\<lambda>t. Option.bind (m (sel t)) (\<lambda>(r, s). Some (r, upd s t)))"

fun returned :: "'a outcome \<Rightarrow> bool" where
  "returned (Ret x) = True"
| "returned (Throw e) = False"
| "returned (Abort c) = False"

section \<open>Configuration\<close>

record ServerConfig =
  sc_enabled :: bool
  sc_nostart :: bool
  sc_mode_server_cli :: bool
  sc_server_cli_sighandler :: bool
  sc_mode_tcp :: bool
  sc_tcp_port :: int

definition g_conf_default :: ServerConfig where
  "g_conf_default = \<lparr>sc_enabled = False, sc_nostart = False, sc_mode_server_cli = False,
    sc_server_cli_sighandler = True, sc_mode_tcp = False, sc_tcp_port = 12644\<rparr>"

text \<open>\<open>std::atoi\<close>: 0 when there is no digit, undefined outside the range of \<open>int\<close>.\<close>

definition atoi :: "string \<Rightarrow> int option" where
  "atoi s = (let
      s1 = dropWhile is_space s;
      neg = (s1 \<noteq> [] \<and> hd s1 = CHR ''-'');
      s2 = (if s1 \<noteq> [] \<and> (hd s1 = CHR ''-'' \<or> hd s1 = CHR ''+'') then tl s1 else s1);
      v = int (digits_val 10 (takeWhile is_digit s2));
      r = (if neg then - v else v)
    in if r < - (2 ^ 31) \<or> r \<ge> 2 ^ 31 then None else Some r)"

definition env_flag :: "(string \<Rightarrow> string option) \<Rightarrow> string \<Rightarrow> bool \<Rightarrow> bool" where
  "env_flag getenv name old = (case getenv name of None \<Rightarrow> old | Some v \<Rightarrow> v = ''1'')"

definition load_env :: "(string \<Rightarrow> string option) \<Rightarrow> ServerConfig \<Rightarrow> ServerConfig outcome" where
  "load_env getenv conf = (let conf' = conf
      \<lparr>sc_enabled := env_flag getenv ''ODB_CONF_ENABLED'' (sc_enabled conf),
       sc_nostart := env_flag getenv ''ODB_CONF_NOSTART'' (sc_nostart conf),
       sc_mode_server_cli := env_flag getenv ''ODB_CONF_MODE_SERVER_CLI'' (sc_mode_server_cli conf),
       sc_server_cli_sighandler := env_flag getenv ''ODB_CONF_SERVER_CLI_SIGHANDLER'' (sc_server_cli_sighandler conf),
       sc_mode_tcp := env_flag getenv ''ODB_CONF_MODE_TCP'' (sc_mode_tcp conf)\<rparr>
    in case getenv ''ODB_CONF_TCP_PORT'' of
      None \<Rightarrow> Ret conf'
    | Some v \<Rightarrow> (case atoi v of None \<Rightarrow> Abort Undefined | Some port \<Rightarrow> Ret (conf'\<lparr>sc_tcp_port := port\<rparr>)))"

section \<open>Environment\<close>

text \<open>
  \<open>e_stdin\<close> are the lines still to be read; \<open>e_sigints\<close> tells for each look at \<open>g_sig_stop\<close> whether a
  SIGINT arrived since the one before; \<open>e_sched n\<close> is the number of steps the runner thread does before
  step \<open>n\<close> of the main thread.
\<close>

record 'k env =
  e_stdin :: "string list"
  e_stdout :: string
  e_tty :: bool
  e_sigints :: "bool list"
  e_handler_set :: bool
  e_sig_stop :: bool
  e_manual_stop :: bool
  e_sched :: "nat \<Rightarrow> nat"
  e_now :: nat
  e_kernel :: 'k

datatype handler_state = H_NOT_CONNECTED | H_CONNECTED | H_DISCONNECTED

section \<open>CLIClientHandler\<close>

record 'v cli_handler =
  ci_state :: handler_state
  ci_client :: "'v Debugger DBClient"
  ci_catch_sigint :: bool

record ('v, 'k) cli_ctx =
  cc_cli :: "'v cli_handler"
  cc_db :: "'v Debugger"
  cc_env :: "'k env"

definition CLIClientHandler_new :: "'v Debugger \<Rightarrow> DBClientUpdate \<Rightarrow> 'v cli_handler" where
  "CLIClientHandler_new db udp0 =
    \<lparr>ci_state = H_NOT_CONNECTED, ci_client = DBClient_new db udp0 (d_infos db), ci_catch_sigint = False\<rparr>"

text \<open>A call on \<open>_db_client\<close>, which reaches the shared debugger.\<close>

definition on_client :: "('v Debugger DBClient, 'a) act \<Rightarrow> (('v, 'k) cli_ctx, 'a) act" where
  "on_client m = lift_act (\<lambda>x. (ci_client (cc_cli x))\<lparr>c_peer := cc_db x\<rparr>)
    (\<lambda>c x. x\<lparr>cc_cli := (cc_cli x)\<lparr>ci_client := c\<rparr>, cc_db := c_peer c\<rparr>) m"

definition set_cli_state :: "handler_state \<Rightarrow> (('v, 'k) cli_ctx, unit) act" where
  "set_cli_state st = modify (\<lambda>x. x\<lparr>cc_cli := (cc_cli x)\<lparr>ci_state := st\<rparr>\<rparr>)"

definition put_out :: "string \<Rightarrow> (('v, 'k) cli_ctx, unit) act" where
  "put_out s = modify (\<lambda>x. x\<lparr>cc_env := (cc_env x)\<lparr>e_stdout := e_stdout (cc_env x) @ s\<rparr>\<rparr>)"

definition set_sigint :: "bool \<Rightarrow> (('v, 'k) cli_ctx, unit) act" where
  "set_sigint b = modify (\<lambda>x. x\<lparr>cc_cli := (cc_cli x)\<lparr>ci_catch_sigint := b\<rparr>, cc_env := (cc_env x)\<lparr>e_handler_set := b\<rparr>\<rparr>)"

definition cli_setup_connection :: "'v VMApi \<Rightarrow> ServerConfig \<Rightarrow> (('v, 'k) cli_ctx, unit) act" where
  "cli_setup_connection api conf =
    then_act (on_client (cl_connect (vmside_impl api))) (
    then_act (set_cli_state H_CONNECTED)
    (if sc_server_cli_sighandler conf then set_sigint True else ret ()))"

definition on_disconnect :: "(('v, 'k) cli_ctx, unit) act" where
  "on_disconnect = bind_act (gets (\<lambda>x. ci_catch_sigint (cc_cli x))) (\<lambda>c. if c then set_sigint False else ret ())"

text \<open>\<open>std::getline\<close>: nothing is read from a closed standard input.\<close>

definition getline :: "(('v, 'k) cli_ctx, string) act" where
  "getline = bind_act (gets (\<lambda>x. e_stdin (cc_env x))) (\<lambda>ls. case ls of
      [] \<Rightarrow> ret []
    | l # ls' \<Rightarrow> then_act (modify (\<lambda>x. x\<lparr>cc_env := (cc_env x)\<lparr>e_stdin := ls'\<rparr>\<rparr>)) (ret l))"

text \<open>The start of \<open>run_command\<close>: whether the machine stopped since the last command.\<close>

definition cli_sync :: "'v VMApi \<Rightarrow> (('v, 'k) cli_ctx, bool) act" where
  "cli_sync api =
    bind_act (gets (\<lambda>x. c_state (ci_client (cc_cli x)))) (\<lambda>st.
    bind_act (if st = VM_RUNNING then then_act (on_client (cl_check_stopped (vmside_impl api))) (ret True) else ret False) (\<lambda>stopped.
    bind_act (gets (\<lambda>x. e_manual_stop (cc_env x))) (\<lambda>manual.
    then_act (if manual then modify (\<lambda>x. x\<lparr>cc_env := (cc_env x)\<lparr>e_manual_stop := False\<rparr>\<rparr>) else ret ()) (
    bind_act (gets (\<lambda>x. c_state (ci_client (cc_cli x)))) (\<lambda>st'.
    then_act (assert_act (st' = VM_STOPPED)) (ret (stopped \<or> manual)))))))"

definition cli_prompt :: "'v VMApi \<Rightarrow> float_lib \<Rightarrow> (('v, 'k) cli_ctx, bool) act" where
  "cli_prompt api fl =
    bind_act (cli_sync api) (\<lambda>stopped.
    then_act (if stopped then bind_act (on_client (exec (vmside_impl api) fl ''state'')) put_out else ret ()) (
    bind_act (gets (\<lambda>x. e_tty (cc_env x))) (\<lambda>tty.
    then_act (if tty then put_out ''> '' else ret ()) (ret tty))))"

text \<open>Disconnect when standard input is closed.\<close>

definition cli_check_eof :: "bool \<Rightarrow> (('v, 'k) cli_ctx, unit) act" where
  "cli_check_eof tty = bind_act (gets (\<lambda>x. e_stdin (cc_env x))) (\<lambda>ls.
    if ls = [] then
      then_act (set_cli_state H_DISCONNECTED) (
      then_act (if tty then put_out (''Debug session closed, program resumed.'' @ nl) else ret ())
        on_disconnect)
    else ret ())"

definition cli_exec_line :: "'v VMApi \<Rightarrow> float_lib \<Rightarrow> string \<Rightarrow> (('v, 'k) cli_ctx, unit) act" where
  "cli_exec_line api fl cmd =
    (if cmd = [] then ret ()
     else bind_act (on_client (exec (vmside_impl api) fl cmd)) (\<lambda>out.
       put_out (if out \<noteq> [] \<and> last out \<noteq> CHR 0x0A then out @ nl else out)))"

definition cli_run_command :: "'v VMApi \<Rightarrow> float_lib \<Rightarrow> (('v, 'k) cli_ctx, unit) act" where
  "cli_run_command api fl =
    bind_act (cli_prompt api fl) (\<lambda>tty.
    then_act (cli_check_eof tty) (bind_act getline (cli_exec_line api fl)))"

text \<open>A signal with no handler set ends the process.\<close>

definition take_signal :: "(('v, 'k) cli_ctx, unit) act" where
  "take_signal = bind_act (gets cc_env) (\<lambda>e. case e_sigints e of
      [] \<Rightarrow> ret ()
    | b # bs \<Rightarrow> then_act (modify (\<lambda>x. x\<lparr>cc_env := e\<lparr>e_sigints := bs\<rparr>\<rparr>))
        (if \<not> b then ret ()
         else if e_handler_set e then modify (\<lambda>x. x\<lparr>cc_env := (cc_env x)\<lparr>e_sig_stop := True\<rparr>\<rparr>)
         else abort Terminated))"

definition cli_check_stopped :: "'v VMApi \<Rightarrow> (('v, 'k) cli_ctx, unit) act" where
  "cli_check_stopped api = then_act take_signal (
    bind_act (gets (\<lambda>x. e_sig_stop (cc_env x))) (\<lambda>sig.
    if \<not> sig then ret ()
    else then_act (on_client (cl_stop (vmside_impl api)))
      (modify (\<lambda>x. x\<lparr>cc_env := (cc_env x)\<lparr>e_sig_stop := False, e_manual_stop := True\<rparr>\<rparr>))))"

section \<open>DataClientHandler\<close>

record ('v, 'k) data_handler =
  dh_state :: handler_state
  dh_runner :: "(TCPDataServer \<times> 'k, 'v Debugger) runner option"

record ('v, 'k) data_ctx =
  dc_data :: "('v, 'k) data_handler"
  dc_db :: "'v Debugger"
  dc_env :: "'k env"

definition DataClientHandler_new :: "('v, 'k) data_handler" where
  "DataClientHandler_new = \<lparr>dh_state = H_NOT_CONNECTED, dh_runner = None\<rparr>"

definition data_init :: "ServerConfig \<Rightarrow> (('v, 'k) data_ctx, unit) act" where
  "data_init conf = modify (\<lambda>x. x\<lparr>dc_data := (dc_data x)\<lparr>dh_runner :=
    Some (runner_start (TCPDataServer_new (sc_tcp_port conf), e_kernel (dc_env x)) (dc_db x))\<rparr>\<rparr>)"

text \<open>The runner, which exists once the handler waits for a connection.\<close>

definition on_runner :: "((TCPDataServer \<times> 'k, 'v Debugger) runner, 'a) act \<Rightarrow> (('v, 'k) data_ctx, 'a) act" where
  "on_runner m = (\<lambda>x. case dh_runner (dc_data x) of
      None \<Rightarrow> (Abort Undefined, x)
    | Some rn \<Rightarrow> (case m (rn\<lparr>rn_db := dc_db x\<rparr>) of
        (r, rn') \<Rightarrow> (r, x\<lparr>dc_data := (dc_data x)\<lparr>dh_runner := Some rn'\<rparr>, dc_db := rn_db rn'\<rparr>)))"

text \<open>What the runner thread does before the next step of the main thread.\<close>

definition let_runner_run :: "'k net \<Rightarrow> (('v, 'k) data_ctx, unit) act" where
  "let_runner_run nt = bind_act (gets dc_env) (\<lambda>e.
    then_act (modify (\<lambda>x. x\<lparr>dc_env := e\<lparr>e_now := Suc (e_now e)\<rparr>\<rparr>))
    (then_act (on_runner (repeat_act (e_sched e (e_now e)) (worker_step (tcp_server nt)))) (ret ())))"

definition read_runner_state :: "'k net \<Rightarrow> (('v, 'k) data_ctx, runner_state) act" where
  "read_runner_state nt = then_act (let_runner_run nt) (on_runner (gets rn_state))"

definition set_data_state :: "handler_state \<Rightarrow> (('v, 'k) data_ctx, unit) act" where
  "set_data_state st = modify (\<lambda>x. x\<lparr>dc_data := (dc_data x)\<lparr>dh_state := st\<rparr>\<rparr>)"

definition data_setup_connection :: "'k net \<Rightarrow> ServerConfig \<Rightarrow> (('v, 'k) data_ctx, unit) act" where
  "data_setup_connection nt conf =
    bind_act (gets (\<lambda>x. dh_runner (dc_data x))) (\<lambda>rn.
    then_act (if rn = None then data_init conf else ret ()) (
    bind_act (read_runner_state nt) (\<lambda>st.
    if st = R_CONNECTING then ret ()
    else bind_act (read_runner_state nt) (\<lambda>st'.
      if st' = R_ERROR then set_data_state H_DISCONNECTED else set_data_state H_CONNECTED))))"

text \<open>
  A call of \<open>run_command\<close> or \<open>check_stopped\<close>: the steps of the main thread, each after some steps of the
  runner thread, until it is idle again.
\<close>

definition main_turn :: "'k net \<Rightarrow> (bool \<Rightarrow> bytes \<Rightarrow> ('v Debugger, bytes) act) \<Rightarrow> (('v, 'k) data_ctx, main_pc) act" where
  "main_turn nt serve = then_act (let_runner_run nt)
    (then_act (on_runner (main_step serve)) (on_runner (gets rn_main)))"

partial_function (option) main_turns :: "'k net \<Rightarrow> (bool \<Rightarrow> bytes \<Rightarrow> ('v Debugger, bytes) act) \<Rightarrow>
    ('v, 'k) data_ctx \<Rightarrow> (unit outcome \<times> ('v, 'k) data_ctx) option" where
  "main_turns nt serve x = (case main_turn nt serve x of
      (Ret pc, x') \<Rightarrow> if pc = M_idle then Some (Ret (), x') else main_turns nt serve x'
    | (Throw e, x') \<Rightarrow> Some (Throw e, x')
    | (Abort c, x') \<Rightarrow> Some (Abort c, x'))"

definition data_serve :: "'k net \<Rightarrow> (bool \<Rightarrow> bytes \<Rightarrow> ('v Debugger, bytes) act) \<Rightarrow> bool \<Rightarrow> (('v, 'k) data_ctx, unit) proc" where
  "data_serve nt serve stopped =
    bind_proc (proc_of (on_runner (modify (if stopped then call_run_command else call_check_stopped)))) (\<lambda>_.
    bind_proc (main_turns nt serve) (\<lambda>_.
    bind_proc (proc_of (on_runner (gets rn_disconnected))) (\<lambda>gone.
    proc_of (if gone then set_data_state H_DISCONNECTED else ret ()))))"

definition data_run_command :: "'k net \<Rightarrow> (bool \<Rightarrow> bytes \<Rightarrow> ('v Debugger, bytes) act) \<Rightarrow> (('v, 'k) data_ctx, unit) proc" where
  "data_run_command nt serve = data_serve nt serve True"

definition data_check_stop :: "'k net \<Rightarrow> (bool \<Rightarrow> bytes \<Rightarrow> ('v Debugger, bytes) act) \<Rightarrow> (('v, 'k) data_ctx, unit) proc" where
  "data_check_stop nt serve = data_serve nt serve False"

section \<open>MultiClientHandler\<close>

datatype ('v, 'k) handler = Cli_handler "'v cli_handler" | Data_handler "('v, 'k) data_handler"

fun handler_state_of :: "('v, 'k) handler \<Rightarrow> handler_state" where
  "handler_state_of (Cli_handler h) = ci_state h"
| "handler_state_of (Data_handler h) = dh_state h"

text \<open>
  What the server is built over: the machine the API builder creates with its interface, the contents
  of uninitialised members, the network, the floating-point library.
\<close>

record ('v, 'k) deps =
  dp_api :: "'v VMApi"
  dp_vm :: 'v
  dp_infos :: VMInfos
  dp_garbage :: vm_ptr_t
  dp_net :: "'k net"
  dp_floats :: float_lib
  dp_udp :: DBClientUpdate

record ('v, 'k) MultiClientHandler =
  mc_state :: handler_state
  mc_wait :: "('v, 'k) handler list"
  mc_main :: "('v, 'k) handler option"

text \<open>A handler with the debugger and the environment it works on.\<close>

type_synonym ('v, 'k) handler_ctx = "('v, 'k) handler \<times> 'v Debugger \<times> 'k env"

definition run_cli :: "(('v, 'k) cli_ctx, 'a) proc \<Rightarrow> 'v cli_handler \<Rightarrow> 'v Debugger \<Rightarrow> 'k env \<Rightarrow>
    ('a outcome \<times> ('v, 'k) handler_ctx) option" where
  "run_cli m h d e = Option.bind (m \<lparr>cc_cli = h, cc_db = d, cc_env = e\<rparr>)
    (\<lambda>(r, x). Some (r, (Cli_handler (cc_cli x), cc_db x, cc_env x)))"

definition run_data :: "(('v, 'k) data_ctx, 'a) proc \<Rightarrow> ('v, 'k) data_handler \<Rightarrow> 'v Debugger \<Rightarrow> 'k env \<Rightarrow>
    ('a outcome \<times> ('v, 'k) handler_ctx) option" where
  "run_data m h d e = Option.bind (m \<lparr>dc_data = h, dc_db = d, dc_env = e\<rparr>)
    (\<lambda>(r, x). Some (r, (Data_handler (dc_data x), dc_db x, dc_env x)))"

fun handler_setup_connection :: "('v, 'k) deps \<Rightarrow> ServerConfig \<Rightarrow> (('v, 'k) handler_ctx, unit) proc" where
  "handler_setup_connection dp conf (Cli_handler h, d, e) = run_cli (proc_of (cli_setup_connection (dp_api dp) conf)) h d e"
| "handler_setup_connection dp conf (Data_handler h, d, e) = run_data (proc_of (data_setup_connection (dp_net dp) conf)) h d e"

fun handler_run_command :: "('v, 'k) deps \<Rightarrow> (('v, 'k) handler_ctx, unit) proc" where
  "handler_run_command dp (Cli_handler h, d, e) = run_cli (proc_of (cli_run_command (dp_api dp) (dp_floats dp))) h d e"
| "handler_run_command dp (Data_handler h, d, e) =
     run_data (data_run_command (dp_net dp) (serve_debugger (dp_api dp) (dp_udp dp))) h d e"

fun handler_check_stopped :: "('v, 'k) deps \<Rightarrow> (('v, 'k) handler_ctx, unit) proc" where
  "handler_check_stopped dp (Cli_handler h, d, e) = run_cli (proc_of (cli_check_stopped (dp_api dp))) h d e"
| "handler_check_stopped dp (Data_handler h, d, e) =
     run_data (data_check_stop (dp_net dp) (serve_debugger (dp_api dp) (dp_udp dp))) h d e"

definition MultiClientHandler_new :: "('v, 'k) deps \<Rightarrow> ServerConfig \<Rightarrow> 'v Debugger \<Rightarrow> ('v, 'k) MultiClientHandler" where
  "MultiClientHandler_new dp conf db = \<lparr>mc_state = H_NOT_CONNECTED,
    mc_wait = (if sc_mode_server_cli conf then [Cli_handler (CLIClientHandler_new db (dp_udp dp))] else []) @
      (if sc_mode_tcp conf then [Data_handler DataClientHandler_new] else []), mc_main = None\<rparr>"

text \<open>Whether there is no handler at all.\<close>

definition mc_empty :: "('v, 'k) MultiClientHandler \<Rightarrow> bool" where
  "mc_empty m \<longleftrightarrow> mc_wait m = [] \<and> mc_main m = None"

type_synonym ('v, 'k) multi_ctx = "('v, 'k) MultiClientHandler \<times> 'v Debugger \<times> 'k env"

text \<open>The loop of \<open>setup_connection\<close> over the handlers not yet tried; those before have been updated.\<close>

fun mc_setup_loop :: "('v, 'k) deps \<Rightarrow> ServerConfig \<Rightarrow> ('v, 'k) handler list \<Rightarrow> ('v, 'k) handler list \<Rightarrow>
    (('v, 'k) multi_ctx, unit) proc" where
  "mc_setup_loop dp conf done [] (m, d, e) = Some (Ret (), (m\<lparr>mc_wait := done\<rparr>, d, e))"
| "mc_setup_loop dp conf done (h # hs) (m, d, e) =
     (case handler_setup_connection dp conf (h, d, e) of
        None \<Rightarrow> None
      | Some (Ret _, (h', d', e')) \<Rightarrow>
          if handler_state_of h' = H_CONNECTED
          then Some (Ret (), (m\<lparr>mc_state := H_CONNECTED, mc_main := Some h', mc_wait := []\<rparr>, d', e'))
          else mc_setup_loop dp conf (done @ [h']) hs (m, d', e')
      | Some (Throw x, (h', d', e')) \<Rightarrow> Some (Throw x, (m\<lparr>mc_wait := done @ h' # hs\<rparr>, d', e'))
      | Some (Abort c, (h', d', e')) \<Rightarrow> Some (Abort c, (m\<lparr>mc_wait := done @ h' # hs\<rparr>, d', e')))"

definition mc_setup_connection :: "('v, 'k) deps \<Rightarrow> ServerConfig \<Rightarrow> (('v, 'k) multi_ctx, unit) proc" where
  "mc_setup_connection dp conf = (\<lambda>(m, d, e).
    if mc_main m \<noteq> None then Some (Abort Assert_failed, (m, d, e))
    else mc_setup_loop dp conf [] (mc_wait m) (m, d, e))"

text \<open>\<open>run_command\<close> and \<open>check_stopped\<close> pass the call to the connected handler.\<close>

definition mc_pass :: "(('v, 'k) handler_ctx, unit) proc \<Rightarrow> (('v, 'k) multi_ctx, unit) proc" where
  "mc_pass call = (\<lambda>(m, d, e). case mc_main m of
      None \<Rightarrow> Some (Abort Assert_failed, (m, d, e))
    | Some h \<Rightarrow> Option.bind (call (h, d, e)) (\<lambda>(r, (h', d', e')). Some (r,
        (m\<lparr>mc_main := Some h', mc_state := (if returned r \<and> handler_state_of h' = H_DISCONNECTED then H_DISCONNECTED else mc_state m)\<rparr>,
         d', e'))))"

definition mc_run_command :: "('v, 'k) deps \<Rightarrow> (('v, 'k) multi_ctx, unit) proc" where
  "mc_run_command dp = mc_pass (handler_run_command dp)"

definition mc_check_stopped :: "('v, 'k) deps \<Rightarrow> (('v, 'k) multi_ctx, unit) proc" where
  "mc_check_stopped dp = mc_pass (handler_check_stopped dp)"

section \<open>ServerApp\<close>

record ('v, 'k) ServerApp =
  sa_conf :: ServerConfig
  sa_db :: "'v Debugger option"
  sa_client :: "('v, 'k) MultiClientHandler option"
  sa_env :: "'k env"

definition ServerApp_new :: "(string \<Rightarrow> string option) \<Rightarrow> ServerConfig \<Rightarrow> 'k env \<Rightarrow> ('v, 'k) ServerApp outcome" where
  "ServerApp_new getenv conf e = (case load_env getenv conf of
      Ret conf' \<Rightarrow> Ret \<lparr>sa_conf = conf', sa_db = None, sa_client = None, sa_env = e\<rparr>
    | Throw x \<Rightarrow> Throw x | Abort c \<Rightarrow> Abort c)"

text \<open>Calls through \<open>_db\<close> and \<open>_client\<close>, which must not be null.\<close>

definition on_db :: "('v Debugger, 'a) act \<Rightarrow> (('v, 'k) ServerApp, 'a) proc" where
  "on_db m = (\<lambda>a. case sa_db a of
      None \<Rightarrow> Some (Abort Undefined, a)
    | Some d \<Rightarrow> (case m d of (r, d') \<Rightarrow> Some (r, a\<lparr>sa_db := Some d'\<rparr>)))"

definition on_multi :: "(('v, 'k) multi_ctx, 'a) proc \<Rightarrow> (('v, 'k) ServerApp, 'a) proc" where
  "on_multi m = (\<lambda>a. case (sa_client a, sa_db a) of
      (Some c, Some d) \<Rightarrow> Option.bind (m (c, d, sa_env a))
        (\<lambda>(r, (c', d', e')). Some (r, a\<lparr>sa_client := Some c', sa_db := Some d', sa_env := e'\<rparr>))
    | _ \<Rightarrow> Some (Abort Undefined, a))"

definition sa_client_state :: "(('v, 'k) ServerApp, handler_state) proc" where
  "sa_client_state = (\<lambda>a. case sa_client a of
      None \<Rightarrow> Some (Abort Undefined, a) | Some c \<Rightarrow> Some (Ret (mc_state c), a))"

definition is_stopped :: "'v Debugger \<Rightarrow> bool" where
  "is_stopped d \<longleftrightarrow> d_state d = STOPPED \<or> d_state d = ERROR \<or> d_state d = EXIT"

definition sa_db_is_stopped :: "(('v, 'k) ServerApp, bool) proc" where
  "sa_db_is_stopped = on_db (gets is_stopped)"

definition sa_stop_db :: "(('v, 'k) ServerApp, unit) proc" where
  "sa_stop_db = bind_proc sa_db_is_stopped (\<lambda>b. if \<not> b then on_db stop else proc_of (ret ()))"

definition sa_shutdown :: "(('v, 'k) ServerApp, unit) proc" where
  "sa_shutdown = proc_of (modify (\<lambda>a. a\<lparr>sa_client := None, sa_db := None, sa_conf := (sa_conf a)\<lparr>sc_enabled := False\<rparr>\<rparr>))"

definition sa_new_client :: "('v, 'k) deps \<Rightarrow> (('v, 'k) ServerApp, unit) proc" where
  "sa_new_client dp = (\<lambda>a. case sa_db a of
      None \<Rightarrow> Some (Abort Undefined, a)
    | Some d \<Rightarrow> (let m = MultiClientHandler_new dp (sa_conf a) d in
        if mc_empty m then sa_shutdown a else Some (Ret (), a\<lparr>sa_client := Some m\<rparr>)))"

definition sa_init :: "('v, 'k) deps \<Rightarrow> (('v, 'k) ServerApp, unit) proc" where
  "sa_init dp =
    bind_proc (proc_of (modify (\<lambda>a. a\<lparr>sa_db := Some (Debugger_new (dp_vm dp) (dp_infos dp) (dp_garbage dp))\<rparr>))) (\<lambda>_.
    bind_proc (on_db (on_init (dp_api dp))) (\<lambda>_.
    bind_proc (proc_of (gets (\<lambda>a. sc_nostart (sa_conf a)))) (\<lambda>nostart.
    bind_proc (if nostart then sa_stop_db else proc_of (ret ())) (\<lambda>_.
    sa_new_client dp))))"

definition sa_setup :: "('v, 'k) deps \<Rightarrow> (('v, 'k) ServerApp, handler_state) proc" where
  "sa_setup dp = (\<lambda>a. bind_proc (on_multi (mc_setup_connection dp (sa_conf a))) (\<lambda>_. sa_client_state) a)"

text \<open>The loop of \<open>_connect\<close>, which waits until the client is connected.\<close>

partial_function (option) sa_connect_loop :: "('v, 'k) deps \<Rightarrow> ('v, 'k) ServerApp \<Rightarrow> (unit outcome \<times> ('v, 'k) ServerApp) option" where
  "sa_connect_loop dp a = Option.bind (sa_setup dp a) (\<lambda>(r, a'). case r of
      Ret st \<Rightarrow> if st = H_CONNECTED then Some (Ret (), a') else sa_connect_loop dp a'
    | Throw e \<Rightarrow> Some (Throw e, a')
    | Abort c \<Rightarrow> Some (Abort c, a'))"

definition sa_connect :: "('v, 'k) deps \<Rightarrow> (('v, 'k) ServerApp, unit) proc" where
  "sa_connect dp = bind_proc sa_client_state (\<lambda>st.
    if st = H_DISCONNECTED then proc_of (abort Assert_failed)
    else if st = H_CONNECTED then proc_of (ret ())
    else sa_connect_loop dp)"

text \<open>If the client is connected and the machine runs, look for a stop command.\<close>

definition sa_check :: "('v, 'k) deps \<Rightarrow> handler_state \<Rightarrow> (('v, 'k) ServerApp, unit) proc" where
  "sa_check dp st = bind_proc sa_db_is_stopped (\<lambda>stopped.
    if \<not> stopped \<and> st = H_CONNECTED then on_multi (mc_check_stopped dp) else proc_of (ret ()))"

definition sa_execute :: "('v, 'k) deps \<Rightarrow> (('v, 'k) ServerApp, unit) proc" where
  "sa_execute dp = bind_proc (sa_connect dp) (\<lambda>_. bind_proc sa_client_state (\<lambda>st.
    bind_proc (proc_of (assert_act (st = H_CONNECTED))) (\<lambda>_. on_multi (mc_run_command dp))))"

text \<open>One turn of the command loop; the result tells whether there is another.\<close>

definition sa_turn :: "('v, 'k) deps \<Rightarrow> (('v, 'k) ServerApp, bool) proc" where
  "sa_turn dp = bind_proc sa_client_state (\<lambda>st.
    if st = H_DISCONNECTED then proc_of (ret False)
    else bind_proc (sa_check dp st) (\<lambda>_. bind_proc sa_db_is_stopped (\<lambda>stopped.
      if \<not> stopped then proc_of (ret False)
      else bind_proc (sa_execute dp) (\<lambda>_. proc_of (ret True)))))"

partial_function (option) sa_commands :: "('v, 'k) deps \<Rightarrow> ('v, 'k) ServerApp \<Rightarrow> (unit outcome \<times> ('v, 'k) ServerApp) option" where
  "sa_commands dp a = Option.bind (sa_turn dp a) (\<lambda>(r, a'). case r of
      Ret again \<Rightarrow> if again then sa_commands dp a' else Some (Ret (), a')
    | Throw e \<Rightarrow> Some (Throw e, a')
    | Abort c \<Rightarrow> Some (Abort c, a'))"

definition sa_leave :: "(('v, 'k) ServerApp, unit) proc" where
  "sa_leave = bind_proc sa_client_state (\<lambda>st. bind_proc (on_db (gets d_state)) (\<lambda>dst.
    if st = H_DISCONNECTED \<and> dst = STOPPED then on_db (resume ToFinish) else proc_of (ret ())))"

definition sa_greet :: "('v, 'k) deps \<Rightarrow> (('v, 'k) ServerApp, unit) proc" where
  "sa_greet dp = bind_proc sa_client_state (\<lambda>st.
    if st = H_NOT_CONNECTED then bind_proc (sa_setup dp) (\<lambda>st'.
      if st' = H_CONNECTED then sa_stop_db else proc_of (ret ()))
    else proc_of (ret ()))"

definition sa_session :: "('v, 'k) deps \<Rightarrow> (('v, 'k) ServerApp, unit) proc" where
  "sa_session dp = bind_proc (sa_greet dp) (\<lambda>_. bind_proc (sa_commands dp) (\<lambda>_. sa_leave))"

definition sa_loop :: "('v, 'k) deps \<Rightarrow> (('v, 'k) ServerApp, unit) proc" where
  "sa_loop dp = (\<lambda>a.
    if \<not> sc_enabled (sa_conf a) then Some (Ret (), a)
    else if sa_db a = None then bind_proc (sa_init dp)
      (\<lambda>_ a'. if \<not> sc_enabled (sa_conf a') then Some (Ret (), a') else sa_session dp a') a
    else bind_proc (on_db (on_update (dp_api dp))) (\<lambda>_. sa_session dp) a)"

declare main_turns.simps [code] sa_connect_loop.simps [code] sa_commands.simps [code]

end
