(* ===== verification/Debugger_Symbols.thy ===== *)
theory Debugger_Symbols
  imports Debugger_Invariant
begin

text \<open>
  The symbol loader of the debugger (\<open>_preload_symbols\<close>, \<open>_load_symbol\<close> and the queries built on
  them), against the contract of a machine with a fixed symbol table: the locale \<open>vm_symbols\<close>
  states what \<open>VMApi::get_symbols\<close> and \<open>VMApi::get_symb_infos\<close> answer. The lazily filled tables are
  a cache of that table: exact on the addresses the range map marks as loaded.
\<close>

lemma vm_call_Ret: "m (d_vm d) = (Ret x, v) \<Longrightarrow> vm_call m d = (Ret x, d\<lparr>d_vm := v\<rparr>)"
  by (simp add: vm_call_def lift_act_def)

text \<open>The reference answer of a symbol query: scan the addresses, without any cache.\<close>

definition symbols_in :: "(vm_ptr_t \<Rightarrow> vm_sym_t option) \<Rightarrow> vm_ptr_t \<Rightarrow> vm_size_t \<Rightarrow> vm_sym_t list" where
  "symbols_in sym_at a sz =
    map (the \<circ> sym_at) (filter (\<lambda>k. sym_at k \<noteq> None) (map of_nat [unat a..<unat a + unat sz]))"

lemma sorted_of_nat_upt:
  "n \<le> 2 ^ LENGTH('a) \<Longrightarrow> sorted_wrt (<) (map (of_nat :: nat \<Rightarrow> 'a :: len word) [m..<n])"
  by (auto simp: sorted_wrt_map word_less_nat_alt unat_of_nat_id intro: sorted_wrt_mono_rel [of _ "(<)"])

locale vm_symbols =
  fixes api :: "'v VMApi"
    and vm_inv :: "'v \<Rightarrow> bool"
    and mem :: vm_size_t
    and sym_at :: "vm_ptr_t \<Rightarrow> vm_sym_t option"
    and sym_infos :: "vm_sym_t \<Rightarrow> SymbolInfos"
  assumes get_symbols_law: "vm_inv v \<Longrightarrow> a \<le> b \<Longrightarrow> b < mem \<Longrightarrow>
      \<exists>xs v'. api_get_symbols api a (b - a + 1) v = (Ret xs, v') \<and> vm_inv v' \<and>
        set xs = {s. \<exists>k. a \<le> k \<and> k \<le> b \<and> sym_at k = Some s}"
    and get_symb_infos_law: "vm_inv v \<Longrightarrow> sym_at k = Some s \<Longrightarrow>
      \<exists>v'. api_get_symb_infos api s v = (Ret (sym_infos s), v') \<and> vm_inv v'"
    and sym_infos_addr: "sym_at k = Some s \<Longrightarrow> si_addr (sym_infos s) = k"
    and sym_in_memory: "sym_at k = Some s \<Longrightarrow> k < mem"
    and get_vm_infos_law: "vm_inv v \<Longrightarrow> api_get_vm_infos api v = (Ret i, v') \<Longrightarrow>
      vm_inv v' \<and> vi_memory_size i = mem"
    and get_update_infos_law: "vm_inv v \<Longrightarrow> api_get_update_infos api v = (r, v') \<Longrightarrow> vm_inv v'"
begin

text \<open>The tables hold nothing but symbols of the machine.\<close>

definition tables_ok :: "'v Debugger \<Rightarrow> bool" where
  "tables_ok d \<longleftrightarrow> db_ok d \<and> vm_inv (d_vm d) \<and> vi_memory_size (d_infos d) = mem \<and>
    (\<forall>s i. smap_find (d_map_syms d) s = Some i \<longrightarrow> i = sym_infos s \<and> (\<exists>k. sym_at k = Some s))"

definition covered :: "'v Debugger \<Rightarrow> u64 set \<Rightarrow> bool" where
  "covered d A \<longleftrightarrow> (\<forall>k \<in> A. \<forall>s. sym_at k = Some s \<longrightarrow> smap_find (d_syms_pos d) k = Some s)"

definition loaded :: "'v Debugger \<Rightarrow> u64 set" where
  "loaded d = (case d_syms_ranges d of None \<Rightarrow> {} | Some m \<Rightarrow> rm.marked 1 m)"

definition cache_ok :: "'v Debugger \<Rightarrow> bool" where
  "cache_ok d \<longleftrightarrow> tables_ok d \<and> covered d (loaded d)"

lemma sym_at_inj: "sym_at k = Some s \<Longrightarrow> sym_at j = Some s \<Longrightarrow> j = k"
  by (metis sym_infos_addr)

lemma tables_okD: "tables_ok d \<Longrightarrow> db_ok d" "tables_ok d \<Longrightarrow> vm_inv (d_vm d)"
  by (simp_all add: tables_ok_def)

lemma pos_sound:
  assumes "tables_ok d" "smap_find (d_syms_pos d) k = Some s"
  shows "sym_at k = Some s"
proof -
  obtain i where i: "smap_find (d_map_syms d) s = Some i" "si_addr i = k"
    using tables_okD(1) [OF assms(1)] assms(2) unfolding db_ok_def syms_ok_def by blast
  then obtain j where j: "i = sym_infos s" "sym_at j = Some s"
    using assms(1) unfolding tables_ok_def by blast
  then show ?thesis using i(2) sym_infos_addr by force
qed

lemma pos_complete:
  assumes "tables_ok d" "smap_find (d_map_syms d) s = Some i" "sym_at k = Some s"
  shows "smap_find (d_syms_pos d) k = Some s"
proof -
  have "i = sym_infos s" using assms by (simp add: tables_ok_def)
  then have "smap_find (d_syms_pos d) k \<noteq> None"
    using tables_okD(1) [OF assms(1)] assms(2,3) sym_infos_addr unfolding db_ok_def syms_ok_def by metis
  then show ?thesis using pos_sound [OF assms(1)] assms(3) by fastforce
qed

text \<open>What loading symbols does: the tables grow, nothing else a client sees changes.\<close>

definition grows :: "'v Debugger \<Rightarrow> 'v Debugger \<Rightarrow> bool" where
  "grows d d' \<longleftrightarrow> tables_ok d' \<and> d_syms_ranges d' = d_syms_ranges d \<and> d_infos d' = d_infos d \<and>
    (\<forall>k s. smap_find (d_syms_pos d) k = Some s \<longrightarrow> smap_find (d_syms_pos d') k = Some s)"

lemma grows_trans: "grows d d1 \<Longrightarrow> grows d1 d2 \<Longrightarrow> grows d d2"
  by (auto simp: grows_def)

lemma grows_covered: "grows d d' \<Longrightarrow> covered d A \<Longrightarrow> covered d' A"
  by (simp add: grows_def covered_def)

lemma load_symbol_grows:
  assumes ok: "tables_ok d" and s: "sym_at k = Some s"
  shows "\<exists>d'. load_symbol api s d = (Ret (), d') \<and> grows d d' \<and> smap_find (d_syms_pos d') k = Some s"
proof (cases "smap_find (d_map_syms d) s")
  case None
  obtain v where v: "api_get_symb_infos api s (d_vm d) = (Ret (sym_infos s), v)" "vm_inv v"
    using get_symb_infos_law [OF tables_okD(2) [OF ok] s] by blast
  obtain r d' where d': "load_symbol api s d = (r, d')" by force
  have eq: "r = Ret ()" "d' = d\<lparr>d_vm := v, d_map_syms := smap_emplace s (sym_infos s) (d_map_syms d),
      d_smap_syms := smap_emplace (si_name (sym_infos s)) s (d_smap_syms d),
      d_syms_pos := smap_emplace k s (d_syms_pos d)\<rparr>"
    using d' None v s
    by (simp_all add: load_symbol_def vm_call_def lift_act_def bind_act_def sym_infos_addr)
  have ord: "smap_ok (d_map_syms d)" "smap_ok (d_syms_pos d)"
    using ok by (simp_all add: tables_ok_def db_ok_def syms_ok_def)
  have "db_ok d'" using keepsD [OF keeps_ok_load_symbol _ d'] ok by (simp add: tables_ok_def)
  then have ok': "tables_ok d'"
    using ok ord v(2) s unfolding eq(2) by (auto simp: tables_ok_def smap_find_emplace)
  moreover have "smap_find (d_syms_pos d') k = Some s"
    using pos_complete [OF ok' _ s] ord None unfolding eq(2) by (simp add: smap_find_emplace)
  ultimately show ?thesis
    using d' ord unfolding eq by (auto simp: grows_def smap.emplace_keeps)
next
  case (Some i)
  then show ?thesis
    using ok s pos_complete [OF ok Some s] by (auto simp: load_symbol_def grows_def)
qed

lemma load_symbols_grow:
  assumes "tables_ok d" "\<And>s. s \<in> set xs \<Longrightarrow> \<exists>k. sym_at k = Some s"
  shows "\<exists>d'. iter_act (load_symbol api) xs d = (Ret (), d') \<and> grows d d' \<and>
    (\<forall>s \<in> set xs. \<forall>k. sym_at k = Some s \<longrightarrow> smap_find (d_syms_pos d') k = Some s)"
  using assms
proof (induction xs arbitrary: d)
  case Nil
  then show ?case by (simp add: grows_def)
next
  case (Cons s xs)
  then obtain k where k: "sym_at k = Some s" by (meson list.set_intros(1))
  obtain d1 where d1: "load_symbol api s d = (Ret (), d1)" "grows d d1"
    "smap_find (d_syms_pos d1) k = Some s"
    using load_symbol_grows [OF Cons.prems(1) k] by blast
  obtain d2 where d2: "iter_act (load_symbol api) xs d1 = (Ret (), d2)" "grows d1 d2"
    "\<forall>s \<in> set xs. \<forall>k. sym_at k = Some s \<longrightarrow> smap_find (d_syms_pos d2) k = Some s"
    using Cons.IH [of d1] Cons.prems(2) d1(2) by (auto simp: grows_def)
  have "smap_find (d_syms_pos d2) j = Some s" if "sym_at j = Some s" for j
    using d1(3) d2(2) that sym_at_inj [OF k that] by (simp add: grows_def)
  with d1 d2 show ?case
    by (auto simp: then_act_def bind_act_def intro: grows_trans)
qed

lemma ranges_of:
  assumes "tables_ok d"
  obtains m where "d_syms_ranges d = Some m" "rm_ok m" "rm_min m = 0" "rm_max m = mem - 1"
    "loaded d = rm.marked 1 m"
  using assms that by (auto simp: tables_ok_def db_ok_def ranges_ok_def loaded_def)

lemma syms_set_loaded_run:
  assumes "tables_ok d" "a \<le> b" "b < mem"
  shows "\<exists>d'. syms_set_loaded a b d = (Ret (), d') \<and> tables_ok d' \<and> loaded d' = loaded d \<union> {a..b} \<and>
    d_syms_pos d' = d_syms_pos d"
proof -
  obtain m where m: "d_syms_ranges d = Some m" "rm_ok m" "rm_min m = 0" "rm_max m = mem - 1"
    "loaded d = rm.marked 1 m"
    using assms(1) by (rule ranges_of)
  moreover have "b \<le> mem - 1" using assms(3) by (simp add: word_le_dec [of b])
  ultimately obtain m' where m': "rm_set m a b 1 = Ret m'" "rm.marked 1 m' = rm.marked 1 m \<union> {a..b}"
    using rm.marked_set_range [of m a b 1] assms(2) by auto
  let ?d = "d\<lparr>d_syms_ranges := Some m'\<rparr>"
  have run: "syms_set_loaded a b d = (Ret (), ?d)"
    using m(1) m'(1) by (simp add: syms_set_loaded_def bind_act_def)
  then have "db_ok ?d" using keepsD [OF keeps_ok_set_loaded] tables_okD(1) [OF assms(1)] by blast
  then have "tables_ok ?d" using assms(1) by (simp add: tables_ok_def)
  then show ?thesis using run m(1,5) m'(2) by (simp add: loaded_def)
qed

lemma syms_range_of_run:
  assumes "tables_ok d" "k < mem"
  shows "\<exists>r. syms_range_of k d = (Ret r, d) \<and> low r \<le> k \<and> k \<le> high r \<and> high r < mem \<and>
    (rval r = 1 \<longrightarrow> {low r..high r} \<subseteq> loaded d)"
proof -
  obtain m where m: "d_syms_ranges d = Some m" "rm_ok m" "rm_min m = 0" "rm_max m = mem - 1"
    "loaded d = rm.marked 1 m"
    using assms(1) by (rule ranges_of)
  have k: "rm_min m \<le> k" "k \<le> rm_max m" using assms(2) m(3,4) by (simp_all add: word_le_dec [of k])
  then obtain r where r: "rm_range_of m k = Ret r"
    using rm.range_of_law [OF m(2)] by blast
  note facts = rm.range_of_marked [OF m(2) k r]
  have "high r < mem" using facts(4) assms(2) m(4) by (simp add: word_le_dec [of k])
  then show ?thesis using facts m(1,5) r by (auto simp: syms_range_of_def)
qed

lemma load_symbols_in_run:
  assumes "cache_ok d" "a \<le> b" "b < mem"
  shows "\<exists>d'. load_symbols_in api a b d = (Ret (), d') \<and> cache_ok d' \<and> loaded d' = loaded d \<union> {a..b}"
proof -
  have ok: "tables_ok d" "covered d (loaded d)" using assms(1) by (simp_all add: cache_ok_def)
  obtain xs v where v: "api_get_symbols api a (b - a + 1) (d_vm d) = (Ret xs, v)" "vm_inv v"
    "set xs = {s. \<exists>k. a \<le> k \<and> k \<le> b \<and> sym_at k = Some s}"
    using get_symbols_law [OF tables_okD(2) [OF ok(1)] assms(2,3)] by blast
  have "tables_ok (d\<lparr>d_vm := v\<rparr>)" using ok(1) v(2) by (simp add: tables_ok_def)
  then obtain d2 where d2: "syms_set_loaded a b (d\<lparr>d_vm := v\<rparr>) = (Ret (), d2)" "tables_ok d2"
    "loaded d2 = loaded d \<union> {a..b}" "d_syms_pos d2 = d_syms_pos d"
    using syms_set_loaded_run [OF _ assms(2,3)] by (fastforce simp: loaded_def)
  obtain d3 where d3: "iter_act (load_symbol api) xs d2 = (Ret (), d3)" "grows d2 d3"
    "\<forall>s \<in> set xs. \<forall>k. sym_at k = Some s \<longrightarrow> smap_find (d_syms_pos d3) k = Some s"
    using load_symbols_grow [OF d2(2), of xs] v(3) by blast
  have run: "load_symbols_in api a b d = (Ret (), d3)"
    using v(1) d2(1) d3(1)
    by (simp add: load_symbols_in_def bind_act_Ret [OF vm_call_Ret] then_act_Ret)
  have l3: "loaded d3 = loaded d \<union> {a..b}" using d3(2) d2(3) by (simp add: grows_def loaded_def)
  have "covered d2 (loaded d)" using ok(2) d2(4) by (simp add: covered_def)
  then have "covered d3 (loaded d)" by (rule grows_covered [OF d3(2)])
  moreover have "covered d3 {a..b}"
    unfolding covered_def
  proof (intro ballI allI impI)
    fix k s
    assume "k \<in> {a..b}" and s: "sym_at k = Some s"
    then have "s \<in> set xs" unfolding v(3) by auto
    with d3(3) s show "smap_find (d_syms_pos d3) k = Some s" by blast
  qed
  ultimately have "covered d3 (loaded d3)" unfolding l3 by (auto simp: covered_def)
  moreover have "tables_ok d3" using d3(2) by (simp add: grows_def)
  ultimately show ?thesis using run l3 by (simp add: cache_ok_def)
qed

lemma preload_high_run:
  assumes "cache_ok d" "a \<le> e" "e < mem"
  shows "\<exists>d'. preload_high api a e d = (Ret (), d') \<and> cache_ok d' \<and> loaded d \<union> {a..e} \<subseteq> loaded d'"
proof -
  have "tables_ok d" using assms(1) by (simp add: cache_ok_def)
  then obtain r where r: "syms_range_of e d = (Ret r, d)" "low r \<le> e" "e \<le> high r"
    "rval r = 1 \<longrightarrow> {low r..high r} \<subseteq> loaded d"
    using syms_range_of_run [OF _ assms(3)] by blast
  have step: "preload_high api a e d = (if rval r = 1 then
      (if low r = 0 \<or> low r - 1 < a then ret () else load_symbols_in api a (low r - 1))
    else load_symbols_in api a e) d"
    by (simp add: preload_high_def bind_act_def r(1) Let_def)
  consider "rval r \<noteq> 1" | "rval r = 1" "low r \<le> a" | "rval r = 1" "a < low r" by force
  then show ?thesis
  proof cases
    case 1
    then show ?thesis using load_symbols_in_run [OF assms] unfolding step by auto
  next
    case 2
    then have "{a..e} \<subseteq> loaded d" using r(3,4) by fastforce
    moreover have "low r = 0 \<or> low r - 1 < a"
      using 2(2) word_le_dec [of 0 "low r" a] by (metis leD not_le_imp_less word_gt_0)
    ultimately show ?thesis using 2 assms(1) unfolding step by auto
  next
    case 3
    then have b: "a \<le> low r - 1" "low r \<noteq> 0" using word_le_dec [of a "low r" a] by auto
    moreover have "low r - 1 < mem"
      using r(2) assms(3) word_le_dec [OF 3(2), of "low r - 1"] by simp
    ultimately obtain d' where d': "load_symbols_in api a (low r - 1) d = (Ret (), d')" "cache_ok d'"
      "loaded d' = loaded d \<union> {a..low r - 1}"
      using load_symbols_in_run [OF assms(1)] by blast
    have "{a..e} \<subseteq> {a..low r - 1} \<union> {low r..high r}"
      using r(3) word_le_dec [OF 3(2)] by force
    with d' r(4) 3(1) b show ?thesis unfolding step by (auto simp: not_less)
  qed
qed

lemma preload_symbols_run:
  assumes "cache_ok d" "a < mem" "unat a + max (unat sz) 256 < 2 ^ 64"
  shows "\<exists>d'. preload_symbols api a sz d = (Ret (), d') \<and> cache_ok d' \<and>
    {k. a \<le> k \<and> k < mem \<and> unat k < unat a + max (unat sz) 256} \<subseteq> loaded d'"
proof -
  define en where "en = min (a + max sz SYM_LOAD_SIZE - 1) (mem - 1)"
  have sz: "unat (max sz SYM_LOAD_SIZE) = max (unat sz) 256"
    by (simp add: SYM_LOAD_SIZE_def max_def word_le_nat_alt)
  then have "unat (a + max sz SYM_LOAD_SIZE) = unat a + max (unat sz) 256"
    using assms(3) by (simp add: unat_word_ariths)
  then have end': "k \<le> a + max sz SYM_LOAD_SIZE - 1 \<longleftrightarrow> unat k < unat a + max (unat sz) 256" for k
    using word_le_dec [of 0 "a + max sz SYM_LOAD_SIZE" k] by (simp add: word_less_nat_alt less_max_iff_disj)
  have e: "k \<le> en \<longleftrightarrow> k < mem \<and> unat k < unat a + max (unat sz) 256" for k
    using end' [of k] word_le_dec [OF assms(2), of k] by (auto simp: en_def min_def)
  have ae: "a \<le> en" "en < mem"
    using assms(2) e [THEN iffD1, OF order.refl] by (simp_all only: e) simp
  have target: "{k. a \<le> k \<and> k < mem \<and> unat k < unat a + max (unat sz) 256} = {a..en}"
    unfolding atLeastAtMost_def atLeast_def atMost_def e by blast
  have ok: "tables_ok d" using assms(1) by (simp add: cache_ok_def)
  obtain r where r: "syms_range_of a d = (Ret r, d)" "low r \<le> a" "a \<le> high r" "high r < mem"
    "rval r = 1 \<longrightarrow> {low r..high r} \<subseteq> loaded d"
    using syms_range_of_run [OF ok assms(2)] by blast
  have mem: "vi_memory_size (d_infos d) = mem" using ok by (simp add: tables_ok_def)
  have step: "preload_symbols api a sz d = (if rval r = 1 then
      (if high r + 1 = 0 \<or> en < high r + 1 then ret () else preload_high api (high r + 1) en)
    else preload_high api a en) d"
    by (simp add: preload_symbols_def bind_act_def r(1) Let_def mem en_def)
  have inc: "k < high r + 1 \<longleftrightarrow> k \<le> high r" for k using word_less_inc [OF r(4)] by blast
  consider "rval r \<noteq> 1" | "rval r = 1" "en \<le> high r" | "rval r = 1" "high r < en" by force
  then show ?thesis
  proof cases
    case 1
    then show ?thesis using preload_high_run [OF assms(1) ae] unfolding step target by auto
  next
    case 2
    then have "{a..en} \<subseteq> loaded d" using r(2,5) by fastforce
    with 2 show ?thesis using assms(1) inc unfolding step target by auto
  next
    case 3
    then have h: "high r + 1 \<le> en" "high r + 1 \<noteq> 0"
      using inc [of en] word_inc_le [OF r(4), of "high r + 1"] inc [of 0] by (auto simp: not_less)
    obtain d' where d': "preload_high api (high r + 1) en d = (Ret (), d')" "cache_ok d'"
      "loaded d \<union> {high r + 1..en} \<subseteq> loaded d'"
      using preload_high_run [OF assms(1) h(1) ae(2)] by blast
    have "{a..en} \<subseteq> {low r..high r} \<union> {high r + 1..en}"
      using r(2) word_inc_le [OF r(4)] by force
    with d' r(5) 3(1) h show ?thesis unfolding step target by (auto simp: not_less)
  qed
qed

lemma get_symbols_run:
  assumes "cache_ok d" "a < mem" "unat a + max (unat sz) 256 < 2 ^ 64"
  shows "\<exists>xs d'. get_symbols api a sz d = (Ret xs, d') \<and> cache_ok d' \<and>
    set xs = {s. \<exists>k. a \<le> k \<and> unat k < unat a + unat sz \<and> sym_at k = Some s} \<and>
    sorted_wrt (<) (map (\<lambda>s. si_addr (sym_infos s)) xs)"
proof -
  obtain d' where d': "preload_symbols api a sz d = (Ret (), d')" "cache_ok d'"
    "{k. a \<le> k \<and> k < mem \<and> unat k < unat a + max (unat sz) 256} \<subseteq> loaded d'"
    using preload_symbols_run [OF assms] by blast
  let ?xs = "smap_slice a (a + sz) (d_syms_pos d')"
  have run: "get_symbols api a sz d = (Ret ?xs, d')"
    using d'(1) by (simp add: get_symbols_def then_act_Ret)
  have ok: "tables_ok d'" "covered d' (loaded d')" using d'(2) by (simp_all add: cache_ok_def)
  then have ord: "smap_ok (d_syms_pos d')" by (simp add: tables_ok_def db_ok_def syms_ok_def)
  have "unat (a + sz) = unat a + unat sz" using assms(3) by (simp add: unat_word_ariths)
  then have end': "k < a + sz \<longleftrightarrow> unat k < unat a + unat sz" for k by (simp add: word_less_nat_alt)
  have pos: "smap_find (d_syms_pos d') k = Some s \<longleftrightarrow> sym_at k = Some s"
    if "a \<le> k" "unat k < unat a + unat sz" for k s
  proof
    assume s: "sym_at k = Some s"
    then have "k \<in> loaded d'" using d'(3) that sym_in_memory [OF s] by auto
    with ok(2) s show "smap_find (d_syms_pos d') k = Some s" by (simp add: covered_def)
  qed (rule pos_sound [OF ok(1)])
  have "set ?xs = {s. \<exists>k. a \<le> k \<and> unat k < unat a + unat sz \<and> sym_at k = Some s}"
    unfolding set_smap_slice [OF ord] end' using pos by blast
  moreover have "sorted_wrt (<) (map (\<lambda>s. si_addr (sym_infos s)) ?xs)"
  proof -
    have "map (\<lambda>s. si_addr (sym_infos s)) ?xs = map fst (filter (\<lambda>p. a \<le> fst p \<and> fst p < a + sz) (d_syms_pos d'))"
      unfolding smap_slice_filter [OF ord] map_map
      using smap_find_in_set [OF ord] pos_sound [OF ok(1)] sym_infos_addr by (auto intro!: map_cong)
    then show ?thesis using ord by (simp add: smap_ok_def sorted_wrt_map sorted_wrt_filter)
  qed
  ultimately show ?thesis using run d'(2) by blast
qed

lemma get_symbol_at_run:
  assumes "cache_ok d" "a < mem" "unat mem + 256 < 2 ^ 64"
  shows "\<exists>d'. get_symbol_at api a d = (Ret (case sym_at a of None \<Rightarrow> VM_SYM_NULL | Some s \<Rightarrow> s), d') \<and> cache_ok d'"
proof -
  let ?b = "if a < SYM_LOAD_SIZE div 2 then 0 else a - SYM_LOAD_SIZE div 2"
  have half: "unat (SYM_LOAD_SIZE div 2) = 128" by (simp add: SYM_LOAD_SIZE_def)
  have b: "unat ?b = unat a - 128"
    using half by (auto simp: word_less_nat_alt unat_sub word_le_nat_alt)
  then have le: "?b \<le> a" "?b < mem" using assms(2) by (auto simp: word_le_nat_alt word_less_nat_alt)
  have "unat ?b + max (unat SYM_LOAD_SIZE) 256 < 2 ^ 64"
    using b assms(2,3) by (simp add: SYM_LOAD_SIZE_def word_less_nat_alt)
  then obtain d' where d': "preload_symbols api ?b SYM_LOAD_SIZE d = (Ret (), d')" "cache_ok d'"
    "{k. ?b \<le> k \<and> k < mem \<and> unat k < unat ?b + max (unat SYM_LOAD_SIZE) 256} \<subseteq> loaded d'"
    using preload_symbols_run [OF assms(1) le(2)] by blast
  have ok: "tables_ok d'" "covered d' (loaded d')" using d'(2) by (simp_all add: cache_ok_def)
  have "a \<in> loaded d'" using d'(3) le assms(2) b by (auto simp: SYM_LOAD_SIZE_def)
  then have "smap_find (d_syms_pos d') a = sym_at a"
    using ok pos_sound [OF ok(1)] unfolding covered_def by (metis not_Some_eq)
  then show ?thesis
    using d'(1,2) by (auto simp: get_symbol_at_def preload_symbols_around_def then_act_def bind_act_def)
qed

lemma symbols_in_eqI:
  assumes "unat a + unat sz < 2 ^ 64"
    and "set xs = {s. \<exists>k. a \<le> k \<and> unat k < unat a + unat sz \<and> sym_at k = Some s}"
    and "sorted_wrt (<) (map (\<lambda>s. si_addr (sym_infos s)) xs)"
  shows "xs = symbols_in sym_at a sz"
proof -
  let ?addr = "\<lambda>s. si_addr (sym_infos s)"
  let ?ks = "filter (\<lambda>k. sym_at k \<noteq> None) (map of_nat [unat a..<unat a + unat sz]) :: u64 list"
  have range: "set (map of_nat [unat a..<unat a + unat sz]) = {k :: u64. a \<le> k \<and> unat k < unat a + unat sz}"
  proof (intro set_eqI iffI)
    fix k :: u64
    assume "k \<in> {k. a \<le> k \<and> unat k < unat a + unat sz}"
    then have "unat k \<in> set [unat a..<unat a + unat sz]" by (simp add: word_le_nat_alt)
    then have "of_nat (unat k) \<in> (of_nat :: nat \<Rightarrow> u64) ` set [unat a..<unat a + unat sz]" by (rule imageI)
    then show "k \<in> set (map of_nat [unat a..<unat a + unat sz])" by simp
  qed (use assms(1) in \<open>auto simp: word_le_nat_alt unat_of_nat_id\<close>)
  have inv: "the (sym_at (?addr s)) = s" if "s \<in> set xs" for s
    using that sym_infos_addr unfolding assms(2) by fastforce
  have "sorted_wrt (<) ?ks"
    using assms(1) by (intro sorted_wrt_filter sorted_of_nat_upt) simp
  moreover have "set ?ks = set (map ?addr xs)"
    using sym_infos_addr unfolding set_filter range by (auto simp: assms(2) image_iff)
  ultimately have "map ?addr xs = ?ks" using assms(3) by (intro strict_sorted_equal) auto
  moreover have "map (the \<circ> sym_at) (map ?addr xs) = xs" using inv by (simp add: map_idI)
  ultimately show ?thesis by (simp add: symbols_in_def)
qed

lemma get_symbols_all:
  assumes "cache_ok d" "\<And>a sz. (a, sz) \<in> set qs \<Longrightarrow> a < mem \<and> unat a + max (unat sz) 256 < 2 ^ 64"
  shows "\<exists>d'. map_act (\<lambda>(a, sz). get_symbols api a sz) qs d =
    (Ret (map (\<lambda>(a, sz). symbols_in sym_at a sz) qs), d') \<and> cache_ok d'"
  using assms
proof (induction qs arbitrary: d)
  case (Cons q qs)
  obtain a sz where q: "q = (a, sz)" by (cases q)
  then have bound: "a < mem" "unat a + max (unat sz) 256 < 2 ^ 64" using Cons.prems(2) by auto
  then have "unat a + unat sz < 2 ^ 64" by simp
  then obtain d1 where d1: "get_symbols api a sz d = (Ret (symbols_in sym_at a sz), d1)" "cache_ok d1"
    using get_symbols_run [OF Cons.prems(1) bound] symbols_in_eqI [of a sz] by blast
  obtain d2 where "map_act (\<lambda>(a, sz). get_symbols api a sz) qs d1 =
    (Ret (map (\<lambda>(a, sz). symbols_in sym_at a sz) qs), d2)" "cache_ok d2"
    using Cons.IH [OF d1(2)] Cons.prems(2) by (metis list.set_intros(2))
  with d1 q show ?case by (simp add: bind_act_def)
qed simp

lemma cache_ok_init:
  assumes "on_init api (Debugger_new vm infos0 g) = (Ret (), d)" "vm_inv vm"
  shows "cache_ok d"
proof -
  obtain i v1 u v2 where vm: "api_get_vm_infos api vm = (Ret i, v1)" "api_get_update_infos api v1 = (Ret u, v2)"
    and d: "d_vm d = v2" "d_infos d = i" "d_map_syms d = []" "d_syms_ranges d = Some (RangeMap 0 (vi_memory_size i - 1) 0)"
    using assms(1)
    by (auto simp: on_init_def Debugger_new_def set_state_def vm_call_def lift_act_def bind_act_def
        then_act_def smap_empty_def split: prod.splits outcome.splits if_splits)
  have "vm_inv v2" "vi_memory_size i = mem"
    using get_vm_infos_law [OF assms(2) vm(1)] get_update_infos_law [OF _ vm(2)] by blast+
  moreover have "loaded d = {}" using d(4) by (simp add: loaded_def rm.marked_make)
  ultimately show ?thesis
    using d on_init_Ret(1) [OF assms(1)] by (simp add: cache_ok_def tables_ok_def covered_def)
qed

end

end
