(* ===== verification/Mvm0.thy ===== *)
theory Mvm0
  imports Debugger_Symbols Serial
begin

text \<open>
  The machine \<open>mvm0\<close> under \<open>tests/mockvms/mvm0\<close>: its ROM and CPU state (\<open>rom.hh\<close>, \<open>cpu.hh\<close>, \<open>defs.hh\<close>)
  and its implementation of \<open>VMApi\<close> (\<open>src/vm-api.cc\<close>). It provides the contract the symbol loader of
  the debugger relies on.
\<close>

section \<open>State\<close>

definition MEM_CODE_START :: u64 where "MEM_CODE_START = 1024"
definition MEM_ROM_SIZE :: u64 where "MEM_ROM_SIZE = 1024"
definition MEM_SIZE :: u64 where "MEM_SIZE = 2048"
definition SYM_NONE :: u64 where "SYM_NONE = - 1"
definition REG_SP :: vm_reg_t where "REG_SP = 15"
definition REG_PC :: vm_reg_t where "REG_PC = 16"
definition REG_ZF :: vm_reg_t where "REG_ZF = 17"
definition NB_REGS :: vm_reg_t where "NB_REGS = 18"
definition REG_SIZE :: nat where "REG_SIZE = 4"

definition reg_names :: "string list" where
  "reg_names = [''r0'', ''r1'', ''r2'', ''r3'', ''r4'', ''r5'', ''r6'', ''r7'', ''r8'', ''r9'',
    ''r10'', ''r11'', ''r12'', ''r13'', ''r14'', ''sp'', ''pc'', ''zf'']"

record Ins =
  def_sym :: u64
  use_sym :: u64
  ins_name :: string
  args :: "int list"

record ROM =
  rom_ins :: "Ins list"
  rom_sym_defs :: "u64 list"
  rom_syms :: "string list"
  rom_smap :: "(string, u64) std_map"

datatype Status = Status_OK | NORMAL_EXIT | BAD_INS | SEGV

record CPU =
  cpu_regs :: "u32 list"
  cpu_pc :: u32
  cpu_prev_pc :: u32
  cpu_zf :: u32
  cpu_ram :: bytes
  cpu_guard :: u32
  cpu_rom :: ROM
  cpu_status :: Status

section \<open>Queries\<close>

definition mvm0_get_vm_infos :: "(CPU, VMInfos) act" where
  "mvm0_get_vm_infos = gets (\<lambda>cpu.
    \<lparr>vi_name = ''mvm0'', vi_regs_count = NB_REGS,
     vi_regs_general = [0, 1, 2, 3, 4, 5, 6, 7, 8, 9, 10, 11, 12, 13, 14],
     vi_regs_program_counter = [REG_PC], vi_regs_stack_pointer = [REG_SP],
     vi_regs_base_pointer = [], vi_regs_flags = [REG_ZF], vi_memory_size = MEM_SIZE,
     vi_symbols_count = of_nat (length (rom_syms (cpu_rom cpu))), vi_pointer_size = 4,
     vi_integer_size = 4, vi_use_opcode = False\<rparr>)"

definition mvm0_get_update_infos :: "(CPU, UpdateInfos) act" where
  "mvm0_get_update_infos = bind_act (gets (\<lambda>cpu. cpu)) (\<lambda>cpu.
    let report = (\<lambda>st. ret \<lparr>ud_state = st, ud_act_addr = ucast (cpu_pc cpu)\<rparr>);
        prev = ucast (cpu_prev_pc cpu) - MEM_CODE_START
    in if cpu_prev_pc cpu = 0 then report US_OK
       else if cpu_status cpu = BAD_INS \<or> cpu_status cpu = SEGV then report US_ERROR
       else if cpu_status cpu = NORMAL_EXIT then report US_EXIT
       else then_act (in_bounds (unat prev < length (rom_ins (cpu_rom cpu)))) (
         let prev_ins = rom_ins (cpu_rom cpu) ! unat prev
         in if ins_name prev_ins = ''call'' then report US_CALL_SUB
            else if ins_name prev_ins = ''ret'' then report US_RET_SUB
            else report US_OK))"

section \<open>Registers\<close>

definition reg_val :: "CPU \<Rightarrow> vm_reg_t \<Rightarrow> u32" where
  "reg_val cpu idx = (if idx < REG_PC then cpu_regs cpu ! unat idx
     else if idx = REG_PC then cpu_pc cpu else cpu_zf cpu)"

definition set_reg_val :: "vm_reg_t \<Rightarrow> u32 \<Rightarrow> CPU \<Rightarrow> CPU" where
  "set_reg_val idx v cpu = (if idx < REG_PC then cpu\<lparr>cpu_regs := (cpu_regs cpu)[unat idx := v]\<rparr>
     else if idx = REG_PC then cpu\<lparr>cpu_pc := v\<rparr> else cpu\<lparr>cpu_zf := v\<rparr>)"

definition mvm0_get_reg :: "vm_reg_t \<Rightarrow> RegInfos \<Rightarrow> bool \<Rightarrow> (CPU, RegInfos) act" where
  "mvm0_get_reg idx infos val_only =
    (if idx \<ge> NB_REGS then throw ''invalid register index''
     else if val_only then
       then_act (assert_act (length (ri_val infos) = REG_SIZE))
         (gets (\<lambda>cpu. infos\<lparr>ri_val := sb_serial_raw (reg_val cpu idx)\<rparr>))
     else ret (infos\<lparr>ri_idx := idx, ri_name := reg_names ! unat idx,
       ri_kind := (if idx < REG_SP then general else if idx = REG_SP then stack_pointer
         else if idx = REG_PC then program_counter else flags),
       ri_size := of_nat REG_SIZE\<rparr>))"

definition mvm0_set_reg :: "vm_reg_t \<Rightarrow> bytes \<Rightarrow> (CPU, unit) act" where
  "mvm0_set_reg idx new_val =
    (if idx \<ge> NB_REGS then throw ''invalid register index''
     else then_act (in_bounds (REG_SIZE \<le> length new_val))
       (modify (set_reg_val idx (of_le_bytes (take REG_SIZE new_val)))))"

text \<open>The value of a \<open>char\<close>, signed on the platform.\<close>

definition char_int :: "char \<Rightarrow> int" where
  "char_int c = (if (of_char c :: int) < 128 then of_char c else of_char c - 256)"

text \<open>The test \<open>c1 < '0' && c1 > '9'\<close> of the two-character names is the source's.\<close>

definition mvm0_find_reg_id :: "string \<Rightarrow> (CPU, vm_reg_t) act" where
  "mvm0_find_reg_id name =
    (if length name = 2 \<and> name ! 0 = CHR ''r'' then
       (let c1 = char_int (name ! 1) in
        if c1 < 48 \<and> c1 > 57 then throw ''Invalid register name''
        else ret (of_int (c1 - 48)))
     else if length name = 3 \<and> name ! 0 = CHR ''r'' then
       (let c1 = char_int (name ! 1); c2 = char_int (name ! 2) in
        if c1 < 48 \<or> c1 > 57 \<or> c2 < 48 \<or> c2 > 52 then throw ''Invalid register name''
        else ret (of_int ((c1 - 48) * 10 + (c2 - 48))))
     else if name = ''sp'' then ret REG_SP
     else if name = ''pc'' then ret REG_PC
     else if name = ''zf'' then ret REG_ZF
     else throw ''Invalid register name'')"

section \<open>Memory\<close>

definition mvm0_range_error :: string where
  "mvm0_range_error = ''Memory address out of range (0-2048)''"

definition mvm0_read_mem :: "vm_ptr_t \<Rightarrow> vm_size_t \<Rightarrow> (CPU, bytes) act" where
  "mvm0_read_mem addr sz =
    (if addr \<ge> MEM_SIZE \<or> addr + sz > MEM_SIZE then throw mvm0_range_error
     else gets (\<lambda>cpu. map (\<lambda>i. if i < unat MEM_ROM_SIZE then cpu_ram cpu ! i else 0)
       [unat addr..<unat (addr + sz)]))"

fun write_loop :: "nat list \<Rightarrow> bytes \<Rightarrow> (CPU, unit) act" where
  "write_loop [] buf = ret ()"
| "write_loop (i # is) buf =
     then_act (if i < unat MEM_ROM_SIZE then
         then_act (in_bounds (buf \<noteq> [])) (modify (\<lambda>cpu. cpu\<lparr>cpu_ram := (cpu_ram cpu)[i := hd buf]\<rparr>))
       else ret ())
     (write_loop is (tl buf))"

definition mvm0_write_mem :: "vm_ptr_t \<Rightarrow> vm_size_t \<Rightarrow> bytes \<Rightarrow> (CPU, unit) act" where
  "mvm0_write_mem addr sz buf =
    (if addr \<ge> MEM_SIZE \<or> addr + sz > MEM_SIZE then throw mvm0_range_error
     else write_loop [unat addr..<unat (addr + sz)] buf)"

section \<open>Symbols and code\<close>

fun get_symbols_loop :: "Ins list \<Rightarrow> nat list \<Rightarrow> vm_sym_t list" where
  "get_symbols_loop insns [] = []"
| "get_symbols_loop insns (i # is) =
    (let idx = i - unat MEM_CODE_START in
     if idx \<ge> length insns then []
     else if def_sym (insns ! idx) \<noteq> SYM_NONE
     then ucast (def_sym (insns ! idx)) # get_symbols_loop insns is
     else get_symbols_loop insns is)"

definition mvm0_get_symbols :: "vm_ptr_t \<Rightarrow> vm_size_t \<Rightarrow> (CPU, vm_sym_t list) act" where
  "mvm0_get_symbols addr sz =
    (if addr \<ge> MEM_SIZE \<or> addr + sz > MEM_SIZE then throw mvm0_range_error
     else gets (\<lambda>cpu. get_symbols_loop (rom_ins (cpu_rom cpu))
       [unat (max addr MEM_CODE_START)..<unat (addr + sz)]))"

definition mvm0_get_symb_infos :: "vm_sym_t \<Rightarrow> (CPU, SymbolInfos) act" where
  "mvm0_get_symb_infos idx = bind_act (gets cpu_rom) (\<lambda>rom.
    if unat idx \<ge> length (rom_syms rom) then throw ''Invalid symbol index''
    else then_act (in_bounds (unat idx < length (rom_sym_defs rom)))
      (ret \<lparr>si_idx = idx, si_name = rom_syms rom ! unat idx,
        si_addr = MEM_CODE_START + rom_sym_defs rom ! unat idx\<rparr>))"

definition mvm0_find_sym_id :: "string \<Rightarrow> (CPU, vm_sym_t) act" where
  "mvm0_find_sym_id name = bind_act (gets cpu_rom) (\<lambda>rom.
    case smap_find (rom_smap rom) name of
      None \<Rightarrow> throw ''Invalid symbol name''
    | Some s \<Rightarrow> ret (ucast s))"

text \<open>The operand of a jump: the symbol it names, between braces, or its value.\<close>

definition target_text :: "Ins \<Rightarrow> (CPU, string) act" where
  "target_text i =
    (if use_sym i \<noteq> SYM_NONE then ret (''{'' @ dec_of_nat (unat (use_sym i)) @ ''}'')
     else then_act (in_bounds (args i \<noteq> [])) (ret (dec_of_int (args i ! 0))))"

definition reg_text :: "int \<Rightarrow> (CPU, string) act" where
  "reg_text r = then_act (in_bounds (0 \<le> r \<and> nat r < length reg_names)) (ret (reg_names ! nat r))"

definition mvm0_get_code_text :: "vm_ptr_t \<Rightarrow> (CPU, string \<times> vm_size_t) act" where
  "mvm0_get_code_text addr =
    (if addr \<ge> MEM_SIZE then throw mvm0_range_error
     else if addr < MEM_CODE_START then ret ([], 1)
     else bind_act (gets (\<lambda>cpu. rom_ins (cpu_rom cpu))) (\<lambda>insns.
       let k = unat (addr - MEM_CODE_START) in
       if k \<ge> length insns then ret ([], 1)
       else let i = insns ! k; n = ins_name i in
         if n = ''movi'' then
           bind_act (target_text i) (\<lambda>t.
           then_act (in_bounds (1 < length (args i)))
           (bind_act (reg_text (args i ! 1)) (\<lambda>r. ret (''movi '' @ t @ '' '' @ r, 1))))
         else if n = ''b'' \<or> n = ''bz'' \<or> n = ''bn'' \<or> n = ''call'' then
           bind_act (target_text i) (\<lambda>t. ret (n @ '' '' @ t, 1))
         else if n = ''sys'' then
           then_act (in_bounds (args i \<noteq> [])) (ret (''sys '' @ dec_of_int (args i ! 0), 1))
         else bind_act (map_act reg_text (args i))
           (\<lambda>rs. ret (n @ concat (map (\<lambda>r. '' '' @ r) rs), 1))))"

definition mvm0_api :: "CPU VMApi" where
  "mvm0_api = \<lparr>api_get_vm_infos = mvm0_get_vm_infos, api_get_update_infos = mvm0_get_update_infos,
    api_get_reg = mvm0_get_reg, api_set_reg = mvm0_set_reg, api_find_reg_id = mvm0_find_reg_id,
    api_read_mem = mvm0_read_mem, api_write_mem = mvm0_write_mem,
    api_get_symbols = mvm0_get_symbols, api_get_symb_infos = mvm0_get_symb_infos,
    api_find_sym_id = mvm0_find_sym_id, api_get_code_text = mvm0_get_code_text\<rparr>"

section \<open>The symbol table of a ROM\<close>

definition rom_sym_at :: "ROM \<Rightarrow> vm_ptr_t \<Rightarrow> vm_sym_t option" where
  "rom_sym_at rom k =
    (let i = unat k - 1024 in
     if 1024 \<le> k \<and> k < 2048 \<and> i < length (rom_ins rom) \<and> def_sym (rom_ins rom ! i) \<noteq> SYM_NONE
     then Some (ucast (def_sym (rom_ins rom ! i))) else None)"

definition rom_sym_infos :: "ROM \<Rightarrow> vm_sym_t \<Rightarrow> SymbolInfos" where
  "rom_sym_infos rom s = \<lparr>si_idx = s, si_name = rom_syms rom ! unat s,
    si_addr = MEM_CODE_START + rom_sym_defs rom ! unat s\<rparr>"

text \<open>What the parser guarantees: every defined symbol has a name and its definition is where it says.\<close>

definition rom_ok :: "ROM \<Rightarrow> bool" where
  "rom_ok rom \<longleftrightarrow> length (rom_syms rom) = length (rom_sym_defs rom) \<and> length (rom_syms rom) < 2 ^ 32 \<and>
    list_all (\<lambda>i. def_sym (rom_ins rom ! i) \<noteq> SYM_NONE \<longrightarrow>
      unat (def_sym (rom_ins rom ! i)) < length (rom_syms rom) \<and>
      unat (rom_sym_defs rom ! unat (def_sym (rom_ins rom ! i))) = i) [0..<length (rom_ins rom)]"

lemma rom_sym_atD:
  assumes "rom_ok rom" "rom_sym_at rom k = Some s"
  shows "unat s < length (rom_syms rom)" "length (rom_sym_defs rom) = length (rom_syms rom)"
    "si_addr (rom_sym_infos rom s) = k" "k < MEM_SIZE"
proof -
  let ?i = "unat k - 1024"
  let ?d = "def_sym (rom_ins rom ! ?i)"
  have k: "1024 \<le> k" "k < 2048" "?i < length (rom_ins rom)" "?d \<noteq> SYM_NONE" "s = ucast ?d"
    using assms(2) by (simp_all add: rom_sym_at_def Let_def split: if_splits)
  have "?i \<in> set [0..<length (rom_ins rom)]" using k(3) by simp
  then have d: "unat ?d < length (rom_syms rom)" "unat (rom_sym_defs rom ! unat ?d) = ?i"
    "length (rom_syms rom) < 2 ^ 32"
    using assms(1) k(4) unfolding rom_ok_def list_all_iff by blast+
  then have s: "unat s = unat ?d"
    using k(5) by (simp add: unsigned_ucast_eq unsigned_take_bit_eq take_bit_nat_eq_self)
  have "unat k = 1024 + unat (rom_sym_defs rom ! unat ?d)"
    using k(1) d(2) by (simp add: word_le_nat_alt)
  then have "(of_nat (unat k) :: u64) = of_nat (1024 + unat (rom_sym_defs rom ! unat ?d))"
    by (rule arg_cong)
  then have "k = MEM_CODE_START + rom_sym_defs rom ! unat ?d" by (simp add: MEM_CODE_START_def)
  with s d(1) k(2) assms(1) show "unat s < length (rom_syms rom)"
    "length (rom_sym_defs rom) = length (rom_syms rom)" "si_addr (rom_sym_infos rom s) = k" "k < MEM_SIZE"
    by (simp_all add: rom_sym_infos_def rom_ok_def MEM_SIZE_def)
qed


lemma get_symbols_loop_set:
  "\<forall>i \<in> set is. 1024 \<le> i \<and> i < 2048 \<Longrightarrow> sorted_wrt (<) is \<Longrightarrow>
    set (get_symbols_loop (rom_ins rom) is) =
      {s. \<exists>i \<in> set is. rom_sym_at rom (of_nat i) = Some s}"
proof (induction "is")
  case (Cons i "is")
  then have i: "unat (of_nat i :: u64) = i" "1024 \<le> (of_nat i :: u64)" "(of_nat i :: u64) < 2048"
    by (auto simp: unat_of_nat_id word_le_nat_alt word_less_nat_alt)
  show ?case
  proof (cases "length (rom_ins rom) \<le> i - 1024")
    case True
    have "rom_sym_at rom (of_nat j) = None" if "j \<in> set (i # is)" for j
    proof -
      have "i \<le> j" "j < 2048" using that Cons.prems by auto
      then have "\<not> j - 1024 < length (rom_ins rom)" "unat (of_nat j :: u64) = j"
        using True by (auto simp: unat_of_nat_id)
      then show ?thesis by (simp add: rom_sym_at_def Let_def)
    qed
    then show ?thesis using True by (auto simp: MEM_CODE_START_def)
  next
    case False
    have eq: "rom_sym_at rom (of_nat i) = (if def_sym (rom_ins rom ! (i - 1024)) \<noteq> SYM_NONE
      then Some (ucast (def_sym (rom_ins rom ! (i - 1024)))) else None)"
      unfolding rom_sym_at_def Let_def i(1) using i(2,3) False by simp
    have "set (get_symbols_loop (rom_ins rom) is) = {s. \<exists>i \<in> set is. rom_sym_at rom (of_nat i) = Some s}"
      using Cons by auto
    then show ?thesis using False eq by (auto simp: MEM_CODE_START_def Let_def)
  qed
qed simp

lemma mvm0_get_symbols_run:
  assumes "a \<le> b" "b < MEM_SIZE"
  shows "\<exists>xs. mvm0_get_symbols a (b - a + 1) cpu = (Ret xs, cpu) \<and>
    set xs = {s. \<exists>k. a \<le> k \<and> k \<le> b \<and> rom_sym_at (cpu_rom cpu) k = Some s}"
proof -
  have e: "a + (b - a + 1) = b + 1" by simp
  have b: "unat (b + 1) = unat b + 1" "unat b < 2048" "unat a < 2048"
    using assms by (simp_all add: MEM_SIZE_def word_less_nat_alt word_le_nat_alt unat_word_ariths)
  let ?is = "[unat (max a MEM_CODE_START)..<unat (b + 1)]"
  have range: "i \<in> set ?is \<longleftrightarrow> unat a \<le> i \<and> 1024 \<le> i \<and> i \<le> unat b" for i
    unfolding b(1) by (auto simp: max_def MEM_CODE_START_def word_le_nat_alt)
  have "set (get_symbols_loop (rom_ins (cpu_rom cpu)) ?is) =
      {s. \<exists>i \<in> set ?is. rom_sym_at (cpu_rom cpu) (of_nat i) = Some s}"
    using b(2) range by (intro get_symbols_loop_set) (auto simp del: set_upt)
  also have "\<dots> = {s. \<exists>k. a \<le> k \<and> k \<le> b \<and> rom_sym_at (cpu_rom cpu) k = Some s}"
  proof (intro set_eqI iffI)
    fix s
    assume "s \<in> {s. \<exists>i \<in> set ?is. rom_sym_at (cpu_rom cpu) (of_nat i) = Some s}"
    then obtain i where "rom_sym_at (cpu_rom cpu) (of_nat i) = Some s" "unat a \<le> i" "i \<le> unat b"
      using range by blast
    then show "s \<in> {s. \<exists>k. a \<le> k \<and> k \<le> b \<and> rom_sym_at (cpu_rom cpu) k = Some s}"
      using b(2) by (auto intro!: exI [of _ "of_nat i"] simp: word_le_nat_alt unat_of_nat_id)
  next
    fix s
    assume "s \<in> {s. \<exists>k. a \<le> k \<and> k \<le> b \<and> rom_sym_at (cpu_rom cpu) k = Some s}"
    then obtain k where k: "rom_sym_at (cpu_rom cpu) k = Some s" "a \<le> k" "k \<le> b" by blast
    then have "1024 \<le> k" by (auto simp: rom_sym_at_def Let_def split: if_splits)
    with k have "unat k \<in> set ?is" unfolding range by (simp add: word_le_nat_alt)
    with k(1) show "s \<in> {s. \<exists>i \<in> set ?is. rom_sym_at (cpu_rom cpu) (of_nat i) = Some s}"
      by (auto intro!: bexI [of _ "unat k"])
  qed
  finally show ?thesis
    using b by (simp add: mvm0_get_symbols_def e MEM_SIZE_def word_le_nat_alt word_less_nat_alt not_le not_less)
qed

interpretation mvm0: vm_symbols mvm0_api "\<lambda>cpu. cpu_rom cpu = rom \<and> rom_ok rom" MEM_SIZE
  "\<lambda>k. if rom_ok rom then rom_sym_at rom k else None" "rom_sym_infos rom" for rom
proof unfold_locales
  fix v :: CPU and a b :: vm_ptr_t
  assume v: "cpu_rom v = rom \<and> rom_ok rom" and ab: "a \<le> b" "b < MEM_SIZE"
  then show "\<exists>xs v'. api_get_symbols mvm0_api a (b - a + 1) v = (Ret xs, v') \<and>
      (cpu_rom v' = rom \<and> rom_ok rom) \<and>
      set xs = {s. \<exists>k. a \<le> k \<and> k \<le> b \<and> (if rom_ok rom then rom_sym_at rom k else None) = Some s}"
    using mvm0_get_symbols_run [OF ab, of v] by (auto simp: mvm0_api_def)
next
  fix v :: CPU and k s
  assume v: "cpu_rom v = rom \<and> rom_ok rom" and s: "(if rom_ok rom then rom_sym_at rom k else None) = Some s"
  then show "\<exists>v'. api_get_symb_infos mvm0_api s v = (Ret (rom_sym_infos rom s), v') \<and> cpu_rom v' = rom \<and> rom_ok rom"
    using rom_sym_atD(1,2) [of rom k s]
    by (auto simp: mvm0_api_def mvm0_get_symb_infos_def rom_sym_infos_def not_le)
next
  fix v v' :: CPU and r
  assume v: "cpu_rom v = rom \<and> rom_ok rom" and "api_get_update_infos mvm0_api v = (r, v')"
  moreover have "keeps (\<lambda>cpu. cpu_rom cpu = rom) mvm0_get_update_infos"
    unfolding mvm0_get_update_infos_def Let_def by (intro keeps_rules)
  ultimately show "cpu_rom v' = rom \<and> rom_ok rom"
    using keepsD [of "\<lambda>cpu. cpu_rom cpu = rom" mvm0_get_update_infos v r v'] by (simp add: mvm0_api_def)
qed (auto simp: rom_sym_atD mvm0_api_def mvm0_get_vm_infos_def split: if_splits)


section \<open>Properties\<close>

text \<open>
  C3. The symbol cache is transparent: a debugger started on any \<open>mvm0\<close> program answers every sequence
  of \<open>get_symbols\<close> queries, overlapping or not and in any order, with exactly the symbols the
  program defines in the queried range, in address order, and never aborts; afterwards
  \<open>get_symbol_at\<close> gives the symbol defined at each address, or \<open>VM_SYM_NULL\<close>.
\<close>

theorem mvm0_symbol_queries_exact:
  assumes "rom_ok (cpu_rom cpu)"
    and "on_init mvm0_api (Debugger_new cpu infos0 g) = (Ret (), d)"
    and "\<forall>(a, sz) \<in> set qs. a < 2048 \<and> sz < 2 ^ 63"
  shows "\<exists>d'. map_act (\<lambda>(a, sz). get_symbols mvm0_api a sz) qs d =
      (Ret (map (\<lambda>(a, sz). symbols_in (rom_sym_at (cpu_rom cpu)) a sz) qs), d') \<and>
    (\<forall>a. a < 2048 \<longrightarrow> fst (get_symbol_at mvm0_api a d') =
      Ret (case rom_sym_at (cpu_rom cpu) a of None \<Rightarrow> VM_SYM_NULL | Some s \<Rightarrow> s))"
proof -
  have "mvm0.cache_ok (cpu_rom cpu) d"
    using mvm0.cache_ok_init [OF assms(2)] assms(1) by blast
  moreover have "a < MEM_SIZE \<and> unat a + max (unat sz) 256 < 2 ^ 64" if "(a, sz) \<in> set qs" for a sz
    using assms(3) that by (fastforce simp: MEM_SIZE_def word_less_nat_alt)
  ultimately obtain d' where d': "map_act (\<lambda>(a, sz). get_symbols mvm0_api a sz) qs d =
      (Ret (map (\<lambda>(a, sz). symbols_in (rom_sym_at (cpu_rom cpu)) a sz) qs), d')" "mvm0.cache_ok (cpu_rom cpu) d'"
    using mvm0.get_symbols_all [of "cpu_rom cpu" d qs] assms(1) by auto
  have "fst (get_symbol_at mvm0_api a d') =
      Ret (case rom_sym_at (cpu_rom cpu) a of None \<Rightarrow> VM_SYM_NULL | Some s \<Rightarrow> s)" if "a < 2048" for a
    using mvm0.get_symbol_at_run [OF d'(2), of a] that assms(1) by (auto simp: MEM_SIZE_def)
  with d'(1) show ?thesis by blast
qed

definition sample_rom :: ROM where
  "sample_rom =
    \<lparr>rom_ins = [\<lparr>def_sym = 0, use_sym = SYM_NONE, ins_name = ''movi'', args = [4, 0]\<rparr>,
       \<lparr>def_sym = SYM_NONE, use_sym = 1, ins_name = ''call'', args = [1026]\<rparr>,
       \<lparr>def_sym = 1, use_sym = SYM_NONE, ins_name = ''ret'', args = []\<rparr>],
     rom_sym_defs = [0, 2], rom_syms = [''main'', ''sub''], rom_smap = [(''main'', 0), (''sub'', 1)]\<rparr>"

definition sample_cpu :: CPU where
  "sample_cpu = \<lparr>cpu_regs = (replicate 15 0) @ [1024], cpu_pc = 1024, cpu_prev_pc = 0, cpu_zf = 0,
    cpu_ram = replicate 1024 0, cpu_guard = 0, cpu_rom = sample_rom, cpu_status = Status_OK\<rparr>"

definition sample_debugger :: "CPU Debugger" where
  "sample_debugger = snd (on_init mvm0_api (Debugger_new sample_cpu script_infos 0))"

lemma sample_init: "on_init mvm0_api (Debugger_new sample_cpu script_infos 0) = (Ret (), sample_debugger)"
  by (simp add: sample_debugger_def on_init_def Debugger_new_def set_state_def vm_call_def lift_act_def
      bind_act_def then_act_def mvm0_api_def mvm0_get_vm_infos_def mvm0_get_update_infos_def sample_cpu_def)

lemma sample_rom_ok: "rom_ok (cpu_rom sample_cpu)"
  by (simp add: rom_ok_def sample_rom_def sample_cpu_def SYM_NONE_def upt_rec)

theorem mvm0_symbol_queries_exact_witness:
  "fst (map_act (\<lambda>(a, sz). get_symbols mvm0_api a sz) [(1025, 2), (1024, 3), (7, 5)] sample_debugger) =
    Ret [[1], [0, 1], []]"
proof -
  have "\<forall>(a, sz) \<in> set [(1025 :: u64, 2 :: u64), (1024, 3), (7, 5)]. a < 2048 \<and> sz < 2 ^ 63" by simp
  then obtain d' where "map_act (\<lambda>(a, sz). get_symbols mvm0_api a sz) [(1025, 2), (1024, 3), (7, 5)] sample_debugger =
      (Ret (map (\<lambda>(a, sz). symbols_in (rom_sym_at (cpu_rom sample_cpu)) a sz) [(1025, 2), (1024, 3), (7, 5)]), d')"
    using mvm0_symbol_queries_exact [OF sample_rom_ok sample_init] by blast
  moreover have "map (\<lambda>(a, sz). symbols_in (rom_sym_at (cpu_rom sample_cpu)) a sz) [(1025, 2), (1024, 3), (7, 5)] =
      [[1], [0, 1], []]"
    by code_simp
  ultimately show ?thesis by simp
qed

text \<open>
  C13. A symbol query at an address outside the memory, which a client may send, fails the assertion
  of the range map and ends the server process instead of raising a \<open>VMApi::Error\<close>.
\<close>

theorem symbol_query_outside_aborts:
  assumes "db_reach api d" "vi_memory_size (d_infos d) \<noteq> 0" "vi_memory_size (d_infos d) \<le> addr"
  shows "get_symbols api addr sz d = (Abort Assert_failed, d)"
proof -
  have "db_ok d" using assms(1) by (induction rule: db_reach.induct) (auto intro: on_init_Ret db_ok_step)
  then obtain m where m: "d_syms_ranges d = Some m" "rm_max m = vi_memory_size (d_infos d) - 1"
    by (auto simp: db_ok_def ranges_ok_def)
  moreover have "\<not> addr \<le> vi_memory_size (d_infos d) - 1"
    using assms(2,3) word_le_dec [of 0 "vi_memory_size (d_infos d)" addr] by (simp add: word_gt_0)
  ultimately show ?thesis
    by (simp add: get_symbols_def preload_symbols_def syms_range_of_def rm_range_of_def bind_act_def then_act_def Let_def)
qed

theorem symbol_query_outside_aborts_witness:
  "get_symbols mvm0_api 2048 1 sample_debugger = (Abort Assert_failed, sample_debugger)"
proof (rule symbol_query_outside_aborts)
  show "db_reach mvm0_api sample_debugger" using sample_init by (rule reach_init)
  have "vi_memory_size (d_infos sample_debugger) = 2048" by code_simp
  then show "vi_memory_size (d_infos sample_debugger) \<noteq> 0" "vi_memory_size (d_infos sample_debugger) \<le> 2048"
    by simp_all
qed

end
