(* ===== verification/Db_Client_Cache.thy ===== *)
theory Db_Client_Cache
  imports Db_Client
begin

text \<open>
  The register cache of \<open>DBClient\<close> against the contract of the register file behind it, the locale
  \<open>register_file\<close>: what \<open>get_regs_infos\<close> and \<open>get_regs\<close> of the implementation answer. While the
  machine is stopped the cache is coherent: a value it holds is the register's value, and
  \<open>get_regs\<close> returns the values of the registers whether they were cached or not.
\<close>

lemma impl_call_Ret: "m (c_peer c) = (Ret x, s) \<Longrightarrow> impl_call m c = (Ret x, c\<lparr>c_peer := s\<rparr>)"
  by (simp add: impl_call_def lift_act_def)

lemma assert_state_then: "c_state c = st \<Longrightarrow> then_act (assert_state st) m c = m c"
  by (simp add: assert_state_def then_act_def bind_act_def)

lemma strip_val_simps [simp]:
  "ri_idx (strip_val i) = ri_idx i" "ri_name (strip_val i) = ri_name i" "ri_size (strip_val i) = ri_size i"
  "ri_kind (strip_val i) = ri_kind i" "ri_val (strip_val i) = []" "strip_val (i\<lparr>ri_val := v\<rparr>) = strip_val i"
  "strip_val (strip_val i) = strip_val i"
  by (simp_all add: strip_val_def)

lemma then_act_run: "m s = (Ret x, s') \<Longrightarrow> then_act m n s = n s'"
  by (simp add: then_act_def bind_act_def)

lemma map_act_pure: "\<forall>x \<in> set xs. f x s = (Ret (g x), s) \<Longrightarrow> map_act f xs s = (Ret (map g xs), s)"
  by (induction xs) (simp_all add: bind_act_def)

section \<open>Sessions of a client\<close>

text \<open>The calls a client passes on to the implementation, whatever they return.\<close>

definition passes_on :: "'s DBClientImpl \<Rightarrow> 's DBClient \<Rightarrow> 's DBClient \<Rightarrow> bool" where
  "passes_on im c c' \<longleftrightarrow> (\<exists>a z b n. c' = snd (cl_read_mem im a z b n c) \<or> c' = snd (cl_write_mem im a z b n c)) \<or>
    (\<exists>a z. c' = snd (cl_get_symbols_by_addr im a z c)) \<or> (\<exists>ids out n. c' = snd (cl_get_symbols_by_ids im ids out n c)) \<or>
    (\<exists>ns out n. c' = snd (cl_get_symbols_by_names im ns out n c)) \<or> (\<exists>a n. c' = snd (cl_get_code_text im a n c)) \<or>
    (\<exists>a n. c' = snd (cl_add_breakpoints im a n c) \<or> c' = snd (cl_del_breakpoints im a n c))"

text \<open>
  What a client does with a machine: it connects; it reads, describes and looks up registers, with
  any arguments and whatever comes of it; it writes distinct registers (\<open>regs\<close>, of sizes \<open>sz\<close>, given one
  by one or as \<open>{size, 0}\<close>), or tries to write something that is no register; it uses memory, symbols,
  code and breakpoints; it resumes the program, which then changes the peer as \<open>runs\<close> says, and asks
  whether it stopped. \<open>DBClient::stop\<close> is not a step of a session.
\<close>

definition sizes_arg :: "vm_size_t list \<Rightarrow> vm_size_t list \<Rightarrow> bool" where
  "sizes_arg sizes szs \<longleftrightarrow> sizes = szs \<or> (\<exists>n rest. sizes = n # 0 # rest \<and> (\<forall>s \<in> set szs. s = n))"

inductive client_session :: "'s DBClientImpl \<Rightarrow> ('s \<Rightarrow> bool) \<Rightarrow> ('s \<Rightarrow> 's \<Rightarrow> bool) \<Rightarrow> (vm_reg_t \<Rightarrow> bool) \<Rightarrow>
    (vm_reg_t \<Rightarrow> vm_size_t) \<Rightarrow> 's DBClient \<Rightarrow> bool"
  for im start runs regs sz where
  session_connect: "start s \<Longrightarrow> cl_connect im (DBClient_new s udp0 infos0) = (Ret (), c) \<Longrightarrow>
    client_session im start runs regs sz c"
| session_read: "client_session im start runs regs sz c \<Longrightarrow>
    client_session im start runs regs sz (snd (cl_get_regs im ids bufs sizes c))"
| session_infos: "client_session im start runs regs sz c \<Longrightarrow>
    client_session im start runs regs sz (snd (cl_get_regs_infos im ids c))"
| session_find: "client_session im start runs regs sz c \<Longrightarrow>
    client_session im start runs regs sz (snd (cl_find_regs_ids im names c))"
| session_write: "client_session im start runs regs sz c \<Longrightarrow> \<forall>r \<in> set ids. regs r \<Longrightarrow> distinct ids \<Longrightarrow>
    map length bufs = map (\<lambda>r. unat (sz r)) ids \<Longrightarrow>
    sizes_arg sizes (map sz ids) \<Longrightarrow> cl_set_regs im ids bufs sizes c = (Ret (), c') \<Longrightarrow> client_session im start runs regs sz c'"
| session_write_other: "client_session im start runs regs sz c \<Longrightarrow> r \<in> set ids \<Longrightarrow> \<not> regs r \<Longrightarrow>
    client_session im start runs regs sz (snd (cl_set_regs im ids bufs sizes c))"
| session_pass: "client_session im start runs regs sz c \<Longrightarrow> passes_on im c c' \<Longrightarrow> client_session im start runs regs sz c'"
| session_resume: "client_session im start runs regs sz c \<Longrightarrow> client_session im start runs regs sz (snd (cl_resume im type c))"
| session_run: "client_session im start runs regs sz c \<Longrightarrow> c_state c = VM_RUNNING \<Longrightarrow> runs (c_peer c) s' \<Longrightarrow>
    client_session im start runs regs sz (c\<lparr>c_peer := s'\<rparr>)"
| session_check: "client_session im start runs regs sz c \<Longrightarrow> client_session im start runs regs sz (snd (cl_check_stopped im c))"

text \<open>The peer after one of the calls passed on.\<close>

definition peer_call :: "'s DBClientImpl \<Rightarrow> 's \<Rightarrow> 's \<Rightarrow> bool" where
  "peer_call im s s' \<longleftrightarrow> (\<exists>a z b n. s' = snd (im_read_mem im a z b n s) \<or> s' = snd (im_write_mem im a z b n s)) \<or>
    (\<exists>a z. s' = snd (im_get_symbols_by_addr im a z s)) \<or> (\<exists>ids out n. s' = snd (im_get_symbols_by_ids im ids out n s)) \<or>
    (\<exists>ns out n. s' = snd (im_get_symbols_by_names im ns out n s)) \<or> (\<exists>a n. s' = snd (im_get_code_text im a n s)) \<or>
    (\<exists>a n. s' = snd (im_add_breakpoints im a n s) \<or> s' = snd (im_del_breakpoints im a n s))"

lemma when_stopped_snd:
  "snd (when_stopped m c) = (if c_state c = VM_STOPPED then c\<lparr>c_peer := snd (m (c_peer c))\<rparr> else c)"
  by (auto simp: when_stopped_def assert_state_def impl_call_def lift_act_def then_act_def bind_act_def split: prod.split)

lemma passes_on_peer:
  assumes "passes_on im c c'"
  shows "c' = c \<or> (\<exists>s'. peer_call im (c_peer c) s' \<and> c' = c\<lparr>c_peer := s'\<rparr>)"
proof (cases "c_state c = VM_STOPPED")
  case True
  note defs = cl_read_mem_def cl_write_mem_def cl_get_symbols_by_addr_def cl_get_symbols_by_ids_def
    cl_get_symbols_by_names_def cl_get_code_text_def cl_add_breakpoints_def cl_del_breakpoints_def
  have "peer_call im (c_peer c) (c_peer c') \<and> c' = c\<lparr>c_peer := c_peer c'\<rparr>"
    using assms unfolding passes_on_def defs when_stopped_snd if_P [OF True]
    by (elim disjE exE; simp add: peer_call_def; blast)
  then show ?thesis by blast
next
  case False
  then show ?thesis
    using assms unfolding passes_on_def cl_read_mem_def cl_write_mem_def cl_get_symbols_by_addr_def cl_get_symbols_by_ids_def
      cl_get_symbols_by_names_def cl_get_code_text_def cl_add_breakpoints_def cl_del_breakpoints_def when_stopped_snd if_not_P [OF False]
    by blast
qed

lemma snd_then_act: "snd (then_act m n s) = (case m s of (Ret x, s1) \<Rightarrow> snd (n s1) | (_, s1) \<Rightarrow> s1)"
  by (simp add: then_act_def bind_act_def split: prod.split outcome.split)

lemma snd_assert_state: "snd (then_act (assert_state st) m c) = (if c_state c = st then snd (m c) else c)"
  by (simp add: assert_state_def then_act_def bind_act_def)

lemma keeps_same: "keeps (\<lambda>d. d = c) m \<Longrightarrow> snd (m c) = c"
  by (simp add: keeps_def)

lemma keeps_cached_reg: "keeps P (cached_reg r)"
  unfolding cached_reg_def cache_pos_def by (intro keeps_rules)

lemma assert_state_Ret: "then_act (assert_state st) m c = (Ret x, c') \<longleftrightarrow> c_state c = st \<and> m c = (Ret x, c')"
  by (auto simp: assert_state_def then_act_eq_Ret bind_act_eq_Ret assert_act_def split: if_splits)

lemma impl_call_eq_Ret: "impl_call m c = (Ret x, c') \<longleftrightarrow> (\<exists>s. m (c_peer c) = (Ret x, s) \<and> c' = c\<lparr>c_peer := s\<rparr>)"
  by (auto simp: impl_call_def lift_act_def split: prod.splits)

lemma assert_state_eq_Ret: "assert_state st c = (Ret x, c') \<longleftrightarrow> c_state c = st \<and> c' = c"
  by (auto simp: assert_state_def bind_act_eq_Ret assert_act_def split: if_splits)

lemmas client_Ret = assert_state_eq_Ret impl_call_eq_Ret then_act_eq_Ret bind_act_eq_Ret

section \<open>Registers behind a client\<close>

locale register_file =
  fixes im :: "'s DBClientImpl"
    and inv :: "'s \<Rightarrow> bool"
    and regs :: "vm_reg_t \<Rightarrow> bool"
    and infos_of :: "vm_reg_t \<Rightarrow> RegInfos"
    and val_of :: "'s \<Rightarrow> vm_reg_t \<Rightarrow> bytes"
  assumes infos_law: "inv s \<Longrightarrow> \<forall>r \<in> set ids. regs r \<Longrightarrow> length out = length ids \<Longrightarrow>
      \<exists>xs s'. im_get_regs_infos im ids out (length ids) s = (Ret xs, s') \<and>
        map strip_val xs = map infos_of ids \<and> inv s' \<and> val_of s' = val_of s"
    and vals_law: "inv s \<Longrightarrow> \<forall>r \<in> set ids. regs r \<Longrightarrow>
      map length rows = map (\<lambda>r. unat (ri_size (infos_of r))) ids \<Longrightarrow>
      \<exists>s'. im_get_regs im ids rows sizes (length ids) s = (Ret (map (val_of s) ids), s') \<and>
        inv s' \<and> val_of s' = val_of s"
    and infos_idx: "regs r \<Longrightarrow> ri_idx (infos_of r) = r"
    and val_size: "inv s \<Longrightarrow> regs r \<Longrightarrow> length (val_of s r) = unat (ri_size (infos_of r))"
    and size_pos: "regs r \<Longrightarrow> ri_size (infos_of r) \<noteq> 0"
begin

text \<open>The entry of a register \<open>r\<close> at position \<open>k\<close>; a value it holds is right, unless \<open>r\<close> is in \<open>S\<close>.\<close>

definition entry_ok :: "vm_reg_t set \<Rightarrow> 's \<Rightarrow> RegInfos list \<Rightarrow> vm_reg_t \<Rightarrow> nat \<Rightarrow> bool" where
  "entry_ok S s arr r k \<longleftrightarrow> regs r \<and> k < length arr \<and> strip_val (arr ! k) = infos_of r \<and>
    (r \<in> S \<or> ri_val (arr ! k) = [] \<or> ri_val (arr ! k) = val_of s r)"

definition cache_except :: "vm_reg_t set \<Rightarrow> 's DBClient \<Rightarrow> bool" where
  "cache_except S c \<longleftrightarrow> inv (c_peer c) \<and> smap_ok (c_regi_idx_map c) \<and>
    (\<forall>r k. smap_find (c_regi_idx_map c) r = Some k \<longrightarrow> entry_ok S (c_peer c) (c_regi_arr c) r k)"

text \<open>The effect of a fetch a client can see: none.\<close>

definition same_view :: "vm_reg_t set \<Rightarrow> 's DBClient \<Rightarrow> 's DBClient \<Rightarrow> bool" where
  "same_view S c c' \<longleftrightarrow> cache_except S c' \<and> c_state c' = c_state c \<and> val_of (c_peer c') = val_of (c_peer c)"

definition known :: "'s DBClient \<Rightarrow> vm_reg_t \<Rightarrow> bool" where
  "known c r \<longleftrightarrow> smap_find (c_regi_idx_map c) r \<noteq> None"

text \<open>A register whose value is in the cache.\<close>

definition cached :: "'s DBClient \<Rightarrow> vm_reg_t \<Rightarrow> bool" where
  "cached c r \<longleftrightarrow> (\<exists>k. smap_find (c_regi_idx_map c) r = Some k \<and> ri_val (c_regi_arr c ! k) \<noteq> [])"

lemma val_nonempty: "inv s \<Longrightarrow> regs r \<Longrightarrow> val_of s r \<noteq> []"
  using val_size size_pos by (metis length_0_conv unat_eq_zero)

lemma entry_okD:
  assumes "entry_ok S s arr r k"
  shows "regs r" "k < length arr" "ri_idx (arr ! k) = r" "ri_size (arr ! k) = ri_size (infos_of r)"
    "r \<notin> S \<Longrightarrow> ri_val (arr ! k) \<noteq> [] \<Longrightarrow> ri_val (arr ! k) = val_of s r"
proof -
  have e: "regs r" "k < length arr" "strip_val (arr ! k) = infos_of r"
    and v: "r \<in> S \<or> ri_val (arr ! k) = [] \<or> ri_val (arr ! k) = val_of s r"
    using assms by (simp_all add: entry_ok_def)
  then show "regs r" "k < length arr" by blast+
  show "ri_idx (arr ! k) = r" "ri_size (arr ! k) = ri_size (infos_of r)"
    using e infos_idx by (metis strip_val_simps(1), metis strip_val_simps(3))
  show "r \<notin> S \<Longrightarrow> ri_val (arr ! k) \<noteq> [] \<Longrightarrow> ri_val (arr ! k) = val_of s r" using v by blast
qed

lemma cache_entry:
  "cache_except S c \<Longrightarrow> smap_find (c_regi_idx_map c) r = Some k \<Longrightarrow> entry_ok S (c_peer c) (c_regi_arr c) r k"
  by (simp add: cache_except_def)

lemma entry_mono: "entry_ok S s arr r k \<Longrightarrow> S \<subseteq> S' \<Longrightarrow> entry_ok S' s arr r k"
  by (auto simp: entry_ok_def)

lemma same_view_refl: "cache_except S c \<Longrightarrow> same_view S c c"
  by (simp add: same_view_def)

lemma same_view_trans: "same_view S c c' \<Longrightarrow> same_view S' c' c'' \<Longrightarrow> same_view S' c c''"
  by (simp add: same_view_def)

lemma cache_pos_run: "cache_except S c \<Longrightarrow> smap_find (c_regi_idx_map c) r = Some k \<Longrightarrow> cache_pos r c = (Ret k, c)"
  by (simp add: cache_pos_def entry_okD(2) [OF cache_entry])

lemma cached_reg_run:
  "cache_except S c \<Longrightarrow> smap_find (c_regi_idx_map c) r = Some k \<Longrightarrow> cached_reg r c = (Ret (c_regi_arr c ! k), c)"
  by (simp add: cached_reg_def bind_act_def cache_pos_run)

lemma index_infos_frame [simp]:
  "c_regi_arr (index_infos i xs c) = c_regi_arr c" "c_peer (index_infos i xs c) = c_peer c"
  "c_state (index_infos i xs c) = c_state c"
  by (induction i xs c rule: index_infos.induct) simp_all

lemma index_infos_map:
  assumes "smap_ok (c_regi_idx_map c)"
  shows "smap_ok (c_regi_idx_map (index_infos i xs c)) \<and>
    (\<forall>r k. smap_find (c_regi_idx_map (index_infos i xs c)) r = Some k \<longrightarrow>
      smap_find (c_regi_idx_map c) r = Some k \<or> (\<exists>j < length xs. k = i + j \<and> ri_idx (xs ! j) = r)) \<and>
    (\<forall>r. smap_find (c_regi_idx_map c) r \<noteq> None \<or> r \<in> ri_idx ` set xs \<longrightarrow>
      smap_find (c_regi_idx_map (index_infos i xs c)) r \<noteq> None)"
  using assms
proof (induction i xs c rule: index_infos.induct)
  case (2 i x xs c)
  let ?c = "c\<lparr>c_regi_idx_map := smap_emplace (ri_idx x) i (c_regi_idx_map c),
      c_regi_name_map := smap_emplace (ri_name x) i (c_regi_name_map c)\<rparr>"
  have ok: "smap_ok (c_regi_idx_map ?c)" using 2 by (simp add: smap_ok_emplace)
  have new: "smap_find (c_regi_idx_map ?c) r = Some k \<Longrightarrow>
      smap_find (c_regi_idx_map c) r = Some k \<or> k = i \<and> ri_idx x = r" for r k
    using 2(2) by (auto simp: smap_find_emplace split: if_splits)
  have keep: "smap_find (c_regi_idx_map c) r \<noteq> None \<or> r = ri_idx x \<Longrightarrow> smap_find (c_regi_idx_map ?c) r \<noteq> None" for r
    using 2(2) by (auto simp: smap_find_emplace)
  note IH = 2(1) [OF ok]
  show ?case
  proof (intro conjI allI impI)
    show "smap_ok (c_regi_idx_map (index_infos i (x # xs) c))" using IH by simp
  next
    fix r k
    assume "smap_find (c_regi_idx_map (index_infos i (x # xs) c)) r = Some k"
    then have "smap_find (c_regi_idx_map ?c) r = Some k \<or> (\<exists>j < length xs. k = Suc i + j \<and> ri_idx (xs ! j) = r)"
      using IH by simp
    then show "smap_find (c_regi_idx_map c) r = Some k \<or>
        (\<exists>j < length (x # xs). k = i + j \<and> ri_idx ((x # xs) ! j) = r)"
    proof
      assume "smap_find (c_regi_idx_map ?c) r = Some k"
      from new [OF this] show ?thesis by auto
    qed auto
  next
    fix r
    assume "smap_find (c_regi_idx_map c) r \<noteq> None \<or> r \<in> ri_idx ` set (x # xs)"
    then have "smap_find (c_regi_idx_map ?c) r \<noteq> None \<or> r \<in> ri_idx ` set xs"
      using keep [of r] by auto
    with IH show "smap_find (c_regi_idx_map (index_infos i (x # xs) c)) r \<noteq> None" unfolding index_infos.simps by blast
  qed
qed simp

lemma append_infos:
  assumes ok: "cache_except S c" and miss: "\<forall>r \<in> set miss. regs r" "map strip_val xs = map infos_of miss"
    and s: "inv s" "val_of s = val_of (c_peer c)"
    and c': "c' = index_infos (length (c_regi_arr c)) (map infos_of miss)
      (c\<lparr>c_peer := s, c_regi_arr := c_regi_arr c @ map infos_of miss\<rparr>)"
  shows "same_view S c c'" and "\<forall>r \<in> set miss. known c' r" and "known c r \<Longrightarrow> known c' r"
proof -
  let ?a = "c_regi_arr c" and ?c = "c\<lparr>c_peer := s, c_regi_arr := c_regi_arr c @ map infos_of miss\<rparr>"
  have m: "smap_ok (c_regi_idx_map ?c)" using ok by (simp add: cache_except_def)
  have strip: "strip_val (infos_of r) = infos_of r \<and> ri_val (infos_of r) = []" if "r \<in> set miss" for r
  proof -
    have "infos_of r \<in> strip_val ` set xs" using miss(2) that by (metis image_eqI list.set_map)
    then show ?thesis by auto
  qed
  note im = index_infos_map [OF m, of "length ?a" "map infos_of miss"]
  have idx1: "smap_ok (c_regi_idx_map c')" using im by (simp add: c')
  have idx2: "smap_find (c_regi_idx_map c) r = Some k \<or> (\<exists>j < length miss. k = length ?a + j \<and> miss ! j = r)"
    if "smap_find (c_regi_idx_map c') r = Some k" for r k
  proof -
    have "smap_find (c_regi_idx_map ?c) r = Some k \<or> (\<exists>j < length (map infos_of miss).
        k = length ?a + j \<and> ri_idx (map infos_of miss ! j) = r)"
      using im that unfolding c' by blast
    then show ?thesis using miss(1) infos_idx by auto
  qed
  have idx3: "known c' r" if "known c r \<or> r \<in> set miss" for r
  proof -
    have "smap_find (c_regi_idx_map ?c) r \<noteq> None \<or> r \<in> ri_idx ` set (map infos_of miss)"
      using that miss(1) infos_idx by (force simp: known_def)
    then show ?thesis using im unfolding c' known_def by blast
  qed
  have "entry_ok S s (c_regi_arr c') r k" if find: "smap_find (c_regi_idx_map c') r = Some k" for r k
    using idx2 [OF find]
  proof
    assume "smap_find (c_regi_idx_map c) r = Some k"
    from cache_entry [OF ok this] show ?thesis by (auto simp: c' s entry_ok_def nth_append)
  next
    assume "\<exists>j < length miss. k = length ?a + j \<and> miss ! j = r"
    then show ?thesis using miss(1) strip by (auto simp: c' entry_ok_def nth_append)
  qed
  then show "same_view S c c'" using s idx1 by (simp add: same_view_def cache_except_def c')
  show "\<forall>r \<in> set miss. known c' r" and "known c r \<Longrightarrow> known c' r" using idx3 by blast+
qed

lemma fetch_infos_run:
  assumes "cache_except S c" "\<forall>r \<in> set ids. regs r"
  shows "\<exists>c'. fetch_reg_infos_by_id im ids c = (Ret (), c') \<and> same_view S c c' \<and> (\<forall>r \<in> set ids. known c' r)"
proof -
  define miss where "miss = filter (\<lambda>r. smap_find (c_regi_idx_map c) r = None) ids"
  show ?thesis
  proof (cases "miss = []")
    case True
    then show ?thesis
      using assms(1) same_view_refl
      by (auto simp: fetch_reg_infos_by_id_def bind_act_def known_def filter_empty_conv simp flip: miss_def)
        (auto simp: miss_def filter_empty_conv)
  next
    case False
    have regs: "\<forall>r \<in> set miss. regs r" and i: "inv (c_peer c)"
      using assms by (simp_all add: miss_def cache_except_def)
    obtain xs s where call: "im_get_regs_infos im miss (replicate (length miss) (cnull RegInfos_codec)) (length miss) (c_peer c) = (Ret xs, s)"
      and xs: "map strip_val xs = map infos_of miss" and s: "inv s" "val_of s = val_of (c_peer c)"
      using infos_law [OF i regs, of "replicate (length miss) (cnull RegInfos_codec)"] by auto
    define c' where "c' = index_infos (length (c_regi_arr c)) (map infos_of miss)
        (c\<lparr>c_peer := s, c_regi_arr := c_regi_arr c @ map infos_of miss\<rparr>)"
    note app = append_infos [OF assms(1) regs xs s c'_def]
    have "fetch_reg_infos_by_id im ids c = (Ret (), c')"
      using False by (simp add: fetch_reg_infos_by_id_def bind_act_def impl_call_def lift_act_def call xs c'_def Let_def flip: miss_def)
    moreover have "known c' r" if "r \<in> set ids" for r
      using that app(2,3) by (cases "known c r") (auto simp: miss_def known_def)
    ultimately show ?thesis using app(1) by blast
  qed
qed

lemma missing_vals_run:
  assumes "cache_except S c" "\<forall>r \<in> set ids. known c r"
  shows "missing_vals ids c = (Ret (map (\<lambda>r. (r, ri_size (infos_of r))) (filter (\<lambda>r. \<not> cached c r) ids)), c)"
  using assms(2)
proof (induction ids)
  case (Cons r rs)
  then obtain k where k: "smap_find (c_regi_idx_map c) r = Some k" by (auto simp: known_def)
  moreover have "cached c r \<longleftrightarrow> ri_val (c_regi_arr c ! k) \<noteq> []" using k by (simp add: cached_def)
  ultimately show ?case
    using Cons entry_okD [OF cache_entry [OF assms(1) k]] by (simp add: bind_act_def cached_reg_run [OF assms(1) k])
qed simp

text \<open>Storing the right value of a register.\<close>

lemma set_cached_run:
  assumes ok: "cache_except S c" and r: "known c r" and v: "v = val_of (c_peer c) r"
  shows "\<exists>c'. set_cached_val r v c = (Ret (), c') \<and> same_view (S - {r}) c c' \<and> c_peer c' = c_peer c \<and>
    (\<forall>r'. known c' r' = known c r') \<and> (\<forall>r'. cached c' r' = (cached c r' \<or> r' = r))"
proof -
  obtain k where k: "smap_find (c_regi_idx_map c) r = Some k" using r by (auto simp: known_def)
  note e = cache_entry [OF ok k]
  let ?a = "c_regi_arr c"
  define c' where "c' = c\<lparr>c_regi_arr := ?a[k := (?a ! k)\<lparr>ri_val := v\<rparr>]\<rparr>"
  have run: "set_cached_val r v c = (Ret (), c')"
    by (simp add: set_cached_val_def bind_act_def cache_pos_run [OF ok k] c'_def)
  have pos: "k \<noteq> j" if "smap_find (c_regi_idx_map c) r' = Some j" "r' \<noteq> r" for r' j
    using entry_okD(3) [OF e] entry_okD(3) [OF cache_entry [OF ok that(1)]] that(2) by auto
  have ne: "v \<noteq> []" using val_nonempty e ok v by (simp add: cache_except_def entry_ok_def)
  have "entry_ok (S - {r}) (c_peer c) (c_regi_arr c') r' j" if f: "smap_find (c_regi_idx_map c) r' = Some j" for r' j
  proof (cases "r' = r")
    case True
    then show ?thesis using e f k v by (auto simp: c'_def entry_ok_def)
  next
    case False
    then show ?thesis using cache_entry [OF ok f] pos [OF f] by (auto simp: c'_def entry_ok_def)
  qed
  then have "same_view (S - {r}) c c'" using ok by (simp add: same_view_def cache_except_def c'_def)
  moreover have "cached c' r' = (cached c r' \<or> r' = r)" for r'
    using k pos ne entry_okD(2) [OF e] by (cases "r' = r") (auto simp: cached_def c'_def)
  ultimately show ?thesis using run by (auto simp: known_def c'_def)
qed

text \<open>An action that stores the right value of register \<open>r\<close> of the peer \<open>s\<close>; a loop of such actions.\<close>

definition stores :: "('s DBClient, unit) act \<Rightarrow> vm_reg_t \<Rightarrow> 's \<Rightarrow> bool" where
  "stores m r s \<longleftrightarrow> (\<forall>S c. cache_except S c \<longrightarrow> known c r \<longrightarrow> c_peer c = s \<longrightarrow>
    (\<exists>c'. m c = (Ret (), c') \<and> same_view (S - {r}) c c' \<and> c_peer c' = s \<and>
      (\<forall>r'. known c' r' = known c r') \<and> (\<forall>r'. cached c' r' = (cached c r' \<or> r' = r))))"

lemma set_cached_stores: "v = val_of s r \<Longrightarrow> stores (set_cached_val r v) r s"
  unfolding stores_def using set_cached_run by blast

lemma iter_stores:
  assumes "\<forall>x \<in> set xs. stores (f x) (key x) (c_peer c)" "cache_except S c" "\<forall>x \<in> set xs. known c (key x)"
  shows "\<exists>c'. iter_act f xs c = (Ret (), c') \<and> same_view (S - key ` set xs) c c' \<and> c_peer c' = c_peer c \<and>
    (\<forall>r. cached c' r = (cached c r \<or> r \<in> key ` set xs))"
  using assms
proof (induction xs arbitrary: S c)
  case Nil
  then show ?case by (auto intro: same_view_refl)
next
  case (Cons x xs)
  then have "stores (f x) (key x) (c_peer c)" "known c (key x)" by simp_all
  then obtain c1 where c1: "f x c = (Ret (), c1)" "same_view (S - {key x}) c c1" "c_peer c1 = c_peer c"
    "\<forall>r'. known c1 r' = known c r'" "\<forall>r'. cached c1 r' = (cached c r' \<or> r' = key x)"
    using Cons.prems(2) unfolding stores_def by blast
  then have ok: "cache_except (S - {key x}) c1" by (simp add: same_view_def)
  obtain c2 where c2: "iter_act f xs c1 = (Ret (), c2)" "same_view (S - {key x} - key ` set xs) c1 c2" "c_peer c2 = c_peer c1"
    "\<forall>r'. cached c2 r' = (cached c1 r' \<or> r' \<in> key ` set xs)"
    using Cons.IH [OF _ ok] Cons.prems(1,3) c1(3,4) by auto
  have "S - key ` set (x # xs) = S - {key x} - key ` set xs" by auto
  then have "same_view (S - key ` set (x # xs)) c c2" using same_view_trans [OF c1(2) c2(2)] by simp
  moreover have "iter_act f (x # xs) c = (Ret (), c2)"
    using c1(1) c2(1) by (simp add: then_act_def bind_act_def)
  moreover have "cached c2 r' = (cached c r' \<or> r' \<in> key ` set (x # xs))" for r'
    using c1(5) c2(4) by auto
  ultimately show ?case using c1(3) c2(3) by auto
qed

lemma fetch_vals_run:
  assumes "cache_except {} c" "\<forall>r \<in> set ids. regs r"
  shows "\<exists>c'. fetch_reg_vals_by_id im ids c = (Ret (), c') \<and> same_view {} c c' \<and> (\<forall>r \<in> set ids. cached c' r)"
proof -
  obtain c1 where c1: "fetch_reg_infos_by_id im ids c = (Ret (), c1)" "same_view {} c c1" "\<forall>r \<in> set ids. known c1 r"
    using fetch_infos_run [OF assms] by blast
  then have ok: "cache_except {} c1" and i: "inv (c_peer c1)" by (simp_all add: same_view_def cache_except_def)
  let ?sz = "\<lambda>r. ri_size (infos_of r)"
  define miss where "miss = filter (\<lambda>r. \<not> cached c1 r) ids"
  have miss: "missing_vals ids c1 = (Ret (map (\<lambda>r. (r, ?sz r)) miss), c1)"
    using missing_vals_run [OF ok c1(3)] by (simp add: miss_def)
  show ?thesis
  proof (cases "miss = []")
    case True
    then show ?thesis
      using c1 miss by (auto simp: fetch_reg_vals_by_id_def then_act_def bind_act_def miss_def filter_empty_conv)
  next
    case False
    have regs: "\<forall>r \<in> set miss. regs r" using assms(2) by (simp add: miss_def)
    obtain s where call: "im_get_regs im miss (map (\<lambda>r. replicate (unat (?sz r)) 0) miss) (map ?sz miss) (length miss)
        (c_peer c1) = (Ret (map (val_of (c_peer c1)) miss), s)" and s: "inv s" "val_of s = val_of (c_peer c1)"
      using vals_law [OF i regs, of "map (\<lambda>r. replicate (unat (?sz r)) 0) miss" "map ?sz miss"] by auto
    let ?c2 = "c1\<lparr>c_peer := s\<rparr>"
    have ok2: "cache_except {} ?c2" using ok s by (simp add: cache_except_def entry_ok_def)
    let ?st = "\<lambda>(p, buf). set_cached_val (fst p) (take (unat (snd p)) buf)"
    let ?zs = "zip (map (\<lambda>r. (r, ?sz r)) miss) (map (val_of s) miss)"
    have "take (unat (?sz r)) (val_of s r) = val_of s r" if "r \<in> set miss" for r
      using that regs val_size [OF s(1)] by simp
    then have st: "\<forall>x \<in> set ?zs. stores (?st x) (fst (fst x)) (c_peer ?c2)"
      by (auto simp: set_zip intro!: set_cached_stores)
    have keys: "(\<lambda>x. fst (fst x)) ` set ?zs = set miss" by (force simp: set_zip in_set_conv_nth image_iff)
    have "known ?c2 r" if "r \<in> set miss" for r using that c1(3) by (simp add: miss_def known_def)
    then have kn: "\<forall>x \<in> set ?zs. known ?c2 (fst (fst x))" using keys by blast
    obtain c3 where c3: "iter_act ?st ?zs ?c2 = (Ret (), c3)" "same_view {} ?c2 c3"
      "\<forall>r. cached c3 r = (cached ?c2 r \<or> r \<in> set miss)"
      using iter_stores [OF st ok2 kn] unfolding keys by auto
    have "fetch_reg_vals_by_id im ids c = (Ret (), c3)"
      using False c1(1) miss c3(1)
      by (simp add: fetch_reg_vals_by_id_def then_act_def bind_act_def impl_call_def lift_act_def comp_def call s(2))
    moreover have "same_view {} c c3" using c1(2) c3(2) s by (simp add: same_view_def)
    moreover have "\<forall>r \<in> set ids. cached c3 r" using c3(3) by (auto simp: miss_def cached_def)
    ultimately show ?thesis by blast
  qed
qed

lemma nth_size_run:
  assumes "sizes_arg sizes (map (\<lambda>r. ri_size (infos_of r)) ids)" "\<forall>r \<in> set ids. regs r" "i < length ids"
  shows "nth_size sizes (length ids) i d = (Ret (ri_size (infos_of (ids ! i))), d)"
  using assms size_pos unfolding sizes_arg_def
  by (cases i) (auto simp: nth_size_def elem_at_def then_act_def bind_act_def)

text \<open>Reading registers returns their values, whatever the cache holds.\<close>

lemma get_regs_run:
  assumes "cache_except {} c" "c_state c = VM_STOPPED" "\<forall>r \<in> set ids. regs r"
    and bufs: "map length out_bufs = map (\<lambda>r. unat (ri_size (infos_of r))) ids"
    and sizes: "sizes_arg sizes (map (\<lambda>r. ri_size (infos_of r)) ids)"
  shows "\<exists>c'. cl_get_regs im ids out_bufs sizes c =
      (Ret (map (val_of (c_peer c)) ids), c') \<and> same_view {} c c'"
proof -
  obtain c1 where c1: "fetch_reg_vals_by_id im ids c = (Ret (), c1)" "same_view {} c c1" "\<forall>r \<in> set ids. cached c1 r"
    using fetch_vals_run [OF assms(1,3)] by blast
  then have ok: "cache_except {} c1" and i: "inv (c_peer c1)" and v: "val_of (c_peer c1) = val_of (c_peer c)"
    by (simp_all add: same_view_def cache_except_def)
  let ?sz = "\<lambda>r. ri_size (infos_of r)"
  let ?f = "\<lambda>i. bind_act (nth_size sizes (length ids) i) (\<lambda>reg_size.
      bind_act (cached_reg (ids ! i)) (\<lambda>reg.
      then_act (assert_act (ri_val reg \<noteq> [])) (
      then_act (in_bounds (unat reg_size \<le> length (ri_val reg))) (
      bind_act (elem_at out_bufs i) (store_row (take (unat reg_size) (ri_val reg)))))))"
  have "?f i c1 = (Ret (val_of (c_peer c) (ids ! i)), c1)" if "i < length ids" for i
  proof -
    have r: "ids ! i \<in> set ids" "regs (ids ! i)" using that assms(3) by simp_all
    then obtain k where k: "smap_find (c_regi_idx_map c1) (ids ! i) = Some k" "ri_val (c_regi_arr c1 ! k) \<noteq> []"
      using c1(3) by (auto simp: cached_def)
    have val: "ri_val (c_regi_arr c1 ! k) = val_of (c_peer c) (ids ! i)"
      using entry_okD(5) [OF cache_entry [OF ok k(1)]] k(2) v by simp
    have len: "length out_bufs = length ids" using bufs by (metis length_map)
    then have "length (out_bufs ! i) = unat (?sz (ids ! i))" using bufs that by (metis nth_map)
    then show ?thesis
      using that k(2) val len val_size [OF i r(2)] v
      by (simp add: bind_act_def then_act_def nth_size_run [OF sizes assms(3) that] cached_reg_run [OF ok k(1)]
          elem_at_def store_row_def)
  qed
  then have "map_act ?f [0..<length ids] c1 = (Ret (map (\<lambda>i. val_of (c_peer c) (ids ! i)) [0..<length ids]), c1)"
    by (intro map_act_pure) simp
  moreover have "map (\<lambda>i. val_of (c_peer c) (ids ! i)) [0..<length ids] = map (val_of (c_peer c)) ids"
    by (rule nth_equalityI) simp_all
  ultimately show ?thesis
    using c1(2) assms(2)
    by (simp add: cl_get_regs_def assert_state_then then_act_run [of "fetch_reg_vals_by_id im ids" c, OF c1(1)])
qed

lemma get_regs_infos_run:
  assumes "cache_except {} c" "c_state c = VM_STOPPED" "\<forall>r \<in> set ids. regs r"
  shows "\<exists>xs c'. cl_get_regs_infos im ids c = (Ret xs, c') \<and> map strip_val xs = map infos_of ids \<and> same_view {} c c'"
proof -
  obtain c1 where c1: "fetch_reg_infos_by_id im ids c = (Ret (), c1)" "same_view {} c c1" "\<forall>r \<in> set ids. known c1 r"
    using fetch_infos_run [OF assms(1,3)] by blast
  then have ok: "cache_except {} c1" by (simp add: same_view_def)
  let ?g = "\<lambda>r. c_regi_arr c1 ! the (smap_find (c_regi_idx_map c1) r)"
  have g: "cached_reg r c1 = (Ret (?g r), c1) \<and> strip_val (?g r) = infos_of r" if r: "r \<in> set ids" for r
  proof -
    obtain k where k: "smap_find (c_regi_idx_map c1) r = Some k" using c1(3) r by (auto simp: known_def)
    then show ?thesis using cached_reg_run [OF ok k] cache_entry [OF ok k] by (simp add: entry_ok_def)
  qed
  then have "map_act cached_reg ids c1 = (Ret (map ?g ids), c1)" by (intro map_act_pure) simp
  then show ?thesis
    using c1(2) assms(2) g
    by (simp add: cl_get_regs_infos_def assert_state_then then_act_run [of "fetch_reg_infos_by_id im ids" c, OF c1(1)])
qed

end

text \<open>With a law for \<open>set_regs\<close>: the registers named are changed, the others are not.\<close>

locale register_file_rw = register_file +
  assumes set_law: "inv s \<Longrightarrow> \<forall>r \<in> set ids. regs r \<Longrightarrow> distinct ids \<Longrightarrow>
      map length bufs = map (\<lambda>r. unat (ri_size (infos_of r))) ids \<Longrightarrow>
      \<exists>s'. im_set_regs im ids bufs sizes (length ids) s = (Ret (), s') \<and> inv s' \<and>
        map (val_of s') ids = bufs \<and> (\<forall>r. regs r \<longrightarrow> r \<notin> set ids \<longrightarrow> val_of s' r = val_of s r)"
begin

lemma set_regs_run:
  assumes "cache_except {} c" "c_state c = VM_STOPPED" "\<forall>r \<in> set ids. regs r" "distinct ids"
    and bufs: "map length in_bufs = map (\<lambda>r. unat (ri_size (infos_of r))) ids"
    and sizes: "sizes_arg sizes (map (\<lambda>r. ri_size (infos_of r)) ids)"
  shows "\<exists>c'. cl_set_regs im ids in_bufs sizes c = (Ret (), c') \<and>
      cache_except {} c' \<and> c_state c' = VM_STOPPED \<and> map (val_of (c_peer c')) ids = in_bufs \<and>
      (\<forall>r. regs r \<longrightarrow> r \<notin> set ids \<longrightarrow> val_of (c_peer c') r = val_of (c_peer c) r)"
proof -
  obtain c1 where c1: "fetch_reg_infos_by_id im ids c = (Ret (), c1)" "same_view {} c c1" "\<forall>r \<in> set ids. known c1 r"
    using fetch_infos_run [OF assms(1,3)] by blast
  then have ok: "cache_except {} c1" and i: "inv (c_peer c1)" by (simp_all add: same_view_def cache_except_def)
  let ?sz = "\<lambda>r. ri_size (infos_of r)"
  obtain s where call: "im_set_regs im ids in_bufs sizes (length ids) (c_peer c1) = (Ret (), s)" and s: "inv s"
    "map (val_of s) ids = in_bufs" "\<forall>r. regs r \<longrightarrow> r \<notin> set ids \<longrightarrow> val_of s r = val_of (c_peer c1) r"
    using set_law [OF i assms(3,4) bufs, of sizes] by blast
  define c2 where "c2 = c1\<lparr>c_peer := s\<rparr>"
  have ok2: "cache_except (set ids) c2"
    using ok s(1,3) unfolding cache_except_def entry_ok_def by (simp add: c2_def) metis
  have len: "length in_bufs = length ids" using bufs by (metis length_map)
  let ?f = "\<lambda>i. bind_act (nth_size sizes (length ids) i) (\<lambda>reg_size.
      bind_act (cached_reg (ids ! i)) (\<lambda>reg.
      then_act (assert_act (reg_size = ri_size reg)) (
      bind_act (elem_at in_bufs i) (\<lambda>buf.
      then_act (in_bounds (unat reg_size \<le> length buf))
        (set_cached_val (ids ! i) (take (unat reg_size) buf))))))"
  have "stores (?f i) (ids ! i) s" if "i < length ids" for i
    unfolding stores_def
  proof (intro allI impI)
    fix S d assume d: "cache_except S d" "known d (ids ! i)" "c_peer d = s"
    then obtain k where k: "smap_find (c_regi_idx_map d) (ids ! i) = Some k" by (auto simp: known_def)
    have "in_bufs ! i = val_of s (ids ! i)" using s(2) that by auto
    moreover have "length (in_bufs ! i) = unat (?sz (ids ! i))" using bufs that len by (metis nth_map)
    ultimately have "?f i d = set_cached_val (ids ! i) (val_of s (ids ! i)) d"
      using that len entry_okD(4) [OF cache_entry [OF d(1) k]]
      by (simp add: bind_act_def then_act_def nth_size_run [OF sizes assms(3) that] cached_reg_run [OF d(1) k] elem_at_def)
    then show "\<exists>c'. ?f i d = (Ret (), c') \<and> same_view (S - {ids ! i}) d c' \<and> c_peer c' = s \<and>
        (\<forall>r'. known c' r' = known d r') \<and> (\<forall>r'. cached c' r' = (cached d r' \<or> r' = ids ! i))"
      using set_cached_run [OF d(1,2), of "val_of s (ids ! i)"] d(3) by simp
  qed
  then have st: "\<forall>i \<in> set [0..<length ids]. stores (?f i) (ids ! i) (c_peer c2)" by (simp add: c2_def)
  have kn: "\<forall>i \<in> set [0..<length ids]. known c2 (ids ! i)" using c1(3) by (simp add: c2_def known_def)
  have keys: "(!) ids ` set [0..<length ids] = set ids" by (metis map_nth set_map)
  obtain c3 where c3: "iter_act ?f [0..<length ids] c2 = (Ret (), c3)" "same_view {} c2 c3" "c_peer c3 = c_peer c2"
    using iter_stores [OF st ok2 kn] unfolding keys by auto
  have "impl_call (im_set_regs im ids in_bufs sizes (length ids)) c1 = (Ret (), c2)"
    using call by (simp add: impl_call_def lift_act_def c2_def)
  then have "cl_set_regs im ids in_bufs sizes c = (Ret (), c3)"
    using assms(2) c3(1)
    by (simp add: cl_set_regs_def assert_state_then then_act_run [of "fetch_reg_infos_by_id im ids" c, OF c1(1)]
        then_act_run [of "impl_call (im_set_regs im ids in_bufs sizes (length ids))" c1])
  moreover have "cache_except {} c3 \<and> c_state c3 = VM_STOPPED" using c3(2) c1(2) assms(2) by (simp add: same_view_def c2_def)
  moreover have "map (val_of (c_peer c3)) ids = in_bufs \<and> (\<forall>r. regs r \<longrightarrow> r \<notin> set ids \<longrightarrow> val_of (c_peer c3) r = val_of (c_peer c) r)"
    using s(2,3) c1(2) c3(3) by (simp add: same_view_def c2_def)
  ultimately show ?thesis by blast
qed

end

text \<open>
  A machine with such registers: what the other calls keep of it, also when they fail. A register that
  does not exist cannot be described.
\<close>

locale register_machine = register_file_rw +
  fixes start :: "'a \<Rightarrow> bool" and runs :: "'a \<Rightarrow> 'a \<Rightarrow> bool"
  assumes connect_law: "start s \<Longrightarrow> im_connect im infos udp s = (Ret x, s') \<Longrightarrow> inv s'"
    and describe_law: "inv s \<Longrightarrow> length out = length ids \<Longrightarrow> im_get_regs_infos im ids out (length ids) s = (r, s') \<Longrightarrow>
      inv s' \<and> val_of s' = val_of s \<and> ((\<exists>xs. r = Ret xs) \<longrightarrow> (\<forall>i \<in> set ids. regs i))"
    and find_law: "inv s \<Longrightarrow> im_find_regs_ids im names rids n s = (rf, s') \<Longrightarrow> inv s' \<and> val_of s' = val_of s"
    and peer_law: "inv s \<Longrightarrow> peer_call im s s' \<Longrightarrow> inv s' \<and> val_of s' = val_of s"
    and resume_law: "inv s \<Longrightarrow> im_resume im type s = (ru, s') \<Longrightarrow> inv s' \<and> (ru \<noteq> Ret () \<longrightarrow> val_of s' = val_of s)"
    and check_law: "inv s \<Longrightarrow> im_check_stopped im udp s = (rc, s') \<Longrightarrow> inv s'"
    and runs_law: "inv s \<Longrightarrow> runs s s' \<Longrightarrow> inv s'"
begin

lemma same_peer:
  "cache_except S c \<Longrightarrow> inv s \<Longrightarrow> val_of s = val_of (c_peer c) \<Longrightarrow> same_view S c (c\<lparr>c_peer := s\<rparr>)"
  by (simp add: same_view_def cache_except_def entry_ok_def)

lemma fetch_infos_any:
  assumes "cache_except S c" "fetch_reg_infos_by_id im ids c = (r, c')"
  shows "same_view S c c'" "r = Ret () \<Longrightarrow> \<forall>r \<in> set ids. regs r"
proof -
  define miss where "miss = filter (\<lambda>r. smap_find (c_regi_idx_map c) r = None) ids"
  have known: "regs i" if "i \<in> set ids" "i \<notin> set miss" for i
    using that entry_okD(1) [OF cache_entry [OF assms(1), of i]] by (auto simp: miss_def)
  have "same_view S c c' \<and> (r = Ret () \<longrightarrow> (\<forall>r \<in> set ids. regs r))"
  proof (cases "\<forall>r \<in> set ids. regs r")
    case True
    from fetch_infos_run [OF assms(1) this] assms(2) True show ?thesis by auto
  next
    case False
    then have "miss \<noteq> []" "\<not> (\<forall>i \<in> set miss. regs i)" using known by auto
    obtain q s where call: "im_get_regs_infos im miss (replicate (length miss) (cnull RegInfos_codec)) (length miss) (c_peer c) = (q, s)"
      by fastforce
    have "inv (c_peer c)" using assms(1) by (simp add: cache_except_def)
    from describe_law [OF this _ call] have s: "inv s" "val_of s = val_of (c_peer c)" "\<forall>xs. q \<noteq> Ret xs"
      using \<open>\<not> (\<forall>i \<in> set miss. regs i)\<close> by auto
    then have "c' = c\<lparr>c_peer := s\<rparr> \<and> r \<noteq> Ret ()"
      using assms(2) \<open>miss \<noteq> []\<close> call
      by (cases q) (auto simp: fetch_reg_infos_by_id_def bind_act_def impl_call_def lift_act_def simp flip: miss_def)
    then show ?thesis using same_peer [OF assms(1) s(1,2)] by simp
  qed
  then show "same_view S c c'" "r = Ret () \<Longrightarrow> \<forall>r \<in> set ids. regs r" by auto
qed

lemma fetch_vals_any:
  assumes "cache_except {} c"
  shows "same_view {} c (snd (fetch_reg_vals_by_id im ids c))"
proof (cases "\<forall>r \<in> set ids. regs r")
  case True
  from fetch_vals_run [OF assms this] show ?thesis by auto
next
  case False
  obtain r c1 where f: "fetch_reg_infos_by_id im ids c = (r, c1)" by fastforce
  with fetch_infos_any [OF assms f] False have "same_view {} c c1" "r \<noteq> Ret ()" by auto
  then show ?thesis using f by (cases r) (simp_all add: fetch_reg_vals_by_id_def snd_then_act)
qed

text \<open>Every register call but a write leaves what the client sees as it was.\<close>

lemma read_calls_any:
  assumes "cache_except {} c"
  shows "same_view {} c (snd (cl_get_regs im ids bufs sizes c))" (is ?get)
    and "same_view {} c (snd (cl_get_regs_infos im ids c))" (is ?infos)
    and "same_view {} c (snd (cl_find_regs_ids im names c))" (is ?find)
    and "\<exists>r \<in> set ids. \<not> regs r \<Longrightarrow> same_view {} c (snd (cl_set_regs im ids bufs sizes c))"
proof -
  have then_same: "same_view {} c (snd (then_act m n c))"
    if "same_view {} c (snd (m c))" "\<And>d. keeps (\<lambda>e. e = d) n" for m n :: "('a DBClient, 'z) act" and c
    using that keeps_same [OF that(2)] by (auto simp: snd_then_act split: prod.split outcome.split)
  have then_same': "same_view {} c (snd (then_act m n c))"
    if "same_view {} c (snd (m c))" "\<And>d. keeps (\<lambda>e. e = d) n" for m :: "('a DBClient, 'y) act" and n :: "('a DBClient, 'z) act" and c
    using that keeps_same [OF that(2)] by (auto simp: snd_then_act split: prod.split outcome.split)
  have assert: "same_view {} c (snd (then_act (assert_state st) m c))" if "same_view {} c (snd (m c))"
    for st and m :: "('a DBClient, 'z) act"
    using that same_view_refl [OF assms] by (simp add: snd_assert_state)
  have infos: "same_view {} d (snd (fetch_reg_infos_by_id im is d))" if "cache_except {} d" for "is" d
    using fetch_infos_any(1) [OF that surjective_pairing] .
  show ?get
    unfolding cl_get_regs_def nth_size_def elem_at_def store_row_def
    by (intro assert then_same' fetch_vals_any assms keeps_rules keeps_cached_reg)
  show ?infos
    unfolding cl_get_regs_infos_def by (intro assert then_same' infos assms keeps_rules keeps_cached_reg)
  have "same_view {} c (snd (fetch_reg_infos_by_name im names c))"
  proof -
    define miss where "miss = filter (\<lambda>n. smap_find (c_regi_name_map c) n = None) names"
    obtain q s where call: "im_find_regs_ids im miss (replicate (length miss) 0) (length miss) (c_peer c) = (q, s)" by fastforce
    have "inv (c_peer c)" using assms by (simp add: cache_except_def)
    from find_law [OF this call] have "same_view {} c (c\<lparr>c_peer := s\<rparr>)" using same_peer [OF assms] by blast
    moreover from this have "same_view {} c (snd (fetch_reg_infos_by_id im is (c\<lparr>c_peer := s\<rparr>)))" for "is"
      using infos same_view_trans by (metis same_view_def)
    ultimately show ?thesis
      using same_view_refl [OF assms] call
      by (cases q) (auto simp: fetch_reg_infos_by_name_def bind_act_def impl_call_def lift_act_def simp flip: miss_def)
  qed
  then show ?find unfolding cl_find_regs_ids_def by (intro assert then_same' keeps_rules)
  show "same_view {} c (snd (cl_set_regs im ids bufs sizes c))" if "\<exists>r \<in> set ids. \<not> regs r"
  proof -
    obtain r c1 where f: "fetch_reg_infos_by_id im ids c = (r, c1)" by fastforce
    with fetch_infos_any [OF assms f] that have "same_view {} c c1" "r \<noteq> Ret ()" by auto
    then have "same_view {} c (snd (then_act (fetch_reg_infos_by_id im ids) n c))" for n :: "('a DBClient, unit) act"
      using f by (cases r) (simp_all add: snd_then_act)
    then show ?thesis unfolding cl_set_regs_def by (intro assert)
  qed
qed

lemma connect_ok:
  assumes "start s" "cl_connect im (DBClient_new s udp0 infos0) = (Ret (), c)"
  shows "cache_except {} c"
proof -
  obtain x s' where "im_connect im infos0 udp0 s = (Ret x, s')" "c_peer c = s'" "c_regi_idx_map c = smap_empty"
    using assms(2) by (auto simp: cl_connect_def client_Ret DBClient_new_def)
  then show ?thesis using connect_law [OF assms(1)] by (auto simp: cache_except_def smap_empty_def)
qed

lemma resume_ok:
  assumes "cache_except {} c" "cl_resume im type c = (r, c')"
  shows "c_state c' = VM_STOPPED \<longrightarrow> cache_except {} c'" "cache_except UNIV c'"
proof -
  have weaken: "cache_except {} d \<Longrightarrow> cache_except UNIV d" for d by (auto simp: cache_except_def entry_ok_def)
  obtain q s where call: "im_resume im type (c_peer c) = (q, s)" by fastforce
  have "inv (c_peer c)" using assms(1) by (simp add: cache_except_def)
  from resume_law [OF this call] have s: "inv s" "q \<noteq> Ret () \<longrightarrow> val_of s = val_of (c_peer c)" by auto
  have c': "c' = (if c_state c \<noteq> VM_STOPPED then c else if q = Ret () then c\<lparr>c_peer := s, c_state := VM_RUNNING\<rparr> else c\<lparr>c_peer := s\<rparr>)"
    using assms(2) call
    by (cases q) (auto simp: cl_resume_def assert_state_def impl_call_def lift_act_def then_act_def bind_act_def split: if_splits)
  then show "c_state c' = VM_STOPPED \<longrightarrow> cache_except {} c'"
    using assms(1) s by (auto simp: cache_except_def entry_ok_def split: if_splits)
  show "cache_except UNIV c'" using assms(1) s(1) c' weaken by (auto simp: cache_except_def entry_ok_def split: if_splits)
qed

lemma check_ok:
  assumes "cache_except UNIV c" "c_state c = VM_STOPPED \<longrightarrow> cache_except {} c" "cl_check_stopped im c = (r, c')"
  shows "c_state c' = VM_STOPPED \<longrightarrow> cache_except {} c'" "cache_except UNIV c'"
proof -
  obtain q s where call: "im_check_stopped im (c_udp c) (c_peer c) = (q, s)" by fastforce
  have "inv (c_peer c)" using assms(1) by (simp add: cache_except_def)
  from check_law [OF this call] have s: "inv s" .
  have c': "c' = (if c_state c \<noteq> VM_RUNNING then c else case q of
      Ret udp \<Rightarrow> if up_stopped udp then c\<lparr>c_peer := s, c_udp := udp, c_state := VM_STOPPED,
          c_regi_arr := map (\<lambda>ri. ri\<lparr>ri_val := []\<rparr>) (c_regi_arr c)\<rparr>
        else c\<lparr>c_peer := s, c_udp := udp, c_state := VM_RUNNING\<rparr>
    | _ \<Rightarrow> c\<lparr>c_peer := s\<rparr>)"
    using assms(3) call
    by (cases q) (auto simp: cl_check_stopped_def assert_state_def cl_update_def discard_tmp_cache_def impl_call_def lift_act_def
        then_act_def bind_act_def split: if_splits)
  then show "c_state c' = VM_STOPPED \<longrightarrow> cache_except {} c'"
    using assms(1,2) s by (cases q) (auto simp: cache_except_def entry_ok_def split: if_splits)
  show "cache_except UNIV c'"
    using assms(1) s c' by (cases q) (auto simp: cache_except_def entry_ok_def split: if_splits)
qed

text \<open>The cache is right whenever the machine is stopped.\<close>

lemma session_ok:
  assumes "client_session im start runs regs (\<lambda>r. ri_size (infos_of r)) c"
  shows "(c_state c = VM_STOPPED \<longrightarrow> cache_except {} c) \<and> cache_except UNIV c"
  using assms
proof (induction rule: client_session.induct)
  have weaken: "cache_except {} d \<Longrightarrow> cache_except UNIV d" for d
    by (auto simp: cache_except_def entry_ok_def)
  have stopped_call: "(c_state d = VM_STOPPED \<longrightarrow> cache_except {} d) \<and> cache_except UNIV d"
    if "(c_state c = VM_STOPPED \<longrightarrow> cache_except {} c) \<and> cache_except UNIV c" "c_state c \<noteq> VM_STOPPED \<Longrightarrow> d = c"
      "cache_except {} c \<Longrightarrow> same_view {} c d" for c d
    using that weaken unfolding same_view_def by metis
  {
    case (session_connect s udp0 infos0 c)
    then show ?case using connect_ok weaken by blast
  next
    case (session_read c ids bufs sizes)
    from session_read(2) show ?case by (rule stopped_call) (simp add: cl_get_regs_def snd_assert_state, rule read_calls_any)
  next
    case (session_infos c ids)
    from session_infos(2) show ?case by (rule stopped_call) (simp add: cl_get_regs_infos_def snd_assert_state, rule read_calls_any)
  next
    case (session_find c names)
    from session_find(2) show ?case by (rule stopped_call) (simp add: cl_find_regs_ids_def snd_assert_state, rule read_calls_any)
  next
    case (session_write c ids bufs sizes c')
    have st: "c_state c = VM_STOPPED" using session_write(6) unfolding cl_set_regs_def assert_state_Ret by blast
    with session_write show ?case using set_regs_run [of c ids bufs sizes] weaken by auto
  next
    case (session_write_other c r ids bufs sizes)
    from session_write_other(4) show ?case
      by (rule stopped_call) (simp add: cl_set_regs_def snd_assert_state, use session_write_other(2,3) read_calls_any(4) in blast)
  next
    case (session_pass c c')
    from passes_on_peer [OF session_pass(2)] show ?case
    proof (elim disjE exE conjE)
      fix s' assume "peer_call im (c_peer c) s'" and c': "c' = c\<lparr>c_peer := s'\<rparr>"
      then have "inv s'" "val_of s' = val_of (c_peer c)"
        using peer_law [of "c_peer c" s'] session_pass(3) by (auto simp: cache_except_def)
      then show ?case using session_pass(3) same_peer [of "{}" c s'] same_peer [of UNIV c s'] by (auto simp: same_view_def c')
    qed (simp add: session_pass(3))
  next
    case (session_resume c type)
    show ?case
    proof (cases "c_state c = VM_STOPPED")
      case True
      then show ?thesis using resume_ok [OF _ surjective_pairing, of c type] session_resume(2) by blast
    next
      case False
      then show ?thesis using session_resume(2) by (simp add: cl_resume_def snd_assert_state)
    qed
  next
    case (session_run c s')
    then show ?case using runs_law by (auto simp: cache_except_def entry_ok_def)
  next
    case (session_check c)
    then show ?case using check_ok [OF _ _ surjective_pairing, of c] by blast
  }
qed

lemma session_reads_registers:
  assumes "client_session im start runs regs (\<lambda>r. ri_size (infos_of r)) c" "c_state c = VM_STOPPED"
    and "\<forall>r \<in> set ids. regs r" "map length bufs = map (\<lambda>r. unat (ri_size (infos_of r))) ids"
    and "sizes_arg sizes (map (\<lambda>r. ri_size (infos_of r)) ids)"
  shows "\<exists>c'. cl_get_regs im ids bufs sizes c = (Ret (map (val_of (c_peer c)) ids), c') \<and>
    val_of (c_peer c') = val_of (c_peer c) \<and> c_state c' = VM_STOPPED"
  using get_regs_run [OF _ assms(2-5)] session_ok [OF assms(1)] assms(2) unfolding same_view_def by metis

lemma session_writes_registers:
  assumes "client_session im start runs regs (\<lambda>r. ri_size (infos_of r)) c" "c_state c = VM_STOPPED"
    and "\<forall>r \<in> set ids. regs r" "distinct ids" "map length bufs = map (\<lambda>r. unat (ri_size (infos_of r))) ids"
    and "sizes_arg sizes (map (\<lambda>r. ri_size (infos_of r)) ids)"
  shows "\<exists>c'. cl_set_regs im ids bufs sizes c = (Ret (), c') \<and>
    map (val_of (c_peer c')) ids = bufs \<and> (\<forall>r. regs r \<longrightarrow> r \<notin> set ids \<longrightarrow> val_of (c_peer c') r = val_of (c_peer c) r) \<and>
    c_state c' = VM_STOPPED"
  using set_regs_run [OF _ assms(2-6)] session_ok [OF assms(1)] assms(2) by metis

end

end
