(* ===== verification/Mvm0_Client.thy ===== *)
theory Mvm0_Client
  imports Mvm0 Db_Client_Cache
begin

text \<open>
  A \<open>DBClient\<close> attached to a debugger of the machine \<open>mvm0\<close>, through \<open>DBClientImplVMSide\<close>: the registers
  of the CPU behind the debugger's register table satisfy the contract \<open>register_machine\<close> of the
  client's cache.
\<close>

section \<open>Registers of the machine through the debugger\<close>

definition mvm0_is_reg :: "vm_reg_t \<Rightarrow> bool" where
  "mvm0_is_reg r \<longleftrightarrow> r < NB_REGS"

definition mvm0_reg_infos :: "vm_reg_t \<Rightarrow> RegInfos" where
  "mvm0_reg_infos r = \<lparr>ri_idx = r, ri_name = reg_names ! unat r, ri_size = 4,
     ri_kind = (if r < REG_SP then general else if r = REG_SP then stack_pointer
       else if r = REG_PC then program_counter else flags), ri_val = []\<rparr>"

definition mvm0_reg_bytes :: "CPU Debugger \<Rightarrow> vm_reg_t \<Rightarrow> bytes" where
  "mvm0_reg_bytes d r = sb_serial_raw (reg_val (d_vm d) r)"

definition cpu_ok :: "CPU \<Rightarrow> bool" where
  "cpu_ok cpu \<longleftrightarrow> length (cpu_regs cpu) = 16"

definition mvm0_regs_ok :: "CPU Debugger \<Rightarrow> bool" where
  "mvm0_regs_ok d \<longleftrightarrow> cpu_ok (d_vm d) \<and> smap_ok (d_map_regs d) \<and>
    (\<forall>r i. smap_find (d_map_regs d) r = Some i \<longrightarrow> mvm0_is_reg r \<and> strip_val i = mvm0_reg_infos r \<and> length (ri_val i) = 4)"

definition mvm0_start :: "CPU Debugger \<Rightarrow> bool" where
  "mvm0_start d \<longleftrightarrow> (\<exists>cpu infos0 g. cpu_ok cpu \<and> on_init mvm0_api (Debugger_new cpu infos0 g) = (Ret (), d))"

text \<open>
  While the program runs the CPU executes any instructions and the debugger is told of it, or the
  server stops the debugger (\<open>ServerApp::_stop_db\<close>).
\<close>

definition mvm0_runs :: "CPU Debugger \<Rightarrow> CPU Debugger \<Rightarrow> bool" where
  "mvm0_runs d d' \<longleftrightarrow> (\<exists>cpu. cpu_ok cpu \<and> d' = snd (on_update mvm0_api (d\<lparr>d_vm := cpu\<rparr>))) \<or> stop d = (Ret (), d')"

definition keeps_view :: "CPU Debugger \<Rightarrow> CPU Debugger \<Rightarrow> bool" where
  "keeps_view d d' \<longleftrightarrow> mvm0_regs_ok d' \<and> d_vm d' = d_vm d"

lemma bit_of_le_bytes: "bit (of_le_bytes bs :: 'a :: len word) n \<Longrightarrow> n < 8 * length bs"
proof (induction bs arbitrary: n)
  case (Cons b bs)
  show ?case
  proof (cases "n < 8")
    case False
    then have "\<not> bit (ucast b :: 'a word) n" by (auto simp: bit_simps dest: bit_imp_le_length)
    with False Cons.prems have "bit (of_le_bytes bs :: 'a word) (n - 8)" by (auto simp: bit_simps)
    from Cons.IH [OF this] show ?thesis by simp
  qed simp
qed simp

lemma le_of_le_bytes: "8 * length bs \<le> LENGTH('a) \<Longrightarrow> le_bytes (length bs) (of_le_bytes bs :: 'a :: len word) = bs"
proof (induction bs)
  case (Cons b bs)
  have "ucast (of_le_bytes (b # bs) :: 'a word) = b"
    using Cons.prems by (intro bit_word_eqI) (auto simp: bit_simps)
  moreover have "drop_bit 8 (of_le_bytes (b # bs) :: 'a word) = of_le_bytes bs"
  proof (rule bit_word_eqI)
    fix n
    have "\<not> bit b (8 + n)" using bit_imp_le_length [of b "8 + n"] by auto
    moreover have "8 + n < LENGTH('a)" if "bit (of_le_bytes bs :: 'a word) n"
      using bit_of_le_bytes [OF that] Cons.prems by simp
    ultimately show "bit (drop_bit 8 (of_le_bytes (b # bs) :: 'a word)) n = bit (of_le_bytes bs :: 'a word) n"
      by (auto simp: bit_simps)
  qed
  ultimately show ?case using Cons by simp
qed simp

lemma mvm0_get_reg_infos: "mvm0_is_reg r \<Longrightarrow> mvm0_get_reg r i False cpu =
    (Ret (i\<lparr>ri_idx := r, ri_name := reg_names ! unat r, ri_kind := ri_kind (mvm0_reg_infos r), ri_size := 4\<rparr>), cpu)"
  by (simp add: mvm0_get_reg_def mvm0_is_reg_def mvm0_reg_infos_def REG_SIZE_def)

lemma load_reg_run:
  assumes "mvm0_regs_ok d" "mvm0_is_reg r"
  shows "\<exists>d' i. load_reg mvm0_api r d = (Ret (), d') \<and> keeps_view d d' \<and> smap_find (d_map_regs d') r = Some i"
proof (cases "smap_find (d_map_regs d) r")
  case None
  let ?i = "(fresh_reg_infos (d_garbage d))\<lparr>ri_idx := r, ri_name := reg_names ! unat r,
    ri_kind := ri_kind (mvm0_reg_infos r), ri_size := 4, ri_val := replicate 4 0\<rparr>"
  let ?d = "d\<lparr>d_map_regs := smap_emplace r ?i (d_map_regs d), d_smap_regs := smap_emplace (reg_names ! unat r) r (d_smap_regs d)\<rparr>"
  have "load_reg mvm0_api r d = (Ret (), ?d)"
    using None assms(2) by (simp add: load_reg_def bind_act_def vm_call_def lift_act_def mvm0_api_def mvm0_get_reg_infos
        fresh_reg_infos_def vec_resize_def)
  moreover have "strip_val ?i = mvm0_reg_infos r" by (simp add: strip_val_def fresh_reg_infos_def mvm0_reg_infos_def)
  then have "keeps_view d ?d"
    using assms None by (auto simp: keeps_view_def mvm0_regs_ok_def smap_ok_emplace smap_find_emplace split: if_splits)
  moreover have "smap_find (d_map_regs ?d) r = Some ?i"
    using assms(1) None by (simp add: mvm0_regs_ok_def smap_find_emplace)
  ultimately show ?thesis by blast
next
  case (Some i)
  then show ?thesis using assms(1) by (auto simp: load_reg_def bind_act_def keeps_view_def)
qed

lemma get_reg_infos_run:
  assumes "mvm0_regs_ok d" "mvm0_is_reg r"
  shows "\<exists>d' i. get_reg_infos mvm0_api r d = (Ret i, d') \<and> keeps_view d d' \<and> strip_val i = mvm0_reg_infos r"
proof -
  obtain d' i where d': "load_reg mvm0_api r d = (Ret (), d')" "keeps_view d d'" "smap_find (d_map_regs d') r = Some i"
    using load_reg_run [OF assms] by blast
  then have "strip_val i = mvm0_reg_infos r" by (auto simp: keeps_view_def mvm0_regs_ok_def)
  with d' show ?thesis by (auto simp: get_reg_infos_def then_act_def bind_act_def reg_entry_def)
qed

lemma get_reg_run:
  assumes "mvm0_regs_ok d" "mvm0_is_reg r"
  shows "\<exists>d'. get_reg mvm0_api r d = (Ret (mvm0_reg_bytes d r), d') \<and> keeps_view d d'"
proof -
  obtain d' i where d': "load_reg mvm0_api r d = (Ret (), d')" "keeps_view d d'" "smap_find (d_map_regs d') r = Some i"
    using load_reg_run [OF assms] by blast
  then have i: "strip_val i = mvm0_reg_infos r" "length (ri_val i) = 4" and vm: "d_vm d' = d_vm d"
    by (auto simp: keeps_view_def mvm0_regs_ok_def)
  have sz: "ri_size i = 4" using arg_cong [OF i(1), of ri_size] by (simp add: mvm0_reg_infos_def)
  let ?i = "i\<lparr>ri_val := mvm0_reg_bytes d r\<rparr>" and ?d = "d'\<lparr>d_map_regs := smap_assign r (i\<lparr>ri_val := mvm0_reg_bytes d r\<rparr>) (d_map_regs d')\<rparr>"
  have len: "length (mvm0_reg_bytes d r) = 4" by (simp add: mvm0_reg_bytes_def sb_serial_raw_def raw_size_def)
  have "mvm0_get_reg r i True (d_vm d') = (Ret ?i, d_vm d')"
    using assms(2) i(2) vm by (simp add: mvm0_get_reg_def mvm0_is_reg_def then_act_def bind_act_def REG_SIZE_def mvm0_reg_bytes_def)
  then have "get_reg mvm0_api r d = (Ret (mvm0_reg_bytes d r), ?d)"
    using d'(1,3) sz len by (simp add: get_reg_def then_act_def bind_act_def reg_entry_def vm_call_def lift_act_def mvm0_api_def)
  moreover have "keeps_view d ?d"
    using d'(2) i len by (auto simp: keeps_view_def mvm0_regs_ok_def smap_find_assign split: if_splits)
  ultimately show ?thesis by blast
qed

lemma reg_val_set:
  assumes "cpu_ok cpu" "mvm0_is_reg r" "mvm0_is_reg r'"
  shows "reg_val (set_reg_val r v cpu) r' = (if r' = r then v else reg_val cpu r')"
proof -
  have "unat r < 16" if "r < 16" for r :: vm_reg_t using that by (simp add: word_less_nat_alt)
  moreover have "r = 17" if "r < 18" "\<not> r < 16" "r \<noteq> 16" for r :: vm_reg_t
    using that by (auto simp: word_less_nat_alt word_eq_iff_unsigned unat_arith_simps word_unat_eq_iff)
  moreover have "unat r \<noteq> unat r'" if "r \<noteq> r'" using that by (simp add: word_unat_eq_iff)
  ultimately show ?thesis
    using assms by (auto simp: reg_val_def set_reg_val_def cpu_ok_def mvm0_is_reg_def NB_REGS_def REG_PC_def nth_list_update)
qed

lemma set_reg_run:
  assumes "mvm0_regs_ok d" "mvm0_is_reg r" "length v = 4"
  shows "\<exists>d'. set_reg mvm0_api r v d = (Ret (), d') \<and> mvm0_regs_ok d' \<and> mvm0_reg_bytes d' r = v \<and>
    (\<forall>r'. mvm0_is_reg r' \<longrightarrow> r' \<noteq> r \<longrightarrow> mvm0_reg_bytes d' r' = mvm0_reg_bytes d r')"
proof -
  let ?d = "d\<lparr>d_vm := set_reg_val r (of_le_bytes v) (d_vm d)\<rparr>"
  have cpu: "cpu_ok (d_vm d)" using assms(1) by (simp add: mvm0_regs_ok_def)
  have "set_reg mvm0_api r v d = (Ret (), ?d)"
    using assms(2,3) by (simp add: set_reg_def vm_call_def lift_act_def mvm0_api_def mvm0_set_reg_def mvm0_is_reg_def
        then_act_def bind_act_def REG_SIZE_def)
  moreover have "cpu_ok (set_reg_val r x (d_vm d))" for x using cpu by (simp add: cpu_ok_def set_reg_val_def)
  then have "mvm0_regs_ok ?d" using assms(1) by (simp add: mvm0_regs_ok_def)
  moreover have "mvm0_reg_bytes ?d r = v"
    using le_of_le_bytes [of v, where 'a = 32] assms(3)
    by (simp add: mvm0_reg_bytes_def reg_val_set [OF cpu assms(2,2)] sb_serial_raw_def raw_size_def)
  moreover have "mvm0_reg_bytes ?d r' = mvm0_reg_bytes d r'" if "mvm0_is_reg r'" "r' \<noteq> r" for r'
    using that by (simp add: mvm0_reg_bytes_def reg_val_set [OF cpu assms(2) that(1)])
  ultimately show ?thesis by blast
qed

text \<open>Loops over arrays, each step a call that keeps what the client sees.\<close>

lemma keeps_view_trans: "keeps_view d d' \<Longrightarrow> keeps_view d' d'' \<Longrightarrow> keeps_view d d''"
  by (simp add: keeps_view_def)

lemma map_act_view:
  assumes "mvm0_regs_ok d" "\<And>x d1. x \<in> set xs \<Longrightarrow> keeps_view d d1 \<Longrightarrow> \<exists>y d2. f x d1 = (Ret y, d2) \<and> keeps_view d1 d2 \<and> Q x y"
  shows "\<exists>ys d'. map_act f xs d = (Ret ys, d') \<and> keeps_view d d' \<and> list_all2 Q xs ys"
proof -
  have "\<exists>ys d'. map_act f xs d1 = (Ret ys, d') \<and> keeps_view d1 d' \<and> list_all2 Q xs ys" if "keeps_view d d1" for d1
    using assms(2) that
  proof (induction xs arbitrary: d1)
    case Nil
    then show ?case by (simp add: keeps_view_def)
  next
    case (Cons x xs)
    obtain y d2 where y: "f x d1 = (Ret y, d2)" "keeps_view d1 d2" "Q x y" using Cons.prems(1) [of x d1] Cons.prems(2) by auto
    have "\<exists>ys d3. map_act f xs d2 = (Ret ys, d3) \<and> keeps_view d2 d3 \<and> list_all2 Q xs ys"
      by (rule Cons.IH) (use Cons.prems(1) keeps_view_trans [OF Cons.prems(2) y(2)] in auto)
    then obtain ys d3 where "map_act f xs d2 = (Ret ys, d3)" "keeps_view d2 d3" "list_all2 Q xs ys" by blast
    with y show ?case by (auto simp: bind_act_def intro: keeps_view_trans)
  qed
  then show ?thesis using assms(1) by (simp add: keeps_view_def)
qed

lemma list_all2_upt: "list_all2 Q [0..<n] ys \<Longrightarrow> n = length xs \<Longrightarrow> (\<And>i y. i < n \<Longrightarrow> Q i y \<Longrightarrow> g y = h (xs ! i)) \<Longrightarrow>
    map g ys = map h xs"
  by (auto simp: list_all2_conv_all_nth intro!: nth_equalityI)

lemma vms_infos_run:
  assumes "mvm0_regs_ok d" "\<forall>r \<in> set ids. mvm0_is_reg r" "length out = length ids"
  shows "\<exists>xs d'. vms_get_regs_infos mvm0_api ids out (length ids) d = (Ret xs, d') \<and>
    map strip_val xs = map mvm0_reg_infos ids \<and> keeps_view d d'"
proof -
  let ?f = "\<lambda>i. bind_act (elem_at ids i) (\<lambda>x. bind_act (get_reg_infos mvm0_api x) (\<lambda>y.
      then_act (in_bounds (i < length out)) (ret y)))"
  have "\<exists>y d2. ?f i d1 = (Ret y, d2) \<and> keeps_view d1 d2 \<and> strip_val y = mvm0_reg_infos (ids ! i)"
    if "i \<in> set [0..<length ids]" "keeps_view d d1" for i d1
    using get_reg_infos_run [of d1 "ids ! i"] that assms(2,3)
    by (auto simp: keeps_view_def elem_at_def bind_act_def then_act_def)
  then obtain ys d' where ys: "map_act ?f [0..<length ids] d = (Ret ys, d')" "keeps_view d d'"
      "list_all2 (\<lambda>i y. strip_val y = mvm0_reg_infos (ids ! i)) [0..<length ids] ys"
    using map_act_view [OF assms(1), of "[0..<length ids]" ?f "\<lambda>i y. strip_val y = mvm0_reg_infos (ids ! i)"] by blast
  then have "map strip_val ys = map mvm0_reg_infos ids" by (auto intro: list_all2_upt)
  moreover have "vms_get_regs_infos mvm0_api ids out (length ids) d = (Ret ys, d')"
    using ys(1) assms(3) by (simp add: vms_get_regs_infos_def fill_array_def bind_act_def [where m = "map_act _ _"])
  ultimately show ?thesis using ys(2) by blast
qed

lemma vms_vals_run:
  assumes "mvm0_regs_ok d" "\<forall>r \<in> set ids. mvm0_is_reg r" "map length rows = map (\<lambda>r. 4) ids"
  shows "\<exists>d'. vms_get_regs mvm0_api ids rows (length ids) d = (Ret (map (mvm0_reg_bytes d) ids), d') \<and> keeps_view d d'"
proof -
  let ?f = "\<lambda>i. bind_act (elem_at ids i) (\<lambda>rid. bind_act (elem_at rows i) (\<lambda>buf.
      bind_act (get_reg mvm0_api rid) (\<lambda>v. store_row v buf)))"
  have len: "length rows = length ids" using assms(3) by (metis length_map)
  have "length (rows ! i) = 4" if "i < length ids" for i using assms(3) len that by (metis nth_map)
  then have "\<exists>y d2. ?f i d1 = (Ret y, d2) \<and> keeps_view d1 d2 \<and> y = mvm0_reg_bytes d (ids ! i)"
    if "i \<in> set [0..<length ids]" "keeps_view d d1" for i d1
    using get_reg_run [of d1 "ids ! i"] that assms(2) len
    by (auto simp: keeps_view_def elem_at_def store_row_def bind_act_def then_act_def mvm0_reg_bytes_def
        sb_serial_raw_def raw_size_def)
  then obtain ys d' where ys: "map_act ?f [0..<length ids] d = (Ret ys, d')" "keeps_view d d'"
      "list_all2 (\<lambda>i y. y = mvm0_reg_bytes d (ids ! i)) [0..<length ids] ys"
    using map_act_view [OF assms(1), of "[0..<length ids]" ?f "\<lambda>i y. y = mvm0_reg_bytes d (ids ! i)"] by blast
  then have "map (\<lambda>y. y) ys = map (mvm0_reg_bytes d) ids" by (intro list_all2_upt) auto
  moreover have "vms_get_regs mvm0_api ids rows (length ids) d = (Ret ys, d')"
    using ys(1) len by (simp add: vms_get_regs_def bind_act_def [where m = "map_act _ _"])
  ultimately show ?thesis using ys(2) by auto
qed

lemma iter_act_append: "iter_act f (xs @ ys) s = then_act (iter_act f xs) (iter_act f ys) s"
  by (induction xs arbitrary: s) (auto simp: then_act_def bind_act_def split: prod.splits outcome.splits)

lemma vms_set_run:
  assumes "mvm0_regs_ok d" "\<forall>r \<in> set ids. mvm0_is_reg r" "distinct ids" "map length bufs = map (\<lambda>r. 4) ids"
  shows "\<exists>d'. vms_set_regs mvm0_api ids bufs (length ids) d = (Ret (), d') \<and> mvm0_regs_ok d' \<and>
    map (mvm0_reg_bytes d') ids = bufs \<and>
    (\<forall>r. mvm0_is_reg r \<longrightarrow> r \<notin> set ids \<longrightarrow> mvm0_reg_bytes d' r = mvm0_reg_bytes d r)"
proof -
  have len: "length bufs = length ids" using assms(4) by (metis length_map)
  let ?f = "\<lambda>i. bind_act (elem_at ids i) (\<lambda>rid. bind_act (elem_at bufs i) (\<lambda>buf. set_reg mvm0_api rid buf))"
  have "\<exists>d'. iter_act ?f [0..<n] d = (Ret (), d') \<and> mvm0_regs_ok d' \<and> (\<forall>i < n. mvm0_reg_bytes d' (ids ! i) = bufs ! i) \<and>
      (\<forall>r. mvm0_is_reg r \<longrightarrow> r \<notin> set (take n ids) \<longrightarrow> mvm0_reg_bytes d' r = mvm0_reg_bytes d r)" if "n \<le> length ids" for n
    using that
  proof (induction n)
    case 0
    then show ?case using assms(1) by simp
  next
    case (Suc n)
    then have n: "n < length ids" by simp
    obtain d1 where d1: "iter_act ?f [0..<n] d = (Ret (), d1)" "mvm0_regs_ok d1"
      "\<forall>i < n. mvm0_reg_bytes d1 (ids ! i) = bufs ! i"
      "\<forall>r. mvm0_is_reg r \<longrightarrow> r \<notin> set (take n ids) \<longrightarrow> mvm0_reg_bytes d1 r = mvm0_reg_bytes d r"
      using Suc by auto
    have "length (bufs ! n) = 4" using assms(4) len n by (metis nth_map)
    then obtain d2 where d2: "set_reg mvm0_api (ids ! n) (bufs ! n) d1 = (Ret (), d2)" "mvm0_regs_ok d2"
      "mvm0_reg_bytes d2 (ids ! n) = bufs ! n"
      "\<forall>r'. mvm0_is_reg r' \<longrightarrow> r' \<noteq> ids ! n \<longrightarrow> mvm0_reg_bytes d2 r' = mvm0_reg_bytes d1 r'"
      using set_reg_run [OF d1(2), of "ids ! n" "bufs ! n"] assms(2) n by auto
    have "iter_act ?f [0..<Suc n] d = (Ret (), d2)"
      using d1(1) d2(1) n len by (simp add: iter_act_append then_act_def bind_act_def elem_at_def)
    moreover have "mvm0_reg_bytes d2 (ids ! i) = bufs ! i" if "i < Suc n" for i
    proof (cases "i = n")
      case False
      then have "i < n" "ids ! i \<noteq> ids ! n" using that n assms(3) by (auto simp: nth_eq_iff_index_eq)
      then show ?thesis using d1(3) d2(4) assms(2) n by simp
    qed (simp add: d2(3))
    moreover have "mvm0_reg_bytes d2 r = mvm0_reg_bytes d r" if "mvm0_is_reg r" "r \<notin> set (take (Suc n) ids)" for r
      using that d1(4) d2(4) n by (simp add: take_Suc_conv_app_nth)
    ultimately show ?case using d2(2) by blast
  qed
  from this [of "length ids"] obtain d' where d': "iter_act ?f [0..<length ids] d = (Ret (), d')" "mvm0_regs_ok d'"
    "\<forall>i < length ids. mvm0_reg_bytes d' (ids ! i) = bufs ! i"
    "\<forall>r. mvm0_is_reg r \<longrightarrow> r \<notin> set ids \<longrightarrow> mvm0_reg_bytes d' r = mvm0_reg_bytes d r" by auto
  moreover have "map (mvm0_reg_bytes d') ids = bufs" using d'(3) len by (intro nth_equalityI) auto
  ultimately show ?thesis by (auto simp: vms_set_regs_def)
qed

section \<open>The program runs\<close>

lemma mvm0_update_same: "mvm0_get_update_infos cpu = (r, cpu') \<Longrightarrow> cpu' = cpu"
  by (auto simp: mvm0_get_update_infos_def bind_act_def then_act_def Let_def in_bounds_def abort_def split: if_splits)

lemma on_update_view: "d_vm (snd (on_update mvm0_api d)) = d_vm d \<and> d_map_regs (snd (on_update mvm0_api d)) = d_map_regs d"
proof -
  obtain r where "mvm0_get_update_infos (d_vm d) = (r, d_vm d)" using mvm0_update_same by (metis surj_pair)
  then have call: "vm_call (api_get_update_infos mvm0_api) d = (r, d)"
    by (simp add: vm_call_def lift_act_def mvm0_api_def)
  then show ?thesis
    by (cases r) (auto simp: on_update_def bind_act_def then_act_def set_state_def track_call_stack_def check_stop_def
        assert_act_def in_bounds_def abort_def)
qed

lemma on_init_view: "on_init mvm0_api (Debugger_new cpu infos0 g) = (Ret (), d) \<Longrightarrow> d_vm d = cpu \<and> d_map_regs d = smap_empty"
  by (auto simp: on_init_def set_state_def vm_call_def lift_act_def bind_act_def then_act_def mvm0_api_def Debugger_new_def
      mvm0_get_vm_infos_def assert_act_def abort_def split: outcome.splits prod.splits if_splits dest: mvm0_update_same)

section \<open>What the other calls keep\<close>

text \<open>Calls that may fail on the way and leave the registers of the machine as they are.\<close>

abbreviation regs_are :: "(vm_reg_t \<Rightarrow> bytes) \<Rightarrow> CPU Debugger \<Rightarrow> bool" where
  "regs_are b d \<equiv> mvm0_regs_ok d \<and> mvm0_reg_bytes d = b"

lemma keeps_regs_call:
  assumes "\<And>f. keeps (\<lambda>cpu. cpu_ok cpu \<and> reg_val cpu = f) m"
  shows "keeps (regs_are b) (vm_call m)"
proof (rule keepsI)
  fix d r d'
  assume d: "regs_are b d" and run: "vm_call m d = (r, d')"
  obtain cpu where cpu: "m (d_vm d) = (r, cpu)" "d' = d\<lparr>d_vm := cpu\<rparr>"
    using run by (auto simp: vm_call_def lift_act_def split: prod.splits)
  have "cpu_ok cpu \<and> reg_val cpu = reg_val (d_vm d)"
    using keepsD [OF assms _ cpu(1)] d by (simp add: mvm0_regs_ok_def)
  then show "regs_are b d'" using d cpu(2) by (simp add: mvm0_regs_ok_def mvm0_reg_bytes_def fun_eq_iff)
qed

lemma keeps_regs_modify:
  "(\<And>d. d_vm (f d) = d_vm d \<and> d_map_regs (f d) = d_map_regs d) \<Longrightarrow> keeps (regs_are b) (modify f)"
  by (rule keeps_modify) (simp add: mvm0_regs_ok_def mvm0_reg_bytes_def fun_eq_iff)

lemma view_regs_are: "regs_are b d \<Longrightarrow> keeps_view d d' \<Longrightarrow> regs_are b d'"
  by (simp add: keeps_view_def mvm0_reg_bytes_def fun_eq_iff)

lemma load_reg_other:
  assumes "mvm0_regs_ok d" "\<not> mvm0_is_reg r"
  shows "load_reg mvm0_api r d = (Throw ''invalid register index'', d)"
proof -
  have "smap_find (d_map_regs d) r = None" using assms by (cases "smap_find (d_map_regs d) r") (auto simp: mvm0_regs_ok_def)
  then show ?thesis
    using assms(2) by (simp add: load_reg_def bind_act_def vm_call_def lift_act_def mvm0_api_def mvm0_get_reg_def mvm0_is_reg_def)
qed

lemma keeps_regs_load: "keeps (regs_are b) (load_reg mvm0_api r)"
proof (rule keepsI)
  fix d q d'
  assume d: "regs_are b d" and run: "load_reg mvm0_api r d = (q, d')"
  then show "regs_are b d'"
    using load_reg_run [of d r] load_reg_other [of d r] view_regs_are [OF d] by (cases "mvm0_is_reg r") auto
qed

lemma keeps_regs_reg_infos: "keeps (regs_are b) (get_reg_infos mvm0_api r)"
  unfolding get_reg_infos_def reg_entry_def by (intro keeps_rules keeps_regs_load)

lemma keeps_cpu_queries:
  "keeps (\<lambda>cpu. cpu_ok cpu \<and> reg_val cpu = f) (mvm0_find_reg_id n)" "keeps (\<lambda>cpu. cpu_ok cpu \<and> reg_val cpu = f) (mvm0_read_mem a z)"
  "keeps (\<lambda>cpu. cpu_ok cpu \<and> reg_val cpu = f) (mvm0_get_symbols a z)" "keeps (\<lambda>cpu. cpu_ok cpu \<and> reg_val cpu = f) (mvm0_get_symb_infos i)"
  "keeps (\<lambda>cpu. cpu_ok cpu \<and> reg_val cpu = f) (mvm0_find_sym_id n)" "keeps (\<lambda>cpu. cpu_ok cpu \<and> reg_val cpu = f) (mvm0_get_code_text a)"
  unfolding mvm0_find_reg_id_def mvm0_read_mem_def mvm0_get_symbols_def mvm0_get_symb_infos_def mvm0_find_sym_id_def
    mvm0_get_code_text_def target_text_def reg_text_def Let_def
  by (intro keeps_rules)+

lemma keeps_cpu_write_mem: "keeps (\<lambda>cpu. cpu_ok cpu \<and> reg_val cpu = f) (mvm0_write_mem a z buf)"
proof -
  have "reg_val (cpu\<lparr>cpu_ram := m\<rparr>) = reg_val cpu" for cpu m by (simp add: reg_val_def fun_eq_iff)
  then have "keeps (\<lambda>cpu. cpu_ok cpu \<and> reg_val cpu = f) (write_loop is b)" for "is" b
    by (induction "is" arbitrary: b; unfold write_loop.simps; intro keeps_rules keeps_modify) (auto simp: cpu_ok_def)
  then show ?thesis unfolding mvm0_write_mem_def by (intro keeps_rules)
qed

lemmas keeps_regs_calls = keeps_cpu_queries keeps_cpu_write_mem

declare keeps_vm_call [keeps_rules del]

lemma keeps_regs_methods:
  "keeps (regs_are b) (find_reg_id mvm0_api n)" "keeps (regs_are b) (read_mem mvm0_api a z)" "keeps (regs_are b) (write_mem mvm0_api a z buf)"
  "keeps (regs_are b) (get_symbols mvm0_api a z)" "keeps (regs_are b) (get_symbol_infos mvm0_api i)"
  "keeps (regs_are b) (find_sym_id mvm0_api n)" "keeps (regs_are b) (get_code_text mvm0_api a)"
  "keeps (regs_are b) (add_breakpoint a)" "keeps (regs_are b) (del_breakpoint a)"
proof -
  have api: "api_find_reg_id mvm0_api = mvm0_find_reg_id" "api_read_mem mvm0_api = mvm0_read_mem" "api_write_mem mvm0_api = mvm0_write_mem"
    "api_get_symbols mvm0_api = mvm0_get_symbols" "api_get_symb_infos mvm0_api = mvm0_get_symb_infos"
    "api_find_sym_id mvm0_api = mvm0_find_sym_id" "api_get_code_text mvm0_api = mvm0_get_code_text"
    by (simp_all add: mvm0_api_def)
  show "keeps (regs_are b) (find_reg_id mvm0_api n)" "keeps (regs_are b) (read_mem mvm0_api a z)" "keeps (regs_are b) (write_mem mvm0_api a z buf)"
    "keeps (regs_are b) (get_code_text mvm0_api a)" "keeps (regs_are b) (add_breakpoint a)" "keeps (regs_are b) (del_breakpoint a)"
    unfolding find_reg_id_def read_mem_def write_mem_def get_code_text_def add_breakpoint_def del_breakpoint_def api
    by (intro keeps_rules keeps_regs_load keeps_regs_call keeps_regs_calls keeps_regs_modify; simp)+
  show "keeps (regs_are b) (get_symbols mvm0_api a z)" "keeps (regs_are b) (get_symbol_infos mvm0_api i)"
    "keeps (regs_are b) (find_sym_id mvm0_api n)"
    unfolding get_symbols_def get_symbol_infos_def find_sym_id_def load_symbol_def syms_range_of_def syms_set_loaded_def
      load_symbols_in_def preload_high_def preload_symbols_def preload_symbols_around_def api
    by (intro keeps_rules keeps_regs_call keeps_regs_calls keeps_regs_modify; simp)+
qed

declare keeps_vm_call [keeps_rules]

lemma keeps_regs_vms:
  "keeps (regs_are b) (vms_get_regs_infos mvm0_api ids ris n)" "keeps (regs_are b) (vms_find_regs_ids mvm0_api ns rids n)"
  "keeps (regs_are b) (vms_read_mem mvm0_api addrs zs bufs n)" "keeps (regs_are b) (vms_write_mem mvm0_api addrs zs bufs n)"
  "keeps (regs_are b) (vms_get_symbols_by_addr mvm0_api a z)" "keeps (regs_are b) (vms_get_symbols_by_ids mvm0_api sids syms n)"
  "keeps (regs_are b) (vms_get_symbols_by_names mvm0_api ns syms n)" "keeps (regs_are b) (vms_get_code_text mvm0_api a n)"
  "keeps (regs_are b) (vms_add_breakpoints addrs n)" "keeps (regs_are b) (vms_del_breakpoints addrs n)"
  unfolding vms_defs by (intro keeps_rules keeps_regs_methods keeps_regs_reg_infos keeps_code_text_loop)+

lemma keeps_regsD: "keeps (regs_are b) m \<Longrightarrow> mvm0_regs_ok d \<Longrightarrow> b = mvm0_reg_bytes d \<Longrightarrow> m d = (r, d') \<Longrightarrow>
    mvm0_regs_ok d' \<and> mvm0_reg_bytes d' = mvm0_reg_bytes d"
  by (drule keepsD) auto

lemma described_regs:
  assumes "map_act f xs d = (Ret ys, d')" "mvm0_regs_ok d"
    and "\<And>x. keeps mvm0_regs_ok (f x)" "\<And>x d y d'. mvm0_regs_ok d \<Longrightarrow> f x d = (Ret y, d') \<Longrightarrow> Q x"
  shows "\<forall>x \<in> set xs. Q x"
  using assms(1,2)
proof (induction xs arbitrary: d ys)
  case (Cons x xs)
  then obtain y d1 ys1 where y: "f x d = (Ret y, d1)" "map_act f xs d1 = (Ret ys1, d')" by (auto simp: bind_act_eq_Ret)
  then show ?case using Cons.IH [OF y(2)] Cons.prems(2) assms(4) keepsD [OF assms(3) Cons.prems(2) y(1)] by auto
qed simp

lemma vms_infos_Ret:
  assumes "mvm0_regs_ok d" "vms_get_regs_infos mvm0_api ids out (length ids) d = (Ret xs, d')"
  shows "\<forall>r \<in> set ids. mvm0_is_reg r"
proof -
  let ?f = "\<lambda>i. bind_act (elem_at ids i) (\<lambda>x. bind_act (get_reg_infos mvm0_api x) (\<lambda>y. then_act (in_bounds (i < length out)) (ret y)))"
  have infos: "keeps mvm0_regs_ok (get_reg_infos mvm0_api r)" for r
    by (rule keepsI) (use keeps_regsD [OF keeps_regs_reg_infos] in blast)
  have keep: "keeps mvm0_regs_ok (?f i)" for i by (intro keeps_rules infos)
  have reg: "i < length ids \<longrightarrow> mvm0_is_reg (ids ! i)" if "mvm0_regs_ok d" "?f i d = (Ret y, d')" for i d y d'
    using that load_reg_other [of d "ids ! i"]
    by (cases "mvm0_is_reg (ids ! i)") (auto simp: elem_at_def get_reg_infos_def bind_act_def then_act_def split: if_splits)
  obtain ys d1 where "map_act ?f [0..<length ids] d = (Ret ys, d1)"
    using assms(2) by (auto simp: vms_get_regs_infos_def fill_array_def bind_act_eq_Ret)
  then have "\<forall>i \<in> set [0..<length ids]. i < length ids \<longrightarrow> mvm0_is_reg (ids ! i)"
    using assms(1) keep reg by (rule described_regs)
  then show ?thesis by (auto simp: in_set_conv_nth)
qed

interpretation mvm0_regs: register_machine "vmside_impl mvm0_api" mvm0_regs_ok mvm0_is_reg mvm0_reg_infos
  mvm0_reg_bytes mvm0_start mvm0_runs
proof unfold_locales
  have view: "keeps_view d d' \<Longrightarrow> mvm0_regs_ok d' \<and> mvm0_reg_bytes d' = mvm0_reg_bytes d" for d d'
    by (simp add: keeps_view_def mvm0_reg_bytes_def fun_eq_iff)
  show "\<exists>xs s'. im_get_regs_infos (vmside_impl mvm0_api) ids out (length ids) s = (Ret xs, s') \<and>
      map strip_val xs = map mvm0_reg_infos ids \<and> mvm0_regs_ok s' \<and> mvm0_reg_bytes s' = mvm0_reg_bytes s"
    if "mvm0_regs_ok s" "\<forall>r \<in> set ids. mvm0_is_reg r" "length out = length ids" for s ids out
    using vms_infos_run [OF that] view by (auto simp: vmside_impl_def)
  have size4: "unat (ri_size (mvm0_reg_infos r)) = 4" for r by (simp add: mvm0_reg_infos_def)
  show "\<exists>s'. im_get_regs (vmside_impl mvm0_api) ids rows sizes (length ids) s = (Ret (map (mvm0_reg_bytes s) ids), s') \<and>
      mvm0_regs_ok s' \<and> mvm0_reg_bytes s' = mvm0_reg_bytes s"
    if "mvm0_regs_ok s" "\<forall>r \<in> set ids. mvm0_is_reg r" "map length rows = map (\<lambda>r. unat (ri_size (mvm0_reg_infos r))) ids"
    for s ids rows sizes
    using vms_vals_run [OF that(1,2), of rows] that(3) view by (auto simp: vmside_impl_def size4)
  show "\<exists>s'. im_set_regs (vmside_impl mvm0_api) ids bufs sizes (length ids) s = (Ret (), s') \<and> mvm0_regs_ok s' \<and>
      map (mvm0_reg_bytes s') ids = bufs \<and>
      (\<forall>r. mvm0_is_reg r \<longrightarrow> r \<notin> set ids \<longrightarrow> mvm0_reg_bytes s' r = mvm0_reg_bytes s r)"
    if "mvm0_regs_ok s" "\<forall>r \<in> set ids. mvm0_is_reg r" "distinct ids"
      "map length bufs = map (\<lambda>r. unat (ri_size (mvm0_reg_infos r))) ids" for s ids bufs sizes
    using vms_set_run [OF that(1-3), of bufs] that(4) by (simp add: vmside_impl_def size4)
  show "ri_idx (mvm0_reg_infos r) = r" and "ri_size (mvm0_reg_infos r) \<noteq> 0" for r by (simp_all add: mvm0_reg_infos_def)
  show "length (mvm0_reg_bytes s r) = unat (ri_size (mvm0_reg_infos r))" for s r
    by (simp add: size4 mvm0_reg_bytes_def sb_serial_raw_def raw_size_def)
  show "mvm0_regs_ok s'" if "mvm0_start s" "im_connect (vmside_impl mvm0_api) infos udp s = (Ret x, s')" for s infos udp x s'
    using that on_init_view by (auto simp: mvm0_start_def vmside_impl_def vms_connect_def vms_check_stopped_def bind_act_def
        mvm0_regs_ok_def smap_empty_def)
  show "mvm0_regs_ok s' \<and> mvm0_reg_bytes s' = mvm0_reg_bytes s \<and> ((\<exists>xs. r = Ret xs) \<longrightarrow> (\<forall>i \<in> set ids. mvm0_is_reg i))"
    if "mvm0_regs_ok s" "im_get_regs_infos (vmside_impl mvm0_api) ids out (length ids) s = (r, s')" for s ids out r s'
  proof -
    have run: "vms_get_regs_infos mvm0_api ids out (length ids) s = (r, s')" using that(2) by (simp add: vmside_impl_def)
    from keeps_regsD [OF keeps_regs_vms(1) that(1) refl run] vms_infos_Ret [OF that(1), of ids out] run show ?thesis by auto
  qed
  show "mvm0_regs_ok s' \<and> mvm0_reg_bytes s' = mvm0_reg_bytes s"
    if "mvm0_regs_ok s" "im_find_regs_ids (vmside_impl mvm0_api) names rids n s = (rf, s')" for s names rids n rf s'
  proof -
    have run: "vms_find_regs_ids mvm0_api names rids n s = (rf, s')" using that(2) by (simp add: vmside_impl_def)
    from keeps_regsD [OF keeps_regs_vms(2) that(1) refl run] show ?thesis .
  qed
  have kept: "mvm0_regs_ok (snd (m s)) \<and> mvm0_reg_bytes (snd (m s)) = mvm0_reg_bytes s"
    if "mvm0_regs_ok s" "\<And>b. keeps (regs_are b) m" for s and m :: "(CPU Debugger, 'x) act"
    using keeps_regsD [OF that(2,1) refl surjective_pairing] .
  have vmside_sel: "im_read_mem (vmside_impl mvm0_api) = vms_read_mem mvm0_api" "im_write_mem (vmside_impl mvm0_api) = vms_write_mem mvm0_api"
    "im_get_symbols_by_addr (vmside_impl mvm0_api) = vms_get_symbols_by_addr mvm0_api"
    "im_get_symbols_by_ids (vmside_impl mvm0_api) = vms_get_symbols_by_ids mvm0_api"
    "im_get_symbols_by_names (vmside_impl mvm0_api) = vms_get_symbols_by_names mvm0_api"
    "im_get_code_text (vmside_impl mvm0_api) = vms_get_code_text mvm0_api" "im_add_breakpoints (vmside_impl mvm0_api) = vms_add_breakpoints"
    "im_del_breakpoints (vmside_impl mvm0_api) = vms_del_breakpoints" by (simp_all add: vmside_impl_def)
  show "mvm0_regs_ok s' \<and> mvm0_reg_bytes s' = mvm0_reg_bytes s" if "mvm0_regs_ok s" "peer_call (vmside_impl mvm0_api) s s'" for s s'
    using that(2) unfolding peer_call_def vmside_sel
    by (elim disjE exE) (simp, rule kept [OF that(1)], rule keeps_regs_vms)+
  show "mvm0_regs_ok s' \<and> (ru \<noteq> Ret () \<longrightarrow> mvm0_reg_bytes s' = mvm0_reg_bytes s)"
    if "mvm0_regs_ok s" "im_resume (vmside_impl mvm0_api) type s = (ru, s')" for s type ru s'
    using that by (auto simp: vmside_impl_def vms_resume_def resume_def set_state_def bind_act_def then_act_def throw_def
        mvm0_regs_ok_def split: if_splits)
  show "mvm0_regs_ok s'" if "mvm0_regs_ok s" "im_check_stopped (vmside_impl mvm0_api) udp s = (rc, s')" for s udp rc s'
    using that by (auto simp: vmside_impl_def vms_check_stopped_def)
  show "mvm0_regs_ok s'" if "mvm0_regs_ok s" "mvm0_runs s s'" for s s'
    using that on_update_view
    by (auto simp: mvm0_runs_def mvm0_regs_ok_def stop_def set_state_def bind_act_def then_act_def throw_def assert_act_def
        abort_def split: if_splits)
qed

section \<open>Clients of mvm0\<close>

abbreviation mvm0_impl :: "CPU Debugger DBClientImpl" where
  "mvm0_impl \<equiv> vmside_impl mvm0_api"

abbreviation mvm0_session :: "CPU Debugger DBClient \<Rightarrow> bool" where
  "mvm0_session \<equiv> client_session mvm0_impl mvm0_start mvm0_runs (\<lambda>r. r < 18) (\<lambda>_. 4)"

lemma mvm0_session_iff:
  "mvm0_session c \<longleftrightarrow> client_session mvm0_impl mvm0_start mvm0_runs mvm0_is_reg (\<lambda>r. ri_size (mvm0_reg_infos r)) c"
proof -
  have "(\<lambda>r. r < 18) = mvm0_is_reg" "(\<lambda>_. 4) = (\<lambda>r. ri_size (mvm0_reg_infos r))"
    by (simp_all add: fun_eq_iff mvm0_is_reg_def NB_REGS_def mvm0_reg_infos_def)
  then show ?thesis by simp
qed

text \<open>
  C17. In every session of a client with \<open>mvm0\<close> that does not use \<open>DBClient::stop\<close> (which leaves old values
  in the cache), whatever was read, looked up, written and executed before, failed calls included,
  and whatever the client's cache holds, \<open>get_regs\<close> in the stopped state returns the values the
  registers have in the CPU. Writes of a session name distinct registers with values of their size,
  or fail because they name something else.
\<close>

theorem client_reads_registers:
  assumes "mvm0_session c" "c_state c = VM_STOPPED" "\<forall>r \<in> set ids. r < 18"
    and "map length bufs = map (\<lambda>_. 4) ids" "sizes = map (\<lambda>_. 4) ids \<or> sizes = [4, 0]"
  shows "\<exists>c'. cl_get_regs mvm0_impl ids bufs sizes c =
      (Ret (map (\<lambda>r. sb_serial_raw (reg_val (d_vm (c_peer c)) r)) ids), c')"
  using mvm0_regs.session_reads_registers [OF assms(1) [unfolded mvm0_session_iff] assms(2), of ids bufs sizes] assms(3-5)
  by (auto simp: mvm0_is_reg_def NB_REGS_def mvm0_reg_infos_def mvm0_reg_bytes_def [abs_def] sizes_arg_def)

definition tiny_cpu :: "u32 \<Rightarrow> CPU" where
  "tiny_cpu r0 = \<lparr>cpu_regs = [r0, 0, 0, 0, 0, 0, 0, 0, 0, 0, 0, 0, 0, 0, 0, 1024], cpu_pc = 1024, cpu_prev_pc = 0, cpu_zf = 0,
    cpu_ram = [], cpu_guard = 0, cpu_rom = sample_rom, cpu_status = Status_OK\<rparr>"

text \<open>
  A session: the client connects, the server stops the program, the client sees it, reads register 0
  and resumes; the program then changes the register.
\<close>

definition tiny_debugger :: "CPU Debugger" where
  "tiny_debugger = snd (on_init mvm0_api (Debugger_new (tiny_cpu 0) script_infos 0))"

definition tiny_connected :: "CPU Debugger DBClient" where
  "tiny_connected = snd (cl_connect mvm0_impl (DBClient_new tiny_debugger sample_update script_infos))"

definition tiny_stopped :: "CPU Debugger DBClient" where
  "tiny_stopped = snd (cl_check_stopped mvm0_impl (tiny_connected\<lparr>c_peer := snd (stop (c_peer tiny_connected))\<rparr>))"

definition tiny_read :: "CPU Debugger DBClient" where
  "tiny_read = snd (cl_get_regs mvm0_impl [0] [[0, 0, 0, 0]] [4] tiny_stopped)"

definition tiny_resumed :: "CPU Debugger DBClient" where
  "tiny_resumed = snd (cl_resume mvm0_impl Continue tiny_read)"

definition tiny_running :: "CPU Debugger DBClient" where
  "tiny_running = tiny_resumed\<lparr>c_peer := snd (on_update mvm0_api ((c_peer tiny_resumed)\<lparr>d_vm := tiny_cpu 7\<rparr>))\<rparr>"

lemma run_snd: "fst (m s) = Ret x \<Longrightarrow> m s = (Ret x, snd (m s))"
  by (simp add: prod_eq_iff)

lemma tiny_cpu_ok: "cpu_ok (tiny_cpu x)"
  by (simp add: cpu_ok_def tiny_cpu_def)

lemma tiny_stopped_session: "mvm0_session tiny_stopped"
proof -
  have "on_init mvm0_api (Debugger_new (tiny_cpu 0) script_infos 0) = (Ret (), tiny_debugger)"
    unfolding tiny_debugger_def by (rule run_snd) code_simp
  then have "mvm0_start tiny_debugger" using tiny_cpu_ok unfolding mvm0_start_def by blast
  moreover have "cl_connect mvm0_impl (DBClient_new tiny_debugger sample_update script_infos) = (Ret (), tiny_connected)"
    unfolding tiny_connected_def by (rule run_snd) code_simp
  ultimately have "mvm0_session tiny_connected" by (rule session_connect)
  moreover have "c_state tiny_connected = VM_RUNNING" by code_simp
  moreover have "stop (c_peer tiny_connected) = (Ret (), snd (stop (c_peer tiny_connected)))" by (rule run_snd) code_simp
  then have "mvm0_runs (c_peer tiny_connected) (snd (stop (c_peer tiny_connected)))" by (simp add: mvm0_runs_def)
  ultimately have "mvm0_session (tiny_connected\<lparr>c_peer := snd (stop (c_peer tiny_connected))\<rparr>)" by (rule session_run)
  then show ?thesis unfolding tiny_stopped_def by (rule session_check)
qed

lemma tiny_running_session: "mvm0_session tiny_running"
proof -
  have "mvm0_session tiny_read" unfolding tiny_read_def by (rule session_read [OF tiny_stopped_session])
  then have "mvm0_session tiny_resumed" unfolding tiny_resumed_def by (rule session_resume)
  moreover have "c_state tiny_resumed = VM_RUNNING" by code_simp
  moreover have "mvm0_runs (c_peer tiny_resumed) (snd (on_update mvm0_api ((c_peer tiny_resumed)\<lparr>d_vm := tiny_cpu 7\<rparr>)))"
    using tiny_cpu_ok unfolding mvm0_runs_def by blast
  ultimately show ?thesis unfolding tiny_running_def by (rule session_run)
qed

theorem client_reads_registers_witness:
  "\<exists>c'. cl_get_regs mvm0_impl [0, 15, 16] (replicate 3 [9, 9, 9, 9]) [4, 4, 4] tiny_stopped =
    (Ret [[0, 0, 0, 0], [0, 4, 0, 0], [0, 4, 0, 0]], c')"
proof -
  have "c_state tiny_stopped = VM_STOPPED" by code_simp
  moreover have "map (\<lambda>r. sb_serial_raw (reg_val (d_vm (c_peer tiny_stopped)) r)) [0, 15, 16] =
      [[0, 0, 0, 0], [0, 4, 0, 0], [0, 4, 0, 0]]" by code_simp
  ultimately show ?thesis
    using client_reads_registers [OF tiny_stopped_session, of "[0, 15, 16]" "replicate 3 [9, 9, 9, 9]" "[4, 4, 4]"]
    by (simp add: numeral_3_eq_3)
qed

lemma client_write_read:
  assumes "mvm0_session c" "c_state c = VM_STOPPED" "\<forall>r \<in> set ids. r < 18" "distinct ids"
    and "map length vals = map (\<lambda>_. 4) ids" "map length bufs = map (\<lambda>_. 4) ids"
    and sizes: "sizes = map (\<lambda>_. 4) ids \<or> sizes = [4, 0]"
  shows "\<exists>c1 c2. cl_set_regs mvm0_impl ids vals sizes c = (Ret (), c1) \<and>
    cl_get_regs mvm0_impl ids bufs sizes c1 = (Ret vals, c2) \<and>
    map (\<lambda>r. sb_serial_raw (reg_val (d_vm (c_peer c1)) r)) ids = vals \<and>
    (\<forall>r < 18. r \<notin> set ids \<longrightarrow> reg_val (d_vm (c_peer c1)) r = reg_val (d_vm (c_peer c)) r)"
proof -
  let ?sz = "\<lambda>r. ri_size (mvm0_reg_infos r)"
  have sz: "sizes_arg sizes (map ?sz ids)" using sizes by (auto simp: sizes_arg_def mvm0_reg_infos_def)
  have regs: "\<forall>r \<in> set ids. mvm0_is_reg r" using assms(3) by (simp add: mvm0_is_reg_def NB_REGS_def)
  have len: "map length vals = map (\<lambda>r. unat (?sz r)) ids" "map length bufs = map (\<lambda>r. unat (?sz r)) ids"
    using assms(5,6) by (simp_all add: mvm0_reg_infos_def)
  obtain c1 where c1: "cl_set_regs mvm0_impl ids vals sizes c = (Ret (), c1)" "c_state c1 = VM_STOPPED"
    "map (mvm0_reg_bytes (c_peer c1)) ids = vals"
    "\<forall>r. mvm0_is_reg r \<longrightarrow> r \<notin> set ids \<longrightarrow> mvm0_reg_bytes (c_peer c1) r = mvm0_reg_bytes (c_peer c) r"
    using mvm0_regs.session_writes_registers [OF assms(1) [unfolded mvm0_session_iff] assms(2) regs assms(4) len(1) sz] by blast
  have "client_session mvm0_impl mvm0_start mvm0_runs mvm0_is_reg ?sz c1"
    using assms(1) [unfolded mvm0_session_iff] regs assms(4) len(1) sz c1(1) by (rule session_write)
  from mvm0_regs.session_reads_registers [OF this c1(2) regs len(2) sz] c1(3)
  obtain c2 where "cl_get_regs mvm0_impl ids bufs sizes c1 = (Ret vals, c2)" by auto
  moreover have "reg_val (d_vm (c_peer c1)) r = reg_val (d_vm (c_peer c)) r" if "r < 18" "r \<notin> set ids" for r
  proof -
    have "mvm0_reg_bytes (c_peer c1) r = mvm0_reg_bytes (c_peer c) r"
      using c1(4) that by (simp add: mvm0_is_reg_def NB_REGS_def)
    then show ?thesis using u32c.enc_injective by (simp add: mvm0_reg_bytes_def sb_serial_raw_def raw_size_def)
  qed
  moreover have "map (\<lambda>r. sb_serial_raw (reg_val (d_vm (c_peer c1)) r)) ids = vals"
    using c1(3) by (simp add: mvm0_reg_bytes_def [abs_def])
  ultimately show ?thesis using c1(1) by blast
qed

text \<open>
  C18. Registers a client writes are the ones it reads afterwards: \<open>set_regs\<close> stores the new values in the
  CPU and leaves the other registers alone, and the following \<open>get_regs\<close> returns them.
\<close>

theorem client_reads_back_writes:
  assumes "mvm0_session c" "c_state c = VM_STOPPED" "\<forall>r \<in> set ids. r < 18" "distinct ids"
    and "map length vals = map (\<lambda>_. 4) ids" "map length bufs = map (\<lambda>_. 4) ids"
    and sizes: "sizes = map (\<lambda>_. 4) ids \<or> sizes = [4, 0]"
  shows "\<exists>c1 c2. cl_set_regs mvm0_impl ids vals sizes c = (Ret (), c1) \<and>
    cl_get_regs mvm0_impl ids bufs sizes c1 = (Ret vals, c2) \<and>
    map (\<lambda>r. sb_serial_raw (reg_val (d_vm (c_peer c1)) r)) ids = vals \<and>
    (\<forall>r < 18. r \<notin> set ids \<longrightarrow> reg_val (d_vm (c_peer c1)) r = reg_val (d_vm (c_peer c)) r)"
  using assms by (rule client_write_read)

theorem client_reads_back_writes_witness:
  "\<exists>c1 c2. cl_set_regs mvm0_impl [3, 17] [[1, 2, 3, 4], [1, 0, 0, 0]] [4, 4] tiny_stopped = (Ret (), c1) \<and>
    cl_get_regs mvm0_impl [3, 17] [[0, 0, 0, 0], [0, 0, 0, 0]] [4, 4] c1 = (Ret [[1, 2, 3, 4], [1, 0, 0, 0]], c2)"
proof -
  have "c_state tiny_stopped = VM_STOPPED" by code_simp
  from client_reads_back_writes [OF tiny_stopped_session this, of "[3, 17]" "[[1, 2, 3, 4], [1, 0, 0, 0]]" "[[0, 0, 0, 0], [0, 0, 0, 0]]" "[4, 4]"]
  show ?thesis by auto
qed

text \<open>
  C19. \<open>DBClient::stop\<close>, unlike \<open>check_stopped\<close>, keeps the register values of before the run: a register that was
  read before the program was resumed is answered from the cache after \<open>stop\<close>, whatever value the
  machine behind the client has given it since.
\<close>

theorem stop_keeps_stale_values:
  assumes "cl_stop im c = (Ret (), c')" "smap_find (c_regi_idx_map c) r = Some k" "k < length (c_regi_arr c)"
    and "ri_val (c_regi_arr c ! k) = v" "v \<noteq> []" "length v = unat n" "length buf = unat n"
  shows "cl_get_regs im [r] [buf] [n] c' = (Ret [v], c')"
proof -
  have c': "c_regi_arr c' = c_regi_arr c" "c_regi_idx_map c' = c_regi_idx_map c" "c_state c' = VM_STOPPED"
    using assms(1) by (auto simp: cl_stop_def cl_update_def client_Ret assert_act_def split: if_splits)
  then have reg: "cached_reg r c' = (Ret (c_regi_arr c ! k), c')" using assms(2,3)
    by (simp add: cached_reg_def cache_pos_def bind_act_def then_act_def)
  have "fetch_reg_vals_by_id im [r] c' = (Ret (), c')"
    using assms(2,4,5) c' reg by (simp add: fetch_reg_vals_by_id_def fetch_reg_infos_by_id_def then_act_def bind_act_def)
  then show ?thesis
    using assms(4-7) c' reg
    by (simp add: cl_get_regs_def assert_state_then then_act_def bind_act_def assert_state_def nth_size_def elem_at_def store_row_def)
qed

theorem stop_keeps_stale_values_witness:
  "mvm0_session tiny_running \<and> reg_val (d_vm (c_peer tiny_running)) 0 = 7 \<and>
    (\<exists>c'. cl_stop mvm0_impl tiny_running = (Ret (), c') \<and>
      cl_get_regs mvm0_impl [0] [[5, 5, 5, 5]] [4] c' = (Ret [[0, 0, 0, 0]], c'))"
proof -
  have "cl_stop mvm0_impl tiny_running = (Ret (), snd (cl_stop mvm0_impl tiny_running))" by (rule run_snd) code_simp
  moreover from this have "cl_get_regs mvm0_impl [0] [[5, 5, 5, 5]] [4] (snd (cl_stop mvm0_impl tiny_running)) =
      (Ret [[0, 0, 0, 0]], snd (cl_stop mvm0_impl tiny_running))"
  proof (rule stop_keeps_stale_values)
    show "smap_find (c_regi_idx_map tiny_running) 0 = Some 0" "0 < length (c_regi_arr tiny_running)"
      "ri_val (c_regi_arr tiny_running ! 0) = [0, 0, 0, 0]"
      by code_simp+
  qed simp_all
  moreover have "reg_val (d_vm (c_peer tiny_running)) 0 = 7" by code_simp
  ultimately show ?thesis using tiny_running_session by blast
qed

end
