(* ===== verification/Simple_Cli_Props.thy ===== *)
theory Simple_Cli_Props
  imports Simple_Cli Mvm0_Client
begin

text \<open>
  The command language: numbers are read back as they are printed, values are stored and printed
  without loss as far as a \<open>double\<close> holds them, the symbol references of a code line lie inside the
  line, and commands do to the debugger what they say.
\<close>

section \<open>Numbers\<close>

lemma of_char_digit: "k < 36 \<Longrightarrow> (of_char (digit_char k) :: nat) = (if k < 10 then 48 + k else 87 + k)"
  by (simp add: digit_char_def)

lemma digit_val_char: "k < 36 \<Longrightarrow> digit_val (digit_char k) = Some k"
  by (auto simp: digit_val_def of_char_digit Let_def)

lemma base_digit_char [simp]: "b \<le> 36 \<Longrightarrow> k < b \<Longrightarrow> base_digit b (digit_char k)"
  by (simp add: base_digit_def digit_val_char)

lemma digits_of_digits:
  assumes "2 \<le> b" "b \<le> 36"
  shows "\<forall>c \<in> set (digits_of b n). base_digit b c"
  using assms
proof (induction b n rule: digits_of.induct)
  case (1 b n)
  then show ?case by (subst digits_of.simps) auto
qed

lemma digits_of_nonempty [simp]: "digits_of b n \<noteq> []"
  by (subst digits_of.simps) simp

lemma digits_val_digits_of:
  assumes "2 \<le> b" "b \<le> 36"
  shows "digits_val b (digits_of b n) = n"
  using assms
proof (induction b n rule: digits_of.induct)
  case (1 b n)
  show ?case
  proof (cases "n < b \<or> b < 2")
    case True
    then show ?thesis using 1 by (subst digits_of.simps) (simp add: digits_val_def digit_val_char)
  next
    case False
    have "digit_val (digit_char (n mod b)) = Some (n mod b)"
      by (rule digit_val_char, rule less_le_trans [of _ b]) (use 1 in simp_all)
    with False show ?thesis using 1 by (subst digits_of.simps) (simp add: digits_val_def)
  qed
qed

lemma hd_digits_of:
  assumes "2 \<le> b" "b \<le> 36" "0 < n"
  shows "\<exists>k. 0 < k \<and> k < b \<and> hd (digits_of b n) = digit_char k"
  using assms
proof (induction b n rule: digits_of.induct)
  case (1 b n)
  show ?case
  proof (cases "n < b \<or> b < 2")
    case True
    then show ?thesis using 1 by (subst digits_of.simps) auto
  next
    case False
    moreover from this have "0 < n div b" using 1 by (simp add: div_greater_zero_iff)
    ultimately show ?thesis using 1 by (subst digits_of.simps) (simp add: hd_append)
  qed
qed

lemma dec_of_nat_digits: "dec_of_nat n = digits_of 10 n"
  by (induction n rule: dec_of_nat.induct) (subst dec_of_nat.simps, subst digits_of.simps, simp)

lemma base_digitD:
  assumes "base_digit b c" "b \<le> 36"
  shows "\<not> is_space c" "c \<noteq> CHR ''-''" "c \<noteq> CHR ''+''" "b \<le> 33 \<Longrightarrow> c \<noteq> CHR ''x''" "b \<le> 33 \<Longrightarrow> c \<noteq> CHR ''X''"
  using assms by (auto simp: base_digit_def is_space_def digit_val_def)

lemma stoll_all_digits:
  assumes "s \<noteq> []" "\<forall>c \<in> set s. base_digit b c" "b \<le> 16" "digits_val b s < 2 ^ 63"
  shows "stoll s b = Some (int (digits_val b s), length s)"
proof -
  have tw: "takeWhile (base_digit b) s = s" "dropWhile (base_digit b) s = []"
    using assms(2) by (simp_all add: takeWhile_eq_all_conv)
  have hd: "base_digit b (hd s)" using assms by simp
  note h = base_digitD [OF hd]
  have sp: "dropWhile is_space s = s" using h(1) assms by (cases s) auto
  have x: "s ! 1 \<noteq> CHR ''x'' \<and> s ! 1 \<noteq> CHR ''X''" if "length s > 2"
    using base_digitD(4,5) [of b "s ! 1"] assms(2,3) that by auto
  have "int (digits_val b s) < 2 ^ 63" using assms(4) by (metis of_nat_less_iff of_nat_numeral of_nat_power)
  moreover have "- (2 ^ 63) \<le> int (digits_val b s)" by (rule order_trans [of _ 0]) simp_all
  ultimately show ?thesis using assms(1,3) h(2,3) unfolding stoll_def Let_def sp by (auto simp: tw not_less not_le dest: x)
qed

lemma stoll_digits:
  "2 \<le> b \<Longrightarrow> b \<le> 16 \<Longrightarrow> n < 2 ^ 63 \<Longrightarrow> stoll (digits_of b n) b = Some (int n, length (digits_of b n))"
  using stoll_all_digits [of "digits_of b n" b] digits_of_digits [of b n] digits_val_digits_of [of b n] by simp

lemma digits_val_zero: "digits_val b (CHR ''0'' # s) = digits_val b s"
  by (simp add: digits_val_def digit_val_def)

lemma parse_int_decimal:
  assumes "n < 2 ^ 63"
  shows "parse_int (digits_of 10 n) sgnd = Ret (int n)"
proof (cases "n = 0")
  case True
  have "digits_of 10 0 = ''0''" by (subst digits_of.simps) (simp add: digit_char_def char_of_def bit_simps)
  moreover have "stoll ''0'' 8 = Some (0, 1)"
    using stoll_all_digits [of "''0''" 8] by (simp add: base_digit_def digits_val_def digit_val_def)
  ultimately show ?thesis using True by (simp add: parse_int_def)
next
  case False
  let ?s = "digits_of 10 n"
  obtain k where k: "0 < k" "k < 10" "hd ?s = digit_char k" using hd_digits_of [of 10 n] False by auto
  have "digit_char k \<noteq> CHR ''0''" using k(1,2) arg_cong [of "digit_char k" "CHR ''0''" "of_char :: char \<Rightarrow> nat"] of_char_digit [of k] by auto
  then have "?s ! 0 \<noteq> CHR ''0''" "hd ?s \<noteq> CHR ''-''"
    using k base_digitD(2) [of 10 "hd ?s"] by (simp_all flip: hd_conv_nth)
  then show ?thesis using stoll_digits [OF _ _ assms, of 10] by (simp add: parse_int_def)
qed

text \<open>
  C23. Numbers are read back as they are written, in base 10 and, with the prefixes \<open>0x\<close>, \<open>0b\<close> and \<open>0\<close>, in
  the bases 16, 2 and 8: every number below \<open>2 ^ 63\<close>, for signed and unsigned arguments.
\<close>

theorem parse_int_digits:
  assumes "n < 2 ^ 63"
  shows "parse_int (digits_of 10 n) sgnd = Ret (int n) \<and> parse_int (''0x'' @ digits_of 16 n) sgnd = Ret (int n) \<and>
    parse_int (''0b'' @ digits_of 2 n) sgnd = Ret (int n) \<and> parse_int (''0'' @ digits_of 8 n) sgnd = Ret (int n)"
proof (intro conjI)
  show "parse_int (digits_of 10 n) sgnd = Ret (int n)" using assms by (rule parse_int_decimal)
  show "parse_int (''0x'' @ digits_of 16 n) sgnd = Ret (int n)" "parse_int (''0b'' @ digits_of 2 n) sgnd = Ret (int n)"
    using stoll_digits [OF _ _ assms, of 16] stoll_digits [OF _ _ assms, of 2] by (simp_all add: parse_int_def)
  let ?s = "digits_of 8 n"
  have "hd ?s \<noteq> CHR ''x''" "hd ?s \<noteq> CHR ''b''"
    using digits_of_digits [of 8 n] list.set_sel(1) [OF digits_of_nonempty, of 8 n] by (force simp: base_digit_def digit_val_def)+
  moreover have "stoll (CHR ''0'' # ?s) 8 = Some (int n, Suc (length ?s))"
    using stoll_all_digits [of "CHR ''0'' # ?s" 8] digits_of_digits [of 8 n] digits_val_digits_of [of 8 n] assms
    by (simp add: digits_val_zero base_digit_def digit_val_def)
  ultimately show "parse_int (''0'' @ ?s) sgnd = Ret (int n)" by (simp add: parse_int_def flip: hd_conv_nth)
qed

theorem parse_int_digits_witness:
  "parse_int (digits_of 10 1024) True = Ret 1024 \<and> parse_int (''0x'' @ digits_of 16 1024) True = Ret 1024 \<and>
    parse_int (''0b'' @ digits_of 2 1024) True = Ret 1024 \<and> parse_int (''0'' @ digits_of 8 1024) True = Ret 1024"
  using parse_int_digits [of 1024 True] by simp

text \<open>
  The sign of an integer is lost: a negative number is read as its absolute value.
\<close>

theorem parse_int_loses_sign:
  assumes "n < 2 ^ 63"
  shows "parse_int (''-'' @ digits_of 10 n) True = Ret (int n)"
proof -
  have hd: "hd (digits_of 10 n) \<noteq> CHR ''-''"
    using base_digitD(2) [of 10 "hd (digits_of 10 n)"] digits_of_digits [of 10 n] by simp
  have "parse_int (''-'' @ digits_of 10 n) True = Ret x \<longleftrightarrow> parse_int (digits_of 10 n) True = Ret x" for x
    using hd by (simp add: parse_int_def Let_def split: option.splits prod.splits)
  then show ?thesis using parse_int_decimal [OF assms] by simp
qed

theorem parse_int_loses_sign_witness: "parse_int ''-5'' True = Ret 5"
proof -
  have "digits_of 10 5 = ''5''" by (subst digits_of.simps) (simp add: digit_char_def char_of_def bit_simps)
  then show ?thesis using parse_int_loses_sign [of 5] by simp
qed

section \<open>Stored values\<close>

lemma bit_len_le: "n < 2 ^ k \<Longrightarrow> bit_len n \<le> k"
proof (induction n arbitrary: k rule: bit_len.induct)
  case (1 n)
  show ?case
  proof (cases "n \<le> 0")
    case False
    then obtain k' where k: "k = Suc k'" using 1(2) by (cases k) auto
    have "n div 2 < 2 ^ k'" using 1(2) by (simp add: k)
    then show ?thesis using 1(1) False k by (subst bit_len.simps) simp
  qed (subst bit_len.simps, simp)
qed

lemma double_int_small: "\<bar>x\<bar> < 2 ^ 53 \<Longrightarrow> double_int x = x"
proof -
  assume "\<bar>x\<bar> < 2 ^ 53"
  from bit_len_le [OF this] have "bit_len \<bar>x\<bar> - 53 = 0" by simp
  then show ?thesis by (simp add: double_int_def mult_sgn_abs)
qed

text \<open>A floating-point library that reads no number and prints nothing, for examples with integers only.\<close>

definition no_floats :: float_lib where
  "no_floats = \<lparr>fl_stod = (\<lambda>_. None), fl_trunc = (\<lambda>_. None), fl_of_int = (\<lambda>_. 0), fl_narrow = (\<lambda>_. 0),
    fl_show32 = (\<lambda>_. []), fl_show64 = (\<lambda>_. [])\<rparr>"

definition int_type :: "TypeDesc \<Rightarrow> bool" where
  "int_type ty \<longleftrightarrow> ty \<noteq> T_f32 \<and> ty \<noteq> T_f64"

definition in_type :: "TypeDesc \<Rightarrow> int \<Rightarrow> bool" where
  "in_type ty z \<longleftrightarrow> (let n = 8 * type_desc_size ty in
    if is_signed_type ty then - (2 ^ (n - 1)) \<le> z \<and> z < 2 ^ (n - 1) else 0 \<le> z \<and> z < 2 ^ n)"

lemma type_size_le: "type_desc_size ty \<le> 8" "0 < type_desc_size ty"
  by (cases ty; simp)+

lemma print_int_bytes:
  assumes "int_type ty" "in_type ty z"
  shows "int_bytes ty z = Ret (le_bytes (type_desc_size ty) (word_of_int z :: u64)) \<and>
    print_val fl (le_bytes (type_desc_size ty) (word_of_int z :: u64)) ty = Ret (dec_of_int z)"
proof -
  let ?n = "type_desc_size ty" and ?w = "word_of_int z :: u64"
  have u: "uint (of_le_bytes (le_bytes ?n ?w) :: u64) = take_bit (8 * ?n) z"
    using type_size_le [of ty] by (simp add: of_le_le_bytes unsigned_take_bit_eq uint_word_of_int_eq take_bit_take_bit min_def)
  have pv: "print_val fl (le_bytes ?n ?w) ty = Ret (if is_signed_type ty
      then dec_of_int (signed_take_bit (8 * ?n - 1) (uint (of_le_bytes (le_bytes ?n ?w) :: u64)))
      else dec_of_nat (unat (of_le_bytes (le_bytes ?n ?w) :: u64)))"
    using assms(1) by (cases ty) (simp_all add: print_val_def int_type_def)
  have "print_val fl (le_bytes ?n ?w) ty = Ret (dec_of_int z)"
  proof (cases "is_signed_type ty")
    case True
    then have "signed_take_bit (8 * ?n - 1) (take_bit (8 * ?n) z) = z"
      using assms(2) type_size_le [of ty]
      by (auto simp: signed_take_bit_take_bit in_type_def signed_take_bit_int_eq_self_iff Let_def)
    then show ?thesis using True unfolding pv u by simp
  next
    case False
    then have z: "0 \<le> z" "take_bit (8 * ?n) z = z"
      using assms(2) by (simp_all add: in_type_def Let_def take_bit_int_eq_self)
    then have "unat (of_le_bytes (le_bytes ?n ?w) :: u64) = nat z" using u by (simp flip: nat_uint_eq)
    then show ?thesis using False z(1) unfolding pv by (simp add: dec_of_int_def)
  qed
  then show ?thesis using assms(2) by (simp add: int_bytes_def in_type_def Let_def split: if_splits)
qed

text \<open>
  An integer stored with an integer type is printed as it was, for the values of the type that
  fit in the 53 bits of a \<open>double\<close>.
\<close>

theorem load_print_int:
  assumes "int_type ty" "in_type ty x" "\<bar>x\<bar> < 2 ^ 53"
  shows "\<exists>buf. load_val fl (V_ival x) ty = Ret buf \<and> length buf = type_desc_size ty \<and> print_val fl buf ty = Ret (dec_of_int x)"
  using print_int_bytes [OF assms(1,2)] double_int_small [OF assms(3)] assms(1)
  by (cases ty) (auto simp: load_val_def int_type_def)

theorem load_print_int_witness:
  "\<exists>buf. load_val no_floats (V_ival (- 3)) T_i16 = Ret buf \<and> length buf = 2 \<and> print_val no_floats buf T_i16 = Ret (dec_of_int (- 3))"
  using load_print_int [of T_i16 "- 3" no_floats] by (simp add: int_type_def in_type_def)

text \<open>
  A 64-bit integer that needs more than 53 bits is changed when it is stored, because the value
  passes through a \<open>double\<close>: \<open>2 ^ 53 + 1\<close> is stored as \<open>2 ^ 53\<close>.
\<close>

theorem load_rounds_large_ints:
  "load_val fl (V_ival 9007199254740993) T_u64 = load_val fl (V_ival 9007199254740992) T_u64 \<and>
    (\<exists>buf. load_val fl (V_ival 9007199254740993) T_u64 = Ret buf \<and> print_val fl buf T_u64 = Ret (dec_of_int 9007199254740992))"
proof -
  have "double_int 9007199254740993 = 9007199254740992" "double_int 9007199254740992 = 9007199254740992"
    by (simp_all add: double_int_def bit_len.simps)
  moreover have "int_type T_u64" "in_type T_u64 9007199254740992" by (simp_all add: int_type_def in_type_def)
  ultimately show ?thesis using print_int_bytes [of T_u64 9007199254740992 fl] by (simp add: load_val_def)
qed

section \<open>References in code lines\<close>

text \<open>
  References from a position on: each has its braces around digits, inside the line, after the one
  before.
\<close>

fun refs_from :: "string \<Rightarrow> nat \<Rightarrow> (vm_sym_t \<times> nat \<times> nat) list \<Rightarrow> bool" where
  "refs_from l pos [] \<longleftrightarrow> True"
| "refs_from l pos ((sid, b, e) # refs) \<longleftrightarrow> pos \<le> b \<and> Suc (Suc b) < e \<and> e \<le> length l \<and> l ! b = CHR ''{'' \<and>
     l ! (e - 1) = CHR ''}'' \<and> (\<forall>i. b < i \<longrightarrow> i < e - 1 \<longrightarrow> is_digit (l ! i)) \<and> refs_from l e refs"

lemma refs_from_mono: "refs_from l p refs \<Longrightarrow> q \<le> p \<Longrightarrow> refs_from l q refs"
  by (cases refs) auto

lemma char_at_brace: "char_at l p = CHR ''}'' \<Longrightarrow> p < length l \<and> l ! p = CHR ''}''"
  by (auto simp: char_at_def split: if_splits)

lemma nth_takeWhile_drop:
  assumes "i < length (takeWhile P (drop k l))"
  shows "k + i < length l \<and> P (l ! (k + i))"
proof -
  have "i < length (drop k l)" using assms length_takeWhile_le less_le_trans by blast
  moreover have "P (takeWhile P (drop k l) ! i)" using assms nth_mem set_takeWhileD by fastforce
  ultimately show ?thesis using assms by (simp add: takeWhile_nth)
qed

text \<open>
  C25. The references found in a line of code are well formed, inside the line and in order, whatever
  the text of the line; the slices of the line taken by the listing are then inside the line too.
\<close>

theorem find_refs_in_bounds: "refs_from l pos (find_refs l pos)"
proof (induction l pos rule: find_refs.induct)
  case (1 l pos)
  define b where "b = pos + length (takeWhile (\<lambda>c. c \<noteq> CHR ''{'') (drop pos l))"
  define ds where "ds = takeWhile is_digit (drop (Suc b) l)"
  note IH = 1 [OF b_def _ ds_def refl]
  show ?case
  proof (cases "pos < length l \<and> b < length l")
    case False
    then show ?thesis by (subst find_refs.simps) (auto simp: b_def [symmetric])
  next
    case True
    have brace: "l ! b = CHR ''{''"
    proof -
      have "length (takeWhile (\<lambda>c. c \<noteq> CHR ''{'') (drop pos l)) < length (drop pos l)" using True by (auto simp: b_def)
      from nth_length_takeWhile [OF this] show ?thesis using True by (simp add: b_def)
    qed
    have dig: "is_digit (l ! i)" if "b < i" "i < Suc b + length ds" for i
      using nth_takeWhile_drop [of "i - Suc b" is_digit "Suc b" l] that by (simp add: ds_def)
    have eq: "find_refs l pos = (if ds = [] then find_refs l (Suc b)
        else if char_at l (Suc b + length ds) \<noteq> CHR ''}'' then find_refs l (Suc b + length ds)
        else (sym_number ds, b, Suc (Suc b + length ds)) # find_refs l (Suc (Suc b + length ds)))"
      using True by (subst find_refs.simps) (simp add: b_def [symmetric] ds_def [symmetric] Let_def)
    have le: "pos \<le> b" by (simp add: b_def)
    consider "ds = []" | "ds \<noteq> []" "char_at l (Suc b + length ds) \<noteq> CHR ''}''" | "ds \<noteq> []" "char_at l (Suc b + length ds) = CHR ''}''"
      by blast
    then show ?thesis
    proof cases
      case 1
      then show ?thesis using IH(1) [OF True 1] le unfolding eq by (simp add: refs_from_mono [of l "Suc b"])
    next
      case 2
      then show ?thesis using IH(2) [OF True 2(1)] le unfolding eq by (simp add: refs_from_mono [of l "Suc (b + length ds)"])
    next
      case 3
      then show ?thesis
        using IH(3) [OF True 3(1)] le brace dig char_at_brace [OF 3(2)] unfolding eq by auto
    qed
  qed
qed

section \<open>Arguments\<close>

lemma split_args_word:
  assumes "w \<noteq> []" "\<forall>c \<in> set w. \<not> is_space c"
  shows "split_args (w @ CHR '' '' # rest) = w # split_args rest" "split_args w = [w]"
proof -
  have "dropWhile is_space (w @ t) = w @ t" for t using assms by (cases w) auto
  moreover have "takeWhile (\<lambda>c. \<not> is_space c) (w @ CHR '' '' # rest) = w" "dropWhile (\<lambda>c. \<not> is_space c) (w @ CHR '' '' # rest) = CHR '' '' # rest"
    using assms(2) by (simp_all add: takeWhile_append dropWhile_append is_space_def)
  moreover have "split_args (CHR '' '' # rest) = split_args rest"
    by (subst (1 2) split_args.simps) (simp add: is_space_def)
  ultimately show "split_args (w @ CHR '' '' # rest) = w # split_args rest"
    using assms(1) by (subst split_args.simps) (simp add: Let_def)
  have w: "dropWhile is_space w = w" "takeWhile (\<lambda>c. \<not> is_space c) w = w" "dropWhile (\<lambda>c. \<not> is_space c) w = []"
    using assms by (cases w; simp add: takeWhile_eq_all_conv)+
  have nil: "split_args [] = []" by (subst split_args.simps) simp
  show "split_args w = [w]" using assms(1) by (subst split_args.simps) (simp add: w nil)
qed

lemma digits_no_space: "2 \<le> b \<Longrightarrow> b \<le> 36 \<Longrightarrow> \<forall>c \<in> set (digits_of b n). \<not> is_space c"
  using digits_of_digits base_digitD(1) by blast

lemma is_digit_hd: "is_digit (hd (digits_of 10 n))"
proof -
  have "base_digit 10 (hd (digits_of 10 n))" using digits_of_digits [of 10 n] by simp
  then show ?thesis by (auto simp: base_digit_def digit_val_def is_digit_def Let_def split: if_splits)
qed

lemma r_reg_number: "n < 2 ^ 63 \<Longrightarrow> r_reg (CHR ''%'' # digits_of 10 n) = Ret (Reg_id (of_nat n))"
  using is_digit_hd [of n] parse_int_decimal [of n False] by (simp add: r_reg_def)

lemma r_value_number: "n < 2 ^ 63 \<Longrightarrow> r_value fl (digits_of 10 n) = Ret (V_ival (int n))"
  using is_digit_hd [of n] parse_int_decimal [of n True] by (auto simp: r_value_def is_digit_def)

lemma resolve_vals_ints: "resolve_vals im (map V_ival xs) c = (Ret (map V_ival xs), c)"
proof -
  have "concat (map (\<lambda>v. case v of V_sym_id i \<Rightarrow> [i] | _ \<Rightarrow> []) (map V_ival xs)) = []"
    "concat (map (\<lambda>v. case v of V_sym_name n \<Rightarrow> [n] | _ \<Rightarrow> []) (map V_ival xs)) = []" by (induction xs) auto
  then show ?thesis by (simp add: resolve_vals_def bind_act_def Let_def)
qed

lemma resolve_regs_ids: "resolve_regs im (map Reg_id rs) c = (Ret rs, c)"
proof -
  have "concat (map (\<lambda>r. case r of Reg_name n \<Rightarrow> [n] | Reg_id _ \<Rightarrow> []) (map Reg_id rs)) = []"
    "fill_regs (map Reg_id rs) [] = rs" by (induction rs) auto
  then show ?thesis by (simp add: resolve_regs_def Let_def)
qed

lemma read_address_number:
  assumes "n < 2 ^ 63"
  shows "read_address im fl cmd (digits_of 10 n) c = (Ret (of_nat n), c)"
  using r_value_number [OF assms, of fl] resolve_vals_ints [of im "[int n]" c]
  by (simp add: read_address_def bind_act_def address_of_def)

lemma exec_words2:
  assumes "w \<noteq> []" "\<forall>c \<in> set w. \<not> is_space c" "v \<noteq> []" "\<forall>c \<in> set v. \<not> is_space c"
  shows "exec im fl (w @ CHR '' '' # v) = catch_act (run_cmd im fl [w, v]) (\<lambda>e. ret (''Error: '' @ what e))"
  by (simp add: exec_def split_args_word(1) [OF assms(1,2)] split_args_word(2) [OF assms(3,4)] fun_eq_iff)

section \<open>Commands\<close>

text \<open>
  C24. The command \<open>b\<close> with an address below \<open>2 ^ 63\<close>, given to a client of a stopped program, sets the
  breakpoint and says so; when the address is outside the memory or has a breakpoint already, it
  prints the error and changes nothing.
\<close>

theorem cmd_b_effect:
  assumes "c_state c = VM_STOPPED" "a < 2 ^ 63"
  shows "exec (vmside_impl api) fl (''b '' @ dec_of_nat (unat a)) c =
    (if a \<ge> vi_memory_size (d_infos (c_peer c)) then (Ret ''Error: cannot add breakpoint: address outside of memory range'', c)
     else if a \<in> d_breakpts (c_peer c) then (Ret ''Error: cannot add breakpoint: There is already one at this address'', c)
     else (Ret (''Inserted breakpoint at `'' @ hex_of a @ [CHR 0x27] @ nl),
       c\<lparr>c_peer := (c_peer c)\<lparr>d_breakpts := insert a (d_breakpts (c_peer c))\<rparr>\<rparr>))"
proof -
  have a: "unat a < 2 ^ 63" using assms(2) by (simp add: word_less_nat_alt)
  have line: "''b '' @ dec_of_nat (unat a) = ''b'' @ CHR '' '' # digits_of 10 (unat a)" by (simp add: dec_of_nat_digits)
  have "vms_add_breakpoints [a] 1 d = add_breakpoint a d" for d :: "'a Debugger"
    by (simp add: vms_add_breakpoints_def elem_at_def then_act_def bind_act_def split: prod.splits outcome.splits)
  then have add: "cl_add_breakpoints (vmside_impl api) [a] 1 c =
    (case add_breakpoint a (c_peer c) of (r, d) \<Rightarrow> (r, c\<lparr>c_peer := d\<rparr>))"
    by (simp add: cl_add_breakpoints_def when_stopped_def assert_state_then [OF assms(1)] impl_call_def lift_act_def vmside_impl_def)
  have ex: "exec (vmside_impl api) fl (''b '' @ dec_of_nat (unat a)) c = catch_act (run_cmd (vmside_impl api) fl [''b'', digits_of 10 (unat a)])
      (\<lambda>e. ret (''Error: '' @ what e)) c"
    unfolding line by (subst exec_words2) (use digits_no_space [of 10 "unat a"] in \<open>simp_all add: is_space_def\<close>)
  show ?thesis
    unfolding ex using read_address_number [OF a, of "vmside_impl api" fl "''b''" c] add
    by (auto simp: catch_act_def run_cmd_def cmd_b_def bind_act_def then_act_def add_breakpoint_def what_def)
qed

theorem cmd_b_effect_witness:
  "exec mvm0_impl no_floats (''b '' @ dec_of_nat (unat (1026 :: u64))) tiny_stopped =
    (Ret (''Inserted breakpoint at `'' @ hex_of (1026 :: u64) @ [CHR 0x27] @ nl),
     tiny_stopped\<lparr>c_peer := (c_peer tiny_stopped)\<lparr>d_breakpts := {1026}\<rparr>\<rparr>)"
proof -
  have "c_state tiny_stopped = VM_STOPPED" "vi_memory_size (d_infos (c_peer tiny_stopped)) = 2048"
    "d_breakpts (c_peer tiny_stopped) = {}" by code_simp+
  then show ?thesis using cmd_b_effect [of tiny_stopped 1026 mvm0_api no_floats] by simp
qed

lemma le_bytes_of_nat:
  "v < 2 ^ (8 * n) \<Longrightarrow> 8 * n \<le> LENGTH('a) \<Longrightarrow>
    le_bytes n (of_nat v :: 'a :: len word) = map (\<lambda>i. of_nat (v div 256 ^ i)) [0..<n]"
proof (induction n arbitrary: v)
  case (Suc n)
  have v: "v < 2 ^ LENGTH('a)" using Suc.prems by (meson less_le_trans one_le_numeral power_increasing)
  then have "unat (drop_bit 8 (of_nat v :: 'a word)) = unat (of_nat (v div 256) :: 'a word)"
    unfolding unat_drop_bit_eq by (simp add: unat_of_nat_id drop_bit_eq_div le_less_trans [OF div_le_dividend])
  then have "drop_bit 8 (of_nat v :: 'a word) = of_nat (v div 256)" unfolding word_unat_eq_iff .
  moreover have "v div 256 < 2 ^ (8 * n)" using Suc.prems(1) by (simp add: less_mult_imp_div_less power_add mult.commute)
  moreover have "[0..<Suc n] = 0 # map Suc [0..<n]" by (simp add: upt_conv_Cons map_Suc_upt)
  ultimately show ?case using Suc by (simp add: div_mult2_eq comp_def unsigned_of_nat take_bit_nat_eq_self [OF v])
qed simp

lemma sreg_run:
  assumes "mvm0_session c" "c_state c = VM_STOPPED" "r < 18" "v < 2 ^ 32"
  shows "\<exists>c1 c2. cl_set_regs mvm0_impl [r] [le_bytes 4 (of_nat v :: u64)] [4, 0] c = (Ret (), c1) \<and>
    reg_val (d_vm (c_peer c1)) r = of_nat v \<and>
    cl_get_regs mvm0_impl [r] [replicate 4 0] [4, 0] c1 = (Ret [le_bytes 4 (of_nat v :: u64)], c2)"
proof -
  obtain c1 c2 where c1: "cl_set_regs mvm0_impl [r] [le_bytes 4 (of_nat v :: u64)] [4, 0] c = (Ret (), c1)"
    "cl_get_regs mvm0_impl [r] [replicate 4 0] [4, 0] c1 = (Ret [le_bytes 4 (of_nat v :: u64)], c2)"
    "sb_serial_raw (reg_val (d_vm (c_peer c1)) r) = le_bytes 4 (of_nat v :: u64)"
    using client_write_read [OF assms(1,2), of "[r]" "[le_bytes 4 (of_nat v :: u64)]" "[replicate 4 0]" "[4, 0]"] assms(3)
    by auto
  have "le_bytes 4 (of_nat v :: u64) = sb_serial_raw (of_nat v :: u32)"
    using le_bytes_of_nat [of v 4, where 'a = 64] le_bytes_of_nat [of v 4, where 'a = 32] assms(4)
    by (simp add: sb_serial_raw_def raw_size_def)
  then have "reg_val (d_vm (c_peer c1)) r = of_nat v"
    using c1(3) u32c.enc_injective [of "reg_val (d_vm (c_peer c1)) r" "of_nat v"]
    by (simp add: sb_serial_raw_def raw_size_def)
  with c1(1,2) show ?thesis by blast
qed

text \<open>
  C22. What \<open>sreg\<close> stores \<open>preg\<close> prints: in a session with \<open>mvm0\<close>, \<open>sreg u32 %r v\<close> with the number of a
  register and a 32-bit value sets that register of the CPU, prints nothing, and a following
  \<open>preg u32 %r\<close> prints the value.
\<close>

theorem sreg_then_preg:
  assumes "mvm0_session c" "c_state c = VM_STOPPED" "r < 18" "v < 2 ^ 32"
  shows "\<exists>c1 c2. exec mvm0_impl fl (''sreg u32 %'' @ dec_of_nat (unat r) @ '' '' @ dec_of_nat v) c = (Ret [], c1) \<and>
    reg_val (d_vm (c_peer c1)) r = of_nat v \<and>
    exec mvm0_impl fl (''preg u32 %'' @ dec_of_nat (unat r)) c1 =
      (Ret (''%'' @ dec_of_nat (unat r) @ '': '' @ dec_of_nat v @ nl), c2)"
proof -
  have r: "unat r < 2 ^ 63" and v: "v < 2 ^ 63" using assms(3,4) by (auto simp: word_less_nat_alt)
  let ?R = "CHR ''%'' # digits_of 10 (unat r)" and ?V = "digits_of 10 v"
  obtain c1 c2 where run: "cl_set_regs mvm0_impl [r] [le_bytes 4 (of_nat v :: u64)] [4, 0] c = (Ret (), c1)"
    "reg_val (d_vm (c_peer c1)) r = of_nat v"
    "cl_get_regs mvm0_impl [r] [replicate 4 0] [4, 0] c1 = (Ret [le_bytes 4 (of_nat v :: u64)], c2)"
    using sreg_run [OF assms] by blast
  have fits: "int_type T_u32" "in_type T_u32 (int v)" "\<bar>int v\<bar> < 2 ^ 53" using assms(4) by (auto simp: int_type_def in_type_def)
  have load: "load_val fl (V_ival (int v)) T_u32 = Ret (le_bytes 4 (of_nat v :: u64))"
    using print_int_bytes [OF fits(1,2)] double_int_small [OF fits(3)] by (simp add: load_val_def)
  have print: "print_val fl (le_bytes 4 (of_nat v :: u64)) T_u32 = Ret (dec_of_nat v)"
    using print_int_bytes [OF fits(1,2)] by (simp add: dec_of_int_def)
  have args: "split_args (''sreg u32 %'' @ dec_of_nat (unat r) @ '' '' @ dec_of_nat v) = [''sreg'', ''u32'', ?R, ?V]"
    "split_args (''preg u32 %'' @ dec_of_nat (unat r)) = [''preg'', ''u32'', ?R]"
    using split_args_word [of "''sreg''"] split_args_word [of "''preg''"] split_args_word [of "''u32''"]
      split_args_word [of ?R] split_args_word(2) [of ?V] digits_no_space [of 10]
    by (simp_all add: dec_of_nat_digits is_space_def)
  have ty: "type_desc_parse ''u32'' = Ret T_u32" by (simp add: type_desc_parse_def type_strs_def)
  have ids: "resolve_regs mvm0_impl [Reg_id r] d = (Ret [r], d)" "resolve_vals mvm0_impl [V_ival (int v)] d = (Ret [V_ival (int v)], d)" for d
    using resolve_regs_ids [of mvm0_impl "[r]" d] resolve_vals_ints [of mvm0_impl "[int v]" d] by simp_all
  have "cmd_sreg mvm0_impl fl [''sreg'', ''u32'', ?R, ?V] c = (Ret [], c1)"
    using run(1) by (simp add: cmd_sreg_def bind_act_def then_act_def ty r_reg_number [OF r] r_value_number [OF v] ids load)
  moreover have "cmd_preg mvm0_impl fl [''preg'', ''u32'', ?R] c1 = (Ret (?R @ '': '' @ dec_of_nat v @ nl), c2)"
    using run(3) by (simp add: cmd_preg_def bind_act_def ty r_reg_number [OF r] ids print)
  ultimately show ?thesis
    using run(2) args by (simp add: exec_def run_cmd_def catch_act_def dec_of_nat_digits)
qed

theorem sreg_then_preg_witness:
  "\<exists>c1 c2. exec mvm0_impl no_floats (''sreg u32 %'' @ dec_of_nat (unat (3 :: u16)) @ '' '' @ dec_of_nat 77) tiny_stopped = (Ret [], c1) \<and>
    reg_val (d_vm (c_peer c1)) 3 = 77 \<and>
    exec mvm0_impl no_floats (''preg u32 %'' @ dec_of_nat (unat (3 :: u16))) c1 =
      (Ret (''%'' @ dec_of_nat (unat (3 :: u16)) @ '': '' @ dec_of_nat 77 @ nl), c2)"
proof -
  have "c_state tiny_stopped = VM_STOPPED" by code_simp
  from sreg_then_preg [OF tiny_stopped_session this, of 3 77 no_floats] show ?thesis by simp
qed

end
