(* ===== verification/Server_App_Props.thy ===== *)
theory Server_App_Props
  imports Server_App Simple_Cli_Props
begin

text \<open>
  What \<open>ServerApp::loop\<close> guarantees to the virtual machine that calls it: it hands control back only when
  the program may run, a session on standard input always ends, an interrupt stops the program; and
  the configuration for which it never returns.
\<close>

section \<open>Running procedures\<close>

lemma proc_of_run [simp]: "proc_of m s = Some (m s)"
  by (simp add: proc_of_def)

lemma bind_proc_run: "m s = Some (Ret x, s') \<Longrightarrow> bind_proc m f s = f x s'"
  by (simp add: bind_proc_def)

lemma bind_proc_of: "bind_proc (proc_of m) f s = (case m s of
    (Ret x, s') \<Rightarrow> f x s' | (Throw e, s') \<Rightarrow> Some (Throw e, s') | (Abort c, s') \<Rightarrow> Some (Abort c, s'))"
  by (auto simp: bind_proc_def split: prod.split outcome.split)

lemma bind_proc_eq_Ret:
  "bind_proc m f s = Some (Ret y, s'') \<longleftrightarrow> (\<exists>x s'. m s = Some (Ret x, s') \<and> f x s' = Some (Ret y, s''))"
  by (auto simp: bind_proc_def split: bind_splits outcome.splits prod.splits)

lemma on_db_Ret: "on_db m a = Some (Ret x, a') \<longleftrightarrow>
    (\<exists>d d'. sa_db a = Some d \<and> m d = (Ret x, d') \<and> a' = a\<lparr>sa_db := Some d'\<rparr>)"
  by (auto simp: on_db_def split: option.splits prod.splits)

lemma sa_client_state_Ret: "sa_client_state a = Some (Ret st, a') \<longleftrightarrow> (\<exists>c. sa_client a = Some c \<and> st = mc_state c \<and> a' = a)"
  by (auto simp: sa_client_state_def split: option.splits)

lemma sa_db_is_stopped_Ret:
  "sa_db_is_stopped a = Some (Ret b, a') \<longleftrightarrow> (\<exists>d. sa_db a = Some d \<and> b = is_stopped d \<and> a' = a)"
  by (auto simp: sa_db_is_stopped_def on_db_Ret)

text \<open>
  \<open>ends P m Q\<close>: from a state with \<open>P\<close> the procedure comes back, and after a normal return \<open>Q\<close> holds of the
  result and the state.
\<close>

definition ends :: "('s \<Rightarrow> bool) \<Rightarrow> ('s, 'a) proc \<Rightarrow> ('a \<Rightarrow> 's \<Rightarrow> bool) \<Rightarrow> bool" where
  "ends P m Q \<longleftrightarrow> (\<forall>s. P s \<longrightarrow> (\<exists>r s'. m s = Some (r, s') \<and> (\<forall>x. r = Ret x \<longrightarrow> Q x s')))"

named_theorems ends_rules \<open>procedures that come back\<close>

lemma endsD: "ends P m Q \<Longrightarrow> P s \<Longrightarrow> \<exists>r s'. m s = Some (r, s') \<and> (\<forall>x. r = Ret x \<longrightarrow> Q x s')"
  by (simp add: ends_def)

lemma ends_conseq: "ends P m Q \<Longrightarrow> (\<And>s. P' s \<Longrightarrow> P s) \<Longrightarrow> (\<And>x s. Q x s \<Longrightarrow> Q' x s) \<Longrightarrow> ends P' m Q'"
  by (fastforce simp: ends_def)

lemma ends_bind [ends_rules]: "ends P m Q \<Longrightarrow> (\<And>x. ends (Q x) (f x) R) \<Longrightarrow> ends P (bind_proc m f) R"
  by (fastforce simp: ends_def bind_proc_def split: outcome.split)

lemma ends_if [ends_rules]:
  "ends (\<lambda>s. P s \<and> b) m Q \<Longrightarrow> ends (\<lambda>s. P s \<and> \<not> b) n Q \<Longrightarrow> ends P (if b then m else n) Q"
  by (simp add: ends_def)

lemma ends_proc_of:
  assumes "\<And>s x s'. P s \<Longrightarrow> m s = (Ret x, s') \<Longrightarrow> Q x s'"
  shows "ends P (proc_of m) Q"
  unfolding ends_def
proof (intro allI impI)
  fix s
  assume "P s"
  then show "\<exists>r s'. proc_of m s = Some (r, s') \<and> (\<forall>x. r = Ret x \<longrightarrow> Q x s')"
    using assms [of s] by (cases "m s") auto
qed

lemma ends_ret: "(\<And>s. P s \<Longrightarrow> Q x s) \<Longrightarrow> ends P (proc_of (ret x)) Q"
  by (rule ends_proc_of) simp

text \<open>The command loop comes back when each turn that is not the last one makes a measure smaller.\<close>

lemma ends_commands:
  assumes "\<And>n. ends (\<lambda>a. I a \<and> f a = (n :: nat)) (sa_turn dp) (\<lambda>again a. I a \<and> (again \<longrightarrow> f a < n))"
  shows "ends I (sa_commands dp) (\<lambda>_. I)"
  unfolding ends_def
proof (intro allI impI)
  fix a
  assume "I a"
  then show "\<exists>r a'. sa_commands dp a = Some (r, a') \<and> (\<forall>x. r = Ret x \<longrightarrow> I a')"
  proof (induction "f a" arbitrary: a rule: less_induct)
    case less
    obtain r a' where t: "sa_turn dp a = Some (r, a')" "\<And>x. r = Ret x \<Longrightarrow> I a' \<and> (x \<longrightarrow> f a' < f a)"
      using endsD [OF assms, of a "f a"] less.prems by auto
    show ?case
    proof (cases "r = Ret True")
      case True
      with t(2) less.hyps [of a'] show ?thesis by (subst sa_commands.simps) (simp add: t(1))
    next
      case False
      with t show ?thesis by (subst sa_commands.simps) (cases r; auto)
    qed
  qed
qed

text \<open>A loop that ended did so after a last turn.\<close>

lemma sa_commands_end:
  assumes "sa_commands dp a = Some (Ret (), a')"
  shows "\<exists>a0. sa_turn dp a0 = Some (Ret False, a')"
proof -
  let ?P = "\<lambda>dp a r. fst r = Ret () \<longrightarrow> (\<exists>a0. sa_turn dp a0 = Some (Ret False, snd r))"
  have "?P dp a (Ret (), a')"
  proof (rule sa_commands.raw_induct [where P = ?P, OF _ assms])
    fix f dp a r
    assume "\<And>dp a r. f dp a = Some r \<Longrightarrow> ?P dp a r"
      and "Option.bind (sa_turn dp a) (\<lambda>(r, a'). case r of Ret again \<Rightarrow> if again then f dp a' else Some (Ret (), a')
        | Throw e \<Rightarrow> Some (Throw e, a') | Abort c \<Rightarrow> Some (Abort c, a')) = Some r"
    then show "?P dp a r" by (auto split: bind_splits prod.splits outcome.splits if_splits)
  qed
  then show ?thesis by simp
qed

lemma sa_turn_last:
  assumes "sa_turn dp a = Some (Ret False, a')"
  shows "(\<exists>c. sa_client a' = Some c \<and> mc_state c = H_DISCONNECTED) \<or> (\<exists>d. sa_db a' = Some d \<and> \<not> is_stopped d)"
  using assms
  by (auto simp: sa_turn_def bind_proc_eq_Ret sa_client_state_Ret sa_db_is_stopped_Ret split: if_splits)

text \<open>What the machine may rely on when \<open>loop\<close> has returned.\<close>

definition may_run :: "('v, 'k) ServerApp \<Rightarrow> bool" where
  "may_run a \<longleftrightarrow> \<not> sc_enabled (sa_conf a) \<or> (\<exists>d. sa_db a = Some d \<and>
    (\<not> is_stopped d \<or> d_state d \<in> {EXIT, ERROR} \<and> (\<exists>c. sa_client a = Some c \<and> mc_state c = H_DISCONNECTED)))"

lemma sa_leave_Ret:
  assumes "sa_leave a = Some (Ret (), a')"
  shows "\<exists>c d d'. sa_client a = Some c \<and> sa_db a = Some d \<and> sa_client a' = Some c \<and> sa_db a' = Some d' \<and>
    (if mc_state c = H_DISCONNECTED \<and> d_state d = STOPPED then d_state d' = RUNNING_TOFINISH else d' = d)"
proof -
  obtain c where c: "sa_client a = Some c" using assms by (auto simp: sa_leave_def bind_proc_eq_Ret sa_client_state_Ret)
  obtain d where d: "sa_db a = Some d" using assms by (auto simp: sa_leave_def bind_proc_eq_Ret sa_client_state_Ret on_db_Ret)
  have "resume ToFinish d = (Ret (), d\<lparr>d_state := RUNNING_TOFINISH\<rparr>)" if "d_state d = STOPPED"
    using that by (simp add: resume_def set_state_def)
  with assms c d show ?thesis by (auto simp: sa_leave_def bind_proc_def sa_client_state_def on_db_def split: if_splits)
qed

lemma sa_session_may_run:
  assumes "sa_session dp a = Some (Ret (), a')"
  shows "may_run a'"
proof -
  obtain a1 a2 where a2: "sa_commands dp a1 = Some (Ret (), a2)" "sa_leave a2 = Some (Ret (), a')"
    using assms by (auto simp: sa_session_def bind_proc_eq_Ret)
  have "(\<exists>c. sa_client a2 = Some c \<and> mc_state c = H_DISCONNECTED) \<or> (\<exists>d. sa_db a2 = Some d \<and> \<not> is_stopped d)"
    using sa_commands_end [OF a2(1)] sa_turn_last by blast
  with sa_leave_Ret [OF a2(2)] show ?thesis by (auto simp: may_run_def is_stopped_def split: if_splits)
qed

text \<open>
  C32. The program runs on only when the debugger lets it: when \<open>loop\<close> returns normally, the debugger is
  disabled, or it is not stopped, or the program has finished and the client is gone. In particular a
  program stopped at a breakpoint executes no instruction, and a client that disconnects does not
  leave it stopped.
\<close>

theorem loop_lets_program_run:
  assumes "sa_loop dp a = Some (Ret (), a')"
  shows "may_run a'"
  using assms sa_session_may_run [of dp]
  by (auto simp: sa_loop_def bind_proc_eq_Ret may_run_def split: if_splits)

text \<open>
  A server with no kind of client enabled switches itself off: the first \<open>loop\<close> of an enabled server
  creates the debugger, finds no handler, releases it and disables itself; a disabled server does
  nothing.
\<close>

theorem no_client_shuts_down:
  assumes "\<not> sc_mode_server_cli (sa_conf a)" "\<not> sc_mode_tcp (sa_conf a)" "sa_db a = None" "sa_client a = None"
    and "on_init (dp_api dp) (Debugger_new (dp_vm dp) (dp_infos dp) (dp_garbage dp)) = (Ret (), d)" "d_state d = RUNNING_TOFINISH"
  shows "sa_loop dp a = Some (Ret (), a\<lparr>sa_conf := (sa_conf a)\<lparr>sc_enabled := False\<rparr>\<rparr>)"
proof (cases "sc_enabled (sa_conf a)")
  case True
  have "stop d = (Ret (), d\<lparr>d_state := STOPPED\<rparr>)" using assms(6) by (simp add: stop_def set_state_def)
  with True assms show ?thesis
    by (cases a) (simp add: sa_loop_def sa_init_def bind_proc_def on_db_def sa_stop_db_def sa_db_is_stopped_def is_stopped_def
        sa_new_client_def mc_empty_def MultiClientHandler_new_def sa_shutdown_def Let_def)
next
  case False
  then have "a\<lparr>sa_conf := (sa_conf a)\<lparr>sc_enabled := False\<rparr>\<rparr> = a" by (cases a; cases "sa_conf a") simp
  with False show ?thesis unfolding sa_loop_def by (simp only: not_False_eq_True if_True)
qed

section \<open>A session on standard input\<close>

text \<open>The lines not yet read and the connection, which only \<open>run_command\<close> and \<open>setup_connection\<close> change.\<close>

abbreviation cli_frame :: "string list \<Rightarrow> handler_state \<Rightarrow> ('v, 'k) cli_ctx \<Rightarrow> bool" where
  "cli_frame ls st x \<equiv> e_stdin (cc_env x) = ls \<and> ci_state (cc_cli x) = st"

lemma keeps_on_client [keeps_rules]: "keeps (cli_frame ls st) (on_client m)"
  unfolding on_client_def by (rule keeps_lift) simp

lemma keeps_put_out [keeps_rules]: "keeps (cli_frame ls st) (put_out t)"
  and keeps_set_sigint [keeps_rules]: "keeps (cli_frame ls st) (set_sigint b)"
  unfolding put_out_def set_sigint_def by (auto intro!: keeps_modify)

lemma keeps_on_disconnect [keeps_rules]: "keeps (cli_frame ls st) on_disconnect"
  unfolding on_disconnect_def by (intro keeps_rules)

lemma keeps_cli_sync [keeps_rules]: "keeps (cli_frame ls st) (cli_sync api)"
  unfolding cli_sync_def by (intro keeps_rules keeps_modify) simp

lemma keeps_take_signal [keeps_rules]: "keeps (cli_frame ls st) take_signal"
  by (auto simp: take_signal_def keeps_def then_act_def bind_act_def split: list.split)

lemma keeps_cli_check [keeps_rules]: "keeps (cli_frame ls st) (cli_check_stopped api)"
  unfolding cli_check_stopped_def by (intro keeps_rules keeps_modify) simp

lemma keeps_cli_prompt: "keeps (cli_frame ls st) (cli_prompt api fl)"
  and keeps_cli_exec_line: "keeps (cli_frame ls st) (cli_exec_line api fl cmd)"
  unfolding cli_prompt_def cli_exec_line_def by (intro keeps_rules)+

lemma cli_check_eof_frame:
  assumes "cli_check_eof tty x = (r, x')"
  shows "cli_frame (e_stdin (cc_env x)) (if e_stdin (cc_env x) = [] then H_DISCONNECTED else ci_state (cc_cli x)) x'"
proof (cases "e_stdin (cc_env x) = []")
  case True
  have "keeps (cli_frame [] H_DISCONNECTED)
      (then_act (if tty then put_out (''Debug session closed, program resumed.'' @ nl) else ret ()) (on_disconnect :: (('a, 'b) cli_ctx, unit) act))"
    by (intro keeps_rules)
  from keepsD [OF this, of "x\<lparr>cc_cli := (cc_cli x)\<lparr>ci_state := H_DISCONNECTED\<rparr>\<rparr>"] show ?thesis
    using assms True by (simp add: cli_check_eof_def set_cli_state_def)
qed (use assms in \<open>simp add: cli_check_eof_def\<close>)

text \<open>Each command uses up a line; with no line left the session is closed.\<close>

lemma cli_run_command_reads:
  assumes "cli_run_command api fl x = (Ret (), x')"
  shows "if e_stdin (cc_env x) = [] then ci_state (cc_cli x') = H_DISCONNECTED
    else ci_state (cc_cli x') = ci_state (cc_cli x) \<and> length (e_stdin (cc_env x')) < length (e_stdin (cc_env x))"
proof -
  obtain tty x1 x2 cmd x3 where steps: "cli_prompt api fl x = (Ret tty, x1)" "cli_check_eof tty x1 = (Ret (), x2)"
    "getline x2 = (Ret cmd, x3)" "cli_exec_line api fl cmd x3 = (Ret (), x')"
    using assms by (auto simp: cli_run_command_def bind_act_eq_Ret then_act_eq_Ret)
  have "cli_frame (e_stdin (cc_env x)) (ci_state (cc_cli x)) x1" using keepsD [OF keeps_cli_prompt _ steps(1)] by blast
  moreover have "e_stdin (cc_env x3) = tl (e_stdin (cc_env x2)) \<and> ci_state (cc_cli x3) = ci_state (cc_cli x2)"
    using steps(3) by (auto simp: getline_def then_act_def bind_act_def split: list.splits)
  moreover have "cli_frame (e_stdin (cc_env x3)) (ci_state (cc_cli x3)) x'" using keepsD [OF keeps_cli_exec_line _ steps(4)] by blast
  ultimately show ?thesis using cli_check_eof_frame [OF steps(2)] by auto
qed

lemma cli_check_stopped_frame:
  "cli_check_stopped api x = (r, x') \<Longrightarrow> cli_frame (e_stdin (cc_env x)) (ci_state (cc_cli x)) x'"
  using keepsD [OF keeps_cli_check] by blast

text \<open>The server with a connected handler on standard input, or after that handler was disconnected.\<close>

definition cli_session :: "('v, 'k) ServerApp \<Rightarrow> bool" where
  "cli_session a \<longleftrightarrow> (\<exists>c d h. sa_client a = Some c \<and> sa_db a = Some d \<and> mc_main c = Some (Cli_handler h) \<and>
    mc_state c \<in> {H_CONNECTED, H_DISCONNECTED} \<and> (mc_state c = H_CONNECTED \<longrightarrow> ci_state h = H_CONNECTED))"

definition turns_left :: "('v, 'k) ServerApp \<Rightarrow> nat" where
  "turns_left a = (case sa_client a of
      Some c \<Rightarrow> if mc_state c = H_CONNECTED then Suc (length (e_stdin (sa_env a))) else 0 | None \<Rightarrow> 0)"

lemma on_multi_cli:
  assumes "sa_client a = Some c" "sa_db a = Some d" "mc_main c = Some (Cli_handler h)"
    and "call (Cli_handler h, d, sa_env a) = run_cli (proc_of m) h d (sa_env a)"
    and "m \<lparr>cc_cli = h, cc_db = d, cc_env = sa_env a\<rparr> = (r, x)"
  shows "on_multi (mc_pass call) a = Some (r, a\<lparr>sa_client := Some (c\<lparr>mc_main := Some (Cli_handler (cc_cli x)),
      mc_state := (if returned r \<and> ci_state (cc_cli x) = H_DISCONNECTED then H_DISCONNECTED else mc_state c)\<rparr>),
    sa_db := Some (cc_db x), sa_env := cc_env x\<rparr>)"
  using assms by (simp add: on_multi_def mc_pass_def run_cli_def)

text \<open>The session with a given number of turns left; \<open>ready\<close> when commands can be run.\<close>

definition cli_turns :: "nat \<Rightarrow> ('v, 'k) ServerApp \<Rightarrow> bool" where
  "cli_turns n a \<longleftrightarrow> cli_session a \<and> turns_left a = n"

definition ready :: "nat \<Rightarrow> ('v, 'k) ServerApp \<Rightarrow> bool" where
  "ready n a \<longleftrightarrow> cli_turns n a \<and> (\<exists>c. sa_client a = Some c \<and> mc_state c = H_CONNECTED)"

lemma readyE:
  assumes "ready n a"
  obtains c d h where "sa_client a = Some c" "mc_state c = H_CONNECTED" "sa_db a = Some d" "mc_main c = Some (Cli_handler h)"
    "ci_state h = H_CONNECTED" "n = Suc (length (e_stdin (sa_env a)))"
  using assms by (auto simp: ready_def cli_turns_def cli_session_def turns_left_def)

lemma ends_client_state:
  "ends (cli_turns n) sa_client_state (\<lambda>st a. cli_turns n a \<and> (st \<noteq> H_DISCONNECTED \<longrightarrow> ready n a))"
  by (auto simp: ends_def ready_def cli_turns_def cli_session_def sa_client_state_def)

lemma ends_ready_state: "ends (ready n) sa_client_state (\<lambda>st a. st = H_CONNECTED \<and> ready n a)"
  by (auto simp: ends_def sa_client_state_def ready_def)

lemma ends_is_stopped: "ends (ready n) sa_db_is_stopped (\<lambda>_. ready n)"
  unfolding ends_def
proof (intro allI impI)
  fix a :: "('a, 'b) ServerApp"
  assume a: "ready n a"
  then obtain d where d: "sa_db a = Some d" by (rule readyE)
  then have "ready n (a\<lparr>sa_db := Some d\<rparr>)" using a by (cases a) simp
  with d show "\<exists>r s'. sa_db_is_stopped a = Some (r, s') \<and> (\<forall>x. r = Ret x \<longrightarrow> ready n s')"
    by (simp add: sa_db_is_stopped_def on_db_def)
qed

lemma ends_check: "ends (ready n) (on_multi (mc_check_stopped dp)) (\<lambda>_. ready n)"
  unfolding ends_def
proof (intro allI impI)
  fix a :: "('a, 'b) ServerApp"
  assume "ready n a"
  then obtain c d h where h: "sa_client a = Some c" "mc_state c = H_CONNECTED" "sa_db a = Some d" "mc_main c = Some (Cli_handler h)"
    "ci_state h = H_CONNECTED" "n = Suc (length (e_stdin (sa_env a)))" by (rule readyE)
  obtain r x where x: "cli_check_stopped (dp_api dp) \<lparr>cc_cli = h, cc_db = d, cc_env = sa_env a\<rparr> = (r, x)" by fastforce
  show "\<exists>r a'. on_multi (mc_check_stopped dp) a = Some (r, a') \<and> (\<forall>x. r = Ret x \<longrightarrow> ready n a')"
    unfolding mc_check_stopped_def
    using on_multi_cli [OF h(1,3,4), of "handler_check_stopped dp" "cli_check_stopped (dp_api dp)" r x] x cli_check_stopped_frame [OF x] h
    by (simp add: ready_def cli_turns_def cli_session_def turns_left_def)
qed

lemma ends_command: "ends (ready n) (on_multi (mc_run_command dp)) (\<lambda>_ a. cli_session a \<and> turns_left a < n)"
  unfolding ends_def
proof (intro allI impI)
  fix a :: "('a, 'b) ServerApp"
  assume "ready n a"
  then obtain c d h where h: "sa_client a = Some c" "mc_state c = H_CONNECTED" "sa_db a = Some d" "mc_main c = Some (Cli_handler h)"
    "ci_state h = H_CONNECTED" "n = Suc (length (e_stdin (sa_env a)))" by (rule readyE)
  let ?x = "\<lparr>cc_cli = h, cc_db = d, cc_env = sa_env a\<rparr>"
  obtain r x where x: "cli_run_command (dp_api dp) (dp_floats dp) ?x = (r, x)" by fastforce
  show "\<exists>r a'. on_multi (mc_run_command dp) a = Some (r, a') \<and> (\<forall>x. r = Ret x \<longrightarrow> cli_session a' \<and> turns_left a' < n)"
    unfolding mc_run_command_def
    using on_multi_cli [OF h(1,3,4), of "handler_run_command dp" "cli_run_command (dp_api dp) (dp_floats dp)" r x] x
      cli_run_command_reads [of "dp_api dp" "dp_floats dp" ?x x] h
    by (auto simp: cli_session_def turns_left_def split: if_splits)
qed

lemma ends_connect: "ends (ready n) (sa_connect dp) (\<lambda>_. ready n)"
  unfolding sa_connect_def
  by (rule ends_bind [OF ends_ready_state], intro ends_if) (auto simp: ends_def)

lemma ends_execute: "ends (ready n) (sa_execute dp) (\<lambda>_ a. cli_session a \<and> turns_left a < n)"
  unfolding sa_execute_def
proof (intro ends_bind [OF ends_connect] ends_bind [OF ends_ready_state])
  show "ends (\<lambda>a. st = H_CONNECTED \<and> ready n a) (bind_proc (proc_of (assert_act (st = H_CONNECTED))) (\<lambda>_. on_multi (mc_run_command dp)))
      (\<lambda>_ a. cli_session a \<and> turns_left a < n)" for st
    by (rule ends_bind [OF _ ends_command], rule ends_proc_of) auto
qed

lemma ends_turn: "ends (cli_turns n) (sa_turn dp) (\<lambda>again a. cli_session a \<and> (again \<longrightarrow> turns_left a < n))"
proof -
  let ?Q = "\<lambda>again a. cli_session a \<and> (again \<longrightarrow> turns_left a < n)"
  have check: "ends (ready n) (sa_check dp st) (\<lambda>_. ready n)" for st
    unfolding sa_check_def by (intro ends_bind [OF ends_is_stopped] ends_if ends_conseq [OF ends_check] ends_ret) auto
  have "ends (ready n) (bind_proc sa_db_is_stopped (\<lambda>stopped. if \<not> stopped then proc_of (ret False)
      else bind_proc (sa_execute dp) (\<lambda>_. proc_of (ret True)))) ?Q"
    by (intro ends_bind [OF ends_is_stopped] ends_if ends_ret ends_bind [OF ends_conseq [OF ends_execute]])
      (auto simp: ready_def cli_turns_def)
  then have body: "ends (ready n) (bind_proc (sa_check dp st) (\<lambda>_. bind_proc sa_db_is_stopped (\<lambda>stopped.
      if \<not> stopped then proc_of (ret False) else bind_proc (sa_execute dp) (\<lambda>_. proc_of (ret True))))) ?Q" for st
    by (rule ends_bind [OF check])
  show ?thesis
    unfolding sa_turn_def
    by (intro ends_bind [OF ends_client_state] ends_if ends_ret ends_conseq [OF body]) (auto simp: cli_turns_def)
qed

lemma ends_cli_commands: "ends cli_session (sa_commands dp) (\<lambda>_. cli_session)"
  by (rule ends_commands [where f = turns_left], rule ends_conseq [OF ends_turn]) (auto simp: cli_turns_def)

text \<open>The first call: the handler on standard input is the first to be tried and connects at once.\<close>

definition cli_start :: "('v, 'k) ServerApp \<Rightarrow> bool" where
  "cli_start a \<longleftrightarrow> sc_mode_server_cli (sa_conf a) \<and> (\<exists>c d h hs. sa_client a = Some c \<and> sa_db a = Some d \<and>
    mc_state c = H_NOT_CONNECTED \<and> mc_main c = None \<and> mc_wait c = Cli_handler h # hs \<and> ci_state h = H_NOT_CONNECTED)"

lemma cli_setup_state: "cli_setup_connection api conf x = (Ret (), x') \<Longrightarrow> ci_state (cc_cli x') = H_CONNECTED"
proof -
  assume "cli_setup_connection api conf x = (Ret (), x')"
  then obtain x1 where "(if sc_server_cli_sighandler conf then set_sigint True else ret ())
      (x1\<lparr>cc_cli := (cc_cli x1)\<lparr>ci_state := H_CONNECTED\<rparr>\<rparr>) = (Ret (), x')"
    by (auto simp: cli_setup_connection_def then_act_eq_Ret set_cli_state_def)
  then show ?thesis by (auto simp: set_sigint_def split: if_splits)
qed

lemma ends_setup_cli: "ends cli_start (sa_setup dp) (\<lambda>st a. st = H_CONNECTED \<and> cli_session a)"
  unfolding ends_def
proof (intro allI impI)
  fix a :: "('a, 'b) ServerApp"
  assume "cli_start a"
  then obtain c d h hs where c: "sa_client a = Some c" "sa_db a = Some d" "mc_main c = None" "mc_wait c = Cli_handler h # hs"
    by (auto simp: cli_start_def)
  obtain r x where x: "cli_setup_connection (dp_api dp) (sa_conf a) \<lparr>cc_cli = h, cc_db = d, cc_env = sa_env a\<rparr> = (r, x)" by fastforce
  show "\<exists>r s'. sa_setup dp a = Some (r, s') \<and> (\<forall>x. r = Ret x \<longrightarrow> x = H_CONNECTED \<and> cli_session s')"
    using c x cli_setup_state [of "dp_api dp" "sa_conf a" "\<lparr>cc_cli = h, cc_db = d, cc_env = sa_env a\<rparr>" x]
    by (cases r) (simp_all add: sa_setup_def bind_proc_def on_multi_def mc_setup_connection_def run_cli_def sa_client_state_def cli_session_def)
qed

lemma ends_on_db:
  assumes "\<And>a d. P a \<Longrightarrow> P (a\<lparr>sa_db := Some d\<rparr>)"
  shows "ends P (on_db m) (\<lambda>_. P)"
  unfolding ends_def
proof (intro allI impI)
  fix a
  assume "P a"
  then show "\<exists>r s'. on_db m a = Some (r, s') \<and> (\<forall>x. r = Ret x \<longrightarrow> P s')"
    using assms by (auto simp: on_db_def split: option.split prod.split)
qed

lemma cli_session_db [simp]: "cli_session a \<Longrightarrow> cli_session (a\<lparr>sa_db := Some d\<rparr>)"
  by (auto simp: cli_session_def)

lemma ends_stop_db:
  assumes "\<And>a d. P a \<Longrightarrow> P (a\<lparr>sa_db := Some d\<rparr>)"
  shows "ends P sa_stop_db (\<lambda>_. P)"
  unfolding sa_stop_db_def sa_db_is_stopped_def
  by (intro ends_bind [OF ends_on_db [of P]] ends_if ends_ret ends_conseq [OF ends_on_db [of P]]) (auto intro: assms)

lemma ends_greet: "ends (\<lambda>a. cli_start a \<or> cli_session a) (sa_greet dp) (\<lambda>_. cli_session)"
proof -
  have "ends (\<lambda>a. cli_start a \<or> cli_session a) sa_client_state (\<lambda>st a. if st = H_NOT_CONNECTED then cli_start a else cli_session a)"
    by (auto simp: ends_def sa_client_state_def cli_start_def cli_session_def)
  then show ?thesis
    unfolding sa_greet_def
  proof (rule ends_bind)
    show "ends (\<lambda>a. if st = H_NOT_CONNECTED then cli_start a else cli_session a)
        (if st = H_NOT_CONNECTED then bind_proc (sa_setup dp) (\<lambda>st'. if st' = H_CONNECTED then sa_stop_db else proc_of (ret ()))
         else proc_of (ret ())) (\<lambda>_. cli_session)" for st
      by (cases "st = H_NOT_CONNECTED")
        (auto intro!: ends_bind [OF ends_setup_cli] ends_if ends_conseq [OF ends_stop_db [of cli_session]] ends_ret)
  qed
qed

lemma ends_leave: "ends cli_session sa_leave (\<lambda>_. cli_session)"
proof -
  have "ends cli_session sa_client_state (\<lambda>_. cli_session)" by (auto simp: ends_def sa_client_state_def cli_session_def)
  then show ?thesis
    unfolding sa_leave_def
    by (rule ends_bind)
      (intro ends_bind [OF ends_on_db [of cli_session]] ends_if ends_ret ends_conseq [OF ends_on_db [of cli_session]]; simp)
qed

lemma ends_session: "ends (\<lambda>a. cli_start a \<or> cli_session a) (sa_session dp) (\<lambda>_. cli_session)"
  unfolding sa_session_def by (intro ends_bind [OF ends_greet] ends_bind [OF ends_cli_commands] ends_leave)

lemma ends_init: "ends (\<lambda>a. sc_mode_server_cli (sa_conf a)) (sa_init dp) (\<lambda>_. cli_start)"
proof -
  let ?C = "\<lambda>a. sc_mode_server_cli (sa_conf a)"
  have "ends ?C (sa_new_client dp) (\<lambda>_. cli_start)"
    by (auto simp: ends_def sa_new_client_def MultiClientHandler_new_def mc_empty_def cli_start_def CLIClientHandler_new_def
        Let_def split: option.split)
  then show ?thesis
    unfolding sa_init_def
    by (intro ends_bind [where Q = "\<lambda>_. ?C"] ends_if ends_conseq [OF ends_stop_db [of ?C]] ends_on_db ends_proc_of) auto
qed

text \<open>
  The server configured for commands on standard input, between two calls of \<open>loop\<close>.
\<close>

definition cli_app :: "('v, 'k) ServerApp \<Rightarrow> bool" where
  "cli_app a \<longleftrightarrow> \<not> sc_enabled (sa_conf a) \<or> (sa_db a = None \<and> sc_mode_server_cli (sa_conf a)) \<or> cli_session a"

text \<open>
  C33. With commands read from standard input \<open>loop\<close> always comes back: every command uses up a line of the
  input, and the end of the input closes the session. This holds for the first call and, from the
  state it leaves, for every later one, whatever the commands, the machine and the signals do.
\<close>

theorem cli_loop_returns:
  assumes "cli_app a"
  shows "\<exists>r a'. sa_loop dp a = Some (r, a') \<and> (r = Ret () \<longrightarrow> cli_app a')"
proof -
  consider "\<not> sc_enabled (sa_conf a)" | "sc_enabled (sa_conf a)" "sa_db a = None" "sc_mode_server_cli (sa_conf a)" |
    "sc_enabled (sa_conf a)" "sa_db a \<noteq> None" "cli_session a"
    using assms by (auto simp: cli_app_def cli_session_def)
  then show ?thesis
  proof cases
    case 1
    then show ?thesis by (simp add: sa_loop_def cli_app_def)
  next
    case 2
    have "ends cli_start (\<lambda>a'. if \<not> sc_enabled (sa_conf a') then Some (Ret (), a') else sa_session dp a') (\<lambda>_. cli_app)"
      using ends_session [of dp] by (fastforce simp: ends_def cli_app_def)
    then have "ends (\<lambda>a. sc_mode_server_cli (sa_conf a)) (bind_proc (sa_init dp)
        (\<lambda>_ a'. if \<not> sc_enabled (sa_conf a') then Some (Ret (), a') else sa_session dp a')) (\<lambda>_. cli_app)"
      by (rule ends_bind [OF ends_init])
    from endsD [OF this 2(3)] show ?thesis using 2(1,2) by (simp add: sa_loop_def)
  next
    case 3
    have "ends cli_session (bind_proc (on_db (on_update (dp_api dp))) (\<lambda>_. sa_session dp)) (\<lambda>_. cli_app)"
      by (rule ends_bind [OF ends_on_db [of cli_session]], simp, rule ends_conseq [OF ends_session]) (auto simp: cli_app_def)
    from endsD [OF this 3(3)] show ?thesis using 3(1,2) by (auto simp: sa_loop_def)
  qed
qed

section \<open>An example\<close>

text \<open>The scripted machine, debugged from standard input with two commands, then resumed by the second.\<close>

definition sample_env :: "(bytes \<times> bytes) env" where
  "sample_env = \<lparr>e_stdin = [''b 4'', ''continue''], e_stdout = [], e_tty = False, e_sigints = [], e_handler_set = False,
    e_sig_stop = False, e_manual_stop = False, e_sched = (\<lambda>_. 1), e_now = 0, e_kernel = ([], [])\<rparr>"

definition sample_deps :: "(UpdateInfos list, bytes \<times> bytes) deps" where
  "sample_deps = \<lparr>dp_api = script_vm, dp_vm = [\<lparr>ud_state = US_OK, ud_act_addr = 0\<rparr>, \<lparr>ud_state = US_OK, ud_act_addr = 4\<rparr>],
    dp_infos = script_infos, dp_garbage = 0, dp_net = pair_net, dp_floats = no_floats, dp_udp = sample_update\<rparr>"

definition sample_app :: "(UpdateInfos list, bytes \<times> bytes) ServerApp" where
  "sample_app = \<lparr>sa_conf = g_conf_default\<lparr>sc_enabled := True, sc_mode_server_cli := True\<rparr>, sa_db = None, sa_client = None,
    sa_env = sample_env\<rparr>"

lemma sample_loop:
  "\<exists>a d. sa_loop sample_deps sample_app = Some (Ret (), a) \<and> sa_db a = Some d \<and> d_state d = RUNNING_BKP \<and> d_breakpts d = {4}"
proof -
  have "map_option (\<lambda>(r, a). (r, map_option (\<lambda>d. (d_state d, d_breakpts d)) (sa_db a))) (sa_loop sample_deps sample_app) =
      Some (Ret (), Some (RUNNING_BKP, {4}))" by code_simp
  then show ?thesis by auto
qed

theorem loop_lets_program_run_witness:
  "\<exists>a d. sa_loop sample_deps sample_app = Some (Ret (), a) \<and> may_run a \<and> sa_db a = Some d \<and> d_breakpts d = {4}"
  using sample_loop loop_lets_program_run [of sample_deps sample_app] by blast

theorem cli_loop_returns_witness:
  "\<exists>a d. sa_loop sample_deps sample_app = Some (Ret (), a) \<and> cli_app a \<and> sa_db a = Some d \<and> d_state d = RUNNING_BKP"
proof -
  obtain a d where a: "sa_loop sample_deps sample_app = Some (Ret (), a)" "sa_db a = Some d" "d_state d = RUNNING_BKP"
    using sample_loop by blast
  have "cli_app sample_app" by (simp add: cli_app_def sample_app_def)
  from cli_loop_returns [OF this, of sample_deps] a show ?thesis by simp
qed

theorem no_client_shuts_down_witness:
  "sa_loop sample_deps (sample_app\<lparr>sa_conf := g_conf_default\<lparr>sc_enabled := True\<rparr>\<rparr>) =
    Some (Ret (), sample_app\<lparr>sa_conf := g_conf_default\<rparr>)"
proof -
  let ?d = "Debugger_new (dp_vm sample_deps) (dp_infos sample_deps) (dp_garbage sample_deps)"
  let ?a = "sample_app\<lparr>sa_conf := g_conf_default\<lparr>sc_enabled := True\<rparr>\<rparr>"
  have "fst (on_init (dp_api sample_deps) ?d) = Ret ()" "d_state (snd (on_init (dp_api sample_deps) ?d)) = RUNNING_TOFINISH"
    by code_simp+
  then have "on_init (dp_api sample_deps) ?d = (Ret (), snd (on_init (dp_api sample_deps) ?d))" by (metis surjective_pairing)
  from no_client_shuts_down [OF _ _ _ _ this \<open>d_state _ = _\<close>, of ?a] show ?thesis
    by (simp add: sample_app_def g_conf_default_def)
qed

end
