(* ===== verification/Server_App_Tcp.thy ===== *)
theory Server_App_Tcp
  imports Server_App_Props
begin

text \<open>
  The data handler inside the server: its two threads keep the invariant of \<open>Server_Runner\<close> across the
  calls of the handler, and a connection that cannot be set up is never noticed by a server that
  waits for it.
\<close>

section \<open>A port that cannot be opened\<close>

text \<open>The runner thread when \<open>socket\<close> fails.\<close>

definition refused_runner :: "(TCPDataServer \<times> 'k, 's) runner \<Rightarrow> bool" where
  "refused_runner rn \<longleftrightarrow> rn_worker rn \<in> {W_connect, W_set_stop, W_set_error} \<and> rn_state rn = R_CONNECTING \<or>
    rn_worker rn = W_done \<and> rn_state rn = R_ERROR"

definition no_sockets :: "'k net \<Rightarrow> bool" where
  "no_sockets nt \<longleftrightarrow> (\<forall>k. fst (nt_socket nt k) < 0)"

lemma refused_worker:
  assumes "no_sockets nt" "refused_runner rn"
  shows "\<exists>rn'. worker_step (tcp_server nt) rn = (Ret [], rn') \<and> refused_runner rn' \<and> rn_db rn' = rn_db rn \<and>
    (rn_state rn = R_ERROR \<longrightarrow> rn_state rn' = R_ERROR)"
proof -
  have "\<exists>t k'. ts_connect nt (fst (rn_net rn)) (snd (rn_net rn)) = (False, t, k')"
  proof -
    obtain fd k' where "nt_socket nt (snd (rn_net rn)) = (fd, k')" by fastforce
    moreover from this have "fd < 0" using assms(1) unfolding no_sockets_def by (metis fst_conv)
    ultimately show ?thesis by (simp add: ts_connect_def)
  qed
  then show ?thesis
    using assms(2) by (cases "rn_worker rn") (auto simp: refused_runner_def step_defs tcp_server_def split: prod.split)
qed

lemma refused_workers:
  "no_sockets nt \<Longrightarrow> refused_runner rn \<Longrightarrow>
    \<exists>es rn'. repeat_act n (worker_step (tcp_server nt)) rn = (Ret es, rn') \<and> refused_runner rn' \<and> rn_db rn' = rn_db rn \<and>
    (rn_state rn = R_ERROR \<longrightarrow> rn_state rn' = R_ERROR)"
proof (induction n arbitrary: rn)
  case (Suc n)
  obtain rn1 where rn1: "worker_step (tcp_server nt) rn = (Ret [], rn1)" "refused_runner rn1" "rn_db rn1 = rn_db rn"
    "rn_state rn = R_ERROR \<longrightarrow> rn_state rn1 = R_ERROR"
    using refused_worker [OF Suc.prems] by blast
  from Suc.IH [OF Suc.prems(1) rn1(2)] rn1 show ?case by (auto simp: bind_act_def)
qed simp

lemma refused_read:
  assumes "no_sockets nt" "dh_runner (dc_data x) = Some rn" "refused_runner rn"
  shows "\<exists>st rn' e. read_runner_state nt x = (Ret st, x\<lparr>dc_data := (dc_data x)\<lparr>dh_runner := Some rn'\<rparr>, dc_env := e\<rparr>) \<and>
    refused_runner rn' \<and> st = rn_state rn' \<and> (rn_state rn = R_ERROR \<longrightarrow> st = R_ERROR)"
proof -
  let ?e = "dc_env x"
  have "refused_runner (rn\<lparr>rn_db := dc_db x\<rparr>)" using assms(3) by (simp add: refused_runner_def)
  from refused_workers [OF assms(1) this, of "e_sched ?e (e_now ?e)"] obtain es rn' where
    rn': "repeat_act (e_sched ?e (e_now ?e)) (worker_step (tcp_server nt)) (rn\<lparr>rn_db := dc_db x\<rparr>) = (Ret es, rn')"
    "refused_runner rn'" "rn_db rn' = dc_db x" "rn_state rn = R_ERROR \<longrightarrow> rn_state rn' = R_ERROR" by auto
  then have "rn'\<lparr>rn_db := dc_db x\<rparr> = rn'" by (cases rn') simp
  with rn' assms(2) show ?thesis
    by (cases x) (auto simp: read_runner_state_def let_runner_run_def on_runner_def then_act_def bind_act_def refused_runner_def)
qed

text \<open>The server that waits for a connection with the program stopped.\<close>

definition refused_handler :: "('v, 'k) data_handler \<Rightarrow> bool" where
  "refused_handler h \<longleftrightarrow> dh_state h \<noteq> H_CONNECTED \<and> (case dh_runner h of None \<Rightarrow> True | Some rn \<Rightarrow> refused_runner rn)"

definition refused :: "('v, 'k) ServerApp \<Rightarrow> bool" where
  "refused a \<longleftrightarrow> (\<exists>c d h. sa_client a = Some c \<and> sa_db a = Some d \<and> d_state d = STOPPED \<and> mc_state c = H_NOT_CONNECTED \<and>
    mc_main c = None \<and> mc_wait c = [Data_handler h] \<and> refused_handler h)"

lemma refused_setup_handler:
  assumes "no_sockets nt" "refused_handler h"
  shows "\<exists>h' e'. data_setup_connection nt conf \<lparr>dc_data = h, dc_db = d, dc_env = e\<rparr> = (Ret (), \<lparr>dc_data = h', dc_db = d, dc_env = e'\<rparr>) \<and>
    refused_handler h'"
proof -
  let ?rn = "case dh_runner h of Some rn \<Rightarrow> rn | None \<Rightarrow> runner_start (TCPDataServer_new (sc_tcp_port conf), e_kernel e) d"
  let ?x = "\<lparr>dc_data = h\<lparr>dh_runner := Some ?rn\<rparr>, dc_db = d, dc_env = e\<rparr>"
  have ref: "refused_runner ?rn"
    using assms(2) by (auto simp: refused_handler_def refused_runner_def runner_start_def split: option.splits)
  have h: "h\<lparr>dh_runner := Some rn\<rparr> = h" if "dh_runner h = Some rn" for rn using that by (cases h) simp
  have start: "data_setup_connection nt conf \<lparr>dc_data = h, dc_db = d, dc_env = e\<rparr> =
    bind_act (read_runner_state nt) (\<lambda>st. if st = R_CONNECTING then ret ()
      else bind_act (read_runner_state nt) (\<lambda>st'. if st' = R_ERROR then set_data_state H_DISCONNECTED else set_data_state H_CONNECTED)) ?x"
    by (cases "dh_runner h") (simp_all add: data_setup_connection_def data_init_def then_act_def bind_act_def h)
  obtain st rn1 e1 where r1: "read_runner_state nt ?x = (Ret st, ?x\<lparr>dc_data := (dc_data ?x)\<lparr>dh_runner := Some rn1\<rparr>, dc_env := e1\<rparr>)"
    "refused_runner rn1" "st = rn_state rn1" using refused_read [OF assms(1) _ ref, of ?x] by auto
  let ?x1 = "?x\<lparr>dc_data := (dc_data ?x)\<lparr>dh_runner := Some rn1\<rparr>, dc_env := e1\<rparr>"
  show ?thesis
  proof (cases "st = R_CONNECTING")
    case True
    then show ?thesis using r1 assms(2) unfolding start by (auto simp: bind_act_def refused_handler_def)
  next
    case False
    then have "rn_state rn1 = R_ERROR" using r1(2,3) by (auto simp: refused_runner_def)
    then obtain rn2 e2 where "read_runner_state nt ?x1 = (Ret R_ERROR, ?x1\<lparr>dc_data := (dc_data ?x1)\<lparr>dh_runner := Some rn2\<rparr>, dc_env := e2\<rparr>)"
      "refused_runner rn2" using refused_read [OF assms(1) _ r1(2), of ?x1] by auto
    then show ?thesis using r1(1) False unfolding start by (auto simp: bind_act_def refused_handler_def set_data_state_def)
  qed
qed

lemma refused_setup:
  assumes "no_sockets (dp_net dp)" "refused a"
  shows "\<exists>a'. sa_setup dp a = Some (Ret H_NOT_CONNECTED, a') \<and> refused a'"
proof -
  obtain c d h where c: "sa_client a = Some c" "sa_db a = Some d" "d_state d = STOPPED" "mc_state c = H_NOT_CONNECTED"
    "mc_main c = None" "mc_wait c = [Data_handler h]" "refused_handler h" using assms(2) by (auto simp: refused_def)
  obtain h' e' where "data_setup_connection (dp_net dp) (sa_conf a) \<lparr>dc_data = h, dc_db = d, dc_env = sa_env a\<rparr> =
    (Ret (), \<lparr>dc_data = h', dc_db = d, dc_env = e'\<rparr>)" "refused_handler h'"
    using refused_setup_handler [OF assms(1) c(7)] by blast
  with c show ?thesis
    by (simp add: sa_setup_def bind_proc_def on_multi_def mc_setup_connection_def run_data_def sa_client_state_def refused_def
        refused_handler_def)
qed

lemma refused_connect_loop:
  assumes "no_sockets (dp_net dp)" "refused a"
  shows "sa_connect_loop dp a = None"
proof (rule ccontr)
  assume "sa_connect_loop dp a \<noteq> None"
  then obtain r where r: "sa_connect_loop dp a = Some r" by blast
  let ?P = "\<lambda>dp a r. no_sockets (dp_net dp) \<longrightarrow> \<not> refused a"
  have "?P dp a r"
  proof (rule sa_connect_loop.raw_induct [where P = ?P, OF _ r])
    fix f dp a r
    assume IH: "\<And>dp a r. f dp a = Some r \<Longrightarrow> ?P dp a r"
      and eq: "Option.bind (sa_setup dp a) (\<lambda>(r, a'). case r of Ret st \<Rightarrow> if st = H_CONNECTED then Some (Ret (), a') else f dp a'
        | Throw e \<Rightarrow> Some (Throw e, a') | Abort c \<Rightarrow> Some (Abort c, a')) = Some r"
    show "?P dp a r"
    proof (intro impI notI)
      assume "no_sockets (dp_net dp)" "refused a"
      from refused_setup [OF this] eq this(1) show False using IH by fastforce
    qed
  qed
  with assms show False by blast
qed

lemma refused_commands:
  assumes "no_sockets (dp_net dp)" "refused a"
  shows "sa_commands dp a = None"
proof -
  obtain c d where c: "sa_client a = Some c" "sa_db a = Some d" "d_state d = STOPPED" "mc_state c = H_NOT_CONNECTED"
    using assms(2) by (auto simp: refused_def)
  then have "sa_execute dp (a\<lparr>sa_db := Some d\<rparr>) = sa_execute dp a" by (cases a) simp
  with c have "sa_turn dp a = None" if "sa_execute dp a = None"
    using that by (simp add: sa_turn_def sa_check_def bind_proc_def sa_client_state_def sa_db_is_stopped_def on_db_def is_stopped_def)
  moreover have "sa_execute dp a = None"
    using c refused_connect_loop [OF assms] by (simp add: sa_execute_def sa_connect_def bind_proc_def sa_client_state_def)
  ultimately show ?thesis by (subst sa_commands.simps) simp
qed

text \<open>
  C35. A server whose port cannot be opened hangs: with only the TCP client enabled and the program
  stopped at its start, a failing \<open>socket\<close> call makes \<open>loop\<close> wait for ever for a connection, for every
  schedule of the two threads. \<open>MultiClientHandler\<close> does not pass on that its handler is disconnected.
\<close>

theorem failed_connection_hangs:
  assumes "no_sockets (dp_net dp)" "sa_db a = None" "sc_enabled (sa_conf a)" "sc_nostart (sa_conf a)"
    and "sc_mode_tcp (sa_conf a)" "\<not> sc_mode_server_cli (sa_conf a)"
    and "on_init (dp_api dp) (Debugger_new (dp_vm dp) (dp_infos dp) (dp_garbage dp)) = (Ret (), d)"
  shows "sa_loop dp a = None"
proof -
  have run: "d_state d = RUNNING_TOFINISH"
    using assms(7) by (auto simp: on_init_def bind_act_def then_act_def vm_call_def lift_act_def set_state_def
        split: prod.splits outcome.splits if_splits)
  let ?d = "d\<lparr>d_state := STOPPED\<rparr>"
  let ?a = "a\<lparr>sa_db := Some ?d, sa_client := Some (MultiClientHandler_new dp (sa_conf a) ?d)\<rparr>"
  have "stop d = (Ret (), ?d)" using run by (simp add: stop_def set_state_def)
  with assms run have init: "sa_init dp a = Some (Ret (), ?a)"
    by (simp add: sa_init_def bind_proc_def on_db_def sa_stop_db_def sa_db_is_stopped_def is_stopped_def sa_new_client_def
        mc_empty_def MultiClientHandler_new_def Let_def)
  have ref: "refused ?a"
    using assms(5,6) by (simp add: refused_def MultiClientHandler_new_def DataClientHandler_new_def refused_handler_def)
  obtain a1 where "sa_greet dp ?a = Some (Ret (), a1)" "refused a1"
    using refused_setup [OF assms(1) ref] by (auto simp: sa_greet_def bind_proc_def sa_client_state_def MultiClientHandler_new_def)
  then have "sa_session dp ?a = None"
    using refused_commands [OF assms(1)] by (simp add: sa_session_def bind_proc_def)
  with init assms(2,3) show ?thesis by (simp add: sa_loop_def bind_proc_def)
qed

theorem failed_connection_hangs_witness:
  "sa_loop sample_deps (sample_app\<lparr>sa_conf := g_conf_default\<lparr>sc_enabled := True, sc_nostart := True, sc_mode_tcp := True\<rparr>\<rparr>) = None"
proof (rule failed_connection_hangs)
  let ?d = "Debugger_new (dp_vm sample_deps) (dp_infos sample_deps) (dp_garbage sample_deps)"
  have "fst (on_init (dp_api sample_deps) ?d) = Ret ()" by code_simp
  then show "on_init (dp_api sample_deps) ?d = (Ret (), snd (on_init (dp_api sample_deps) ?d))" by (metis surjective_pairing)
qed (simp_all add: no_sockets_def sample_deps_def pair_net_def sample_app_def g_conf_default_def)

end
