(* ===== verification/Server_App_Cli.thy ===== *)
theory Server_App_Cli
  imports Server_App_Props
begin

text \<open>
  The client object of \<open>CLIClientHandler\<close> follows the debugger: from the connection to the end of the
  session nothing leaves the client believing that the program is stopped while it runs, so the
  assertions of the handler and of the client on their common state hold.
\<close>

section \<open>What commands keep\<close>

definition in_step :: "'v Debugger DBClient \<Rightarrow> bool" where
  "in_step c \<longleftrightarrow> c_state c \<in> {VM_STOPPED, VM_RUNNING} \<and> (is_running (c_peer c) \<longrightarrow> c_state c = VM_RUNNING)"

abbreviation d_state_is :: "db_state \<Rightarrow> 'v Debugger \<Rightarrow> bool" where
  "d_state_is st d \<equiv> d_state d = st"

lemmas d_state_rules = keeps_state_methods [THEN spec]

lemma vms_keep_state:
  "keeps (d_state_is st) (vms_get_regs api ids bufs n)" "keeps (d_state_is st) (vms_set_regs api ids bufs n)"
  "keeps (d_state_is st) (vms_get_regs_infos api ids infos n)" "keeps (d_state_is st) (vms_find_regs_ids api names ids n)"
  "keeps (d_state_is st) (vms_read_mem api addrs sizes bufs n)" "keeps (d_state_is st) (vms_write_mem api addrs sizes bufs n)"
  "keeps (d_state_is st) (vms_get_symbols_by_ids api sids syms n)" "keeps (d_state_is st) (vms_get_symbols_by_addr api a sz)"
  "keeps (d_state_is st) (vms_get_symbols_by_names api names syms n)" "keeps (d_state_is st) (vms_get_code_text api a n)"
  "keeps (d_state_is st) (vms_add_breakpoints addrs n)" "keeps (d_state_is st) (vms_del_breakpoints addrs n)"
  "keeps (d_state_is st) (vms_check_stopped udp)"
  unfolding vms_defs by (intro keeps_rules d_state_rules keeps_code_text_loop)+

lemma keeps_impl_in_step:
  assumes "\<And>st. keeps (d_state_is st) m"
  shows "keeps in_step (impl_call m)"
proof (rule keepsI)
  fix c r c'
  assume c: "in_step c" and run: "impl_call m c = (r, c')"
  obtain d where d: "m (c_peer c) = (r, d)" "c' = c\<lparr>c_peer := d\<rparr>"
    using run by (auto simp: impl_call_def lift_act_def split: prod.splits)
  have "d_state d = d_state (c_peer c)" using keepsD [OF assms refl d(1)] .
  with c d(2) show "in_step c'" by (simp add: in_step_def is_running_def)
qed

lemma keeps_in_step_modify: "(\<And>c. c_state (f c) = c_state c \<and> c_peer (f c) = c_peer c) \<Longrightarrow> keeps in_step (modify f)"
  by (rule keeps_modify) (simp add: in_step_def)

lemma index_infos_client: "c_state (index_infos i ris c) = c_state c \<and> c_peer (index_infos i ris c) = c_peer c"
  by (induction i ris c rule: index_infos.induct) simp_all

lemma vmside_impl_sel [simp]:
  "im_connect (vmside_impl api) infos udp = vms_connect udp" "im_stop (vmside_impl api) = vms_stop"
  "im_check_stopped (vmside_impl api) = vms_check_stopped" "im_get_regs (vmside_impl api) ids bufs sizes n = vms_get_regs api ids bufs n"
  "im_set_regs (vmside_impl api) ids bufs sizes n = vms_set_regs api ids bufs n"
  "im_get_regs_infos (vmside_impl api) = vms_get_regs_infos api" "im_find_regs_ids (vmside_impl api) = vms_find_regs_ids api"
  "im_read_mem (vmside_impl api) = vms_read_mem api" "im_write_mem (vmside_impl api) = vms_write_mem api"
  "im_get_symbols_by_ids (vmside_impl api) = vms_get_symbols_by_ids api"
  "im_get_symbols_by_addr (vmside_impl api) = vms_get_symbols_by_addr api"
  "im_get_symbols_by_names (vmside_impl api) = vms_get_symbols_by_names api"
  "im_get_code_text (vmside_impl api) = vms_get_code_text api" "im_add_breakpoints (vmside_impl api) = vms_add_breakpoints"
  "im_del_breakpoints (vmside_impl api) = vms_del_breakpoints" "im_resume (vmside_impl api) = vms_resume"
  by (simp_all add: vmside_impl_def)

lemma keeps_when_stopped: "(\<And>st. keeps (d_state_is st) m) \<Longrightarrow> keeps in_step (when_stopped m)"
  unfolding when_stopped_def assert_state_def by (intro keeps_rules keeps_impl_in_step)

lemma keeps_cache [keeps_rules]: "keeps in_step (cache_pos r)" "keeps in_step (cached_reg r)" "keeps in_step (set_cached_val r v)"
  unfolding cache_pos_def cached_reg_def set_cached_val_def by (intro keeps_rules keeps_in_step_modify; simp)+

lemma keeps_missing_vals [keeps_rules]: "keeps in_step (missing_vals rs)"
  by (induction rs; unfold missing_vals.simps) (intro keeps_rules | assumption)+

lemma keeps_nth_size [keeps_rules]: "keeps P (nth_size sizes n i)"
  unfolding nth_size_def by (intro keeps_rules)

lemma keeps_fetch [keeps_rules]:
  "keeps in_step (fetch_reg_infos_by_id (vmside_impl api) ids)"
  "keeps in_step (fetch_reg_infos_by_name (vmside_impl api) names)" "keeps in_step (fetch_reg_vals_by_id (vmside_impl api) ids)"
proof -
  show ids: "keeps in_step (fetch_reg_infos_by_id (vmside_impl api) ids)" for ids
    unfolding fetch_reg_infos_by_id_def
    by (intro keeps_rules keeps_in_step_modify) (auto simp: Let_def index_infos_client intro!: keeps_impl_in_step vms_keep_state)
  show "keeps in_step (fetch_reg_infos_by_name (vmside_impl api) names)"
    unfolding fetch_reg_infos_by_name_def by (intro keeps_rules ids) (auto intro!: keeps_impl_in_step vms_keep_state)
  show "keeps in_step (fetch_reg_vals_by_id (vmside_impl api) ids)"
    unfolding fetch_reg_vals_by_id_def by (intro keeps_rules ids) (auto intro!: keeps_impl_in_step vms_keep_state)
qed

lemma keeps_cl_resume [keeps_rules]: "keeps in_step (cl_resume (vmside_impl api) type)"
proof (rule keepsI)
  fix c r c'
  assume c: "in_step c" and run: "cl_resume (vmside_impl api) type c = (r, c')"
  obtain r1 d where r1: "resume type (c_peer c) = (r1, d)" by fastforce
  have "d = c_peer c" if "\<not> returned r1" using r1 that by (auto simp: resume_def set_state_def then_act_def bind_act_def split: if_splits)
  then show "in_step c'"
    using c run r1 by (cases r1) (auto simp: cl_resume_def assert_state_def impl_call_def lift_act_def vms_resume_def then_act_def bind_act_def
        in_step_def split: if_splits)
qed

lemma keeps_cl [keeps_rules]:
  "keeps in_step (cl_get_regs (vmside_impl api) ids bufs sizes)" "keeps in_step (cl_set_regs (vmside_impl api) ids bufs sizes)"
  "keeps in_step (cl_get_regs_infos (vmside_impl api) ids)" "keeps in_step (cl_find_regs_ids (vmside_impl api) names)"
  "keeps in_step (cl_read_mem (vmside_impl api) addrs ss bufs n)" "keeps in_step (cl_write_mem (vmside_impl api) addrs ss bufs n)"
  "keeps in_step (cl_get_symbols_by_addr (vmside_impl api) a sz)" "keeps in_step (cl_get_symbols_by_ids (vmside_impl api) sids syms n)"
  "keeps in_step (cl_get_symbols_by_names (vmside_impl api) names syms n)" "keeps in_step (cl_get_code_text (vmside_impl api) a n)"
  "keeps in_step (cl_add_breakpoints (vmside_impl api) addrs n)" "keeps in_step (cl_del_breakpoints (vmside_impl api) addrs n)"
  "keeps in_step (cl_get f)" "keeps in_step (cl_list_regs k)"
  unfolding cl_get_regs_def cl_set_regs_def cl_get_regs_infos_def cl_find_regs_ids_def cl_read_mem_def cl_write_mem_def
    cl_get_symbols_by_addr_def cl_get_symbols_by_ids_def cl_get_symbols_by_names_def cl_get_code_text_def cl_add_breakpoints_def
    cl_del_breakpoints_def cl_get_def cl_list_regs_def assert_state_def vmside_impl_sel
  by (intro keeps_rules keeps_when_stopped keeps_impl_in_step vms_keep_state)+

lemma keeps_call_value [keeps_rules]: "keeps P (call_act x)"
  by (simp add: keeps_def)

lemma keeps_case_ValueVariant [keeps_rules]:
  "(\<And>x. keeps P (f x)) \<Longrightarrow> (\<And>x. keeps P (g x)) \<Longrightarrow> (\<And>x. keeps P (h x)) \<Longrightarrow> (\<And>x. keeps P (k x)) \<Longrightarrow>
    keeps P (case v of V_ival x \<Rightarrow> f x | V_dval x \<Rightarrow> g x | V_sym_name x \<Rightarrow> h x | V_sym_id x \<Rightarrow> k x)"
  by (cases v) auto

lemma keeps_case_list [keeps_rules]:
  "keeps P m \<Longrightarrow> (\<And>x xs. keeps P (f x xs)) \<Longrightarrow> keeps P (case l of [] \<Rightarrow> m | x # xs \<Rightarrow> f x xs)"
  by (cases l) auto

lemma keeps_resolve [keeps_rules]:
  "keeps in_step (resolve_regs (vmside_impl api) regs)" "keeps in_step (resolve_vals (vmside_impl api) vs)"
  "keeps P (address_of cmd arg vals)" "keeps in_step (read_address (vmside_impl api) fl cmd arg)"
proof -
  show "keeps in_step (resolve_regs (vmside_impl api) regs)" unfolding resolve_regs_def by (intro keeps_rules)
  show vals: "keeps in_step (resolve_vals (vmside_impl api) vs)" for vs unfolding resolve_vals_def by (intro keeps_rules)
  show addr: "keeps P (address_of cmd arg vals)" for P :: "'c \<Rightarrow> bool" and vals unfolding address_of_def by (intro keeps_rules)
  show "keeps in_step (read_address (vmside_impl api) fl cmd arg)" unfolding read_address_def by (intro keeps_rules vals addr)
qed

lemma keeps_new_buffer [keeps_rules]: "keeps P (new_buffer sz)"
  unfolding new_buffer_def by (intro keeps_rules)

lemma keeps_getters [keeps_rules]:
  "keeps in_step cl_get_execution_point" "keeps in_step cl_get_stopped_state" "keeps in_step cl_get_call_stack"
  "keeps in_step (cl_vm_infos g)"
  unfolding cl_get_execution_point_def cl_get_stopped_state_def cl_get_call_stack_def cl_vm_infos_def by (intro keeps_rules)+

lemma keeps_code_lines [keeps_rules]: "keeps in_step (code_lines (vmside_impl api) a n)"
  unfolding code_lines_def by (intro keeps_rules)

lemma keeps_commands [keeps_rules]:
  "keeps in_step (cmd_preg (vmside_impl api) fl cmd)" "keeps in_step (cmd_sreg (vmside_impl api) fl cmd)"
  "keeps in_step (cmd_pregi (vmside_impl api) cmd)" "keeps in_step (cmd_pmem (vmside_impl api) fl cmd)"
  "keeps in_step (cmd_smem (vmside_impl api) fl cmd)" "keeps in_step (cmd_psym (vmside_impl api) fl cmd)"
  "keeps in_step (cmd_code (vmside_impl api) cmd)" "keeps in_step (cmd_b (vmside_impl api) fl cmd)"
  "keeps in_step (cmd_delb (vmside_impl api) fl cmd)" "keeps in_step (cmd_continue (vmside_impl api))"
  "keeps in_step (cmd_step (vmside_impl api))" "keeps in_step (cmd_next (vmside_impl api))"
  "keeps in_step (cmd_finish (vmside_impl api))" "keeps in_step (cmd_state (vmside_impl api))"
  "keeps in_step (cmd_bt (vmside_impl api))" "keeps in_step cmd_vm"
  unfolding cmd_preg_def cmd_sreg_def cmd_pregi_def cmd_pmem_def cmd_smem_def cmd_psym_def cmd_code_def cmd_b_def cmd_delb_def
    cmd_continue_def cmd_step_def cmd_next_def cmd_finish_def cmd_state_def cmd_bt_def cmd_vm_def
  by (intro keeps_rules)+

lemma keeps_exec [keeps_rules]: "keeps in_step (exec (vmside_impl api) fl line)"
  unfolding exec_def run_cmd_def by (intro keeps_rules)

section \<open>The handler\<close>

definition follows :: "('v, 'k) cli_ctx \<Rightarrow> bool" where
  "follows x \<longleftrightarrow> in_step ((ci_client (cc_cli x))\<lparr>c_peer := cc_db x\<rparr>)"

lemma keeps_on_client_follows: "keeps in_step m \<Longrightarrow> keeps follows (on_client m)"
  by (auto simp: keeps_def follows_def on_client_def lift_act_def split: prod.splits)

lemma keeps_follows_modify:
  "(\<And>x. ci_client (cc_cli (f x)) = ci_client (cc_cli x) \<and> cc_db (f x) = cc_db x) \<Longrightarrow> keeps follows (modify f)"
  by (rule keeps_modify) (simp add: follows_def)

lemma keeps_handler_parts [keeps_rules]:
  "keeps follows (put_out t)" "keeps follows (set_cli_state st)" "keeps follows (set_sigint b)" "keeps follows on_disconnect"
  "keeps follows getline" "keeps follows take_signal"
  unfolding put_out_def set_cli_state_def set_sigint_def on_disconnect_def getline_def take_signal_def
  by (intro keeps_rules keeps_follows_modify; simp)+

lemma cl_check_stopped_run:
  assumes "c_state c = VM_RUNNING"
  shows "\<exists>c'. cl_check_stopped (vmside_impl api) c = (Ret (), c') \<and> c_peer c' = c_peer c \<and>
    c_state c' = (if is_running (c_peer c) then VM_RUNNING else VM_STOPPED)"
  using assms
  by (simp add: cl_check_stopped_def assert_state_def cl_update_def impl_call_def lift_act_def vms_check_stopped_def
      discard_tmp_cache_def then_act_def bind_act_def)

lemma keeps_cl_check_stopped [keeps_rules]: "keeps in_step (cl_check_stopped (vmside_impl api))"
proof (rule keepsI)
  fix c r c'
  assume "in_step c" "cl_check_stopped (vmside_impl api) c = (r, c')"
  then show "in_step c'"
    using cl_check_stopped_run [of c api]
    by (cases "c_state c = VM_RUNNING") (auto simp: in_step_def cl_check_stopped_def assert_state_def then_act_def bind_act_def)
qed

lemma cl_stop_run:
  assumes "c_state c = VM_RUNNING" "is_running (c_peer c)"
  shows "\<exists>c'. cl_stop (vmside_impl api) c = (Ret (), c') \<and> c_peer c' = (c_peer c)\<lparr>d_state := STOPPED\<rparr> \<and> c_state c' = VM_STOPPED"
proof -
  have "stop (c_peer c) = (Ret (), (c_peer c)\<lparr>d_state := STOPPED\<rparr>)"
    using assms(2) by (auto simp: stop_def set_state_def is_running_def)
  then show ?thesis
    using assms by (simp add: cl_stop_def assert_state_def cl_update_def impl_call_def lift_act_def vms_stop_def vms_check_stopped_def
        is_running_def then_act_def bind_act_def)
qed

lemma keeps_cl_stop [keeps_rules]: "keeps in_step (cl_stop (vmside_impl api))"
proof (rule keepsI)
  fix c r c'
  assume c: "in_step c" and run: "cl_stop (vmside_impl api) c = (r, c')"
  show "in_step c'"
  proof (cases "c_state c = VM_RUNNING \<and> is_running (c_peer c)")
    case True
    then show ?thesis using cl_stop_run [of c api] run by (auto simp: in_step_def is_running_def)
  next
    case False
    then have "\<not> returned (fst (stop (c_peer c))) \<and> snd (stop (c_peer c)) = c_peer c \<or> c_state c \<noteq> VM_RUNNING"
      by (cases "d_state (c_peer c)") (auto simp: stop_def is_running_def then_act_def bind_act_def)
    then show ?thesis
      using run c by (auto simp: cl_stop_def assert_state_def impl_call_def lift_act_def vms_stop_def then_act_def bind_act_def
          split: prod.splits outcome.splits if_splits)
  qed
qed

lemma keeps_cli_methods:
  "keeps follows (cli_run_command api fl)" "keeps follows (cli_check_stopped api)"
  unfolding cli_run_command_def cli_prompt_def cli_sync_def cli_check_eof_def cli_exec_line_def cli_check_stopped_def
  by (intro keeps_rules keeps_on_client_follows keeps_follows_modify; simp)+

lemma cli_sync_stopped:
  assumes "follows x" "is_stopped (cc_db x)"
  shows "\<exists>b x'. cli_sync api x = (Ret b, x')"
proof -
  let ?c = "(ci_client (cc_cli x))\<lparr>c_peer := cc_db x\<rparr>"
  have "\<not> is_running (cc_db x)" using assms(2) by (auto simp: is_stopped_def is_running_def)
  moreover have "c_state ?c = VM_STOPPED \<or> c_state ?c = VM_RUNNING" using assms(1) by (simp add: follows_def in_step_def)
  ultimately show ?thesis
    using cl_check_stopped_run [of ?c api]
    by (auto simp: cli_sync_def on_client_def lift_act_def then_act_def bind_act_def split: prod.split) (rule exI, rule TrueI)+
qed

section \<open>Sessions\<close>

text \<open>
  What happens to a handler from the moment it connected: commands are run and looked for, whatever
  comes of them, the machine reports an instruction, the server stops the program, and the
  environment moves on. When the handler is disconnected the server resumes the program and does not
  call it any more; that resume is not part of the session.
\<close>

inductive cli_attached :: "'v VMApi \<Rightarrow> float_lib \<Rightarrow> ('v, 'k) cli_ctx \<Rightarrow> bool" for api fl where
  attached_setup: "cli_setup_connection api conf \<lparr>cc_cli = CLIClientHandler_new db udp0, cc_db = d, cc_env = e\<rparr> = (Ret (), x) \<Longrightarrow>
    cli_attached api fl x"
| attached_run: "cli_attached api fl x \<Longrightarrow> cli_attached api fl (snd (cli_run_command api fl x))"
| attached_check: "cli_attached api fl x \<Longrightarrow> cli_attached api fl (snd (cli_check_stopped api x))"
| attached_update: "cli_attached api fl x \<Longrightarrow> cli_attached api fl (x\<lparr>cc_db := snd (on_update api ((cc_db x)\<lparr>d_vm := v\<rparr>))\<rparr>)"
| attached_stop: "cli_attached api fl x \<Longrightarrow> cli_attached api fl (x\<lparr>cc_db := snd (stop (cc_db x))\<rparr>)"
| attached_env: "cli_attached api fl x \<Longrightarrow> cli_attached api fl (x\<lparr>cc_env := e\<rparr>)"

lemma setup_follows:
  assumes "cli_setup_connection api conf \<lparr>cc_cli = CLIClientHandler_new db udp0, cc_db = d, cc_env = e\<rparr> = (Ret (), x)"
  shows "follows x"
  using assms
  by (auto simp: cli_setup_connection_def CLIClientHandler_new_def DBClient_new_def on_client_def lift_act_def cl_connect_def
      assert_state_def impl_call_def vms_connect_def vms_check_stopped_def set_cli_state_def set_sigint_def follows_def in_step_def
      then_act_def bind_act_def split: if_splits)

lemma update_not_started: "is_running (snd (on_update api d)) \<Longrightarrow> is_running d"
proof (rule ccontr)
  assume "is_running (snd (on_update api d))" and no: "\<not> is_running d"
  moreover have "on_update api d = (Abort Assert_failed, d)"
    using no by (cases "d_state d") (simp_all add: on_update_def is_running_def then_act_def bind_act_def)
  ultimately show False by simp
qed

lemma stop_not_started: "is_running (snd (stop d)) \<Longrightarrow> is_running d"
  by (cases "d_state d") (auto simp: stop_def set_state_def is_running_def then_act_def bind_act_def)

lemma follows_db:
  "follows x \<Longrightarrow> (is_running d \<Longrightarrow> is_running (cc_db x)) \<Longrightarrow> follows (x\<lparr>cc_db := d\<rparr>)"
  by (auto simp: follows_def in_step_def)

lemma attached_follows: "cli_attached api fl x \<Longrightarrow> follows x"
proof (induction rule: cli_attached.induct)
  case (attached_run x)
  show ?case by (rule keepsD [OF keeps_cli_methods(1) attached_run(2) surjective_pairing])
next
  case (attached_check x)
  show ?case by (rule keepsD [OF keeps_cli_methods(2) attached_check(2) surjective_pairing])
next
  case (attached_update x v)
  show ?case by (rule follows_db [OF attached_update(2)]) (drule update_not_started, simp add: is_running_def)
next
  case (attached_stop x)
  show ?case by (rule follows_db [OF attached_stop(2)]) (rule stop_not_started)
qed (simp_all add: setup_follows, simp add: follows_def)

lemma check_running:
  assumes "follows x" "is_running (cc_db x)"
  shows "fst (cli_check_stopped api x) \<in> {Ret (), Abort Terminated}"
proof -
  have stop: "\<exists>x'. on_client (cl_stop (vmside_impl api)) y = (Ret (), x')" if "follows y" "is_running (cc_db y)" for y :: "('a, 'b) cli_ctx"
    using cl_stop_run [of "(ci_client (cc_cli y))\<lparr>c_peer := cc_db y\<rparr>" api] that
    by (auto simp: on_client_def lift_act_def follows_def in_step_def)
  obtain r y where y: "take_signal x = (r, y)" by fastforce
  then have "cc_cli y = cc_cli x" "cc_db y = cc_db x" "r = Ret () \<or> r = Abort Terminated"
    by (auto simp: take_signal_def then_act_def bind_act_def split: list.splits if_splits)
  then show ?thesis
    using y stop [of y] assms
    by (auto simp: cli_check_stopped_def follows_def then_act_def bind_act_def split: if_splits)
qed

section \<open>Properties\<close>

text \<open>
  C34. The client of a session on standard input follows the debugger: from the connection on, whether it
  finds the program stopped or running, and whatever commands are run and throw, instructions are
  reported, signals arrive and the server stops the program, the client takes a running program for a
  running one. So \<open>run_command\<close> finds the client in the state it asserts whenever the debugger is
  stopped, and \<open>check_stopped\<close> never fails an assertion or throws while the program runs (a signal
  without a handler ends the process). The session ends when the handler disconnects.
\<close>

theorem cli_client_follows:
  assumes "cli_attached api fl x"
  shows "(is_running (cc_db x) \<longrightarrow> c_state (ci_client (cc_cli x)) = VM_RUNNING \<and>
      fst (cli_check_stopped api x) \<in> {Ret (), Abort Terminated}) \<and>
    (is_stopped (cc_db x) \<longrightarrow> (\<exists>b x'. cli_sync api x = (Ret b, x') \<and> c_state (ci_client (cc_cli x')) = VM_STOPPED))"
proof (intro conjI impI)
  have x: "follows x" using assms by (rule attached_follows)
  show "fst (cli_check_stopped api x) \<in> {Ret (), Abort Terminated}" if "is_running (cc_db x)"
    using x that by (rule check_running)
  show "c_state (ci_client (cc_cli x)) = VM_RUNNING" if "is_running (cc_db x)"
    using x that by (simp add: follows_def in_step_def)
  assume "is_stopped (cc_db x)"
  from cli_sync_stopped [OF x this, of api] obtain b x' where "cli_sync api x = (Ret b, x')" by blast
  moreover from this have "c_state (ci_client (cc_cli x')) = VM_STOPPED"
    by (auto simp: cli_sync_def bind_act_eq_Ret then_act_eq_Ret split: if_splits)
  ultimately show "\<exists>b x'. cli_sync api x = (Ret b, x') \<and> c_state (ci_client (cc_cli x')) = VM_STOPPED" by blast
qed

text \<open>
  An interrupt stops the running program: when a SIGINT arrives with the handler installed, the next
  \<open>check_stopped\<close> stops the debugger, the client knows it, and the signal is used up.
\<close>

theorem interrupt_stops_program:
  assumes "follows x" "is_running (cc_db x)" "e_sigints (cc_env x) = True # bs" "e_handler_set (cc_env x)"
  shows "\<exists>x'. cli_check_stopped api x = (Ret (), x') \<and> cc_db x' = (cc_db x)\<lparr>d_state := STOPPED\<rparr> \<and>
    c_state (ci_client (cc_cli x')) = VM_STOPPED \<and> e_manual_stop (cc_env x') \<and> \<not> e_sig_stop (cc_env x')"
proof -
  let ?c = "(ci_client (cc_cli x))\<lparr>c_peer := cc_db x\<rparr>"
  have "c_state ?c = VM_RUNNING" "is_running (c_peer ?c)" using assms(1,2) by (auto simp: follows_def in_step_def)
  from cl_stop_run [OF this, of api] show ?thesis
    using assms(3,4) by (auto simp: cli_check_stopped_def take_signal_def on_client_def lift_act_def then_act_def bind_act_def)
qed

definition sample_client :: "UpdateInfos list Debugger \<Rightarrow> client_state \<Rightarrow> UpdateInfos list cli_handler" where
  "sample_client d st = \<lparr>ci_state = H_CONNECTED, ci_client = (DBClient_new d sample_update script_infos)\<lparr>c_state := st\<rparr>,
    ci_catch_sigint = True\<rparr>"

definition sample_ctx :: "db_state \<Rightarrow> (UpdateInfos list, bytes \<times> bytes) cli_ctx" where
  "sample_ctx st = \<lparr>cc_cli = sample_client script_debugger VM_RUNNING, cc_db = script_debugger\<lparr>d_state := st\<rparr>,
    cc_env = sample_env\<lparr>e_sigints := [True], e_handler_set := True\<rparr>\<rparr>"

lemma sample_follows: "follows (sample_ctx st)"
  by (simp add: follows_def in_step_def sample_ctx_def sample_client_def DBClient_new_def)

definition fresh_ctx :: "(UpdateInfos list, bytes \<times> bytes) cli_ctx" where
  "fresh_ctx = \<lparr>cc_cli = CLIClientHandler_new script_debugger sample_update, cc_db = script_debugger\<lparr>d_state := RUNNING_TOFINISH\<rparr>,
    cc_env = sample_env\<rparr>"

definition connected_ctx :: "(UpdateInfos list, bytes \<times> bytes) cli_ctx" where
  "connected_ctx = snd (cli_setup_connection script_vm g_conf_default fresh_ctx)"

lemma connected_attached:
  "cli_attached script_vm fl (connected_ctx\<lparr>cc_db := snd (stop (cc_db connected_ctx))\<rparr>)" "cc_db connected_ctx = cc_db fresh_ctx"
proof -
  have "cli_setup_connection script_vm g_conf_default fresh_ctx = (Ret (), connected_ctx)" "cc_db connected_ctx = cc_db fresh_ctx"
    by (simp_all add: connected_ctx_def fresh_ctx_def cli_setup_connection_def CLIClientHandler_new_def DBClient_new_def on_client_def
        lift_act_def cl_connect_def assert_state_def impl_call_def vms_connect_def vms_check_stopped_def set_cli_state_def set_sigint_def
        then_act_def bind_act_def)
  then show "cli_attached script_vm fl (connected_ctx\<lparr>cc_db := snd (stop (cc_db connected_ctx))\<rparr>)" "cc_db connected_ctx = cc_db fresh_ctx"
    unfolding fresh_ctx_def by (blast intro: attached_stop attached_setup)+
qed

theorem cli_client_follows_witness:
  "\<exists>b x'. cli_sync script_vm (connected_ctx\<lparr>cc_db := snd (stop (cc_db connected_ctx))\<rparr>) = (Ret b, x') \<and>
    c_state (ci_client (cc_cli x')) = VM_STOPPED"
proof -
  have "is_stopped (snd (stop (cc_db connected_ctx)))"
    unfolding connected_attached(2) by (simp add: fresh_ctx_def stop_def set_state_def is_stopped_def)
  then show ?thesis using cli_client_follows [OF connected_attached(1) [of no_floats]] by simp
qed

theorem interrupt_stops_program_witness:
  "\<exists>x'. cli_check_stopped script_vm (sample_ctx RUNNING_BKP) = (Ret (), x') \<and>
    cc_db x' = (cc_db (sample_ctx RUNNING_BKP))\<lparr>d_state := STOPPED\<rparr> \<and>
    c_state (ci_client (cc_cli x')) = VM_STOPPED \<and> e_manual_stop (cc_env x') \<and> \<not> e_sig_stop (cc_env x')"
  by (rule interrupt_stops_program [OF sample_follows, where bs = "[]"]) (simp_all add: sample_ctx_def is_running_def)

end
