(* ===== verification/C_Api.thy ===== *)
theory C_Api
  imports Mvm0 Server_App
begin

text \<open>
  The C interface of the server: \<open>CWrapperVMApi\<close> (\<open>src/server_capi/vm-api.cc\<close>), which makes a \<open>VMApi\<close>
  out of a table of C functions and a data pointer, the structs and conversions of
  \<open>include/odb/server_capi/fwd.h\<close> and \<open>vm-api.h\<close>, and the functions of \<open>src/server_capi/server-app.cc\<close>
  over \<open>ServerApp\<close>.

  The functions of the table belong to the user of the library. One of them takes the object its data
  pointer refers to, and gives back what it stored through its output pointers, the characters it
  stored from the start of \<open>err->msg\<close>, and the object. What a wrapper does with a buffer that got more
  than its capacity is out of bounds.
\<close>

section \<open>Structs and conversions\<close>

definition ODB_VM_API_ERR_MSG_MAX_LENGTH :: nat where "ODB_VM_API_ERR_MSG_MAX_LENGTH = 255"
definition ODB_VM_API_SYMS_LIST_CAP :: nat where "ODB_VM_API_SYMS_LIST_CAP = 32"
definition ODB_VM_API_TEXT_INS_CAP :: nat where "ODB_VM_API_TEXT_INS_CAP = 64"

text \<open>An enumeration of C has the values of an integer type.\<close>

datatype odb_reg_kind_t = ODB_REG_KIND_GENERAL | ODB_REG_KIND_PROGRAM_COUNTER | ODB_REG_KIND_STACK_POINTER
  | ODB_REG_KIND_BASE_POINTER | ODB_REG_KIND_FLAGS | odb_reg_kind_raw u32

datatype odb_vm_api_update_state_t = ODB_VM_API_UPDATE_STATE_ERROR | ODB_VM_API_UPDATE_STATE_EXIT
  | ODB_VM_API_UPDATE_STATE_CALL_SUB | ODB_VM_API_UPDATE_STATE_RET_SUB | ODB_VM_API_UPDATE_STATE_OK
  | odb_vm_api_update_state_raw u32

text \<open>The array members and the strings behind pointers are the characters of the array.\<close>

record odb_reg_infos_t =
  cr_name :: string
  cr_size :: vm_size_t
  cr_idx :: vm_reg_t
  cr_kind :: odb_reg_kind_t

record odb_symbol_infos_t =
  cs_name :: string
  cs_addr :: vm_ptr_t
  cs_idx :: vm_sym_t

record odb_vm_infos_t =
  cv_name :: string
  cv_regs_general :: "vm_reg_t list"
  cv_regs_program_counter :: "vm_reg_t list"
  cv_regs_stack_pointer :: "vm_reg_t list"
  cv_regs_base_pointer :: "vm_reg_t list"
  cv_regs_flags :: "vm_reg_t list"
  cv_regs_general_size :: u64
  cv_regs_program_counter_size :: u64
  cv_regs_stack_pointer_size :: u64
  cv_regs_base_pointer_size :: u64
  cv_regs_flags_size :: u64
  cv_regs_count :: vm_reg_t
  cv_memory_size :: vm_size_t
  cv_symbols_count :: vm_sym_t
  cv_pointer_size :: vm_size_t
  cv_integer_size :: vm_size_t
  cv_use_opcode :: "32 word"

record odb_vm_api_update_infos_t =
  cu_state :: odb_vm_api_update_state_t
  cu_act_addr :: vm_ptr_t

text \<open>The first overload of each conversion has no default: leaving the function is undefined.\<close>

fun c_reg_kind :: "RegKind \<Rightarrow> odb_reg_kind_t outcome" where
  "c_reg_kind general = Ret ODB_REG_KIND_GENERAL"
| "c_reg_kind program_counter = Ret ODB_REG_KIND_PROGRAM_COUNTER"
| "c_reg_kind stack_pointer = Ret ODB_REG_KIND_STACK_POINTER"
| "c_reg_kind base_pointer = Ret ODB_REG_KIND_BASE_POINTER"
| "c_reg_kind flags = Ret ODB_REG_KIND_FLAGS"
| "c_reg_kind (RegKind_raw _) = Abort Undefined"

fun make_reg_kind :: "odb_reg_kind_t \<Rightarrow> RegKind outcome" where
  "make_reg_kind ODB_REG_KIND_GENERAL = Ret general"
| "make_reg_kind ODB_REG_KIND_PROGRAM_COUNTER = Ret program_counter"
| "make_reg_kind ODB_REG_KIND_STACK_POINTER = Ret stack_pointer"
| "make_reg_kind ODB_REG_KIND_BASE_POINTER = Ret base_pointer"
| "make_reg_kind ODB_REG_KIND_FLAGS = Ret flags"
| "make_reg_kind (odb_reg_kind_raw _) = Abort Terminated"

fun c_update_state :: "UpdateState \<Rightarrow> odb_vm_api_update_state_t" where
  "c_update_state US_ERROR = ODB_VM_API_UPDATE_STATE_ERROR"
| "c_update_state US_EXIT = ODB_VM_API_UPDATE_STATE_EXIT"
| "c_update_state US_CALL_SUB = ODB_VM_API_UPDATE_STATE_CALL_SUB"
| "c_update_state US_RET_SUB = ODB_VM_API_UPDATE_STATE_RET_SUB"
| "c_update_state US_OK = ODB_VM_API_UPDATE_STATE_OK"

fun make_vm_api_update_state :: "odb_vm_api_update_state_t \<Rightarrow> UpdateState outcome" where
  "make_vm_api_update_state ODB_VM_API_UPDATE_STATE_ERROR = Ret US_ERROR"
| "make_vm_api_update_state ODB_VM_API_UPDATE_STATE_EXIT = Ret US_EXIT"
| "make_vm_api_update_state ODB_VM_API_UPDATE_STATE_CALL_SUB = Ret US_CALL_SUB"
| "make_vm_api_update_state ODB_VM_API_UPDATE_STATE_RET_SUB = Ret US_RET_SUB"
| "make_vm_api_update_state ODB_VM_API_UPDATE_STATE_OK = Ret US_OK"
| "make_vm_api_update_state (odb_vm_api_update_state_raw _) = Abort Terminated"

section \<open>The table of functions\<close>

type_synonym ('v, 'c) c_fun = "'v \<Rightarrow> 'c \<times> string \<times> 'v"

text \<open>\<open>get_symbols\<close> stores indices, their number, and the number of addresses visited.\<close>

record c_symbols_out =
  out_syms :: "vm_sym_t list"
  out_nb_syms :: u64
  out_act_size :: vm_size_t

record 'v odb_vm_api_vtable_t =
  t_get_vm_infos :: "('v, odb_vm_infos_t) c_fun"
  t_get_update_infos :: "('v, odb_vm_api_update_infos_t) c_fun"
  t_get_reg_infos :: "vm_reg_t \<Rightarrow> ('v, odb_reg_infos_t) c_fun"
  t_get_reg_val :: "vm_reg_t \<Rightarrow> ('v, bytes) c_fun"
  t_set_reg :: "vm_reg_t \<Rightarrow> bytes \<Rightarrow> ('v, unit) c_fun"
  t_find_reg_id :: "string \<Rightarrow> ('v, vm_reg_t) c_fun"
  t_read_mem :: "vm_ptr_t \<Rightarrow> vm_size_t \<Rightarrow> ('v, bytes) c_fun"
  t_write_mem :: "vm_ptr_t \<Rightarrow> vm_size_t \<Rightarrow> bytes \<Rightarrow> ('v, unit) c_fun"
  t_get_symbols :: "vm_ptr_t \<Rightarrow> vm_size_t \<Rightarrow> ('v, c_symbols_out) c_fun"
  t_get_symb_infos :: "vm_sym_t \<Rightarrow> ('v, odb_symbol_infos_t) c_fun"
  t_find_sym_id :: "string \<Rightarrow> ('v, vm_sym_t) c_fun"
  t_get_code_text :: "vm_ptr_t \<Rightarrow> ('v, string \<times> vm_size_t) c_fun"
  t_cleanup :: "'v \<Rightarrow> 'v"

section \<open>C strings and buffers\<close>

definition NUL :: char where "NUL = CHR 0x00"

text \<open>A \<open>std::string\<close> made from a character array, and the characters a C function sees of a \<open>c_str()\<close>.\<close>

definition of_c_str :: "string \<Rightarrow> ('s, string) act" where
  "of_c_str buf = then_act (in_bounds (NUL \<in> set buf)) (ret (takeWhile (\<lambda>c. c \<noteq> NUL) buf))"

definition c_str :: "string \<Rightarrow> string" where
  "c_str s = takeWhile (\<lambda>c. c \<noteq> NUL) s"

text \<open>What a buffer holds after a function stored elements from its start.\<close>

definition c_store :: "'a list \<Rightarrow> 'a list \<Rightarrow> 'a list" where
  "c_store w buf = w @ drop (length w) buf"

text \<open>\<open>v.assign(p, p + n)\<close>.\<close>

definition c_assign :: "'a list \<Rightarrow> u64 \<Rightarrow> ('s, 'a list) act" where
  "c_assign p n = then_act (in_bounds (unat n \<le> length p)) (ret (take (unat n) p))"

section \<open>CWrapperVMApi\<close>

record 'v CWrapperVMApi =
  cw_data :: 'v
  cw_err :: string

definition clear_err :: "('v CWrapperVMApi, unit) act" where
  "clear_err = modify (\<lambda>w. w\<lparr>cw_err := (cw_err w)[0 := NUL]\<rparr>)"

text \<open>A call through the table with the check of the error message that follows it.\<close>

definition c_call :: "('v, 'c) c_fun \<Rightarrow> ('v CWrapperVMApi, 'c) act" where
  "c_call f = (\<lambda>w. case f (cw_data w) of (out, msg, data) \<Rightarrow>
    if length (cw_err w) < length msg then (Abort Out_of_bounds, w\<lparr>cw_data := data\<rparr>)
    else let w' = w\<lparr>cw_data := data, cw_err := c_store msg (cw_err w)\<rparr> in
      if cw_err w' ! 0 \<noteq> NUL then bind_act (of_c_str (cw_err w')) throw w' else (Ret out, w'))"

definition cw_call :: "('v, 'c) c_fun \<Rightarrow> ('v CWrapperVMApi, 'c) act" where
  "cw_call f = then_act clear_err (c_call f)"

definition cw_get_vm_infos :: "'v odb_vm_api_vtable_t \<Rightarrow> ('v CWrapperVMApi, VMInfos) act" where
  "cw_get_vm_infos tab = bind_act (cw_call (t_get_vm_infos tab)) (\<lambda>c.
    bind_act (of_c_str (cv_name c)) (\<lambda>name.
    bind_act (c_assign (cv_regs_general c) (cv_regs_general_size c)) (\<lambda>rg.
    bind_act (c_assign (cv_regs_program_counter c) (cv_regs_program_counter_size c)) (\<lambda>rpc.
    bind_act (c_assign (cv_regs_stack_pointer c) (cv_regs_stack_pointer_size c)) (\<lambda>rsp.
    bind_act (c_assign (cv_regs_base_pointer c) (cv_regs_base_pointer_size c)) (\<lambda>rbp.
    bind_act (c_assign (cv_regs_flags c) (cv_regs_flags_size c)) (\<lambda>rfl.
    ret \<lparr>vi_name = name, vi_regs_count = cv_regs_count c, vi_regs_general = rg,
      vi_regs_program_counter = rpc, vi_regs_stack_pointer = rsp, vi_regs_base_pointer = rbp,
      vi_regs_flags = rfl, vi_memory_size = cv_memory_size c, vi_symbols_count = cv_symbols_count c,
      vi_pointer_size = cv_pointer_size c, vi_integer_size = cv_integer_size c,
      vi_use_opcode = (cv_use_opcode c \<noteq> 0)\<rparr>)))))))"

definition cw_get_update_infos :: "'v odb_vm_api_vtable_t \<Rightarrow> ('v CWrapperVMApi, UpdateInfos) act" where
  "cw_get_update_infos tab = bind_act (cw_call (t_get_update_infos tab)) (\<lambda>c.
    bind_act (call_act (make_vm_api_update_state (cu_state c))) (\<lambda>st.
    ret \<lparr>ud_state = st, ud_act_addr = cu_act_addr c\<rparr>))"

text \<open>
  With \<open>val_only\<close> the function stores through \<open>&infos.val[0]\<close>, as much as \<open>infos.val\<close> has room for.
\<close>

definition cw_get_reg :: "'v odb_vm_api_vtable_t \<Rightarrow> vm_reg_t \<Rightarrow> RegInfos \<Rightarrow> bool \<Rightarrow> ('v CWrapperVMApi, RegInfos) act" where
  "cw_get_reg tab idx infos val_only =
    (if val_only then
       bind_act (cw_call (t_get_reg_val tab idx)) (\<lambda>buf.
       then_act (in_bounds (length buf \<le> length (ri_val infos)))
         (ret (infos\<lparr>ri_val := c_store buf (ri_val infos)\<rparr>)))
     else bind_act (cw_call (t_get_reg_infos tab idx)) (\<lambda>c.
       bind_act (of_c_str (cr_name c)) (\<lambda>name.
       bind_act (call_act (make_reg_kind (cr_kind c))) (\<lambda>kind.
       ret (infos\<lparr>ri_idx := cr_idx c, ri_name := name, ri_size := cr_size c, ri_kind := kind\<rparr>)))))"

definition cw_set_reg :: "'v odb_vm_api_vtable_t \<Rightarrow> vm_reg_t \<Rightarrow> bytes \<Rightarrow> ('v CWrapperVMApi, unit) act" where
  "cw_set_reg tab idx new_val = cw_call (t_set_reg tab idx new_val)"

definition cw_find_reg_id :: "'v odb_vm_api_vtable_t \<Rightarrow> string \<Rightarrow> ('v CWrapperVMApi, vm_reg_t) act" where
  "cw_find_reg_id tab name = cw_call (t_find_reg_id tab (c_str name))"

definition cw_read_mem :: "'v odb_vm_api_vtable_t \<Rightarrow> vm_ptr_t \<Rightarrow> vm_size_t \<Rightarrow> ('v CWrapperVMApi, bytes) act" where
  "cw_read_mem tab addr sz = cw_call (t_read_mem tab addr sz)"

definition cw_write_mem :: "'v odb_vm_api_vtable_t \<Rightarrow> vm_ptr_t \<Rightarrow> vm_size_t \<Rightarrow> bytes \<Rightarrow> ('v CWrapperVMApi, unit) act" where
  "cw_write_mem tab addr sz buf = cw_call (t_write_mem tab addr sz buf)"

text \<open>
  One turn of the loop of \<open>get_symbols\<close>: the initialised part of \<open>syms_buf\<close> after the call, the new
  elements of the result, and the number of addresses done.
\<close>

definition cw_symbols_turn :: "'v odb_vm_api_vtable_t \<Rightarrow> vm_ptr_t \<Rightarrow> vm_size_t \<Rightarrow> vm_sym_t list \<Rightarrow>
    ('v CWrapperVMApi, vm_sym_t list \<times> vm_sym_t list \<times> vm_size_t) act" where
  "cw_symbols_turn tab addr sz syms_buf = bind_act (c_call (t_get_symbols tab addr sz)) (\<lambda>c.
    let buf = c_store (out_syms c) syms_buf in
    then_act (in_bounds (length buf \<le> ODB_VM_API_SYMS_LIST_CAP \<and> unat (out_nb_syms c) \<le> length buf))
      (ret (buf, take (unat (out_nb_syms c)) buf, out_act_size c)))"

text \<open>\<open>while (size)\<close>, which may run for ever: \<open>None\<close> then.\<close>

partial_function (option) cw_symbols_loop :: "'v odb_vm_api_vtable_t \<Rightarrow> vm_ptr_t \<Rightarrow> vm_size_t \<Rightarrow> vm_sym_t list \<Rightarrow>
    vm_sym_t list \<Rightarrow> 'v CWrapperVMApi \<Rightarrow> (vm_sym_t list outcome \<times> 'v CWrapperVMApi) option" where
  "cw_symbols_loop tab addr sz syms_buf res w =
    (if sz = 0 then Some (Ret res, w)
     else case cw_symbols_turn tab addr sz syms_buf w of
        (Ret (buf, syms, act_size), w') \<Rightarrow>
          cw_symbols_loop tab (addr + act_size) (sz - act_size) buf (res @ syms) w'
      | (Throw e, w') \<Rightarrow> Some (Throw e, w')
      | (Abort c, w') \<Rightarrow> Some (Abort c, w'))"

declare cw_symbols_loop.simps [code]

text \<open>The interface of a machine has no value for a call that does not return: it is \<open>Abort Hangs\<close>.\<close>

definition cw_get_symbols :: "'v odb_vm_api_vtable_t \<Rightarrow> vm_ptr_t \<Rightarrow> vm_size_t \<Rightarrow> ('v CWrapperVMApi, vm_sym_t list) act" where
  "cw_get_symbols tab addr sz = then_act clear_err (\<lambda>w.
    case cw_symbols_loop tab addr sz [] [] w of Some r \<Rightarrow> r | None \<Rightarrow> (Abort Hangs, w))"

definition cw_get_symb_infos :: "'v odb_vm_api_vtable_t \<Rightarrow> vm_sym_t \<Rightarrow> ('v CWrapperVMApi, SymbolInfos) act" where
  "cw_get_symb_infos tab idx = bind_act (cw_call (t_get_symb_infos tab idx)) (\<lambda>c.
    bind_act (of_c_str (cs_name c)) (\<lambda>name.
    ret \<lparr>si_idx = cs_idx c, si_name = name, si_addr = cs_addr c\<rparr>))"

definition cw_find_sym_id :: "'v odb_vm_api_vtable_t \<Rightarrow> string \<Rightarrow> ('v CWrapperVMApi, vm_sym_t) act" where
  "cw_find_sym_id tab name = cw_call (t_find_sym_id tab (c_str name))"

text \<open>\<open>res\<close> has \<open>ODB_VM_API_TEXT_INS_CAP\<close> null characters, and one more after its end.\<close>

definition cw_get_code_text :: "'v odb_vm_api_vtable_t \<Rightarrow> vm_ptr_t \<Rightarrow> ('v CWrapperVMApi, string \<times> vm_size_t) act" where
  "cw_get_code_text tab addr = bind_act (cw_call (t_get_code_text tab addr)) (\<lambda>(text, dist).
    then_act (in_bounds (length text \<le> ODB_VM_API_TEXT_INS_CAP))
      (ret (c_str (c_store text (replicate ODB_VM_API_TEXT_INS_CAP NUL)), dist)))"

definition make_cpp_vm_api :: "'v odb_vm_api_vtable_t \<Rightarrow> 'v CWrapperVMApi VMApi" where
  "make_cpp_vm_api tab = \<lparr>api_get_vm_infos = cw_get_vm_infos tab,
    api_get_update_infos = cw_get_update_infos tab, api_get_reg = cw_get_reg tab,
    api_set_reg = cw_set_reg tab, api_find_reg_id = cw_find_reg_id tab,
    api_read_mem = cw_read_mem tab, api_write_mem = cw_write_mem tab,
    api_get_symbols = cw_get_symbols tab, api_get_symb_infos = cw_get_symb_infos tab,
    api_find_sym_id = cw_find_sym_id tab, api_get_code_text = cw_get_code_text tab\<rparr>"

text \<open>The constructor, with the contents of the uninitialised \<open>_err\<close>, and the destructor.\<close>

definition CWrapperVMApi_new :: "'v \<Rightarrow> string \<Rightarrow> 'v CWrapperVMApi" where
  "CWrapperVMApi_new data err = \<lparr>cw_data = data, cw_err = err\<rparr>"

definition CWrapperVMApi_delete :: "'v odb_vm_api_vtable_t \<Rightarrow> ('v CWrapperVMApi, unit) act" where
  "CWrapperVMApi_delete tab = modify (\<lambda>w. w\<lparr>cw_data := t_cleanup tab (cw_data w)\<rparr>)"

section \<open>The functions over ServerApp\<close>

text \<open>
  \<open>app_built\<close> is what \<open>api_builder(arg, &data)\<close> returns when it is called: the table and the data, or a
  null pointer. It is called once the debugger starts, the first time \<open>loop\<close> runs.
\<close>

record ('v, 'k) odb_server_app_t =
  app_built :: "('v odb_vm_api_vtable_t \<times> 'v) option"
  app_handle :: "('v CWrapperVMApi, 'k) ServerApp"

definition odb_server_app_init :: "(string \<Rightarrow> string option) \<Rightarrow> 'k env \<Rightarrow>
    ('v odb_vm_api_vtable_t \<times> 'v) option \<Rightarrow> ('v, 'k) odb_server_app_t outcome" where
  "odb_server_app_init getenv e built = (case ServerApp_new getenv g_conf_default e of
      Ret app \<Rightarrow> Ret \<lparr>app_built = built, app_handle = app\<rparr>
    | Throw x \<Rightarrow> Throw x | Abort c \<Rightarrow> Abort c)"

text \<open>\<open>dp\<close> holds what else the server is built over, \<open>err\<close> the uninitialised member of the wrapper.\<close>

definition c_deps :: "('v CWrapperVMApi, 'k) deps \<Rightarrow> string \<Rightarrow> 'v odb_vm_api_vtable_t \<Rightarrow> 'v \<Rightarrow>
    ('v CWrapperVMApi, 'k) deps" where
  "c_deps dp err tab data = dp\<lparr>dp_api := make_cpp_vm_api tab, dp_vm := CWrapperVMApi_new data err\<rparr>"

definition odb_server_app_loop :: "('v CWrapperVMApi, 'k) deps \<Rightarrow> string \<Rightarrow> (('v, 'k) odb_server_app_t, unit) proc" where
  "odb_server_app_loop dp err = (\<lambda>app.
    if \<not> sc_enabled (sa_conf (app_handle app)) then Some (Ret (), app)
    else case app_built app of
      None \<Rightarrow> Some (Abort Assert_failed, app)
    | Some (tab, data) \<Rightarrow> lift_proc app_handle (\<lambda>h a. a\<lparr>app_handle := h\<rparr>) (sa_loop (c_deps dp err tab data)) app)"

end
