(* ===== verification/C_Api_Props.thy ===== *)
theory C_Api_Props
  imports C_Api Vm_Side
begin

text \<open>
  What the C interface promises: a table of C functions that does what the comments of
  \<open>include/odb/server_capi/vm-api.h\<close> ask, for a machine given as a \<open>VMApi\<close> (the locale \<open>c_machine\<close>),
  makes through \<open>CWrapperVMApi\<close> a machine the debugger cannot tell from that one. The simulation is
  carried from the methods of the wrapper to the debugger and to the execution of requests.
\<close>

section \<open>Simulation of actions\<close>

text \<open>
  Where the second action does not abort, the first does the same on a state that \<open>f\<close> maps to the
  state of the second.
\<close>

definition simulates :: "('s \<Rightarrow> bool) \<Rightarrow> ('s \<Rightarrow> 't) \<Rightarrow> ('s, 'a) act \<Rightarrow> ('t, 'a) act \<Rightarrow> bool" where
  "simulates P f m n \<longleftrightarrow> (\<forall>s r t. P s \<longrightarrow> n (f s) = (r, t) \<longrightarrow> (\<forall>c. r \<noteq> Abort c) \<longrightarrow>
    (\<exists>s'. m s = (r, s') \<and> f s' = t \<and> P s'))"

named_theorems sim_rules \<open>rules for simulations between actions\<close>

lemma simulatesI:
  assumes "\<And>s r t. P s \<Longrightarrow> n (f s) = (r, t) \<Longrightarrow> (\<And>c. r \<noteq> Abort c) \<Longrightarrow> \<exists>s'. m s = (r, s') \<and> f s' = t \<and> P s'"
  shows "simulates P f m n"
  using assms by (simp add: simulates_def)

lemma simulatesE:
  assumes "simulates P f m n" "P s" "n (f s) = (r, t)" "\<And>c. r \<noteq> Abort c"
  obtains s' where "m s = (r, s')" "f s' = t" "P s'"
  using assms unfolding simulates_def by blast

lemma simulatesD:
  assumes "simulates P f m n" "P s" "n (f s) = (r, t)" "\<And>c. r \<noteq> Abort c"
  shows "\<exists>s'. m s = (r, s') \<and> f s' = t \<and> P s'"
  using assms unfolding simulates_def by blast

lemma sim_ret [sim_rules]: "simulates P f (ret x) (ret x)"
  and sim_throw [sim_rules]: "simulates P f (throw e) (throw e)"
  and sim_call [sim_rules]: "simulates P f (call_act q) (call_act q)"
  and sim_assert [sim_rules]: "simulates P f (assert_act b) (assert_act b)"
  and sim_in_bounds [sim_rules]: "simulates P f (in_bounds b) (in_bounds b)"
  and sim_abort [sim_rules]: "simulates P f m (abort c)"
  by (auto simp: simulates_def split: if_splits)

lemma sim_gets: "(\<And>s. P s \<Longrightarrow> g s = h (f s)) \<Longrightarrow> simulates P f (gets g) (gets h)"
  by (auto simp: simulates_def)

lemma sim_modify: "(\<And>s. P s \<Longrightarrow> f (g s) = h (f s) \<and> P (g s)) \<Longrightarrow> simulates P f (modify g) (modify h)"
  by (auto simp: simulates_def)

lemma sim_bind_dep:
  assumes m: "simulates P f m n"
    and k: "\<And>x s t. P s \<Longrightarrow> n (f s) = (Ret x, t) \<Longrightarrow> simulates P f (k x) (l x)"
  shows "simulates P f (bind_act m k) (bind_act n l)"
proof (rule simulatesI)
  fix s r t
  assume s: "P s" "bind_act n l (f s) = (r, t)" "\<And>c. r \<noteq> Abort c"
  obtain q u where q: "n (f s) = (q, u)" by force
  show "\<exists>s'. bind_act m k s = (r, s') \<and> f s' = t \<and> P s'"
  proof (cases q)
    case (Ret x)
    then obtain s1 where s1: "m s = (Ret x, s1)" "f s1 = u" "P s1"
      using simulatesE [OF m s(1) q] by auto
    have kl: "simulates P f (k x) (l x)" using k [OF s(1)] q Ret by blast
    have "l x (f s1) = (r, t)" using s(2) q Ret s1(2) by (simp add: bind_act_def)
    then obtain s2 where "k x s1 = (r, s2)" "f s2 = t" "P s2"
      using simulatesE [OF kl s1(3) _ s(3)] by blast
    then show ?thesis using s1(1) by (simp add: bind_act_def)
  next
    case (Throw e)
    then show ?thesis using simulatesD [OF m s(1) q] s(2) q by (auto simp: bind_act_def)
  next
    case (Abort c)
    then show ?thesis using s(2,3) q by (auto simp: bind_act_def)
  qed
qed

lemma sim_bind [sim_rules]:
  "simulates P f m n \<Longrightarrow> (\<And>x. simulates P f (k x) (l x)) \<Longrightarrow> simulates P f (bind_act m k) (bind_act n l)"
  by (rule sim_bind_dep)

lemma sim_then [sim_rules]:
  "simulates P f m n \<Longrightarrow> simulates P f k l \<Longrightarrow> simulates P f (then_act m k) (then_act n l)"
  unfolding then_act_def by (rule sim_bind)

lemma sim_if [sim_rules]:
  "(b \<Longrightarrow> simulates P f m n) \<Longrightarrow> (\<not> b \<Longrightarrow> simulates P f k l) \<Longrightarrow>
    simulates P f (if b then m else k) (if b then n else l)"
  by simp

lemma sim_case_option [sim_rules]:
  "(x = None \<Longrightarrow> simulates P f m n) \<Longrightarrow> (\<And>y. x = Some y \<Longrightarrow> simulates P f (k y) (l y)) \<Longrightarrow>
    simulates P f (case x of None \<Rightarrow> m | Some y \<Rightarrow> k y) (case x of None \<Rightarrow> n | Some y \<Rightarrow> l y)"
  by (cases x) simp_all

lemma sim_case_prod [sim_rules]:
  "(\<And>a b. x = (a, b) \<Longrightarrow> simulates P f (k a b) (l a b)) \<Longrightarrow>
    simulates P f (case x of (a, b) \<Rightarrow> k a b) (case x of (a, b) \<Rightarrow> l a b)"
  by (cases x) simp

lemma sim_map_act [sim_rules]:
  "(\<And>x. x \<in> set xs \<Longrightarrow> simulates P f (g x) (h x)) \<Longrightarrow> simulates P f (map_act g xs) (map_act h xs)"
  by (induction xs) (auto intro!: sim_rules)

lemma sim_iter_act [sim_rules]:
  "(\<And>x. x \<in> set xs \<Longrightarrow> simulates P f (g x) (h x)) \<Longrightarrow> simulates P f (iter_act g xs) (iter_act h xs)"
  by (induction xs) (auto intro!: sim_rules)

lemma sim_catch [sim_rules]:
  assumes "simulates P f m n" "\<And>e. simulates P f (k e) (l e)"
  shows "simulates P f (catch_act m k) (catch_act n l)"
proof (rule simulatesI)
  fix s r t
  assume s: "P s" "catch_act n l (f s) = (r, t)" "\<And>c. r \<noteq> Abort c"
  obtain q u where q: "n (f s) = (q, u)" by force
  show "\<exists>s'. catch_act m k s = (r, s') \<and> f s' = t \<and> P s'"
  proof (cases q)
    case (Throw e)
    then obtain s1 where s1: "m s = (Throw e, s1)" "f s1 = u" "P s1"
      using simulatesE [OF assms(1) s(1) q] by auto
    have "l e (f s1) = (r, t)" using s(2) q Throw s1(2) by (simp add: catch_act_def)
    then obtain s2 where "k e s1 = (r, s2)" "f s2 = t" "P s2"
      using simulatesE [OF assms(2) s1(3) _ s(3)] by blast
    then show ?thesis using s1(1) by (simp add: catch_act_def)
  next
    case (Ret x)
    then show ?thesis using simulatesD [OF assms(1) s(1) q] s(2) q by (auto simp: catch_act_def)
  next
    case (Abort c)
    then show ?thesis using s(2,3) q by (auto simp: catch_act_def)
  qed
qed

section \<open>The contract of a table of C functions\<close>

text \<open>A character array that holds a string.\<close>

definition c_holds :: "string \<Rightarrow> string \<Rightarrow> bool" where
  "c_holds buf s \<longleftrightarrow> NUL \<notin> set s \<and> take (Suc (length s)) buf = s @ [NUL]"

definition c_array :: "'a list \<Rightarrow> u64 \<Rightarrow> 'a list \<Rightarrow> bool" where
  "c_array p n xs \<longleftrightarrow> unat n = length xs \<and> take (length xs) p = xs"

definition c_message :: "string \<Rightarrow> bool" where
  "c_message e \<longleftrightarrow> e \<noteq> [] \<and> NUL \<notin> set e \<and> length e < ODB_VM_API_ERR_MSG_MAX_LENGTH"

text \<open>
  A C function does what a method does: it stores the result and leaves the message alone, or stores
  the message of the error the method throws. \<open>good\<close> are the states the machine may be in.
\<close>

definition c_runs_as :: "('v \<Rightarrow> bool) \<Rightarrow> ('v, 'c) c_fun \<Rightarrow> ('v, 'a) act \<Rightarrow> ('c \<Rightarrow> 'a \<Rightarrow> bool) \<Rightarrow> bool" where
  "c_runs_as good f m rep \<longleftrightarrow> (\<forall>v. good v \<longrightarrow> (case m v of
      (Ret x, v') \<Rightarrow> good v' \<and> (\<exists>c. f v = (c, [], v') \<and> rep c x)
    | (Throw e, v') \<Rightarrow> good v' \<and> c_message e \<and> (\<exists>c. f v = (c, e @ [NUL], v'))
    | (Abort k, v') \<Rightarrow> True))"

definition vm_infos_rep :: "odb_vm_infos_t \<Rightarrow> VMInfos \<Rightarrow> bool" where
  "vm_infos_rep c i \<longleftrightarrow> c_holds (cv_name c) (vi_name i) \<and>
    c_array (cv_regs_general c) (cv_regs_general_size c) (vi_regs_general i) \<and>
    c_array (cv_regs_program_counter c) (cv_regs_program_counter_size c) (vi_regs_program_counter i) \<and>
    c_array (cv_regs_stack_pointer c) (cv_regs_stack_pointer_size c) (vi_regs_stack_pointer i) \<and>
    c_array (cv_regs_base_pointer c) (cv_regs_base_pointer_size c) (vi_regs_base_pointer i) \<and>
    c_array (cv_regs_flags c) (cv_regs_flags_size c) (vi_regs_flags i) \<and>
    cv_regs_count c = vi_regs_count i \<and> cv_memory_size c = vi_memory_size i \<and>
    cv_symbols_count c = vi_symbols_count i \<and> cv_pointer_size c = vi_pointer_size i \<and>
    cv_integer_size c = vi_integer_size i \<and> (cv_use_opcode c \<noteq> 0 \<longleftrightarrow> vi_use_opcode i)"

definition update_rep :: "odb_vm_api_update_infos_t \<Rightarrow> UpdateInfos \<Rightarrow> bool" where
  "update_rep c u \<longleftrightarrow> cu_state c = c_update_state (ud_state u) \<and> cu_act_addr c = ud_act_addr u"

definition reg_infos_rep :: "RegInfos \<Rightarrow> odb_reg_infos_t \<Rightarrow> RegInfos \<Rightarrow> bool" where
  "reg_infos_rep old c i \<longleftrightarrow> c_holds (cr_name c) (ri_name i) \<and> cr_size c = ri_size i \<and>
    cr_idx c = ri_idx i \<and> c_reg_kind (ri_kind i) = Ret (cr_kind c) \<and> ri_val i = ri_val old"

definition reg_val_rep :: "RegInfos \<Rightarrow> bytes \<Rightarrow> RegInfos \<Rightarrow> bool" where
  "reg_val_rep old buf i \<longleftrightarrow> length buf \<le> length (ri_val old) \<and>
    i = old\<lparr>ri_val := c_store buf (ri_val old)\<rparr>"

definition symb_infos_rep :: "odb_symbol_infos_t \<Rightarrow> SymbolInfos \<Rightarrow> bool" where
  "symb_infos_rep c i \<longleftrightarrow> c_holds (cs_name c) (si_name i) \<and> cs_addr c = si_addr i \<and> cs_idx c = si_idx i"

definition code_text_rep :: "string \<times> vm_size_t \<Rightarrow> string \<times> vm_size_t \<Rightarrow> bool" where
  "code_text_rep c t \<longleftrightarrow> c_holds (fst c) (fst t) \<and> length (fst c) \<le> ODB_VM_API_TEXT_INS_CAP \<and> snd c = snd t"

text \<open>
  A call of \<open>get_symbols\<close> stores the symbols of the first \<open>act_size\<close> addresses of the range, and not more
  than fit in the array; the rest of the range has the other symbols. That \<open>act_size\<close> is not 0 is not
  asked by \<open>vm-api.h\<close>: it is the progress without which the loop of the wrapper does not end.
\<close>

definition symbols_rep :: "(vm_ptr_t \<Rightarrow> vm_size_t \<Rightarrow> vm_sym_t list \<Rightarrow> bool) \<Rightarrow> vm_ptr_t \<Rightarrow> vm_size_t \<Rightarrow>
    c_symbols_out \<Rightarrow> vm_sym_t list \<Rightarrow> bool" where
  "symbols_rep rest_lists a n c xs \<longleftrightarrow> length (out_syms c) \<le> ODB_VM_API_SYMS_LIST_CAP \<and>
    unat (out_nb_syms c) = length (out_syms c) \<and> out_act_size c \<noteq> 0 \<and> out_act_size c \<le> n \<and>
    (\<exists>zs. xs = out_syms c @ zs \<and>
      (if out_act_size c = n then zs = [] else rest_lists (a + out_act_size c) (n - out_act_size c) zs))"

lemma make_reg_kind_of: "c_reg_kind k = Ret c \<Longrightarrow> make_reg_kind c = Ret k"
  by (cases k) auto

lemma make_update_state_of [simp]: "make_vm_api_update_state (c_update_state st) = Ret st"
  by (cases st) auto

lemma sim_ret_id: "simulates P f (bind_act m ret) n \<longleftrightarrow> simulates P f m n"
proof -
  have "bind_act m ret = m" by (auto simp: bind_act_def fun_eq_iff split: prod.splits outcome.splits)
  then show ?thesis by simp
qed

lemma c_str_id: "NUL \<notin> set name \<Longrightarrow> c_str name = name"
  by (auto simp: c_str_def takeWhile_eq_all_conv)

lemma takeWhile_NUL: "NUL \<notin> set s \<Longrightarrow> takeWhile (\<lambda>c. c \<noteq> NUL) (s @ NUL # rest) = s"
  by (induction s) auto

lemma c_holds_str:
  assumes "c_holds buf s"
  shows "NUL \<in> set buf" "takeWhile (\<lambda>c. c \<noteq> NUL) buf = s"
proof -
  have "s @ NUL # drop (Suc (length s)) buf = take (Suc (length s)) buf @ drop (Suc (length s)) buf"
    using assms by (simp add: c_holds_def)
  then have buf: "buf = s @ NUL # drop (Suc (length s)) buf" by simp
  show "NUL \<in> set buf" by (subst buf) simp
  have "NUL \<notin> set s" using assms by (simp add: c_holds_def)
  then show "takeWhile (\<lambda>c. c \<noteq> NUL) buf = s" by (subst buf) (simp add: takeWhile_NUL)
qed

lemma c_holds_store: "c_holds buf s \<Longrightarrow> c_str (c_store buf rest) = s"
  using c_holds_str [of buf s] by (auto simp: c_str_def c_store_def takeWhile_append)

lemma c_array_bounds:
  assumes "c_array p n xs"
  shows "unat n \<le> length p" "take (unat n) p = xs"
proof -
  have "length (take (unat n) p) = unat n" using assms by (simp add: c_array_def)
  then show "unat n \<le> length p" by simp
qed (use assms in \<open>simp add: c_array_def\<close>)

lemmas c_read_defs = of_c_str_def c_assign_def in_bounds_def then_act_def c_holds_str c_array_bounds

locale c_machine =
  fixes good :: "'v \<Rightarrow> bool"
    and tab :: "'v odb_vm_api_vtable_t"
    and api :: "'v VMApi"
  assumes vm_infos_law: "c_runs_as good (t_get_vm_infos tab) (api_get_vm_infos api) vm_infos_rep"
    and update_infos_law: "c_runs_as good (t_get_update_infos tab) (api_get_update_infos api) update_rep"
    and reg_infos_law: "c_runs_as good (t_get_reg_infos tab idx) (api_get_reg api idx infos False) (reg_infos_rep infos)"
    and reg_val_law: "c_runs_as good (t_get_reg_val tab idx) (api_get_reg api idx infos True) (reg_val_rep infos)"
    and set_reg_law: "c_runs_as good (t_set_reg tab idx val) (api_set_reg api idx val) (=)"
    and find_reg_law: "NUL \<notin> set name \<Longrightarrow> c_runs_as good (t_find_reg_id tab name) (api_find_reg_id api name) (=)"
    and read_mem_law: "c_runs_as good (t_read_mem tab addr sz) (api_read_mem api addr sz) (=)"
    and write_mem_law: "c_runs_as good (t_write_mem tab addr sz buf) (api_write_mem api addr sz buf) (=)"
    and symbols_law: "sz \<noteq> 0 \<Longrightarrow> c_runs_as good (t_get_symbols tab addr sz) (api_get_symbols api addr sz)
      (symbols_rep (\<lambda>a n xs. \<forall>v. good v \<longrightarrow> api_get_symbols api a n v = (Ret xs, v)) addr sz)"
    and symbols_pure: "good v \<Longrightarrow> sz \<noteq> 0 \<Longrightarrow> api_get_symbols api addr sz v = (Ret xs, v') \<Longrightarrow> v' = v"
    and symb_infos_law: "c_runs_as good (t_get_symb_infos tab sid) (api_get_symb_infos api sid) symb_infos_rep"
    and find_sym_law: "NUL \<notin> set name \<Longrightarrow> c_runs_as good (t_find_sym_id tab name) (api_find_sym_id api name) (=)"
    and code_text_law: "c_runs_as good (t_get_code_text tab addr) (api_get_code_text api addr) code_text_rep"
begin

definition fit :: "'v CWrapperVMApi \<Rightarrow> bool" where
  "fit w \<longleftrightarrow> good (cw_data w) \<and> length (cw_err w) = ODB_VM_API_ERR_MSG_MAX_LENGTH"

text \<open>A call with the message cleared: it returns the result, or throws the stored message.\<close>

definition cleared :: "'v CWrapperVMApi \<Rightarrow> bool" where
  "cleared w \<longleftrightarrow> fit w \<and> cw_err w ! 0 = NUL"

lemma clear_err_run: "fit w \<Longrightarrow> \<exists>w'. clear_err w = (Ret (), w') \<and> cw_data w' = cw_data w \<and> cleared w'"
  by (simp add: clear_err_def cleared_def fit_def ODB_VM_API_ERR_MSG_MAX_LENGTH_def)

lemma c_call_Ret:
  assumes "c_runs_as good f m rep" "cleared w" "m (cw_data w) = (Ret x, v)"
  shows "\<exists>c. c_call f w = (Ret c, w\<lparr>cw_data := v\<rparr>) \<and> rep c x \<and> cleared (w\<lparr>cw_data := v\<rparr>)"
  using assms(1) [unfolded c_runs_as_def, rule_format, of "cw_data w"] assms(2,3)
  by (auto simp: c_call_def c_store_def cleared_def fit_def)

lemma c_call_Throw:
  assumes "c_runs_as good f m rep" "cleared w" "m (cw_data w) = (Throw e, v)"
  shows "\<exists>w'. c_call f w = (Throw e, w') \<and> cw_data w' = v \<and> fit w'"
proof -
  obtain c where c: "f (cw_data w) = (c, e @ [NUL], v)" "c_message e" "good v"
    using assms(1) [unfolded c_runs_as_def, rule_format, of "cw_data w"] assms(2,3)
    by (auto simp: cleared_def fit_def)
  let ?err = "c_store (e @ [NUL]) (cw_err w)"
  have e: "e \<noteq> []" "NUL \<notin> set e" "length e < 255" and len: "length (cw_err w) = 255"
    using c(2) assms(2) by (simp_all add: c_message_def cleared_def fit_def ODB_VM_API_ERR_MSG_MAX_LENGTH_def)
  then have "?err ! 0 \<noteq> NUL" by (cases e) (auto simp: c_store_def)
  moreover have "takeWhile (\<lambda>c. c \<noteq> NUL) ?err = e" "NUL \<in> set ?err"
    using e(2) by (simp_all add: c_store_def takeWhile_NUL)
  ultimately have "c_call f w = (Throw e, w\<lparr>cw_data := v, cw_err := ?err\<rparr>)"
    using c(1) e(3) len by (simp add: c_call_def of_c_str_def bind_act_def Let_def)
  moreover have "length ?err = 255" using len e(3) by (simp add: c_store_def)
  ultimately show ?thesis using c(3) by (simp add: fit_def ODB_VM_API_ERR_MSG_MAX_LENGTH_def)
qed

lemma cw_call_sim:
  assumes f: "c_runs_as good f m rep"
    and k: "\<And>c x. rep c x \<Longrightarrow> simulates fit cw_data (k c) (ret x)"
  shows "simulates fit cw_data (bind_act (cw_call f) k) m"
proof (rule simulatesI)
  fix w r v
  assume w: "fit w" and m: "m (cw_data w) = (r, v)" and r: "\<And>c. r \<noteq> Abort c"
  obtain w1 where w1: "clear_err w = (Ret (), w1)" "cw_data w1 = cw_data w" "cleared w1"
    using clear_err_run [OF w] by blast
  then have start: "bind_act (cw_call f) k w = bind_act (c_call f) k w1"
    by (simp add: cw_call_def then_act_def bind_act_def)
  show "\<exists>w'. bind_act (cw_call f) k w = (r, w') \<and> cw_data w' = v \<and> fit w'"
  proof (cases r)
    case (Ret x)
    then obtain c where c: "c_call f w1 = (Ret c, w1\<lparr>cw_data := v\<rparr>)" "rep c x" "cleared (w1\<lparr>cw_data := v\<rparr>)"
      using c_call_Ret [OF f w1(3)] m w1(2) by auto
    then have "fit (w1\<lparr>cw_data := v\<rparr>)" by (simp add: cleared_def)
    then have "\<exists>w'. k c (w1\<lparr>cw_data := v\<rparr>) = (Ret x, w') \<and> cw_data w' = v \<and> fit w'"
      using simulatesD [OF k [OF c(2)], of "w1\<lparr>cw_data := v\<rparr>" "Ret x" v] by simp
    then show ?thesis using start c(1) Ret by (simp add: bind_act_def)
  next
    case (Throw e)
    then show ?thesis using start c_call_Throw [OF f w1(3), of e v] m w1(2) by (auto simp: bind_act_def)
  qed (use r in simp)
qed

lemma sim_plain_call: "c_runs_as good f m (=) \<Longrightarrow> simulates fit cw_data (cw_call f) m"
  using cw_call_sim [of f m "(=)" ret] by (simp add: sim_ret_id sim_ret)

lemma wrapper_sims:
  "simulates fit cw_data (cw_get_vm_infos tab) (api_get_vm_infos api)"
  "simulates fit cw_data (cw_get_update_infos tab) (api_get_update_infos api)"
  "simulates fit cw_data (cw_get_reg tab idx infos b) (api_get_reg api idx infos b)"
  "simulates fit cw_data (cw_set_reg tab idx val) (api_set_reg api idx val)"
  "simulates fit cw_data (cw_read_mem tab addr sz) (api_read_mem api addr sz)"
  "simulates fit cw_data (cw_write_mem tab addr sz buf) (api_write_mem api addr sz buf)"
  "simulates fit cw_data (cw_get_symb_infos tab sid) (api_get_symb_infos api sid)"
  "simulates fit cw_data (cw_get_code_text tab addr) (api_get_code_text api addr)"
  "NUL \<notin> set name \<Longrightarrow> simulates fit cw_data (cw_find_reg_id tab name) (api_find_reg_id api name)"
  "NUL \<notin> set name \<Longrightarrow> simulates fit cw_data (cw_find_sym_id tab name) (api_find_sym_id api name)"
proof -
  show "simulates fit cw_data (cw_get_vm_infos tab) (api_get_vm_infos api)"
    unfolding cw_get_vm_infos_def using vm_infos_law
    by (rule cw_call_sim) (auto simp: vm_infos_rep_def c_read_defs simulates_def bind_act_def)
  show "simulates fit cw_data (cw_get_update_infos tab) (api_get_update_infos api)"
    unfolding cw_get_update_infos_def using update_infos_law
    by (rule cw_call_sim) (simp add: update_rep_def simulates_def bind_act_def)
  show "simulates fit cw_data (cw_get_reg tab idx infos b) (api_get_reg api idx infos b)"
  proof -
    have "simulates fit cw_data (cw_get_reg tab idx infos True) (api_get_reg api idx infos True)"
      unfolding cw_get_reg_def if_True using reg_val_law
      by (rule cw_call_sim) (simp add: reg_val_rep_def simulates_def)
    moreover have "simulates fit cw_data (cw_get_reg tab idx infos False) (api_get_reg api idx infos False)"
      unfolding cw_get_reg_def if_False using reg_infos_law [of idx infos]
      by (rule cw_call_sim) (auto simp: reg_infos_rep_def c_read_defs simulates_def make_reg_kind_of bind_act_def)
    ultimately show ?thesis by (cases b) simp_all
  qed
  show "simulates fit cw_data (cw_get_symb_infos tab sid) (api_get_symb_infos api sid)"
    unfolding cw_get_symb_infos_def using symb_infos_law
    by (rule cw_call_sim) (auto simp: symb_infos_rep_def c_read_defs simulates_def bind_act_def)
  show "simulates fit cw_data (cw_get_code_text tab addr) (api_get_code_text api addr)"
    unfolding cw_get_code_text_def using code_text_law
    by (rule cw_call_sim) (auto simp: code_text_rep_def c_holds_store simulates_def)
qed (simp_all add: cw_set_reg_def cw_read_mem_def cw_write_mem_def cw_find_reg_id_def cw_find_sym_id_def c_str_id
    sim_plain_call set_reg_law read_mem_law write_mem_law find_reg_law find_sym_law)

text \<open>The loop of \<open>get_symbols\<close> ends, with the symbols of the whole range in order.\<close>

lemma symbols_turn:
  assumes w: "cleared w" and sz: "sz \<noteq> 0" and buf: "length buf \<le> ODB_VM_API_SYMS_LIST_CAP"
    and xs: "api_get_symbols api addr sz (cw_data w) = (Ret xs, v)"
  obtains buf' ys act zs where "cw_symbols_turn tab addr sz buf w = (Ret (buf', ys, act), w)"
    "length buf' \<le> ODB_VM_API_SYMS_LIST_CAP" "act \<noteq> 0" "act \<le> sz" "xs = ys @ zs" "act = sz \<Longrightarrow> zs = []"
    "act \<noteq> sz \<Longrightarrow> api_get_symbols api (addr + act) (sz - act) (cw_data w) = (Ret zs, cw_data w)"
proof -
  have good: "good (cw_data w)" using w by (simp add: cleared_def fit_def)
  have v: "v = cw_data w" using symbols_pure [OF good sz xs] .
  have "w\<lparr>cw_data := v\<rparr> = w" using v by simp
  then obtain c where c: "c_call (t_get_symbols tab addr sz) w = (Ret c, w)"
    "symbols_rep (\<lambda>a n xs. \<forall>v. good v \<longrightarrow> api_get_symbols api a n v = (Ret xs, v)) addr sz c xs"
    using c_call_Ret [OF symbols_law [OF sz] w xs] by auto
  then obtain zs where zs: "xs = out_syms c @ zs" "out_act_size c = sz \<Longrightarrow> zs = []"
    "out_act_size c \<noteq> sz \<Longrightarrow> api_get_symbols api (addr + out_act_size c) (sz - out_act_size c) (cw_data w) = (Ret zs, cw_data w)"
    using good by (auto simp: symbols_rep_def split: if_splits)
  let ?buf = "c_store (out_syms c) buf"
  have "length ?buf \<le> ODB_VM_API_SYMS_LIST_CAP" "length (out_syms c) \<le> length ?buf"
    using c(2) buf by (auto simp: symbols_rep_def c_store_def)
  moreover then have "cw_symbols_turn tab addr sz buf w = (Ret (?buf, out_syms c, out_act_size c), w)"
    using c by (simp add: cw_symbols_turn_def bind_act_def symbols_rep_def Let_def) (simp add: c_store_def)
  ultimately show ?thesis using that [of ?buf "out_syms c" "out_act_size c" zs] zs c(2) by (auto simp: symbols_rep_def)
qed

lemma symbols_loop:
  assumes "cleared w" "sz \<noteq> 0" "length buf \<le> ODB_VM_API_SYMS_LIST_CAP"
    and "api_get_symbols api addr sz (cw_data w) = (Ret xs, v)"
  shows "cw_symbols_loop tab addr sz buf res w = Some (Ret (res @ xs), w)"
  using assms
proof (induction "unat sz" arbitrary: addr sz buf res xs v rule: less_induct)
  case less
  obtain buf' ys act zs where turn: "cw_symbols_turn tab addr sz buf w = (Ret (buf', ys, act), w)"
    "length buf' \<le> ODB_VM_API_SYMS_LIST_CAP" "act \<noteq> 0" "act \<le> sz" "xs = ys @ zs" "act = sz \<Longrightarrow> zs = []"
    "act \<noteq> sz \<Longrightarrow> api_get_symbols api (addr + act) (sz - act) (cw_data w) = (Ret zs, cw_data w)"
    using symbols_turn [OF less.prems] by metis
  have loop: "cw_symbols_loop tab addr sz buf res w = cw_symbols_loop tab (addr + act) (sz - act) buf' (res @ ys) w"
    using turn(1) less.prems(2) by (simp add: cw_symbols_loop.simps [of tab addr])
  show ?case
  proof (cases "act = sz")
    case True
    then show ?thesis using loop turn(5,6) by (simp add: cw_symbols_loop.simps [of tab "addr + sz"])
  next
    case False
    have "unat (sz - act) < unat sz" using turn(3,4) 
      by (simp add: unat_sub word_le_nat_alt unat_gt_0 [symmetric] unat_0_iff [symmetric])
    then show ?thesis
      using less.hyps [of "sz - act" buf' "addr + act" zs "cw_data w" "res @ ys"] less.prems(1) turn loop False
      by simp
  qed
qed

lemma get_symbols_sim:
  assumes "sz \<noteq> 0"
  shows "simulates fit cw_data (cw_get_symbols tab addr sz) (api_get_symbols api addr sz)"
proof (rule simulatesI)
  fix w r v
  assume w: "fit w" and m: "api_get_symbols api addr sz (cw_data w) = (r, v)" and r: "\<And>c. r \<noteq> Abort c"
  obtain w1 where w1: "clear_err w = (Ret (), w1)" "cw_data w1 = cw_data w" "cleared w1"
    using clear_err_run [OF w] by blast
  then have start: "cw_get_symbols tab addr sz w =
      (case cw_symbols_loop tab addr sz [] [] w1 of Some r \<Rightarrow> r | None \<Rightarrow> (Abort Hangs, w1))"
    by (simp add: cw_get_symbols_def then_act_def bind_act_def)
  have good: "good (cw_data w)" using w by (simp add: fit_def)
  show "\<exists>w'. cw_get_symbols tab addr sz w = (r, w') \<and> cw_data w' = v \<and> fit w'"
  proof (cases r)
    case (Ret xs)
    then have "cw_symbols_loop tab addr sz [] [] w1 = Some (Ret xs, w1)"
      using symbols_loop [OF w1(3) assms, of "[]" addr xs v "[]"] m w1(2) by simp
    then show ?thesis using start Ret w1 symbols_pure [OF good assms, of addr xs v] m by (simp add: cleared_def)
  next
    case (Throw e)
    then obtain w2 where "c_call (t_get_symbols tab addr sz) w1 = (Throw e, w2)" "cw_data w2 = v" "fit w2"
      using c_call_Throw [OF symbols_law [OF assms] w1(3), of addr e v] m w1(2) by auto
    then show ?thesis
      using start assms Throw by (simp add: cw_symbols_loop.simps [of tab addr] cw_symbols_turn_def bind_act_def)
  qed (use r in simp)
qed

end

section \<open>The debugger over a wrapped machine\<close>

text \<open>The debugger with the data of the wrapper in place of the wrapper.\<close>

definition plain :: "'v CWrapperVMApi Debugger \<Rightarrow> 'v Debugger" where
  "plain d = \<lparr>d_vm = cw_data (d_vm d), d_infos = d_infos d, d_state = d_state d, d_call_stack = d_call_stack d,
    d_ins_addr = d_ins_addr d, d_map_regs = d_map_regs d, d_smap_regs = d_smap_regs d,
    d_map_syms = d_map_syms d, d_smap_syms = d_smap_syms d, d_syms_ranges = d_syms_ranges d,
    d_syms_pos = d_syms_pos d, d_breakpts = d_breakpts d, d_step_over_depth = d_step_over_depth d,
    d_garbage = d_garbage d\<rparr>"

lemma plain_simps [simp]:
  "d_vm (plain d) = cw_data (d_vm d)" "d_infos (plain d) = d_infos d" "d_state (plain d) = d_state d"
  "d_call_stack (plain d) = d_call_stack d" "d_ins_addr (plain d) = d_ins_addr d"
  "d_map_regs (plain d) = d_map_regs d" "d_smap_regs (plain d) = d_smap_regs d"
  "d_map_syms (plain d) = d_map_syms d" "d_smap_syms (plain d) = d_smap_syms d"
  "d_syms_ranges (plain d) = d_syms_ranges d" "d_syms_pos (plain d) = d_syms_pos d"
  "d_breakpts (plain d) = d_breakpts d" "d_step_over_depth (plain d) = d_step_over_depth d"
  "d_garbage (plain d) = d_garbage d"
  by (simp_all add: plain_def)

text \<open>The range map ends where the memory ends.\<close>

definition spans_memory :: "'v Debugger \<Rightarrow> bool" where
  "spans_memory d \<longleftrightarrow> (\<forall>m. d_syms_ranges d = Some m \<longrightarrow> rm_max m = vi_memory_size (d_infos d) - 1)"

lemma sim_natural:
  "(\<And>s. P s \<Longrightarrow> n (f s) = map_prod id f (m s) \<and> P (snd (m s))) \<Longrightarrow> simulates P f m n"
  by (auto simp: simulates_def map_prod_def split: prod.splits) (metis snd_conv)

context c_machine
begin

definition held :: "'v CWrapperVMApi Debugger \<Rightarrow> bool" where
  "held d \<longleftrightarrow> fit (d_vm d) \<and> spans_memory d"

lemma sim_vm_call [sim_rules]:
  "simulates fit cw_data m n \<Longrightarrow> simulates held plain (vm_call m) (vm_call n)"
proof (rule simulatesI)
  fix d r t
  assume sim: "simulates fit cw_data m n" and d: "held d" and run: "vm_call n (plain d) = (r, t)" and r: "\<And>c. r \<noteq> Abort c"
  obtain v where v: "n (cw_data (d_vm d)) = (r, v)" "t = (plain d)\<lparr>d_vm := v\<rparr>"
    using run by (auto simp: vm_call_def lift_act_def split: prod.splits)
  then obtain w where "m (d_vm d) = (r, w)" "cw_data w = v" "fit w"
    using simulatesD [OF sim, of "d_vm d" r v] d r by (auto simp: held_def)
  then show "\<exists>s'. vm_call m d = (r, s') \<and> plain s' = t \<and> held s'"
    using v d by (auto simp: vm_call_def lift_act_def held_def plain_def spans_memory_def)
qed

lemma make_api_sels [simp]:
  "api_get_vm_infos (make_cpp_vm_api tab) = cw_get_vm_infos tab"
  "api_get_update_infos (make_cpp_vm_api tab) = cw_get_update_infos tab"
  "api_get_reg (make_cpp_vm_api tab) = cw_get_reg tab" "api_set_reg (make_cpp_vm_api tab) = cw_set_reg tab"
  "api_find_reg_id (make_cpp_vm_api tab) = cw_find_reg_id tab" "api_read_mem (make_cpp_vm_api tab) = cw_read_mem tab"
  "api_write_mem (make_cpp_vm_api tab) = cw_write_mem tab" "api_get_symbols (make_cpp_vm_api tab) = cw_get_symbols tab"
  "api_get_symb_infos (make_cpp_vm_api tab) = cw_get_symb_infos tab"
  "api_find_sym_id (make_cpp_vm_api tab) = cw_find_sym_id tab"
  "api_get_code_text (make_cpp_vm_api tab) = cw_get_code_text tab"
  by (simp_all add: make_cpp_vm_api_def)

lemma sim_local [sim_rules]:
  "simulates held plain (set_state st) (set_state st)" "simulates held plain (track_call_stack u a) (track_call_stack u a)"
  "simulates held plain (check_stop u) (check_stop u)" "simulates held plain (resume type) (resume type)"
  "simulates held plain stop stop" "simulates held plain (add_breakpoint a) (add_breakpoint a)"
  "simulates held plain (del_breakpoint a) (del_breakpoint a)" "simulates held plain (vms_check_stopped udp) (vms_check_stopped udp)"
  "simulates held plain (syms_range_of a) (syms_range_of a)" "simulates held plain (reg_entry i) (reg_entry i)"
  by (rule sim_natural; auto simp: set_state_def track_call_stack_def check_stop_def resume_def stop_def
      add_breakpoint_def del_breakpoint_def vms_check_stopped_def syms_range_of_def reg_entry_def is_running_def
      plain_def held_def spans_memory_def then_act_def bind_act_def split: option.splits outcome.splits)+

lemma sim_gets_plain [sim_rules]:
  "(\<And>d. g d = h (plain d)) \<Longrightarrow> simulates held plain (gets g) (gets h)"
  by (rule sim_gets)

lemma sim_modify_plain [sim_rules]:
  "(\<And>d. held d \<Longrightarrow> plain (g d) = h (plain d)) \<Longrightarrow> (\<And>d. held d \<Longrightarrow> held (g d)) \<Longrightarrow> simulates held plain (modify g) (modify h)"
  by (rule sim_modify) blast

lemma sim_flow [sim_rules]:
  "simulates held plain (on_init (make_cpp_vm_api tab)) (on_init api)"
  "simulates held plain (on_update (make_cpp_vm_api tab)) (on_update api)"
  unfolding on_init_def on_update_def
  by (intro sim_rules; simp add: wrapper_sims plain_def held_def spans_memory_def)+

lemma sim_load_reg [sim_rules]:
  "simulates held plain (load_reg (make_cpp_vm_api tab) i) (load_reg api i)"
  unfolding load_reg_def Let_def
  by (intro sim_rules; simp add: wrapper_sims plain_def held_def spans_memory_def)

lemma sim_regs [sim_rules]:
  "simulates held plain (get_reg (make_cpp_vm_api tab) i) (get_reg api i)"
  "simulates held plain (set_reg (make_cpp_vm_api tab) i val) (set_reg api i val)"
  "simulates held plain (get_reg_infos (make_cpp_vm_api tab) i) (get_reg_infos api i)"
  "NUL \<notin> set name \<Longrightarrow> simulates held plain (find_reg_id (make_cpp_vm_api tab) name) (find_reg_id api name)"
  unfolding get_reg_def set_reg_def get_reg_infos_def find_reg_id_def
  by (intro sim_rules; simp add: wrapper_sims plain_def held_def spans_memory_def)+

lemma sim_mem [sim_rules]:
  "simulates held plain (read_mem (make_cpp_vm_api tab) a sz) (read_mem api a sz)"
  "simulates held plain (write_mem (make_cpp_vm_api tab) a sz buf) (write_mem api a sz buf)"
  "simulates held plain (get_code_text (make_cpp_vm_api tab) a) (get_code_text api a)"
  unfolding read_mem_def write_mem_def get_code_text_def
  by (intro sim_rules; simp add: wrapper_sims)+

lemma sim_load_symbol [sim_rules]:
  "simulates held plain (load_symbol (make_cpp_vm_api tab) sid) (load_symbol api sid)"
  unfolding load_symbol_def
  by (intro sim_rules; simp add: wrapper_sims plain_def held_def spans_memory_def)

lemma sim_set_loaded [sim_rules]: "simulates held plain (syms_set_loaded lo hi) (syms_set_loaded lo hi)"
proof -
  have keep: "rm_max m' = rm_max m" if "rm_set m lo hi 1 = Ret m'" for m m' :: "int range_map"
    using that by (auto simp: rm_set_def Let_def split: if_splits prod.splits outcome.splits)
  show ?thesis
    by (rule sim_natural) (auto simp: syms_set_loaded_def plain_def held_def spans_memory_def bind_act_def keep
        split: option.splits outcome.splits)
qed

lemma word_before: "l \<noteq> 0 \<Longrightarrow> l - 1 < l" for l :: u64
  by (simp add: word_less_nat_alt unat_minus_one unat_gt_0)

text \<open>The debugger never asks the machine for the symbols of an empty range.\<close>

lemma sim_load_symbols_in:
  "e - a + 1 \<noteq> 0 \<Longrightarrow> simulates held plain (load_symbols_in (make_cpp_vm_api tab) a e) (load_symbols_in api a e)"
  unfolding load_symbols_in_def by (intro sim_rules; simp add: get_symbols_sim)

lemma sim_preload_high:
  assumes "e - a + 1 \<noteq> 0"
  shows "simulates held plain (preload_high (make_cpp_vm_api tab) a e) (preload_high api a e)"
proof -
  have "l - 1 - a + 1 \<noteq> 0" if "l \<noteq> 0" "\<not> l - 1 < a" for l :: u64
    using word_before [OF that(1)] that(2) by auto
  then show ?thesis
    unfolding preload_high_def Let_def using assms by (intro sim_rules sim_load_symbols_in) auto
qed

lemma sim_preload_symbols [sim_rules]:
  "simulates held plain (preload_symbols (make_cpp_vm_api tab) a sz) (preload_symbols api a sz)"
proof (rule simulatesI)
  fix d r t
  assume d: "held d" and run: "preload_symbols api a sz (plain d) = (r, t)" and r: "\<And>c. r \<noteq> Abort c"
  define mem e where "mem = vi_memory_size (d_infos d)" and "e = min (a + max sz SYM_LOAD_SIZE - 1) (mem - 1)"
  have range: "\<exists>lr. syms_range_of a (plain d) = (Ret lr, plain d)"
    using run r unfolding preload_symbols_def Let_def
    by (auto simp: bind_act_def syms_range_of_def rm_range_of_def split: option.splits outcome.splits if_splits)
  then have in_mem: "a \<le> mem - 1"
    using d by (auto simp: syms_range_of_def held_def spans_memory_def mem_def rm_range_of_def bind_act_def
        split: option.splits if_splits)
  have "max sz SYM_LOAD_SIZE \<noteq> 0" by (auto simp: SYM_LOAD_SIZE_def max_def)
  moreover have "mem - 1 \<noteq> a - 1" if "\<not> a + max sz SYM_LOAD_SIZE - 1 \<le> mem - 1"
    using that in_mem word_before [of mem] by (cases "mem = 0") (auto simp: word_n1_ge)
  ultimately have e: "e - a + 1 \<noteq> 0"
    unfolding e_def min_def by (auto simp: algebra_simps)
  have "simulates held plain
      (bind_act (syms_range_of a) (\<lambda>lr. if rval lr = 1 then
         (if high lr + 1 = 0 \<or> high lr + 1 > e then ret () else preload_high (make_cpp_vm_api tab) (high lr + 1) e)
       else preload_high (make_cpp_vm_api tab) a e))
      (bind_act (syms_range_of a) (\<lambda>lr. if rval lr = 1 then
         (if high lr + 1 = 0 \<or> high lr + 1 > e then ret () else preload_high api (high lr + 1) e)
       else preload_high api a e))"
    using e word_before by (intro sim_rules sim_preload_high) fastforce+
  from simulatesD [OF this d _ r, of t] show "\<exists>d'. preload_symbols (make_cpp_vm_api tab) a sz d = (r, d') \<and> plain d' = t \<and> held d'"
    using run unfolding preload_symbols_def Let_def bind_act_gets plain_simps mem_def e_def by simp
qed

lemma sim_syms [sim_rules]:
  "simulates held plain (get_symbols (make_cpp_vm_api tab) a sz) (get_symbols api a sz)"
  "simulates held plain (get_symbol_at (make_cpp_vm_api tab) a) (get_symbol_at api a)"
  "simulates held plain (get_symbol_infos (make_cpp_vm_api tab) sid) (get_symbol_infos api sid)"
  "NUL \<notin> set name \<Longrightarrow> simulates held plain (find_sym_id (make_cpp_vm_api tab) name) (find_sym_id api name)"
  unfolding get_symbols_def get_symbol_at_def preload_symbols_around_def get_symbol_infos_def find_sym_id_def
  by (intro sim_rules; simp add: wrapper_sims)+

lemma sim_code_text_loop [sim_rules]:
  "simulates held plain (code_text_loop (make_cpp_vm_api tab) n a) (code_text_loop api n a)"
  by (induction n arbitrary: a) (auto intro!: sim_rules)

lemma sim_elem_at [sim_rules]: "simulates P f (elem_at xs i) (elem_at xs i)"
  unfolding elem_at_def by (intro sim_rules)

lemma sim_store_row [sim_rules]: "simulates P f (store_row v row) (store_row v row)"
  unfolding store_row_def by (intro sim_rules)

lemma sim_fill_array [sim_rules]:
  assumes "\<And>x. x \<in> set xs \<Longrightarrow> simulates P f (g x) (h x)"
  shows "simulates P f (fill_array g xs out n) (fill_array h xs out n)"
proof -
  have "simulates P f (g x) (h x)" if "elem_at xs i (f s) = (Ret x, t)" for i x s t
    using that assms by (auto simp: elem_at_def split: if_splits)
  then show ?thesis
    unfolding fill_array_def by (intro sim_rules sim_bind_dep [OF sim_elem_at])
qed

end

text \<open>The names in a request are C strings.\<close>

fun names_ok :: "request \<Rightarrow> bool" where
  "names_ok (Rq_FindRegsIds r) = list_all (\<lambda>n. NUL \<notin> set n) (fri_in_bufs r)"
| "names_ok (Rq_GetSymsByNames r) = list_all (\<lambda>n. NUL \<notin> set n) (gsn_in_names r)"
| "names_ok _ = True"

text \<open>
  What happens to a debugger: the machine executes an instruction and the debugger is told, or a
  request of a client is executed; the client gets the filled request or the message of the error.
\<close>

datatype db_event = Ev_instruction | Ev_request request

fun serve_event :: "'v VMApi \<Rightarrow> ('v \<Rightarrow> 'v) \<Rightarrow> db_event \<Rightarrow> ('v Debugger, (string + request) option) act" where
  "serve_event api exec_ins Ev_instruction =
     then_act (modify (\<lambda>d. d\<lparr>d_vm := exec_ins (d_vm d)\<rparr>)) (then_act (on_update api) (ret None))"
| "serve_event api exec_ins (Ev_request r) =
     catch_act (bind_act (run_request api r) (\<lambda>r'. ret (Some (Inr r')))) (\<lambda>e. ret (Some (Inl e)))"

definition db_session :: "'v VMApi \<Rightarrow> ('v \<Rightarrow> 'v) \<Rightarrow> db_event list \<Rightarrow> ('v Debugger, (string + request) option list) act" where
  "db_session api exec_ins evs = then_act (on_init api) (map_act (serve_event api exec_ins) evs)"

definition on_data :: "('v \<Rightarrow> 'v) \<Rightarrow> 'v CWrapperVMApi \<Rightarrow> 'v CWrapperVMApi" where
  "on_data g w = w\<lparr>cw_data := g (cw_data w)\<rparr>"

fun event_ok :: "db_event \<Rightarrow> bool" where
  "event_ok Ev_instruction = True"
| "event_ok (Ev_request r) = names_ok r"

context c_machine
begin

lemma sim_run_request:
  "names_ok r \<Longrightarrow> simulates held plain (run_request (make_cpp_vm_api tab) r) (run_request api r)"
  by (cases r; simp add: vms_defs; intro sim_rules; simp add: list_all_iff plain_def is_running_def)

lemma sim_event:
  assumes "event_ok ev" "\<And>v. good v \<Longrightarrow> good (exec_ins v)"
  shows "simulates held plain (serve_event (make_cpp_vm_api tab) (on_data exec_ins) ev) (serve_event api exec_ins ev)"
  using assms
  by (cases ev) (auto intro!: sim_rules sim_run_request simp: plain_def held_def spans_memory_def on_data_def fit_def)

lemma session_sim:
  assumes "list_all event_ok evs" "\<And>v. good v \<Longrightarrow> good (exec_ins v)"
  shows "simulates held plain (db_session (make_cpp_vm_api tab) (on_data exec_ins) evs) (db_session api exec_ins evs)"
  unfolding db_session_def using assms by (intro sim_rules sim_event) (auto simp: list_all_iff)

lemma held_new: "good v \<Longrightarrow> length err = ODB_VM_API_ERR_MSG_MAX_LENGTH \<Longrightarrow>
    held (Debugger_new (CWrapperVMApi_new v err) infos0 g)"
  by (simp add: held_def fit_def spans_memory_def Debugger_new_def CWrapperVMApi_new_def)

end

end
