(* ===== verification/C_Api_Mvm0.thy ===== *)
theory C_Api_Mvm0
  imports C_Api_Props
begin

text \<open>
  The machine \<open>mvm0\<close> behind the C interface: a table of C functions over its CPU that meets the
  contract \<open>c_machine\<close> for \<open>mvm0_api\<close>, and the properties of the C interface.
\<close>

section \<open>A table for mvm0\<close>

text \<open>
  A C function made from a method: what it stores for the result, and for an error its message; the
  output is \<open>dflt\<close> then.
\<close>

definition c_entry :: "('a \<Rightarrow> 'c) \<Rightarrow> 'c \<Rightarrow> ('v, 'a) act \<Rightarrow> ('v, 'c) c_fun" where
  "c_entry rep dflt m v = (case m v of
      (Ret x, v') \<Rightarrow> (rep x, [], v')
    | (Throw e, v') \<Rightarrow> (dflt, e @ [NUL], v')
    | (Abort k, v') \<Rightarrow> (dflt, [], v'))"

definition c_of_vm_infos :: "VMInfos \<Rightarrow> odb_vm_infos_t" where
  "c_of_vm_infos i = \<lparr>cv_name = vi_name i @ [NUL], cv_regs_general = vi_regs_general i,
    cv_regs_program_counter = vi_regs_program_counter i, cv_regs_stack_pointer = vi_regs_stack_pointer i,
    cv_regs_base_pointer = vi_regs_base_pointer i, cv_regs_flags = vi_regs_flags i,
    cv_regs_general_size = of_nat (length (vi_regs_general i)),
    cv_regs_program_counter_size = of_nat (length (vi_regs_program_counter i)),
    cv_regs_stack_pointer_size = of_nat (length (vi_regs_stack_pointer i)),
    cv_regs_base_pointer_size = of_nat (length (vi_regs_base_pointer i)),
    cv_regs_flags_size = of_nat (length (vi_regs_flags i)), cv_regs_count = vi_regs_count i,
    cv_memory_size = vi_memory_size i, cv_symbols_count = vi_symbols_count i,
    cv_pointer_size = vi_pointer_size i, cv_integer_size = vi_integer_size i,
    cv_use_opcode = (if vi_use_opcode i then 1 else 0)\<rparr>"

definition c_blank_infos :: VMInfos where
  "c_blank_infos = \<lparr>vi_name = [], vi_regs_count = 0, vi_regs_general = [], vi_regs_program_counter = [],
    vi_regs_stack_pointer = [], vi_regs_base_pointer = [], vi_regs_flags = [], vi_memory_size = 0,
    vi_symbols_count = 0, vi_pointer_size = 0, vi_integer_size = 0, vi_use_opcode = False\<rparr>"

definition c_of_update :: "UpdateInfos \<Rightarrow> odb_vm_api_update_infos_t" where
  "c_of_update u = \<lparr>cu_state = c_update_state (ud_state u), cu_act_addr = ud_act_addr u\<rparr>"

definition c_of_reg :: "RegInfos \<Rightarrow> odb_reg_infos_t" where
  "c_of_reg i = \<lparr>cr_name = ri_name i @ [NUL], cr_size = ri_size i, cr_idx = ri_idx i,
    cr_kind = (case c_reg_kind (ri_kind i) of Ret k \<Rightarrow> k | _ \<Rightarrow> odb_reg_kind_raw 0)\<rparr>"

definition c_of_symb :: "SymbolInfos \<Rightarrow> odb_symbol_infos_t" where
  "c_of_symb i = \<lparr>cs_name = si_name i @ [NUL], cs_addr = si_addr i, cs_idx = si_idx i\<rparr>"

definition c_of_symbols :: "vm_size_t \<Rightarrow> vm_sym_t list \<Rightarrow> c_symbols_out" where
  "c_of_symbols n xs = \<lparr>out_syms = xs, out_nb_syms = of_nat (length xs), out_act_size = n\<rparr>"

definition mvm0_reg :: RegInfos where
  "mvm0_reg = (fresh_reg_infos 0)\<lparr>ri_val := replicate REG_SIZE 0\<rparr>"

definition mvm0_c_table :: "CPU odb_vm_api_vtable_t" where
  "mvm0_c_table = \<lparr>
    t_get_vm_infos = c_entry c_of_vm_infos (c_of_vm_infos c_blank_infos) mvm0_get_vm_infos,
    t_get_update_infos = c_entry c_of_update (c_of_update \<lparr>ud_state = US_OK, ud_act_addr = 0\<rparr>) mvm0_get_update_infos,
    t_get_reg_infos = (\<lambda>idx. c_entry c_of_reg (c_of_reg mvm0_reg) (mvm0_get_reg idx mvm0_reg False)),
    t_get_reg_val = (\<lambda>idx. c_entry ri_val [] (mvm0_get_reg idx mvm0_reg True)),
    t_set_reg = (\<lambda>idx buf. c_entry id () (mvm0_set_reg idx buf)),
    t_find_reg_id = (\<lambda>name. c_entry id 0 (mvm0_find_reg_id name)),
    t_read_mem = (\<lambda>addr sz. c_entry id [] (mvm0_read_mem addr sz)),
    t_write_mem = (\<lambda>addr sz buf. c_entry id () (mvm0_write_mem addr sz buf)),
    t_get_symbols = (\<lambda>addr sz. c_entry (c_of_symbols sz) (c_of_symbols sz []) (mvm0_get_symbols addr sz)),
    t_get_symb_infos = (\<lambda>sid. c_entry c_of_symb \<lparr>cs_name = [NUL], cs_addr = 0, cs_idx = 0\<rparr> (mvm0_get_symb_infos sid)),
    t_find_sym_id = (\<lambda>name. c_entry id 0 (mvm0_find_sym_id name)),
    t_get_code_text = (\<lambda>addr. c_entry (\<lambda>(s, n). (s @ [NUL], n)) ([NUL], 0) (mvm0_get_code_text addr)),
    t_cleanup = id\<rparr>"



lemma mvm0_messages [simp]:
  "c_message ''invalid register index''" "c_message ''Invalid register name''" "c_message mvm0_range_error"
  "c_message ''Invalid symbol index''" "c_message ''Invalid symbol name''"
  by (simp_all add: c_message_def mvm0_range_error_def NUL_def ODB_VM_API_ERR_MSG_MAX_LENGTH_def)



lemma rom_kept [simp]: "cpu_rom (set_reg_val idx v cpu) = cpu_rom cpu"
  by (simp add: set_reg_val_def)












section \<open>Properties\<close>






text \<open>
  The loop of \<open>CWrapperVMApi::get_symbols\<close> ends: whenever each call of the table visits at least one
  and at most the given number of addresses, the loop returns (or throws the reported error),
  whatever symbols are stored. The size counts down without wrapping around.
\<close>

theorem c_symbols_loop_ends:
  assumes "\<And>a n v. n \<noteq> 0 \<Longrightarrow> out_act_size (fst (t_get_symbols tab a n v)) \<noteq> 0 \<and> out_act_size (fst (t_get_symbols tab a n v)) \<le> n"
  shows "\<exists>r. cw_symbols_loop tab addr sz buf res w = Some r"
proof (induction "unat sz" arbitrary: addr sz buf res w rule: less_induct)
  case less
  show ?case
  proof (cases "sz = 0")
    case False
    obtain q w' where q: "cw_symbols_turn tab addr sz buf w = (q, w')" by force
    show ?thesis
    proof (cases q)
      case (Ret x)
      obtain buf' syms act where x: "x = (buf', syms, act)" by (cases x)
      have "act = out_act_size (fst (t_get_symbols tab addr sz (cw_data w)))"
        using q Ret x by (auto simp: cw_symbols_turn_def c_call_def Let_def bind_act_eq_Ret then_act_eq_Ret
            of_c_str_def split: prod.splits if_splits)
      then have "act \<noteq> 0" "act \<le> sz" using assms [OF False] by auto
      then have "unat (sz - act) < unat sz"
        by (simp add: unat_sub word_le_nat_alt unat_gt_0 [symmetric] unat_0_iff [symmetric])
      from less [OF this] show ?thesis
        using False q Ret x by (simp add: cw_symbols_loop.simps [of tab addr])
    qed (use False q in \<open>simp_all add: cw_symbols_loop.simps [of tab addr]\<close>)
  qed (simp add: cw_symbols_loop.simps)
qed

theorem c_symbols_loop_ends_witness:
  "\<exists>r. cw_symbols_loop mvm0_c_table 1024 3 [] [] (CWrapperVMApi_new sample_cpu (replicate 255 NUL)) = Some r"
  by (rule c_symbols_loop_ends)
    (simp add: mvm0_c_table_def c_entry_def c_of_symbols_def split: prod.splits outcome.splits)

text \<open>
  A table with more symbols at one address than the array holds visits no address before it reaches
  the limit of the array. The wrapper then asks for the same range for ever.
\<close>

theorem c_symbols_loop_hangs:
  assumes "\<And>v. t_get_symbols tab addr sz v = (\<lparr>out_syms = syms, out_nb_syms = 32, out_act_size = 0\<rparr>, [], v)"
    and "length syms = 32" "sz \<noteq> 0" "cw_err (w :: 'a CWrapperVMApi) ! 0 = NUL"
  shows "cw_symbols_loop tab addr sz [] [] w = None"
proof (rule ccontr)
  let ?P = "\<lambda>t a n (buf :: vm_sym_t list) (res :: vm_sym_t list) x (r :: vm_sym_t list outcome \<times> 'a CWrapperVMApi). \<not> (t = tab \<and> a = addr \<and> n = sz \<and> x = w \<and> length buf \<le> 32)"
  have turn: "cw_symbols_turn tab addr sz buf w = (Ret (syms, syms, 0), w)" if "length buf \<le> 32" for buf
    using assms that by (simp add: cw_symbols_turn_def c_call_def c_store_def bind_act_def ODB_VM_API_SYMS_LIST_CAP_def)
  assume "cw_symbols_loop tab addr sz [] [] w \<noteq> None"
  then obtain r where r: "cw_symbols_loop tab addr sz [] [] w = Some r" by blast
  have "?P tab addr sz [] [] w r"
  proof (rule cw_symbols_loop.raw_induct [where P = ?P, OF _ r])
    fix f t a n buf res x r
    assume rec: "\<And>t a n buf res x r. f t a n buf res x = Some r \<Longrightarrow> ?P t a n buf res x r"
      and step: "(if n = 0 then Some (Ret res, x) else case cw_symbols_turn t a n buf x of
          (Ret (buf, syms, act_size), w') \<Rightarrow> f t (a + act_size) (n - act_size) buf (res @ syms) w'
        | (Throw e, w') \<Rightarrow> Some (Throw e, w') | (Abort c, w') \<Rightarrow> Some (Abort c, w')) = Some r"
    show "?P t a n buf res x r"
      using rec [of tab addr sz syms "res @ syms" w r] step turn [of buf] assms(2,3) by auto
  qed
  then show False by simp
qed

end
