(* ===== verification/View_Command.thy ===== *)
theory View_Command
  imports Odb_Prelude
begin

text \<open>
  The panels of the application \<open>odb-cli\<close>: the class \<open>ViewCommand\<close>
  (\<open>src/apps/odb-cli/view-command.cc\<close>), which lays text out in a region of the terminal, and what it and
  \<open>src/apps/odb-cli/clicodes.hh\<close> write to standard output. A panel with the shift option shows the end
  of the laid out text, one without shows its beginning.
\<close>

section \<open>The terminal\<close>

text \<open>What is written to standard output, in order.\<close>

datatype term_out = Clear | Move_cur u64 u64 | Text string

section \<open>ViewCommand\<close>

record ViewCommand =
  vc_lines :: "string list"
  vc_row0 :: u64
  vc_col0 :: u64
  vc_nrows :: u64
  vc_ncols :: u64
  vc_shift_lines :: bool

definition view_clear :: "ViewCommand \<Rightarrow> ViewCommand" where
  "view_clear v = v\<lparr>vc_lines := [[]]\<rparr>"

definition ViewCommand_new :: "u64 \<Rightarrow> u64 \<Rightarrow> u64 \<Rightarrow> u64 \<Rightarrow> bool \<Rightarrow> ViewCommand" where
  "ViewCommand_new row0 col0 height width shift_lines =
    view_clear \<lparr>vc_lines = [], vc_row0 = row0, vc_col0 = col0, vc_nrows = height, vc_ncols = width,
      vc_shift_lines = shift_lines\<rparr>"

text \<open>\<open>isprint\<close> in the C locale; it is false of a negative \<open>char\<close>.\<close>

definition isprint :: "char \<Rightarrow> bool" where
  "isprint c \<longleftrightarrow> (32 :: nat) \<le> of_char c \<and> (of_char c :: nat) \<le> 126"

abbreviation NL :: char where "NL \<equiv> CHR 0x0A"

fun visible :: "string \<Rightarrow> string" where
  "visible [] = []"
| "visible (c # cs) = (if isprint c \<or> c = NL \<or> c = CHR '' '' then c # visible cs
     else if c = CHR 0x09 then ''    '' @ visible cs
     else visible cs)"

text \<open>The second loop of \<open>write\<close>; it returns when a panel that does not shift is full.\<close>

fun view_chars :: "ViewCommand \<Rightarrow> string \<Rightarrow> ViewCommand" where
  "view_chars v [] = v"
| "view_chars v (c # cs) =
     (if length (last (vc_lines v)) = unat (vc_ncols v) \<or> c = NL then
        (if length (vc_lines v) = unat (vc_nrows v) \<and> \<not> vc_shift_lines v then v
         else
           let ls = vc_lines v @ [[]];
               ls' = (if length ls > unat (vc_nrows v) then tl ls else ls)
           in view_chars (v\<lparr>vc_lines := (if c \<noteq> NL then butlast ls' @ [last ls' @ [c]] else ls')\<rparr>) cs)
      else view_chars (v\<lparr>vc_lines := butlast (vc_lines v) @ [last (vc_lines v) @ [c]]\<rparr>) cs)"

definition view_write :: "string \<Rightarrow> ViewCommand \<Rightarrow> ViewCommand" where
  "view_write str v = view_chars v (visible str)"

fun render_lines :: "u64 \<Rightarrow> u64 \<Rightarrow> string list \<Rightarrow> term_out list" where
  "render_lines row col [] = []"
| "render_lines row col (l # ls) = [Move_cur row col, Text l] @ render_lines (row + 1) col ls"

definition view_render :: "ViewCommand \<Rightarrow> term_out list" where
  "view_render v = render_lines (vc_row0 v) (vc_col0 v) (vc_lines v)"

section \<open>The layout of a text\<close>

text \<open>The reference: cut a text at its line feeds, and each line into pieces of the width.\<close>

fun text_lines :: "string \<Rightarrow> string list" where
  "text_lines [] = [[]]"
| "text_lines (c # cs) = (if c = NL then [] # text_lines cs
     else (c # hd (text_lines cs)) # tl (text_lines cs))"

fun chunks :: "nat \<Rightarrow> string \<Rightarrow> string list" where
  "chunks n xs = (if n = 0 \<or> length xs \<le> n then [xs] else take n xs # chunks n (drop n xs))"

declare chunks.simps [simp del]

definition layout :: "nat \<Rightarrow> string \<Rightarrow> string list" where
  "layout n s = concat (map (chunks n) (text_lines s))"

definition last_lines :: "nat \<Rightarrow> 'a list \<Rightarrow> 'a list" where
  "last_lines k xs = drop (length xs - k) xs"

lemma text_lines_nonempty [simp]: "text_lines s \<noteq> []"
  by (cases s) auto

lemma text_lines_NL: "text_lines (s @ NL # t) = text_lines s @ text_lines t"
  by (induction s) auto

lemma text_lines_append:
  "text_lines (s @ t) = butlast (text_lines s) @ (last (text_lines s) @ hd (text_lines t)) # tl (text_lines t)"
proof (induction s)
  case (Cons c s)
  then show ?case
    by (cases "butlast (text_lines s)"; cases "text_lines s") (auto simp: neq_Nil_conv)
qed simp

lemma chunks_nonempty [simp]: "chunks n xs \<noteq> []"
  by (subst chunks.simps) simp

lemma chunks_append:
  "0 < n \<Longrightarrow> length (last (chunks n xs)) = n \<Longrightarrow> ys \<noteq> [] \<Longrightarrow> chunks n (xs @ ys) = chunks n xs @ chunks n ys"
proof (induction n xs rule: chunks.induct)
  case (1 n xs)
  show ?case
  proof (cases "length xs \<le> n")
    case True
    then have "length xs = n" using "1.prems" by (simp add: chunks.simps [of n xs])
    then show ?thesis using "1.prems" by (simp add: chunks.simps [of n "xs @ ys"] chunks.simps [of n xs])
  next
    case False
    then show ?thesis using 1 by (simp add: chunks.simps [of n "xs @ ys"] chunks.simps [of n xs])
  qed
qed

lemma chunks_snoc:
  "0 < n \<Longrightarrow> length (last (chunks n xs)) < n \<Longrightarrow>
    chunks n (xs @ [c]) = butlast (chunks n xs) @ [last (chunks n xs) @ [c]]"
proof (induction n xs rule: chunks.induct)
  case (1 n xs)
  then show ?case
    by (cases "length xs \<le> n") (auto simp: chunks.simps [of n "xs @ [c]"] chunks.simps [of n xs] split: if_splits)
qed

lemma chunks_width: "0 < n \<Longrightarrow> l \<in> set (chunks n xs) \<Longrightarrow> length l \<le> n"
  by (induction n xs rule: chunks.induct) (subst (asm) (2) chunks.simps, auto split: if_splits)


lemma layout_nonempty [simp]: "layout n s \<noteq> []"
  by (cases "text_lines s") (auto simp: layout_def)

lemma layout_split:
  "layout n (s @ t) = concat (map (chunks n) (butlast (text_lines s))) @
    chunks n (last (text_lines s) @ hd (text_lines t)) @ concat (map (chunks n) (tl (text_lines t)))"
  by (simp add: layout_def text_lines_append)

lemma last_layout: "last (layout n s) = last (chunks n (last (text_lines s)))"
  using layout_split [of n s "[]"] by simp

text \<open>Where a line ends the rest of the text is laid out after it.\<close>

lemma layout_NL: "layout n (s @ NL # t) = layout n s @ layout n t"
  by (simp add: layout_def text_lines_NL)

lemma layout_full:
  assumes "0 < n" "length (last (layout n s)) = n" "c \<noteq> NL"
  shows "layout n (s @ c # t) = layout n s @ layout n (c # t)"
  using assms chunks_append [of n "last (text_lines s)" "hd (text_lines (c # t))"] layout_split [of n s "[]"]
  unfolding layout_split [of n s "c # t"] by (simp add: last_layout layout_def)

lemma layout_snoc:
  assumes "0 < n" "length (last (layout n s)) < n" "c \<noteq> NL"
  shows "layout n (s @ [c]) = butlast (layout n s) @ [last (layout n s) @ [c]]"
  using assms chunks_snoc [of n "last (text_lines s)" c] layout_split [of n s "[]"]
  unfolding layout_split [of n s "[c]"] by (simp add: last_layout butlast_append)

lemma layout_width: "0 < n \<Longrightarrow> l \<in> set (layout n s) \<Longrightarrow> length l \<le> n"
  by (auto simp: layout_def dest: chunks_width)

lemma layout_char: "c \<noteq> NL \<Longrightarrow> 0 < n \<Longrightarrow> layout n [c] = [[c]]"
  by (simp add: layout_def chunks.simps)

lemma layout_Nil [simp]: "layout n [] = [[]]"
  by (simp add: layout_def chunks.simps)

lemma layout_break:
  assumes "0 < n" "length (last (layout n s)) = n \<or> c = NL"
  shows "layout n (s @ c # t) = layout n s @ layout n (if c = NL then t else c # t)"
    and "layout n (s @ [c]) = layout n s @ [if c = NL then [] else [c]]"
  using assms by (cases "c = NL"; simp add: layout_NL layout_full layout_char)+

section \<open>A panel shows the layout of its text\<close>

lemma view_chars_first:
  assumes "0 < unat (vc_ncols v)" "0 < unat (vc_nrows v)" "\<not> vc_shift_lines v"
    and "vc_lines v = layout (unat (vc_ncols v)) s" "length (vc_lines v) \<le> unat (vc_nrows v)"
  shows "vc_lines (view_chars v t) = take (unat (vc_nrows v)) (layout (unat (vc_ncols v)) (s @ t))"
  using assms
proof (induction t arbitrary: v s)
  case (Cons c t)
  let ?n = "unat (vc_ncols v)" and ?k = "unat (vc_nrows v)"
  have w: "length (last (layout ?n s)) \<le> ?n" using layout_width [OF Cons.prems(1) last_in_set [OF layout_nonempty]] .
  show ?case
  proof (cases "length (last (layout ?n s)) = ?n \<or> c = NL")
    case True
    note break = layout_break [OF Cons.prems(1) True]
    show ?thesis
    proof (cases "length (vc_lines v) = ?k")
      case False
      then show ?thesis
        using True Cons.prems break(2) Cons.IH [of "v\<lparr>vc_lines := layout ?n (s @ [c])\<rparr>" "s @ [c]"]
        by (auto simp: Let_def)
    qed (use True Cons.prems break(1) in simp)
  next
    case False
    then have "layout ?n (s @ [c]) = butlast (layout ?n s) @ [last (layout ?n s) @ [c]]"
      using w Cons.prems(1) by (intro layout_snoc) auto
    then show ?thesis
      using False Cons.prems Cons.IH [of "v\<lparr>vc_lines := layout ?n (s @ [c])\<rparr>" "s @ [c]"]
      by (simp add: Suc_diff_le)
  qed
qed simp


lemma last_last_lines: "0 < k \<Longrightarrow> xs \<noteq> [] \<Longrightarrow> last (last_lines k xs) = last xs"
  by (simp add: last_lines_def last_drop)

lemma last_lines_push:
  "0 < k \<Longrightarrow> (if length (last_lines k xs @ [x]) > k then tl (last_lines k xs @ [x]) else last_lines k xs @ [x]) =
    last_lines k (xs @ [x])"
proof (cases "length xs < k")
  case False
  assume k: "0 < k"
  with False have "drop (length xs - k) xs = xs ! (length xs - k) # drop (Suc (length xs - k)) xs"
    by (intro Cons_nth_drop_Suc [symmetric]) simp
  then show ?thesis using False k by (simp add: last_lines_def Suc_diff_le not_less)
qed (simp add: last_lines_def)

lemma last_lines_butlast:
  "0 < k \<Longrightarrow> xs \<noteq> [] \<Longrightarrow> butlast (last_lines k xs) @ [y] = last_lines k (butlast xs @ [y])"
  by (simp add: last_lines_def butlast_drop)

lemma view_chars_last:
  assumes "0 < unat (vc_ncols v)" "0 < unat (vc_nrows v)" "vc_shift_lines v"
    and "vc_lines v = last_lines (unat (vc_nrows v)) (layout (unat (vc_ncols v)) s)"
  shows "vc_lines (view_chars v t) = last_lines (unat (vc_nrows v)) (layout (unat (vc_ncols v)) (s @ t))"
  using assms
proof (induction t arbitrary: v s)
  case (Cons c t)
  let ?n = "unat (vc_ncols v)" and ?k = "unat (vc_nrows v)"
  let ?go = "v\<lparr>vc_lines := last_lines ?k (layout ?n (s @ [c]))\<rparr>"
  have w: "length (last (layout ?n s)) \<le> ?n" using layout_width [OF Cons.prems(1) last_in_set [OF layout_nonempty]] .
  have last: "last (vc_lines v) = last (layout ?n s)" using Cons.prems by (simp add: last_last_lines)
  have "view_chars v (c # t) = view_chars ?go t"
  proof (cases "length (last (layout ?n s)) = ?n \<or> c = NL")
    case True
    note break = layout_break(2) [OF Cons.prems(1) True]
    let ?ls = "last_lines ?k (layout ?n s @ [[]])"
    have "butlast ?ls @ [last ?ls @ [c]] = last_lines ?k (layout ?n s @ [[c]])"
      using Cons.prems(2) by (simp add: last_lines_butlast last_last_lines)
    then show ?thesis
      using True Cons.prems last break last_lines_push [OF Cons.prems(2), of "layout ?n s" "[]"] by (auto simp: Let_def)
  next
    case False
    then have "layout ?n (s @ [c]) = butlast (layout ?n s) @ [last (layout ?n s) @ [c]]"
      using w Cons.prems(1) by (intro layout_snoc) auto
    then show ?thesis using False Cons.prems last by (simp add: last_lines_butlast)
  qed
  then show ?case using Cons.IH [of ?go "s @ [c]"] Cons.prems by simp
qed simp

lemma visible_append: "visible (s @ t) = visible s @ visible t"
  by (induction s) auto

lemma view_chars_frame [simp]:
  "vc_ncols (view_chars v t) = vc_ncols v" "vc_nrows (view_chars v t) = vc_nrows v"
  "vc_shift_lines (view_chars v t) = vc_shift_lines v"
  by (induction v t rule: view_chars.induct) (auto simp: Let_def)

lemma fold_write_last:
  assumes "0 < unat (vc_ncols v)" "0 < unat (vc_nrows v)" "vc_shift_lines v"
    and "vc_lines v = last_lines (unat (vc_nrows v)) (layout (unat (vc_ncols v)) s)"
  shows "vc_lines (fold view_write ss v) =
    last_lines (unat (vc_nrows v)) (layout (unat (vc_ncols v)) (s @ visible (concat ss)))"
  using assms
proof (induction ss arbitrary: v s)
  case (Cons x ss)
  then show ?case
    using view_chars_last [OF Cons.prems, of "visible x"] Cons.IH [of "view_write x v" "s @ visible x"]
    by (simp add: view_write_def visible_append)
qed simp


section \<open>The invariant of a panel\<close>

definition view_ok :: "ViewCommand \<Rightarrow> bool" where
  "view_ok v \<longleftrightarrow> vc_lines v \<noteq> [] \<and> length (vc_lines v) \<le> unat (vc_nrows v) \<and>
    list_all (\<lambda>l. length l \<le> unat (vc_ncols v) \<and> list_all isprint l) (vc_lines v)"

lemma view_ok_lines:
  assumes "ls \<noteq> []" "length ls \<le> unat (vc_nrows v)"
    and "\<And>l. l \<in> set ls \<Longrightarrow> length l \<le> unat (vc_ncols v) \<and> list_all isprint l"
  shows "view_ok (v\<lparr>vc_lines := ls\<rparr>)"
  using assms by (auto simp: view_ok_def list_all_iff)

lemma view_ok_append:
  assumes "view_ok (v\<lparr>vc_lines := ls\<rparr>)" "isprint c" "length (last ls) < unat (vc_ncols v)"
  shows "view_ok (v\<lparr>vc_lines := butlast ls @ [last ls @ [c]]\<rparr>)"
proof (rule view_ok_lines)
  have "last ls \<in> set ls" using assms(1) by (simp add: view_ok_def)
  then have last: "list_all isprint (last ls)" using assms(1) by (auto simp: view_ok_def list_all_iff)
  fix l
  assume "l \<in> set (butlast ls @ [last ls @ [c]])"
  then have "l \<in> set ls \<or> l = last ls @ [c]" by (auto dest: in_set_butlastD)
  then show "length l \<le> unat (vc_ncols v) \<and> list_all isprint l"
    using assms(1) assms(2,3) last by (auto simp: view_ok_def list_all_iff)
qed (use assms in \<open>auto simp: view_ok_def Suc_le_eq\<close>)

lemma view_ok_push:
  assumes "view_ok v" "length (vc_lines v) < unat (vc_nrows v) \<or> vc_shift_lines v"
  shows "view_ok (v\<lparr>vc_lines := (let ls = vc_lines v @ [[]] in if length ls > unat (vc_nrows v) then tl ls else ls)\<rparr>)"
proof (rule view_ok_lines)
  have "set (tl (vc_lines v @ [[]])) \<subseteq> set (vc_lines v @ [[]])" by (metis list.set_sel(2) subsetI tl_Nil)
  then show "length l \<le> unat (vc_ncols v) \<and> list_all isprint l"
    if "l \<in> set (let ls = vc_lines v @ [[]] in if length ls > unat (vc_nrows v) then tl ls else ls)" for l
    using that assms(1) by (auto simp: view_ok_def Let_def list_all_iff split: if_splits)
qed (use assms in \<open>auto simp: view_ok_def Let_def\<close>)

lemma view_ok_chars:
  "view_ok v \<Longrightarrow> 0 < unat (vc_ncols v) \<Longrightarrow> list_all (\<lambda>c. isprint c \<or> c = NL) cs \<Longrightarrow> view_ok (view_chars v cs)"
proof (induction v cs rule: view_chars.induct)
  case (2 v c cs)
  let ?ls = "let ls = vc_lines v @ [[]] in if length ls > unat (vc_nrows v) then tl ls else ls"
  have "last ?ls = []" using "2.prems"(1) by (auto simp: Let_def view_ok_def last_tl)
  moreover have "length (last (vc_lines v)) \<le> unat (vc_ncols v)" "length (vc_lines v) \<le> unat (vc_nrows v)"
    using "2.prems"(1) by (auto simp: view_ok_def list_all_iff)
  ultimately show ?case
    using "2.IH" "2.prems" view_ok_push [OF "2.prems"(1)] view_ok_append [where v = v and ls = ?ls and c = c]
      view_ok_append [where v = v and ls = "vc_lines v" and c = c]
    by (cases "length (vc_lines v) = unat (vc_nrows v)"; cases "c = NL") (auto simp: Let_def)
qed simp

lemma visible_chars: "list_all (\<lambda>c. isprint c \<or> c = NL) (visible s)"
  by (induction s) (auto simp: isprint_def)

text \<open>What is done with a panel.\<close>

datatype view_op = View_clear | View_write string

fun view_run :: "view_op \<Rightarrow> ViewCommand \<Rightarrow> ViewCommand" where
  "view_run View_clear v = view_clear v"
| "view_run (View_write s) v = view_write s v"

lemma view_ok_run:
  "view_ok v \<and> vc_ncols v = w \<and> vc_nrows v = h \<Longrightarrow> w \<noteq> 0 \<Longrightarrow> h \<noteq> 0 \<Longrightarrow>
    view_ok (view_run op v) \<and> vc_ncols (view_run op v) = w \<and> vc_nrows (view_run op v) = h"
proof (cases op)
  case View_clear
  assume "view_ok v \<and> vc_ncols v = w \<and> vc_nrows v = h" "h \<noteq> 0"
  then show ?thesis using View_clear by (auto simp: view_clear_def view_ok_def Suc_le_eq unat_gt_0)
qed (auto simp: view_write_def visible_chars unat_gt_0 intro: view_ok_chars)

section \<open>Properties\<close>

text \<open>
  C38. A panel with room for at least one character lays text out like a terminal of its size. One that
  shifts shows, whatever strings have been written to it since it was made, in however many calls,
  the last \<open>height\<close> lines of the whole text cut at its line feeds and at its width. One that does not
  shows, after one string is written to it when new, the first \<open>height\<close> lines of that string; nothing
  is said of a second write to it. Characters that are not printable are left out and a tab is four
  spaces.
\<close>

theorem view_shows_layout:
  assumes "width \<noteq> 0" "height \<noteq> 0"
  shows "vc_lines (fold view_write ss (ViewCommand_new row0 col0 height width True)) =
      last_lines (unat height) (layout (unat width) (visible (concat ss))) \<and>
    vc_lines (view_write s (ViewCommand_new row0 col0 height width False)) =
      take (unat height) (layout (unat width) (visible s))"
proof
  have pos: "0 < unat width" "0 < unat height" using assms by (simp_all add: unat_gt_0)
  have "last_lines (unat height) [[]] = [[] :: string]" using pos by (simp add: last_lines_def)
  then show "vc_lines (fold view_write ss (ViewCommand_new row0 col0 height width True)) =
      last_lines (unat height) (layout (unat width) (visible (concat ss)))"
    using fold_write_last [of "ViewCommand_new row0 col0 height width True" "[]" ss] pos
    by (simp add: ViewCommand_new_def view_clear_def)
  show "vc_lines (view_write s (ViewCommand_new row0 col0 height width False)) =
      take (unat height) (layout (unat width) (visible s))"
    using view_chars_first [of "ViewCommand_new row0 col0 height width False" "[]" "visible s"] pos
    by (simp add: ViewCommand_new_def view_clear_def view_write_def)
qed

theorem view_shows_layout_witness:
  "vc_lines (fold view_write [''ab'', ''cd'', [NL], ''e'', [CHR 0x09]] (ViewCommand_new 1 1 3 3 True)) =
    [''d'', ''e  '', ''  '']"
proof -
  have "vc_lines (fold view_write [''ab'', ''cd'', [NL], ''e'', [CHR 0x09]] (ViewCommand_new 1 1 3 3 True)) =
      last_lines (unat (3 :: u64)) (layout (unat (3 :: u64)) (visible (concat [''ab'', ''cd'', [NL], ''e'', [CHR 0x09]])))"
    by (rule view_shows_layout [THEN conjunct1]) simp_all
  also have "\<dots> = [''d'', ''e  '', ''  '']" by code_simp
  finally show ?thesis .
qed

text \<open>
  C39. A panel is always well formed: from its creation on, through any writes and clearings, it has at
  least one and at most \<open>height\<close> lines, no line is longer than \<open>width\<close>, and every character in it is
  printable.
\<close>

theorem view_always_ok:
  assumes "width \<noteq> 0" "height \<noteq> 0"
  shows "view_ok (fold view_run ops (ViewCommand_new row0 col0 height width shift))"
proof -
  have "view_ok (fold view_run ops v)" if "view_ok v \<and> vc_ncols v = width \<and> vc_nrows v = height" for v
    using that
  proof (induction ops arbitrary: v)
    case (Cons op ops)
    then show ?case using view_ok_run [OF Cons.prems assms] by simp
  qed simp
  then show ?thesis
    using assms by (simp add: ViewCommand_new_def view_clear_def view_ok_def Suc_le_eq unat_gt_0)
qed

theorem view_always_ok_witness:
  "view_ok (fold view_run [View_write ''some text'', View_clear, View_write [CHR 0x07, CHR ''a'', NL]]
    (ViewCommand_new 1 1 2 4 False))"
  by (rule view_always_ok) simp_all

end
