(* ===== verification/Odb_Cli.thy ===== *)
theory Odb_Cli
  imports View_Command Server_App
begin

text \<open>
  The two client applications. \<open>odb-cli\<close> (\<open>src/apps/odb-cli\<close>) shows two panels and runs commands read
  from standard input: the class \<open>CLI\<close> (\<open>cli.cc\<close>), the drawing functions and \<open>main\<close> (\<open>main.cc\<close>).
  \<open>odb-client-simple-cli\<close> (\<open>src/apps/odb-client-simple-cli/main.cc\<close>) prints to standard output.

  Both are written over a \<open>DBClientImpl\<close>, whose state \<open>'s\<close> holds everything behind the connection, the
  debugged program included. A loop that waits may run for ever: its result is \<open>None\<close> then. Pauses
  of 10 ms between polls have no effect in the model.
\<close>

section \<open>The class CLI\<close>

text \<open>
  The state of the process: \<open>ap_sigints\<close> tells for each look at \<open>g_force_stop\<close> whether a SIGINT arrived
  since the look before.
\<close>

record 's odb_cli =
  ap_client :: "'s DBClient"
  ap_state_switch :: bool
  ap_sigints :: "bool list"
  ap_force_stop :: bool
  ap_vcode :: ViewCommand
  ap_vcmd :: ViewCommand
  ap_stdin :: "string list"
  ap_out :: "term_out list"

definition ap_on_client :: "('s DBClient, 'a) act \<Rightarrow> ('s odb_cli, 'a) act" where
  "ap_on_client m = lift_act ap_client (\<lambda>c a. a\<lparr>ap_client := c\<rparr>) m"

definition ap_state :: "('s odb_cli, client_state) act" where
  "ap_state = gets (\<lambda>a. c_state (ap_client a))"

definition ap_look :: "('s odb_cli, bool) act" where
  "ap_look = (\<lambda>a. case ap_sigints a of
      [] \<Rightarrow> (Ret (ap_force_stop a), a)
    | b # bs \<Rightarrow> (Ret (b \<or> ap_force_stop a), a\<lparr>ap_sigints := bs, ap_force_stop := (b \<or> ap_force_stop a)\<rparr>))"

text \<open>The constructor: \<open>_setup\<close> sets the signal handler and connects.\<close>

definition cli_setup :: "'s DBClientImpl \<Rightarrow> ('s odb_cli, unit) act" where
  "cli_setup im = then_act (ap_on_client (cl_connect im)) (modify (\<lambda>a. a\<lparr>ap_state_switch := True\<rparr>))"

definition cli_state_switched :: "('s odb_cli, bool) act" where
  "cli_state_switched = bind_act (gets ap_state_switch) (\<lambda>res.
    then_act (modify (\<lambda>a. a\<lparr>ap_state_switch := False\<rparr>)) (ret res))"

text \<open>One turn of the loop of \<open>_wait_stop\<close>: whether there is another.\<close>

definition wait_turn :: "'s DBClientImpl \<Rightarrow> ('s odb_cli, bool) act" where
  "wait_turn im =
    then_act (catch_act (ap_on_client (cl_check_stopped im))
      (\<lambda>e. bind_act ap_look (\<lambda>force. if \<not> force then throw e else ret ())))
    (bind_act ap_state (\<lambda>state.
     if state \<noteq> VM_RUNNING then ret False
     else bind_act ap_look (\<lambda>force.
       if force then then_act (ap_on_client (cl_stop im)) (ret False) else ret True)))"

partial_function (option) wait_loop :: "'s DBClientImpl \<Rightarrow> 's odb_cli \<Rightarrow> (unit outcome \<times> 's odb_cli) option" where
  "wait_loop im a = (case wait_turn im a of
      (Ret again, a') \<Rightarrow> if again then wait_loop im a' else Some (Ret (), a')
    | (Throw e, a') \<Rightarrow> Some (Throw e, a')
    | (Abort c, a') \<Rightarrow> Some (Abort c, a'))"

definition cli_wait_stop :: "'s DBClientImpl \<Rightarrow> ('s odb_cli, unit) proc" where
  "cli_wait_stop im = bind_proc (proc_of (modify (\<lambda>a. a\<lparr>ap_force_stop := False\<rparr>))) (\<lambda>_. wait_loop im)"

text \<open>\<open>next\<close>, which calls itself after it has waited.\<close>

partial_function (option) cli_next :: "'s DBClientImpl \<Rightarrow> 's odb_cli \<Rightarrow> (bool outcome \<times> 's odb_cli) option" where
  "cli_next im a = (let state = c_state (ap_client a) in
    if state \<noteq> VM_STOPPED \<and> state \<noteq> VM_RUNNING then Some (Ret False, a)
    else if state = VM_RUNNING then
      Option.bind (cli_wait_stop im a) (\<lambda>(r, a'). case r of
          Ret _ \<Rightarrow> cli_next im (a'\<lparr>ap_state_switch := True\<rparr>)
        | Throw e \<Rightarrow> Some (Throw e, a')
        | Abort c \<Rightarrow> Some (Abort c, a'))
    else Some (Ret True, a))"

definition cli_exec :: "'s DBClientImpl \<Rightarrow> float_lib \<Rightarrow> string \<Rightarrow> ('s odb_cli, string) act" where
  "cli_exec im fl cmd = ap_on_client (exec im fl cmd)"

section \<open>Drawing\<close>

definition put_term :: "term_out list \<Rightarrow> ('s odb_cli, unit) act" where
  "put_term out = modify (\<lambda>a. a\<lparr>ap_out := ap_out a @ out\<rparr>)"

definition draw_hline :: "u64 \<Rightarrow> u64 \<Rightarrow> u64 \<Rightarrow> term_out list" where
  "draw_hline row0 col0 ncols =
    [Move_cur row0 col0, Text (''+'' @ replicate (unat ncols - 2) (CHR ''-'') @ ''+'')]"

definition draw_vline :: "u64 \<Rightarrow> u64 \<Rightarrow> u64 \<Rightarrow> term_out list" where
  "draw_vline row0 col0 nrows = concat (map (\<lambda>i.
    [Move_cur (row0 + of_nat i) col0, Text (if i > 0 \<and> i + 1 < unat nrows then ''|'' else ''+'')]) [0..<unat nrows])"

definition draw_box :: "u64 \<Rightarrow> u64 \<Rightarrow> u64 \<Rightarrow> u64 \<Rightarrow> term_out list" where
  "draw_box row0 col0 nrows ncols = draw_hline row0 col0 ncols @ draw_hline (row0 + nrows - 1) col0 ncols @
    draw_vline row0 col0 nrows @ draw_vline row0 (col0 + ncols - 1) nrows"

text \<open>A panel in its box.\<close>

definition boxed :: "ViewCommand \<Rightarrow> term_out list" where
  "boxed v = draw_box (vc_row0 v - 1) (vc_col0 v - 2) (vc_nrows v + 2) (vc_ncols v + 4) @ view_render v"

definition render_code :: "'s DBClientImpl \<Rightarrow> float_lib \<Rightarrow> ('s odb_cli, unit) act" where
  "render_code im fl =
    then_act (modify (\<lambda>a. a\<lparr>ap_vcode := view_clear (ap_vcode a)\<rparr>)) (
    bind_act (gets (\<lambda>a. vc_nrows (ap_vcode a) + 1)) (\<lambda>code_nb.
    bind_act (cli_exec im fl (''code '' @ dec_of_nat (unat code_nb))) (\<lambda>text.
    then_act (modify (\<lambda>a. a\<lparr>ap_vcode := view_write text (ap_vcode a)\<rparr>)) (
    bind_act (gets ap_vcode) (\<lambda>v. put_term (boxed v))))))"

definition render_vcmd :: "('s odb_cli, unit) act" where
  "render_vcmd = bind_act (gets ap_vcmd) (\<lambda>v. put_term (boxed v))"

definition render_all :: "'s DBClientImpl \<Rightarrow> float_lib \<Rightarrow> ('s odb_cli, unit) act" where
  "render_all im fl = then_act (put_term [Clear]) (then_act (render_code im fl) render_vcmd)"

section \<open>The program odb-cli\<close>

definition vcmd_write :: "string \<Rightarrow> ('s odb_cli, unit) act" where
  "vcmd_write s = modify (\<lambda>a. a\<lparr>ap_vcmd := view_write s (ap_vcmd a)\<rparr>)"

text \<open>\<open>get_input\<close>: the next line that is not empty; an empty string when standard input ends.\<close>

fun get_input_from :: "string list \<Rightarrow> ('s odb_cli, string) act" where
  "get_input_from [] = then_act (vcmd_write ''> '') (then_act render_vcmd (ret []))"
| "get_input_from (cmd # ls) = then_act (vcmd_write ''> '') (then_act render_vcmd (
     then_act (modify (\<lambda>a. a\<lparr>ap_stdin := ls\<rparr>)) (then_act (vcmd_write cmd) (then_act (vcmd_write [NL])
     (if cmd \<noteq> [] then ret cmd else get_input_from ls)))))"

definition get_input :: "('s odb_cli, string) act" where
  "get_input = bind_act (gets ap_stdin) get_input_from"

text \<open>One turn of the loop of \<open>main\<close> once the client is known to be stopped: show, read, execute.\<close>

definition main_show :: "'s DBClientImpl \<Rightarrow> float_lib \<Rightarrow> ('s odb_cli, unit) act" where
  "main_show im fl =
    bind_act cli_state_switched (\<lambda>sw.
    then_act (if sw then bind_act (cli_exec im fl ''state'') vcmd_write else ret ()) (render_all im fl))"

definition main_exec :: "'s DBClientImpl \<Rightarrow> float_lib \<Rightarrow> string \<Rightarrow> ('s odb_cli, unit) act" where
  "main_exec im fl cmd = bind_act (cli_exec im fl cmd) (\<lambda>out.
    then_act (vcmd_write out) (if out \<noteq> [] \<and> last out \<noteq> NL then vcmd_write [NL] else ret ()))"

definition main_body :: "'s DBClientImpl \<Rightarrow> float_lib \<Rightarrow> ('s odb_cli, bool) act" where
  "main_body im fl = then_act (main_show im fl) (bind_act get_input (\<lambda>cmd.
    if cmd = [] then ret False else then_act (main_exec im fl cmd) (ret True)))"

partial_function (option) main_loop :: "'s DBClientImpl \<Rightarrow> float_lib \<Rightarrow> 's odb_cli \<Rightarrow> (unit outcome \<times> 's odb_cli) option" where
  "main_loop im fl a = Option.bind (cli_next im a) (\<lambda>(r, a1). case r of
      Ret connected \<Rightarrow>
        if \<not> connected then Some (Ret (), a1)
        else (case main_body im fl a1 of
            (Ret again, a2) \<Rightarrow> if again then main_loop im fl a2 else Some (Ret (), a2)
          | (Throw e, a2) \<Rightarrow> Some (Throw e, a2)
          | (Abort c, a2) \<Rightarrow> Some (Abort c, a2))
    | Throw e \<Rightarrow> Some (Throw e, a1)
    | Abort c \<Rightarrow> Some (Abort c, a1))"

text \<open>The panels for a terminal of \<open>rows\<close> rows and \<open>cols\<close> columns, in the arithmetic of \<open>size_t\<close>.\<close>

definition make_vcmd :: "u64 \<Rightarrow> u64 \<Rightarrow> ViewCommand" where
  "make_vcmd rows cols = ViewCommand_new (rows - rows div 3 - 1) 4 (rows div 3) (cols - 2 * 3) True"

definition make_vcode :: "ViewCommand \<Rightarrow> ViewCommand" where
  "make_vcode vcmd = ViewCommand_new 2 (vc_col0 vcmd) (vc_row0 vcmd - 2 - 2) (vc_ncols vcmd) False"

definition set_panels :: "u16 \<times> u16 \<Rightarrow> ('s odb_cli, unit) act" where
  "set_panels ts = modify (\<lambda>a. let vcmd = make_vcmd (ucast (fst ts)) (ucast (snd ts)) in
    a\<lparr>ap_vcmd := vcmd, ap_vcode := make_vcode vcmd\<rparr>)"

text \<open>
  \<open>argv\<close> without the name of the program. \<open>mk\<close> makes the object behind the \<open>DBClient\<close> for a host name and
  a port; the result is the exit status.
\<close>

definition build_client :: "(string \<Rightarrow> int \<Rightarrow> 's) \<Rightarrow> string list \<Rightarrow> 's outcome" where
  "build_client mk argv =
    (let hostname = (if length argv \<ge> 1 then argv ! 0 else ''0.0.0.0'') in
     if length argv \<ge> 2 then (case atoi (argv ! 1) of None \<Rightarrow> Abort Undefined | Some port \<Rightarrow> Ret (mk hostname port))
     else Ret (mk hostname 12644))"

definition odb_cli_new :: "'s \<Rightarrow> DBClientUpdate \<Rightarrow> VMInfos \<Rightarrow> bool list \<Rightarrow> string list \<Rightarrow> 's odb_cli" where
  "odb_cli_new peer udp0 infos0 sigs inp =
    \<lparr>ap_client = DBClient_new peer udp0 infos0, ap_state_switch = False, ap_sigints = sigs, ap_force_stop = False,
     ap_vcode = ViewCommand_new 0 0 0 0 False, ap_vcmd = ViewCommand_new 0 0 0 0 True, ap_stdin = inp, ap_out = []\<rparr>"

definition odb_cli_run :: "'s DBClientImpl \<Rightarrow> float_lib \<Rightarrow> u16 \<times> u16 \<Rightarrow> ('s odb_cli, unit) proc" where
  "odb_cli_run im fl ts =
    bind_proc (proc_of (cli_setup im)) (\<lambda>_.
    bind_proc (proc_of (set_panels ts)) (\<lambda>_.
    bind_proc (proc_of (render_all im fl)) (\<lambda>_.
    bind_proc (main_loop im fl) (\<lambda>_. proc_of (put_term [Clear])))))"

definition odb_cli_main :: "'s DBClientImpl \<Rightarrow> float_lib \<Rightarrow> u16 \<times> u16 \<Rightarrow> (string \<Rightarrow> int \<Rightarrow> 's) \<Rightarrow> DBClientUpdate \<Rightarrow> VMInfos \<Rightarrow>
    bool list \<Rightarrow> string list \<Rightarrow> string list \<Rightarrow> (int outcome \<times> 's odb_cli option) option" where
  "odb_cli_main im fl ts mk udp0 infos0 sigs argv inp =
    (if length argv > 2 then Some (Ret 1, None)
     else case build_client mk argv of
        Ret peer \<Rightarrow> map_option (\<lambda>(r, a). (case r of Ret _ \<Rightarrow> Ret 0 | Throw e \<Rightarrow> Abort Terminated | Abort c \<Rightarrow> Abort c, Some a))
          (odb_cli_run im fl ts (odb_cli_new peer udp0 infos0 sigs inp))
      | Throw e \<Rightarrow> Some (Abort Terminated, None)
      | Abort c \<Rightarrow> Some (Abort c, None))"

section \<open>The program odb-client-simple-cli\<close>

record 's simple_app =
  sp_client :: "'s DBClient"
  sp_stdin :: "string list"
  sp_stdout :: string
  sp_tty :: bool

definition sp_on_client :: "('s DBClient, 'a) act \<Rightarrow> ('s simple_app, 'a) act" where
  "sp_on_client m = lift_act sp_client (\<lambda>c a. a\<lparr>sp_client := c\<rparr>) m"

definition sp_put :: "string \<Rightarrow> ('s simple_app, unit) act" where
  "sp_put s = modify (\<lambda>a. a\<lparr>sp_stdout := sp_stdout a @ s\<rparr>)"

partial_function (option) simple_wait_stop :: "'s DBClientImpl \<Rightarrow> 's simple_app \<Rightarrow> (unit outcome \<times> 's simple_app) option" where
  "simple_wait_stop im a = (case sp_on_client (cl_check_stopped im) a of
      (Ret _, a') \<Rightarrow> if c_state (sp_client a') \<noteq> VM_RUNNING then Some (Ret (), a') else simple_wait_stop im a'
    | (Throw e, a') \<Rightarrow> Some (Throw e, a')
    | (Abort c, a') \<Rightarrow> Some (Abort c, a'))"

text \<open>\<open>std::getline\<close> on a closed input leaves the string empty.\<close>

definition sp_getline :: "('s simple_app, string) act" where
  "sp_getline = bind_act (gets sp_stdin) (\<lambda>ls. case ls of
      [] \<Rightarrow> ret []
    | l # ls' \<Rightarrow> then_act (modify (\<lambda>a. a\<lparr>sp_stdin := ls'\<rparr>)) (ret l))"

definition simple_body :: "'s DBClientImpl \<Rightarrow> float_lib \<Rightarrow> bool \<Rightarrow> ('s simple_app, bool) act" where
  "simple_body im fl print_state =
    then_act (if print_state then bind_act (sp_on_client (exec im fl ''state'')) sp_put else ret ()) (
    bind_act (gets sp_tty) (\<lambda>is_tty.
    then_act (if is_tty then sp_put ''> '' else ret ()) (
    bind_act sp_getline (\<lambda>cmd.
    if cmd = [] then ret False
    else bind_act (sp_on_client (exec im fl cmd)) (\<lambda>out.
      then_act (sp_put (if out \<noteq> [] \<and> last out \<noteq> NL then out @ [NL] else out)) (ret True))))))"

partial_function (option) simple_loop :: "'s DBClientImpl \<Rightarrow> float_lib \<Rightarrow> bool \<Rightarrow> 's simple_app \<Rightarrow> (unit outcome \<times> 's simple_app) option" where
  "simple_loop im fl print_state a = (let state = c_state (sp_client a) in
    if state \<noteq> VM_STOPPED \<and> state \<noteq> VM_RUNNING then Some (Ret (), a)
    else Option.bind (if state = VM_RUNNING then simple_wait_stop im a else Some (Ret (), a)) (\<lambda>(r, a1). case r of
        Ret _ \<Rightarrow> (case simple_body im fl (state = VM_RUNNING \<or> print_state) a1 of
            (Ret again, a2) \<Rightarrow> if again then simple_loop im fl False a2 else Some (Ret (), a2)
          | (Throw e, a2) \<Rightarrow> Some (Throw e, a2)
          | (Abort c, a2) \<Rightarrow> Some (Abort c, a2))
      | Throw e \<Rightarrow> Some (Throw e, a1)
      | Abort c \<Rightarrow> Some (Abort c, a1)))"

definition simple_run :: "'s DBClientImpl \<Rightarrow> float_lib \<Rightarrow> ('s simple_app, unit) proc" where
  "simple_run im fl = bind_proc (proc_of (sp_on_client (cl_connect im))) (\<lambda>_. simple_loop im fl True)"

definition simple_cli_main :: "'s DBClientImpl \<Rightarrow> float_lib \<Rightarrow> bool \<Rightarrow> (string \<Rightarrow> int \<Rightarrow> 's) \<Rightarrow> DBClientUpdate \<Rightarrow> VMInfos \<Rightarrow>
    string list \<Rightarrow> string list \<Rightarrow> (int outcome \<times> 's simple_app option) option" where
  "simple_cli_main im fl tty mk udp0 infos0 argv inp =
    (if length argv < 2 then Some (Ret 1, None)
     else case atoi (argv ! 1) of
        None \<Rightarrow> Some (Abort Undefined, None)
      | Some port \<Rightarrow> map_option (\<lambda>(r, a). (case r of Ret _ \<Rightarrow> Ret 0 | Throw e \<Rightarrow> Abort Terminated | Abort c \<Rightarrow> Abort c, Some a))
          (simple_run im fl \<lparr>sp_client = DBClient_new (mk (argv ! 0) port) udp0 infos0, sp_stdin = inp,
            sp_stdout = [], sp_tty = tty\<rparr>))"

declare wait_loop.simps [code] cli_next.simps [code] main_loop.simps [code] simple_wait_stop.simps [code] simple_loop.simps [code]

end
