(* ===== verification/Odb_Cli_Props.thy ===== *)
theory Odb_Cli_Props
  imports Odb_Cli Simple_Cli_Props Server_App_Props
begin

text \<open>
  Termination of the client applications: they use up their input and return, as long as the debugged
  program does not run for ever. The polls of a waiting client are bounded by a measure on what is
  behind the connection.
\<close>

section \<open>Polling\<close>

text \<open>The measure gets smaller with each poll that finds the program running.\<close>

definition polls_end :: "'s DBClientImpl \<Rightarrow> ('s \<Rightarrow> nat) \<Rightarrow> bool" where
  "polls_end im \<mu> \<longleftrightarrow> (\<forall>udp p u p'. im_check_stopped im udp p = (Ret u, p') \<longrightarrow> \<not> up_stopped u \<longrightarrow> \<mu> p' < \<mu> p)"

lemma check_stopped_progress:
  assumes "polls_end im \<mu>" "cl_check_stopped im c = (Ret (), c')" "c_state c' = VM_RUNNING"
  shows "\<mu> (c_peer c') < \<mu> (c_peer c)"
proof -
  obtain u p where p: "im_check_stopped im (c_udp c) (c_peer c) = (Ret u, p)"
    and c': "(if up_stopped u then then_act (modify (\<lambda>c. c\<lparr>c_state := VM_STOPPED\<rparr>)) discard_tmp_cache
      else modify (\<lambda>c. c\<lparr>c_state := VM_RUNNING\<rparr>)) (c\<lparr>c_peer := p, c_udp := u\<rparr>) = (Ret (), c')"
    using assms(2) unfolding cl_check_stopped_def cl_update_def by (auto simp: client_Ret)
  then have "\<not> up_stopped u" "c_peer c' = p" using assms(3) by (auto simp: discard_tmp_cache_def split: if_splits)
  then show ?thesis using assms(1) p by (auto simp: polls_end_def)
qed

lemma ap_look_client: "ap_look a = (r, a') \<Longrightarrow> ap_client a' = ap_client a"
  by (auto simp: ap_look_def split: list.splits)

lemma ap_look_Ret: "\<exists>b a'. ap_look a = (Ret b, a') \<and> ap_force_stop a' = b \<and> (ap_force_stop a \<longrightarrow> b)"
  by (cases "ap_sigints a") (simp_all add: ap_look_def)

lemma cl_stop_Ret: "cl_stop im c = (Ret (), c') \<Longrightarrow> c_state c' = VM_STOPPED"
  unfolding cl_stop_def cl_update_def
  by (auto simp: client_Ret split: if_splits)

text \<open>A turn of the wait, in the cases of the poll.\<close>

lemma wait_turn_Ret:
  assumes "wait_turn im a = (Ret again, a')"
  shows "again \<Longrightarrow> \<exists>c. cl_check_stopped im (ap_client a) = (Ret (), c) \<and> c_state c = VM_RUNNING \<and> ap_client a' = c"
    and "\<not> again \<Longrightarrow> c_state (ap_client a') \<noteq> VM_RUNNING"
proof -
  obtain r c where c: "cl_check_stopped im (ap_client a) = (r, c)" by force
  let ?a = "a\<lparr>ap_client := c\<rparr>"
  obtain b a1 where look: "ap_look ?a = (Ret b, a1)" "ap_force_stop a1 = b" using ap_look_Ret by blast
  obtain b2 a2 where look2: "ap_look a1 = (Ret b2, a2)" "b \<longrightarrow> b2" using ap_look_Ret [of a1] look(2) by auto
  note run = assms [unfolded wait_turn_def ap_on_client_def ap_state_def]
  have "(again \<longrightarrow> r = Ret () \<and> c_state c = VM_RUNNING \<and> ap_client a' = c) \<and> (\<not> again \<longrightarrow> c_state (ap_client a') \<noteq> VM_RUNNING)"
    using run c look look2 ap_look_client [OF look(1)]
    by (cases r) (auto simp: lift_act_def catch_act_def then_act_def bind_act_def dest: cl_stop_Ret
        split: if_splits prod.splits outcome.splits)
  with c show "again \<Longrightarrow> \<exists>c. cl_check_stopped im (ap_client a) = (Ret (), c) \<and> c_state c = VM_RUNNING \<and> ap_client a' = c"
    "\<not> again \<Longrightarrow> c_state (ap_client a') \<noteq> VM_RUNNING" by auto
qed


lemma wait_loop_ends:
  assumes "polls_end im \<mu>"
  shows "\<exists>r. wait_loop im a = Some r"
proof (induction "\<mu> (c_peer (ap_client a))" arbitrary: a rule: less_induct)
  case less
  obtain r a' where r: "wait_turn im a = (r, a')" by force
  show ?case
  proof (cases r)
    case (Ret again)
    show ?thesis
    proof (cases again)
      case True
      then have "\<mu> (c_peer (ap_client a')) < \<mu> (c_peer (ap_client a))"
        using wait_turn_Ret(1) [of im a again a'] check_stopped_progress [OF assms] r Ret by auto
      from less [OF this] show ?thesis using r Ret True by (simp add: wait_loop.simps [of im a])
    qed (use r Ret in \<open>simp add: wait_loop.simps [of im a]\<close>)
  qed (use r in \<open>simp_all add: wait_loop.simps [of im a]\<close>)
qed

lemma keeps_wait_turn: "keeps (\<lambda>a. ap_stdin a = inp) (wait_turn im)"
proof -
  have "keeps (\<lambda>a. ap_stdin a = inp) ap_look"
    by (rule keepsI) (auto simp: ap_look_def split: list.splits)
  moreover have "keeps (\<lambda>a. ap_stdin a = inp) (ap_on_client m)" for m :: "('a DBClient, 'b) act"
    by (rule keepsI) (auto simp: ap_on_client_def lift_act_def split: prod.splits)
  ultimately show ?thesis unfolding wait_turn_def ap_state_def by (intro keeps_rules)
qed

lemma wait_loop_Some:
  assumes "wait_loop im a = Some (r, a')"
  shows "ap_stdin a' = ap_stdin a \<and> (r = Ret () \<longrightarrow> c_state (ap_client a') \<noteq> VM_RUNNING)"
proof -
  let ?P = "\<lambda>im a q. ap_stdin (snd q) = ap_stdin a \<and> (fst q = Ret () \<longrightarrow> c_state (ap_client (snd q)) \<noteq> VM_RUNNING)"
  have "?P im a (r, a')"
  proof (rule wait_loop.raw_induct [where P = ?P, OF _ assms])
    fix f im a q
    assume rec: "\<And>im a q. f im a = Some q \<Longrightarrow> ?P im a q"
      and step: "(case wait_turn im a of (Ret again, a') \<Rightarrow> if again then f im a' else Some (Ret (), a')
        | (Throw e, a') \<Rightarrow> Some (Throw e, a') | (Abort c, a') \<Rightarrow> Some (Abort c, a')) = Some q"
    obtain t b where t: "wait_turn im a = (t, b)" by force
    then have b: "ap_stdin b = ap_stdin a" using keepsD [OF keeps_wait_turn] by blast
    show "?P im a q"
    proof (cases t)
      case (Ret again)
      then show ?thesis using step t b rec [of im b q] wait_turn_Ret(2) [of im a again b] by (cases again) auto
    qed (use step t b in auto)
  qed
  then show ?thesis by simp
qed

text \<open>\<open>next\<close> returns, and tells whether the client is stopped and may run commands.\<close>

lemma cli_next_ends:
  assumes "polls_end im \<mu>"
  shows "\<exists>r a'. cli_next im a = Some (r, a') \<and> ap_stdin a' = ap_stdin a \<and>
    (\<forall>b. r = Ret b \<longrightarrow> (b \<longleftrightarrow> c_state (ap_client a') = VM_STOPPED))"
proof -
  have idle: "\<exists>b. cli_next im a = Some (Ret b, a) \<and> (b \<longleftrightarrow> c_state (ap_client a) = VM_STOPPED)"
    if "c_state (ap_client a) \<noteq> VM_RUNNING" for a
    using that by (simp add: cli_next.simps [of im a] Let_def)
  show ?thesis
  proof (cases "c_state (ap_client a) = VM_RUNNING")
    case True
    obtain r a1 where w: "cli_wait_stop im a = Some (r, a1)"
      using wait_loop_ends [OF assms, of "a\<lparr>ap_force_stop := False\<rparr>"] by (auto simp: cli_wait_stop_def bind_proc_def proc_of_def)
    then have w': "wait_loop im (a\<lparr>ap_force_stop := False\<rparr>) = Some (r, a1)"
      by (simp add: cli_wait_stop_def bind_proc_def proc_of_def)
    have a1: "ap_stdin a1 = ap_stdin a" "r = Ret () \<longrightarrow> c_state (ap_client a1) \<noteq> VM_RUNNING"
      using wait_loop_Some [OF w'] by auto
    show ?thesis
    proof (cases r)
      case (Ret u)
      then show ?thesis
        using True w a1 idle [of "a1\<lparr>ap_state_switch := True\<rparr>"] by (auto simp: cli_next.simps [of im a])
    qed (use True w a1 in \<open>auto simp: cli_next.simps [of im a]\<close>)
  qed (use idle [of a] in auto)
qed


section \<open>The loops of the programs\<close>

text \<open>Each turn of the main loop that is not the last reads a line.\<close>

lemma keeps_ap:
  "keeps (\<lambda>a. ap_stdin a = inp) (ap_on_client m)" "keeps (\<lambda>a. ap_stdin a = inp) (vcmd_write s)"
  "keeps (\<lambda>a. ap_stdin a = inp) (put_term out)" "keeps (\<lambda>a. ap_stdin a = inp) cli_state_switched"
  "keeps (\<lambda>a. ap_stdin a = inp) (modify (\<lambda>a. a\<lparr>ap_vcode := g a\<rparr>))"
proof -
  show "keeps (\<lambda>a. ap_stdin a = inp) (ap_on_client m)"
    by (rule keepsI) (auto simp: ap_on_client_def lift_act_def split: prod.splits)
qed (auto simp: vcmd_write_def put_term_def cli_state_switched_def intro!: keeps_rules keeps_modify)

lemma keeps_render_all: "keeps (\<lambda>a. ap_stdin a = inp) (render_all im fl)"
  unfolding render_all_def render_code_def render_vcmd_def cli_exec_def by (intro keeps_rules keeps_ap)

lemma get_input_Ret:
  "get_input_from (ap_stdin a) a = (Ret cmd, a') \<Longrightarrow> cmd \<noteq> [] \<Longrightarrow> length (ap_stdin a') < length (ap_stdin a)"
proof (induction "ap_stdin a" arbitrary: a)
  case (Cons l ls)
  let ?a = "a\<lparr>ap_out := ap_out a @ boxed (view_write ''> '' (ap_vcmd a)), ap_stdin := ls,
    ap_vcmd := view_write [NL] (view_write l (view_write ''> '' (ap_vcmd a)))\<rparr>"
  have "(if l \<noteq> [] then ret l else get_input_from ls) ?a = (Ret cmd, a')"
    using Cons.prems(1) Cons.hyps(2) [symmetric] by (simp add: vcmd_write_def render_vcmd_def put_term_def then_act_def bind_act_def)
  then show ?case using Cons.hyps(1) [of ?a] Cons.hyps(2) [symmetric] Cons.prems(2) by (auto split: if_splits)
next
  case Nil
  then show ?case
    using Nil.hyps [symmetric] by (simp add: vcmd_write_def render_vcmd_def put_term_def then_act_def bind_act_def)
qed

lemma main_body_reads:
  assumes "main_body im fl a = (Ret True, a')"
  shows "length (ap_stdin a') < length (ap_stdin a)"
proof -
  obtain a1 cmd a2 where run: "main_show im fl a = (Ret (), a1)" "get_input a1 = (Ret cmd, a2)" "cmd \<noteq> []"
    "main_exec im fl cmd a2 = (Ret (), a')"
    using assms unfolding main_body_def by (auto simp: bind_act_eq_Ret then_act_eq_Ret split: if_splits)
  have "keeps (\<lambda>x. ap_stdin x = ap_stdin a) (main_show im fl)"
    unfolding main_show_def cli_exec_def by (intro keeps_rules keeps_ap keeps_render_all)
  then have "ap_stdin a1 = ap_stdin a" using run(1) by (auto dest: keepsD)
  moreover have "length (ap_stdin a2) < length (ap_stdin a1)"
    using get_input_Ret [of a1 cmd a2] run(2,3) by (simp add: get_input_def)
  moreover have "keeps (\<lambda>x. ap_stdin x = ap_stdin a2) (main_exec im fl cmd)"
    unfolding main_exec_def cli_exec_def by (intro keeps_rules keeps_ap)
  then have "ap_stdin a' = ap_stdin a2" using run(4) by (auto dest: keepsD)
  ultimately show ?thesis by simp
qed

lemma main_loop_ends:
  assumes "polls_end im \<mu>"
  shows "\<exists>r. main_loop im fl a = Some r"
proof (induction "length (ap_stdin a)" arbitrary: a rule: less_induct)
  case less
  obtain r a1 where a1: "cli_next im a = Some (r, a1)" "ap_stdin a1 = ap_stdin a" using cli_next_ends [OF assms] by metis
  obtain q a2 where a2: "main_body im fl a1 = (q, a2)" by force
  have "\<exists>r. main_loop im fl a2 = Some r" if "q = Ret True"
    using less [of a2] main_body_reads [of im fl a1 a2] a1 a2 that by simp
  then show ?case using a1 a2 by (cases r; cases q) (auto simp: main_loop.simps [of im fl a])
qed


lemma simple_wait_ends:
  assumes "polls_end im \<mu>"
  shows "\<exists>r a'. simple_wait_stop im a = Some (r, a') \<and> sp_stdin a' = sp_stdin a"
proof (induction "\<mu> (c_peer (sp_client a))" arbitrary: a rule: less_induct)
  case less
  obtain r c where c: "cl_check_stopped im (sp_client a) = (r, c)" by force
  let ?a = "a\<lparr>sp_client := c\<rparr>"
  have call: "sp_on_client (cl_check_stopped im) a = (r, ?a)" using c by (simp add: sp_on_client_def lift_act_def)
  show ?case
  proof (cases "r = Ret () \<and> c_state c = VM_RUNNING")
    case True
    then have "\<mu> (c_peer (sp_client ?a)) < \<mu> (c_peer (sp_client a))"
      using check_stopped_progress [OF assms, of "sp_client a" c] c by simp
    from less [OF this] show ?thesis using call True by (simp add: simple_wait_stop.simps [of im a])
  next
    case False
    then show ?thesis using call by (cases r) (auto simp: simple_wait_stop.simps [of im a])
  qed
qed

lemma simple_body_reads:
  assumes "simple_body im fl ps a = (Ret True, a')"
  shows "length (sp_stdin a') < length (sp_stdin a)"
proof -
  have keep: "sp_stdin y = sp_stdin x" if "sp_on_client m x = (r, y)" for m x r y
    using that by (auto simp: sp_on_client_def lift_act_def split: prod.splits)
  show ?thesis
    using assms unfolding simple_body_def
    by (auto simp: bind_act_eq_Ret then_act_eq_Ret sp_put_def sp_getline_def split: if_splits list.splits dest!: keep)
qed

lemma simple_loop_ends:
  assumes "polls_end im \<mu>"
  shows "\<exists>r. simple_loop im fl ps a = Some r"
proof (induction "length (sp_stdin a)" arbitrary: ps a rule: less_induct)
  case less
  let ?st = "c_state (sp_client a)"
  obtain r a1 where a1: "(if ?st = VM_RUNNING then simple_wait_stop im a else Some (Ret (), a)) = Some (r, a1)"
    "sp_stdin a1 = sp_stdin a"
    using simple_wait_ends [OF assms, of a] by (cases "?st = VM_RUNNING") auto
  obtain q a2 where a2: "simple_body im fl (?st = VM_RUNNING \<or> ps) a1 = (q, a2)" by force
  have "\<exists>r. simple_loop im fl False a2 = Some r" if "q = Ret True"
    using less [of a2 False] simple_body_reads [of im fl _ a1 a2] a1 a2 that by auto
  then show ?case using a1 a2 by (cases r; cases q) (auto simp: simple_loop.simps [of im fl ps a] Let_def)
qed

section \<open>Properties\<close>

text \<open>
  C37. Both client programs return, for every command line, input and sequence of interrupts, over every
  connection where the debugged program does not run for ever (each poll that finds it running
  lowers some measure): neither the wait for the program to stop nor the command loop hangs.
\<close>

theorem client_programs_return:
  assumes "polls_end im \<mu>"
  shows "(\<exists>r. odb_cli_main im fl ts mk udp0 infos0 sigs argv inp = Some r) \<and>
    (\<exists>r. simple_cli_main im fl tty mk udp0 infos0 argv inp = Some r)"
proof
  have ends: "\<exists>r. bind_proc (proc_of m) k a = Some r" if "\<And>x a. \<exists>r. k x a = Some r"
    for m :: "('x, 'y) act" and k :: "'y \<Rightarrow> ('x, 'z) proc" and a
    using that by (cases "m a") (auto simp: bind_proc_def proc_of_def split: outcome.splits)
  have main: "\<exists>r. bind_proc (main_loop im fl) (\<lambda>_. proc_of (put_term [Clear])) a = Some r" for a
    using main_loop_ends [OF assms, of fl a] by (auto simp: bind_proc_def proc_of_def split: outcome.splits)
  have "\<exists>r. odb_cli_run im fl ts a = Some r" for a
    unfolding odb_cli_run_def by (intro ends main)
  then show "\<exists>r. odb_cli_main im fl ts mk udp0 infos0 sigs argv inp = Some r"
    by (auto simp: odb_cli_main_def split: outcome.splits)
  have "\<exists>r. simple_run im fl a = Some r" for a
    unfolding simple_run_def by (intro ends simple_loop_ends [OF assms])
  then show "\<exists>r. simple_cli_main im fl tty mk udp0 infos0 argv inp = Some r"
    by (auto simp: simple_cli_main_def split: option.splits)
qed


text \<open>A program that executes one instruction of a script before each poll.\<close>

definition script_poll :: "DBClientUpdate \<Rightarrow> (UpdateInfos list Debugger, DBClientUpdate) act" where
  "script_poll udp = (\<lambda>d. if is_running d then then_act (on_update script_vm) (vms_check_stopped udp) d
    else vms_check_stopped udp d)"

definition script_impl :: "UpdateInfos list Debugger DBClientImpl" where
  "script_impl = (vmside_impl script_vm)\<lparr>im_check_stopped := script_poll\<rparr>"

lemma script_polls_end: "polls_end script_impl (\<lambda>d. length (d_vm d))"
proof -
  have vm: "d_vm d' = tl (d_vm d) \<and> d_vm d \<noteq> []" if "on_update script_vm d = (Ret (), d')" for d d'
    using that by (auto simp: on_update_def script_vm_def vm_call_def lift_act_def track_call_stack_def check_stop_def
        set_state_def bind_act_eq_Ret then_act_eq_Ret split: list.splits if_splits)
  show ?thesis
    unfolding polls_end_def script_impl_def script_poll_def
    by (auto simp: vms_check_stopped_def then_act_eq_Ret split: if_splits dest!: vm)
qed

theorem client_programs_return_witness:
  "\<exists>r. odb_cli_main script_impl no_floats (24, 80) (\<lambda>host port. script_debugger\<lparr>d_vm := call_return\<rparr>) sample_update script_infos
    [] [''0.0.0.0''] [''c'', ''s''] = Some r"
  using client_programs_return [OF script_polls_end] by blast

end
