(* ===== verification/Message.thy ===== *)
theory Message
  imports Serial
begin

text \<open>
  The class \<open>Message\<close> of \<open>include/odb/mess/message.hh\<close>: a buffer that grows by doubling and holds a message
  behind a packed header of a type byte and a 16-bit size. No other file of the repository uses it.
  The members \<open>_alloc_buff\<close> and \<open>_local_buff\<close> only tell who owns the bytes of \<open>_buff\<close>. The bytes of new memory
  are a parameter.
\<close>

record Message =
  m_buff :: bytes
  m_size :: u64
  m_cap :: u64

definition DEFAULT_ALLOC :: u64 where "DEFAULT_ALLOC = 1"
definition HEADER_SIZE :: u64 where "HEADER_SIZE = 3"

definition Message_new :: "u8 \<Rightarrow> Message" where
  "Message_new g = \<lparr>m_buff = replicate (unat DEFAULT_ALLOC) g, m_size = 0, m_cap = DEFAULT_ALLOC\<rparr>"

text \<open>\<open>while (new_cap <= new_size) new_cap *= 2\<close>, which does not end once the product wraps to 0.\<close>

partial_function (option) grow_cap :: "u64 \<Rightarrow> u64 \<Rightarrow> u64 option" where
  "grow_cap new_cap new_size = (if new_cap \<le> new_size then grow_cap (new_cap * 2) new_size else Some new_cap)"

declare grow_cap.simps [code]

definition msg_resize :: "u8 \<Rightarrow> u64 \<Rightarrow> (Message, unit) act" where
  "msg_resize g new_size = (\<lambda>m. case grow_cap (m_cap m) new_size of
      None \<Rightarrow> (Abort Hangs, m)
    | Some new_cap \<Rightarrow>
        (Ret (), (if new_cap > m_cap m
          then m\<lparr>m_buff := take (unat (m_size m)) (m_buff m) @ replicate (unat new_cap - unat (m_size m)) g, m_cap := new_cap\<rparr>
          else m)\<lparr>m_size := new_size\<rparr>))"

definition msg_empty :: "(Message, bool) act" where
  "msg_empty = gets (\<lambda>m. m_size m = 0)"

definition assert_empty :: "bool \<Rightarrow> (Message, unit) act" where
  "assert_empty b = bind_act msg_empty (\<lambda>e. assert_act (e = b))"

text \<open>Access to the bytes from an offset of \<open>_buff\<close>.\<close>

definition msg_load :: "nat \<Rightarrow> nat \<Rightarrow> (Message, bytes) act" where
  "msg_load off n = bind_act (gets m_buff) (\<lambda>b.
    then_act (in_bounds (off + n \<le> length b)) (ret (take n (drop off b))))"

definition msg_store :: "nat \<Rightarrow> bytes \<Rightarrow> (Message, unit) act" where
  "msg_store off bs = bind_act (gets m_buff) (\<lambda>b.
    then_act (in_bounds (off + length bs \<le> length b))
      (modify (\<lambda>m. m\<lparr>m_buff := take off b @ bs @ drop (off + length bs) b\<rparr>)))"

definition msg_data :: "(Message, bytes) act" where
  "msg_data = then_act (assert_empty False) (bind_act (gets m_size) (\<lambda>n. msg_load 0 (unat n)))"

definition msg_data_size :: "(Message, u64) act" where
  "msg_data_size = then_act (assert_empty False) (gets m_size)"

text \<open>\<open>_get_header_uncheck\<close>: the type and the size.\<close>

definition msg_header :: "(Message, u8 \<times> u16) act" where
  "msg_header = then_act (assert_empty False) (bind_act (msg_load 0 3) (\<lambda>h.
    ret (hd h, of_le_bytes (tl h))))"

definition msg_reset :: "u8 \<Rightarrow> (Message, unit) act" where
  "msg_reset g = msg_resize g 0"

definition msg_get_type :: "(Message, u16) act" where
  "msg_get_type = then_act (assert_empty False) (bind_act msg_header (\<lambda>(t, n). ret (ucast t)))"

text \<open>The callers of \<open>alloc_header\<close> and \<open>alloc_generic\<close> store the received bytes through the pointer.\<close>

definition msg_alloc_header :: "u8 \<Rightarrow> (Message, unit) act" where
  "msg_alloc_header g = then_act (assert_empty True) (msg_resize g HEADER_SIZE)"

definition msg_alloc_generic :: "u8 \<Rightarrow> (Message, u64) act" where
  "msg_alloc_generic g = bind_act msg_header (\<lambda>(t, n).
    then_act (msg_resize g (HEADER_SIZE + ucast n)) (ret (ucast n)))"

text \<open>\<open>alloc_as<T>(extra)\<close> for a type of size \<open>sz\<close> with \<open>MESSAGE_TYPEID\<close> \<open>tid\<close>, and \<open>get_as<T>\<close>, which gives its bytes.\<close>

definition msg_alloc_as :: "u8 \<Rightarrow> u8 \<Rightarrow> u64 \<Rightarrow> u64 \<Rightarrow> (Message, unit) act" where
  "msg_alloc_as g tid sz extra =
    then_act (assert_empty True) (
    then_act (msg_resize g (HEADER_SIZE + sz + extra)) (
    then_act (assert_empty False)
      (msg_store 0 (tid # sb_serial_raw (ucast (sz + extra) :: u16)))))"

definition msg_get_as :: "u8 \<Rightarrow> nat \<Rightarrow> (Message, bytes) act" where
  "msg_get_as tid sz = bind_act msg_get_type (\<lambda>t. then_act (assert_act (t = ucast tid)) (
    then_act (assert_empty False) (msg_load 3 sz)))"

section \<open>The buffer\<close>

definition msg_ok :: "Message \<Rightarrow> bool" where
  "msg_ok m \<longleftrightarrow> length (m_buff m) = unat (m_cap m) \<and> m_size m < m_cap m \<and> (\<exists>k < 64. m_cap m = 2 ^ k)"

lemma unat_two_power: "k < 64 \<Longrightarrow> unat (2 ^ k :: u64) = 2 ^ k"
proof -
  assume "k < 64"
  then have "(2 :: nat) ^ k < 2 ^ LENGTH(64)" by (intro power_strict_increasing) auto
  then show ?thesis using unat_of_nat_id [of "2 ^ k", where 'a = 64] by simp
qed

text \<open>The capacity grows to a power of two above the size, as long as that fits in \<open>size_t\<close>.\<close>

lemma grow_cap_ends:
  assumes "n < 2 ^ 63" "c = 2 ^ k" "k < 64"
  shows "\<exists>j. grow_cap c n = Some (2 ^ j) \<and> j < 64 \<and> n < 2 ^ j \<and> k \<le> j"
  using assms(2,3)
proof (induction "63 - k" arbitrary: c k)
  case 0
  then have "k = 63" by simp
  then have "c = 2 ^ 63" using 0 by simp
  moreover have "grow_cap (2 ^ 63) n = Some (2 ^ 63)"
    by (subst grow_cap.simps) (rule if_not_P, rule not_le [THEN iffD2, OF assms(1)])
  ultimately show ?case using assms(1) 0 by (intro exI [of _ 63]) simp
next
  case (Suc d)
  then have "d = 63 - Suc k" "c * 2 = 2 ^ Suc k" "Suc k < 64" by auto
  from Suc.hyps(1) [OF this]
  obtain j where j: "grow_cap (c * 2) n = Some (2 ^ j)" "j < 64" "n < 2 ^ j" "Suc k \<le> j" by blast
  have step: "grow_cap c n = (if c \<le> n then grow_cap (c * 2) n else Some c)" by (rule grow_cap.simps)
  show ?case
  proof (cases "c \<le> n")
    case True
    then show ?thesis using step j by (intro exI [of _ j]) simp
  next
    case False
    then show ?thesis using step Suc.prems not_le [of c n] by (intro exI [of _ k]) simp
  qed
qed

lemma grow_cap_hangs:
  assumes "2 ^ 63 \<le> n"
  shows "grow_cap 1 n = None"
proof (rule ccontr)
  let ?P = "\<lambda>(c :: u64) (m :: u64) (r :: u64). \<not> (m = n \<and> (c = 0 \<or> (\<exists>k < 64. c = 2 ^ k)))"
  assume "grow_cap 1 n \<noteq> None"
  then obtain r where r: "grow_cap 1 n = Some r" by blast
  have "?P 1 n r"
  proof (rule grow_cap.raw_induct [where P = ?P, OF _ r])
    fix f c m r
    assume rec: "\<And>c m r. f c m = Some r \<Longrightarrow> ?P c m r"
      and step: "(if c \<le> m then f (c * 2) m else Some c) = Some r"
    show "?P c m r"
    proof
      assume c: "m = n \<and> (c = 0 \<or> (\<exists>k < 64. c = 2 ^ k))"
      then have le: "c \<le> m"
      proof (elim conjE disjE exE)
        fix k
        assume k: "m = n" "c = 2 ^ k" "k < 64"
        have "unat (2 ^ k :: u64) \<le> unat (2 ^ 63 :: u64)" 
          using k(3) power_increasing [of k 63 "2 :: nat"] by (simp add: unat_two_power)
        then show "c \<le> m" using k assms by (simp add: word_le_nat_alt)
      qed simp
      have "c * 2 = 0 \<or> (\<exists>k < 64. c * 2 = 2 ^ k)"
      proof (cases "c = 0")
        case False
        then obtain k where k: "k < 64" "c = 2 ^ k" using c by blast
        show ?thesis
        proof (cases "k = 63")
          case False
          then show ?thesis using k by (intro disjI2 exI [of _ "Suc k"]) auto
        qed (simp add: k)
      qed simp
      then show False using rec [of "c * 2" m r] step le c by simp
    qed
  qed
  then show False by (simp add: exI [of _ "0 :: nat"])
qed


text \<open>Resizing keeps the buffer well formed and its first bytes.\<close>

lemma msg_resize_run:
  assumes "msg_ok m" "n < 2 ^ 63"
  shows "\<exists>m'. msg_resize g n m = (Ret (), m') \<and> msg_ok m' \<and> m_size m' = n \<and>
    take (unat (m_size m)) (m_buff m') = take (unat (m_size m)) (m_buff m)"
proof -
  obtain k where k: "m_cap m = 2 ^ k" "k < 64" "m_size m < m_cap m" "length (m_buff m) = unat (m_cap m)"
    using assms(1) by (auto simp: msg_ok_def)
  obtain j where j: "grow_cap (m_cap m) n = Some (2 ^ j)" "j < 64" "n < 2 ^ j" "k \<le> j"
    using grow_cap_ends [OF assms(2) k(1,2)] by blast
  have size: "unat (m_size m) < unat (m_cap m)" using k(3) by (simp add: word_less_nat_alt)
  show ?thesis
  proof (cases "m_cap m < 2 ^ j")
    case True
    then have "unat (m_cap m) < unat (2 ^ j :: u64)" by (simp add: word_less_nat_alt)
    then show ?thesis using True j k size by (auto simp: msg_resize_def msg_ok_def)
  next
    case False
    moreover have "m_cap m \<le> 2 ^ j" using k(1) j(2,4) by (simp add: word_le_nat_alt unat_two_power)
    ultimately have "m_cap m = 2 ^ j" by simp
    then show ?thesis using j k False by (auto simp: msg_resize_def msg_ok_def)
  qed
qed

lemma msg_new_ok: "msg_ok (Message_new g)"
  by (auto simp: msg_ok_def Message_new_def DEFAULT_ALLOC_def intro!: exI [of _ 0])

section \<open>Sending and receiving\<close>

text \<open>How the comments of the class say a message is written and read.\<close>

definition msg_send :: "u8 \<Rightarrow> u8 \<Rightarrow> bytes \<Rightarrow> (Message, bytes) act" where
  "msg_send g tid payload = then_act (msg_alloc_as g tid (of_nat (length payload)) 0)
    (then_act (msg_store 3 payload) msg_data)"

definition msg_receive :: "u8 \<Rightarrow> bytes \<Rightarrow> (Message, u64) act" where
  "msg_receive g wire = then_act (msg_alloc_header g) (then_act (msg_store 0 (take 3 wire))
    (bind_act (msg_alloc_generic g) (\<lambda>n. then_act (msg_store 3 (take (unat n) (drop 3 wire))) (ret n))))"

lemma msg_store_run:
  assumes "msg_ok m" "off + length bs \<le> unat (m_cap m)"
  shows "msg_store off bs m = (Ret (), m\<lparr>m_buff := take off (m_buff m) @ bs @ drop (off + length bs) (m_buff m)\<rparr>)"
    and "msg_ok (m\<lparr>m_buff := take off (m_buff m) @ bs @ drop (off + length bs) (m_buff m)\<rparr>)"
  using assms by (auto simp: msg_store_def msg_ok_def)

lemma header_size_of:
  assumes "length payload < 2 ^ 16"
  shows "ucast (of_nat (length payload) :: u64) = (of_nat (length payload) :: u16)"
    and "(ucast (of_nat (length payload) :: u16) :: u64) = of_nat (length payload)"
    and "unat (of_nat (length payload) :: u64) = length payload"
    and "unat (HEADER_SIZE + of_nat (length payload)) = 3 + length payload"
    and "HEADER_SIZE + of_nat (length payload) < (2 ^ 63 :: u64)"
proof -
  show n: "unat (of_nat (length payload) :: u64) = length payload" using assms by (simp add: unat_of_nat_id)
  show "(ucast (of_nat (length payload) :: u16) :: u64) = of_nat (length payload)"
    using assms by (simp add: unsigned_of_nat take_bit_nat_eq_self)
  show "ucast (of_nat (length payload) :: u64) = (of_nat (length payload) :: u16)"
    using assms by (simp add: unsigned_of_nat take_bit_nat_eq_self)
  show size: "unat (HEADER_SIZE + of_nat (length payload)) = 3 + length payload"
    using assms n by (simp add: HEADER_SIZE_def unat_word_ariths)
  have "3 + length payload < 2 ^ 63" using assms by simp
  then show "HEADER_SIZE + of_nat (length payload) < (2 ^ 63 :: u64)"
    by (simp add: word_less_nat_alt size)
qed

definition msg_wire :: "u8 \<Rightarrow> bytes \<Rightarrow> bytes" where
  "msg_wire tid payload = tid # sb_serial_raw (of_nat (length payload) :: u16) @ payload"

lemma size_bytes:
  "length (sb_serial_raw (w :: u16)) = 2" "of_le_bytes (sb_serial_raw w) = w"
  using take_bit_length_eq [of w] by (simp_all add: sb_serial_raw_def raw_size_def of_le_le_bytes)

lemma resize_fits:
  assumes "msg_ok m" "length payload < 2 ^ 16"
  obtains m' where "msg_resize g (HEADER_SIZE + of_nat (length payload)) m = (Ret (), m')" "m_size m' \<noteq> 0"
    "msg_ok m'" "unat (m_size m') = 3 + length payload" "3 + length payload \<le> length (m_buff m')"
    "take (unat (m_size m)) (m_buff m') = take (unat (m_size m)) (m_buff m)"
proof -
  note size = header_size_of [OF assms(2)]
  obtain m' where m': "msg_resize g (HEADER_SIZE + of_nat (length payload)) m = (Ret (), m')" "msg_ok m'"
    "m_size m' = HEADER_SIZE + of_nat (length payload)"
    "take (unat (m_size m)) (m_buff m') = take (unat (m_size m)) (m_buff m)"
    using msg_resize_run [OF assms(1) size(5)] by blast
  have n: "unat (m_size m') = 3 + length payload" using m'(3) size(4) by simp
  then have "m_size m' \<noteq> 0" by auto
  moreover have "3 + length payload \<le> length (m_buff m')"
    using m'(2) n by (auto simp: msg_ok_def word_less_nat_alt)
  ultimately show thesis using m'(1,2,4) n that by blast
qed

lemmas msg_defs = msg_alloc_as_def assert_empty_def msg_empty_def msg_store_def msg_data_def msg_load_def
  msg_alloc_header_def msg_alloc_generic_def msg_header_def msg_get_as_def msg_get_type_def act_defs

lemma msg_send_run:
  assumes "length payload < 2 ^ 16"
  shows "\<exists>m. msg_send g tid payload (Message_new g) = (Ret (msg_wire tid payload), m)"
proof -
  obtain m where m: "msg_resize g (HEADER_SIZE + of_nat (length payload)) (Message_new g) = (Ret (), m)"
    "m_size m \<noteq> 0" "unat (m_size m) = 3 + length payload" "3 + length payload \<le> length (m_buff m)"
    using resize_fits [OF msg_new_ok assms] by metis
  have new: "m_size (Message_new g) = 0" by (simp add: Message_new_def)
  have "length payload \<le> length (m_buff m) - 3" using m(4) by simp
  then show ?thesis
    using m(2-4) by (simp add: msg_send_def msg_wire_def msg_defs m(1) new size_bytes header_size_of(1) [OF assms])
      (simp add: size_bytes numeral_3_eq_3)
qed

text \<open>Storing the header in a buffer of three bytes and resizing for the payload keeps it.\<close>

lemma msg_receive_run:
  assumes "length payload < 2 ^ 16"
  shows "\<exists>m. msg_receive g (msg_wire tid payload) (Message_new g) = (Ret (of_nat (length payload)), m) \<and>
    m_size m \<noteq> 0 \<and> take (3 + length payload) (m_buff m) = msg_wire tid payload"
proof -
  let ?h = "tid # sb_serial_raw (of_nat (length payload) :: u16)"
  have h: "length ?h = 3" by (simp add: size_bytes)
  obtain m where m: "msg_resize g HEADER_SIZE (Message_new g) = (Ret (), m)"
    "m_size m \<noteq> 0" "unat (m_size m) = 3" "3 \<le> length (m_buff m)" "msg_ok m"
    using resize_fits [OF msg_new_ok, of "[]"] by auto metis
  let ?m = "m\<lparr>m_buff := tid # sb_serial_raw (of_nat (length payload) :: u16) @ drop 3 (m_buff m)\<rparr>"
  have "msg_ok ?m" using m(4,5) h by (simp add: msg_ok_def)
  then obtain m' where m': "msg_resize g (HEADER_SIZE + of_nat (length payload)) ?m = (Ret (), m')" "m_size m' \<noteq> 0"
    "3 + length payload \<le> length (m_buff m')" "take 3 (m_buff m') = ?h"
    using resize_fits [of ?m payload g] assms m(3) h by auto
  have new: "m_size (Message_new g) = 0" by (simp add: Message_new_def)
  have wire: "take 3 (msg_wire tid payload) = ?h" "drop 3 (msg_wire tid payload) = payload"
    using h by (simp_all add: msg_wire_def)
  show ?thesis using m(2,4) m'(2-4) h
    by (simp add: msg_receive_def msg_defs m(1) new wire size_bytes header_size_of(2,3) [OF assms] m'(1) msg_wire_def)
      (simp add: size_bytes numeral_3_eq_3)
qed

text \<open>A message that is sent and received has its type and its bytes.\<close>

theorem message_round_trip:
  assumes "length payload < 2 ^ 16"
  shows "\<exists>wire m m'. msg_send g tid payload (Message_new g) = (Ret wire, m) \<and>
    msg_receive g' wire (Message_new g') = (Ret (of_nat (length payload)), m') \<and>
    msg_get_as tid (length payload) m' = (Ret payload, m')"
proof -
  obtain m' where m': "msg_receive g' (msg_wire tid payload) (Message_new g') = (Ret (of_nat (length payload)), m')"
    "m_size m' \<noteq> 0" "take (3 + length payload) (m_buff m') = msg_wire tid payload"
    using msg_receive_run [OF assms] by blast
  have b: "m_buff m' = msg_wire tid payload @ drop (3 + length payload) (m_buff m')"
    using m'(3) by (metis append_take_drop_id)
  then have "\<exists>rest. m_buff m' = tid # sb_serial_raw (of_nat (length payload) :: u16) @ payload @ rest"
    by (auto simp: msg_wire_def intro!: exI)
  then have "msg_get_as tid (length payload) m' = (Ret payload, m')"
    using m'(2) by (auto simp: msg_defs size_bytes)
  then show ?thesis using msg_send_run [OF assms] m'(1) by blast
qed

text \<open>A message of 65536 bytes announces the size 0: the size field has 16 bits.\<close>

theorem message_size_truncated:
  "\<exists>m. msg_alloc_as g tid 65536 0 (Message_new g) = (Ret (), m) \<and> msg_header m = (Ret (tid, 0), m)"
proof -
  obtain m where m: "msg_resize g (HEADER_SIZE + 65536) (Message_new g) = (Ret (), m)" "msg_ok m" "m_size m = HEADER_SIZE + 65536"
    using msg_resize_run [OF msg_new_ok, of "HEADER_SIZE + 65536" g] by (auto simp: HEADER_SIZE_def)
  then have "m_size m \<noteq> 0" "3 \<le> length (m_buff m)" by (auto simp: msg_ok_def HEADER_SIZE_def word_less_nat_alt)
  then show ?thesis using m(1) by (simp add: msg_defs Message_new_def size_bytes)
qed

end
