(* ===== verification/Debugger_Log.thy ===== *)
theory Debugger_Log
  imports Debugger_Invariant "HOL-Library.Sublist"
begin

text \<open>
  The log of the debugger: the default build defines \<open>ODB_SERVER_DB_LOG\<close>, and each method of
  \<open>src/server/debugger.cc\<close> then writes entries to a file with \<open>DB_LOG\<close>. The methods here are those of theory
  \<open>Debugger\<close> with these entries, on a debugger paired with its log. The text of the address of a buffer
  is the parameter \<open>pt\<close>.
\<close>

section \<open>Text of an entry\<close>

fun show_state :: "db_state \<Rightarrow> string" where
  "show_state NOT_STARTED = ''NOT_STARTED''"
| "show_state STOPPED = ''STOPPED''"
| "show_state RUNNING_TOFINISH = ''RUNNING_TOFINISH''"
| "show_state RUNNING_BKP = ''RUNNING_BKP''"
| "show_state RUNNING_STEP = ''RUNNING_STEP''"
| "show_state RUNNING_STEP_OVER = ''RUNNING_STEP_OVER''"
| "show_state RUNNING_STEP_OUT = ''RUNNING_STEP_OUT''"
| "show_state ERROR = ''ERROR''"
| "show_state EXIT = ''EXIT''"

text \<open>A value that is none of the enumeration's prints nothing.\<close>

fun show_resume_type :: "ResumeType \<Rightarrow> string" where
  "show_resume_type ToFinish = ''ToFinish''"
| "show_resume_type Continue = ''Continue''"
| "show_resume_type Step = ''Step''"
| "show_resume_type StepOver = ''StepOver''"
| "show_resume_type StepOut = ''StepOut''"
| "show_resume_type (ResumeType_raw _) = ''''"

abbreviation show_word :: "'w :: len word \<Rightarrow> string" where
  "show_word x \<equiv> dec_of_nat (unat x)"

fun regs_text :: "vm_reg_t list \<Rightarrow> string" where
  "regs_text [] = ''''"
| "regs_text [r] = show_word r"
| "regs_text (r # rs) = show_word r @ '', '' @ regs_text rs"

definition dump_regs_list :: "string \<Rightarrow> vm_reg_t list \<Rightarrow> string" where
  "dump_regs_list name regs = (if regs = [] then ''''
    else ''    '' @ name @ '': '' @ regs_text regs @ [CHR 0x0A])"

definition show_infos :: "VMInfos \<Rightarrow> string" where
  "show_infos infos =
    [CHR 0x0A] @ ''<======= VM INFOS:'' @ [CHR 0x0A] @
    ''  name: '' @ vi_name infos @ [CHR 0x0A] @
    ''  registers count: '' @ show_word (vi_regs_count infos) @ [CHR 0x0A] @
    dump_regs_list ''general'' (vi_regs_general infos) @
    dump_regs_list ''program counter'' (vi_regs_program_counter infos) @
    dump_regs_list ''stack pointer'' (vi_regs_stack_pointer infos) @
    dump_regs_list ''base pointer'' (vi_regs_base_pointer infos) @
    dump_regs_list ''flags'' (vi_regs_flags infos) @
    ''  memory size: '' @ show_word (vi_memory_size infos) @ [CHR 0x0A] @
    ''  symbols count: '' @ show_word (vi_symbols_count infos) @ [CHR 0x0A] @
    ''  pointer size: '' @ show_word (vi_pointer_size infos) @ [CHR 0x0A] @
    ''  integer size: '' @ show_word (vi_integer_size infos) @ [CHR 0x0A] @
    ''  use opcode: '' @ (if vi_use_opcode infos then ''1'' else ''0'') @ [CHR 0x0A] @
    '' VM INFOS =======>'' @ [CHR 0x0A] @ [CHR 0x0A]"

fun show_update_state :: "UpdateState \<Rightarrow> string" where
  "show_update_state US_ERROR = ''ERROR''"
| "show_update_state US_EXIT = ''EXIT''"
| "show_update_state US_CALL_SUB = ''CALL_SUB''"
| "show_update_state US_RET_SUB = ''RET_SUB''"
| "show_update_state US_OK = ''OK''"

definition show_update :: "UpdateInfos \<Rightarrow> string" where
  "show_update udp = ''update: '' @ show_update_state (ud_state udp) @ '', addr: '' @ show_word (ud_act_addr udp)"

section \<open>Actions that log\<close>

text \<open>The log is the list of its entries, without the end of line that \<open>DB_LOG\<close> adds.\<close>

type_synonym 'v logged = "'v Debugger \<times> string list"

definition silent :: "('v Debugger, 'a) act \<Rightarrow> ('v logged, 'a) act" where
  "silent m = lift_act fst (\<lambda>d s. (d, snd s)) m"

definition db_log :: "('v Debugger \<Rightarrow> string) \<Rightarrow> ('v logged, unit) act" where
  "db_log f = modify (\<lambda>(d, l). (d, l @ [f d]))"

definition DB_LOG_UPDATE :: "string \<Rightarrow> UpdateInfos \<Rightarrow> db_state \<Rightarrow> ('v logged, unit) act" where
  "DB_LOG_UPDATE mess udp old = db_log (\<lambda>d. ''on_update(): '' @ mess @ '': '' @ show_update udp @
    '', old_state: '' @ show_state old @ '', new_state: '' @ show_state (d_state d))"

text \<open>Every call of the machine follows its entry.\<close>

definition vm_logged :: "string \<Rightarrow> ('v, 'a) act \<Rightarrow> ('v logged, 'a) act" where
  "vm_logged entry m = then_act (db_log (\<lambda>_. ''vm.'' @ entry)) (silent (vm_call m))"

definition stop_logged :: "string \<Rightarrow> UpdateInfos \<Rightarrow> db_state \<Rightarrow> ('v logged, unit) act" where
  "stop_logged mess udp old = then_act (silent (set_state STOPPED)) (DB_LOG_UPDATE mess udp old)"

section \<open>The methods\<close>

definition logged_on_init :: "'v VMApi \<Rightarrow> ('v logged, unit) act" where
  "logged_on_init api = bind_act (silent (gets d_state)) (\<lambda>st.
    then_act (assert_act (st = NOT_STARTED)) (
    then_act (silent (set_state RUNNING_TOFINISH)) (
    bind_act (vm_logged ''get_vm_infos()'' (api_get_vm_infos api)) (\<lambda>infos.
    then_act (silent (modify (\<lambda>d. d\<lparr>d_infos := infos\<rparr>))) (
    then_act (db_log (\<lambda>d. show_infos (d_infos d))) (
    then_act (silent (modify (\<lambda>d. d\<lparr>d_syms_ranges := Some (RangeMap 0 (vi_memory_size infos - 1) 0)\<rparr>))) (
    bind_act (vm_logged ''get_update_infos()'' (api_get_update_infos api)) (\<lambda>upd.
    then_act (assert_act (ud_state upd = US_OK)) (
    then_act (silent (modify (\<lambda>d. d\<lparr>d_ins_addr := ud_act_addr upd, d_call_stack := d_call_stack d @
        [\<lparr>caller_start_addr = ud_act_addr upd, call_addr = d_garbage d\<rparr>]\<rparr>))) (
    db_log (\<lambda>d. ''on_init(): addr = '' @ show_word (d_ins_addr d) @ '', state = '' @ show_state (d_state d))))))))))))"

definition logged_check_stop :: "UpdateInfos \<Rightarrow> db_state \<Rightarrow> ('v logged, unit) act" where
  "logged_check_stop udp old = bind_act (silent (gets id)) (\<lambda>d.
    if d_state d = RUNNING_TOFINISH then DB_LOG_UPDATE ''nostop'' udp old
    else if d_state d = RUNNING_STEP then stop_logged ''step stop'' udp old
    else if d_state d = RUNNING_STEP_OVER \<and> d_step_over_depth d \<ge> length (d_call_stack d)
      then stop_logged ''step_over stop'' udp old
    else if d_state d = RUNNING_STEP_OUT \<and> ud_state udp = US_RET_SUB then stop_logged ''step_out stop'' udp old
    else if d_ins_addr d \<in> d_breakpts d
      then then_act (db_log (\<lambda>d. ''trigger breakpoint '' @ show_word (d_ins_addr d))) (stop_logged ''_'' udp old)
    else DB_LOG_UPDATE ''_'' udp old)"

definition logged_on_update :: "'v VMApi \<Rightarrow> ('v logged, unit) act" where
  "logged_on_update api = bind_act (silent (gets d_state)) (\<lambda>st.
    then_act (assert_act (st \<noteq> NOT_STARTED \<and> st \<noteq> STOPPED \<and> st \<noteq> ERROR \<and> st \<noteq> EXIT)) (
    bind_act (vm_logged ''get_update_infos()'' (api_get_update_infos api)) (\<lambda>udp.
    if ud_state udp = US_ERROR then then_act (silent (set_state ERROR)) (DB_LOG_UPDATE ''VM Error'' udp st)
    else if ud_state udp = US_EXIT then then_act (silent (set_state EXIT))
      (db_log (\<lambda>d. ''on_update(): addr = '' @ show_word (d_ins_addr d) @ '', state = '' @ show_state (d_state d)))
    else bind_act (silent (gets d_ins_addr)) (\<lambda>old_addr.
      then_act (silent (modify (\<lambda>d. d\<lparr>d_ins_addr := ud_act_addr udp\<rparr>))) (
      then_act (silent (track_call_stack udp old_addr)) (logged_check_stop udp st))))))"

definition logged_resume :: "ResumeType \<Rightarrow> ('v logged, unit) act" where
  "logged_resume type = then_act (db_log (\<lambda>_. ''resume('' @ show_resume_type type @ '')'')) (silent (resume type))"

definition logged_stop :: "('v logged, unit) act" where
  "logged_stop = then_act (db_log (\<lambda>_. ''stop()'')) (silent stop)"

definition logged_add_breakpoint :: "vm_ptr_t \<Rightarrow> ('v logged, unit) act" where
  "logged_add_breakpoint addr =
    then_act (db_log (\<lambda>_. ''add breakpoint('' @ show_word addr @ '')'')) (silent (add_breakpoint addr))"

definition logged_del_breakpoint :: "vm_ptr_t \<Rightarrow> ('v logged, unit) act" where
  "logged_del_breakpoint addr =
    then_act (db_log (\<lambda>_. ''del breakpoint('' @ show_word addr @ '')'')) (silent (del_breakpoint addr))"

text \<open>The entry of \<open>_load_reg\<close> names \<open>get_ret\<close>, for a call of \<open>get_reg\<close>.\<close>

definition logged_load_reg :: "'v VMApi \<Rightarrow> vm_reg_t \<Rightarrow> ('v logged, unit) act" where
  "logged_load_reg api rid = bind_act (silent (gets (\<lambda>d. (smap_find (d_map_regs d) rid, d_garbage d)))) (\<lambda>(old, g).
    if old \<noteq> None then ret ()
    else bind_act (vm_logged (''get_ret('' @ show_word rid @ '', infos, false)'')
        (api_get_reg api rid (fresh_reg_infos g) False)) (\<lambda>infos.
      let infos' = infos\<lparr>ri_val := vec_resize (unat (ri_size infos)) 0 (ri_val infos)\<rparr> in
      silent (modify (\<lambda>d. d\<lparr>d_map_regs := smap_emplace rid infos' (d_map_regs d),
        d_smap_regs := smap_emplace (ri_name infos') rid (d_smap_regs d)\<rparr>))))"

definition logged_get_reg :: "'v VMApi \<Rightarrow> vm_reg_t \<Rightarrow> ('v logged, bytes) act" where
  "logged_get_reg api idx = then_act (logged_load_reg api idx) (bind_act (silent (reg_entry idx)) (\<lambda>infos.
    bind_act (vm_logged (''get_reg('' @ show_word idx @ '', infos, true)'') (api_get_reg api idx infos True)) (\<lambda>infos'.
    then_act (silent (modify (\<lambda>d. d\<lparr>d_map_regs := smap_assign idx infos' (d_map_regs d)\<rparr>))) (
    then_act (in_bounds (unat (ri_size infos') \<le> length (ri_val infos')))
      (ret (take (unat (ri_size infos')) (ri_val infos')))))))"

definition logged_set_reg :: "'v VMApi \<Rightarrow> string \<Rightarrow> vm_reg_t \<Rightarrow> bytes \<Rightarrow> ('v logged, unit) act" where
  "logged_set_reg api pt idx new_val =
    vm_logged (''set_reg('' @ show_word idx @ '', '' @ pt @ '')'') (api_set_reg api idx new_val)"

definition logged_get_reg_infos :: "'v VMApi \<Rightarrow> vm_reg_t \<Rightarrow> ('v logged, RegInfos) act" where
  "logged_get_reg_infos api idx = then_act (logged_load_reg api idx) (silent (reg_entry idx))"

definition logged_find_reg_id :: "'v VMApi \<Rightarrow> string \<Rightarrow> ('v logged, vm_reg_t) act" where
  "logged_find_reg_id api name = bind_act (silent (gets (\<lambda>d. smap_find (d_smap_regs d) name))) (\<lambda>e. case e of
      Some rid \<Rightarrow> ret rid
    | None \<Rightarrow> bind_act (vm_logged (''find_reg_id('' @ name @ '')'') (api_find_reg_id api name)) (\<lambda>rid.
        then_act (logged_load_reg api rid) (ret rid)))"

definition logged_read_mem :: "'v VMApi \<Rightarrow> string \<Rightarrow> vm_ptr_t \<Rightarrow> vm_size_t \<Rightarrow> ('v logged, bytes) act" where
  "logged_read_mem api pt addr sz = vm_logged
    (''read_mem('' @ show_word addr @ '', '' @ show_word sz @ '', '' @ pt @ '')'') (api_read_mem api addr sz)"

definition logged_write_mem :: "'v VMApi \<Rightarrow> string \<Rightarrow> vm_ptr_t \<Rightarrow> vm_size_t \<Rightarrow> bytes \<Rightarrow> ('v logged, unit) act" where
  "logged_write_mem api pt addr sz buf = vm_logged
    (''write_mem('' @ show_word addr @ '', '' @ show_word sz @ '', '' @ pt @ '')'') (api_write_mem api addr sz buf)"

definition logged_get_code_text :: "'v VMApi \<Rightarrow> vm_ptr_t \<Rightarrow> ('v logged, string \<times> vm_size_t) act" where
  "logged_get_code_text api addr = vm_logged (''get_code_text('' @ show_word addr @ '', addr_dist)'') (api_get_code_text api addr)"

definition logged_load_symbol :: "'v VMApi \<Rightarrow> vm_sym_t \<Rightarrow> ('v logged, unit) act" where
  "logged_load_symbol api sid = bind_act (silent (gets (\<lambda>d. smap_find (d_map_syms d) sid))) (\<lambda>e.
    if e \<noteq> None then ret ()
    else bind_act (vm_logged (''get_symb_infos('' @ show_word sid @ '')'') (api_get_symb_infos api sid)) (\<lambda>infos.
      silent (modify (\<lambda>d. d\<lparr>d_map_syms := smap_emplace sid infos (d_map_syms d),
        d_smap_syms := smap_emplace (si_name infos) sid (d_smap_syms d),
        d_syms_pos := smap_emplace (si_addr infos) sid (d_syms_pos d)\<rparr>))))"

definition logged_load_symbols_in :: "'v VMApi \<Rightarrow> vm_ptr_t \<Rightarrow> vm_ptr_t \<Rightarrow> ('v logged, unit) act" where
  "logged_load_symbols_in api addr end_addr =
    bind_act (vm_logged (''get_symbols('' @ show_word addr @ '', '' @ show_word (end_addr - addr + 1) @ '')'')
      (api_get_symbols api addr (end_addr - addr + 1))) (\<lambda>syms.
    then_act (silent (syms_set_loaded addr end_addr)) (iter_act (logged_load_symbol api) syms))"

definition logged_preload_high :: "'v VMApi \<Rightarrow> vm_ptr_t \<Rightarrow> vm_ptr_t \<Rightarrow> ('v logged, unit) act" where
  "logged_preload_high api addr end_addr = bind_act (silent (syms_range_of end_addr)) (\<lambda>high_range.
    if rval high_range = 1 then
      (let end' = low high_range - 1 in
       if low high_range = 0 \<or> end' < addr then ret () else logged_load_symbols_in api addr end')
    else logged_load_symbols_in api addr end_addr)"

definition logged_preload_symbols :: "'v VMApi \<Rightarrow> vm_ptr_t \<Rightarrow> vm_size_t \<Rightarrow> ('v logged, unit) act" where
  "logged_preload_symbols api addr sz = bind_act (silent (gets (\<lambda>d. vi_memory_size (d_infos d)))) (\<lambda>memory_size.
    let sz' = max sz SYM_LOAD_SIZE;
        end_addr = min (addr + sz' - 1) (memory_size - 1)
    in bind_act (silent (syms_range_of addr)) (\<lambda>low_range.
       if rval low_range = 1 then
         (let addr' = high low_range + 1 in
          if addr' = 0 \<or> addr' > end_addr then ret () else logged_preload_high api addr' end_addr)
       else logged_preload_high api addr end_addr))"

definition logged_get_symbol_at :: "'v VMApi \<Rightarrow> vm_ptr_t \<Rightarrow> ('v logged, vm_sym_t) act" where
  "logged_get_symbol_at api addr = then_act
    (logged_preload_symbols api (if addr < SYM_LOAD_SIZE div 2 then 0 else addr - SYM_LOAD_SIZE div 2) SYM_LOAD_SIZE)
    (bind_act (silent (gets (\<lambda>d. smap_find (d_syms_pos d) addr)))
      (\<lambda>e. ret (case e of None \<Rightarrow> VM_SYM_NULL | Some sid \<Rightarrow> sid)))"

definition logged_get_symbols :: "'v VMApi \<Rightarrow> vm_ptr_t \<Rightarrow> vm_size_t \<Rightarrow> ('v logged, vm_sym_t list) act" where
  "logged_get_symbols api addr sz = then_act (logged_preload_symbols api addr sz)
    (silent (gets (\<lambda>d. smap_slice addr (addr + sz) (d_syms_pos d))))"

definition logged_get_symbol_infos :: "'v VMApi \<Rightarrow> vm_sym_t \<Rightarrow> ('v logged, SymbolInfos) act" where
  "logged_get_symbol_infos api idx = then_act (logged_load_symbol api idx)
    (bind_act (silent (gets (\<lambda>d. smap_find (d_map_syms d) idx)))
      (\<lambda>e. case e of None \<Rightarrow> abort Assert_failed | Some infos \<Rightarrow> ret infos))"

definition logged_find_sym_id :: "'v VMApi \<Rightarrow> string \<Rightarrow> ('v logged, vm_sym_t) act" where
  "logged_find_sym_id api name = bind_act (vm_logged (''find_sym_id('' @ name @ '')'') (api_find_sym_id api name)) (\<lambda>sid.
    then_act (logged_load_symbol api sid) (ret sid))"

section \<open>The log observes\<close>

text \<open>Without its log a logged method is the plain one: same outcome, same state; and the log only grows.\<close>

definition erases :: "('v logged, 'a) act \<Rightarrow> ('v Debugger, 'a) act \<Rightarrow> bool" where
  "erases m' m \<longleftrightarrow> (\<forall>d l. \<exists>l'. m' (d, l) = (fst (m d), snd (m d), l @ l'))"

named_theorems erase_rules \<open>rules that follow the body of a logged method\<close>

lemma erases_pure [erase_rules]:
  "erases (ret x) (ret x)" "erases (throw e) (throw e)" "erases (abort c) (abort c)" "erases (assert_act b) (assert_act b)"
  "erases (in_bounds b) (in_bounds b)"
  by (simp_all add: erases_def)

lemma erases_silent [erase_rules]: "erases (silent m) m"
  by (simp add: erases_def silent_def lift_act_def split: prod.split)

lemma erases_bind [erase_rules]:
  assumes "erases m' m" "\<And>x. erases (f' x) (f x)"
  shows "erases (bind_act m' f') (bind_act m f)"
proof -
  have "\<exists>l'. bind_act m' f' (d, l) = (fst (bind_act m f d), snd (bind_act m f d), l @ l')" for d l
  proof -
    obtain l1 where l1: "m' (d, l) = (fst (m d), snd (m d), l @ l1)" using assms(1) by (auto simp: erases_def)
    show ?thesis
    proof (cases "fst (m d)")
      case (Ret x)
      obtain l2 where "f' x (snd (m d), l @ l1) = (fst (f x (snd (m d))), snd (f x (snd (m d))), (l @ l1) @ l2)"
        using assms(2) [of x] unfolding erases_def by blast
      moreover have "bind_act m f d = f x (snd (m d))" "bind_act m' f' (d, l) = f' x (snd (m d), l @ l1)"
        using Ret l1 by (auto simp: bind_act_def split: prod.split)
      ultimately show ?thesis by simp
    qed (use l1 in \<open>auto simp: bind_act_def split: prod.split\<close>)
  qed
  then show ?thesis by (simp add: erases_def)
qed

lemma erases_then [erase_rules]: "erases m' m \<Longrightarrow> erases n' n \<Longrightarrow> erases (then_act m' n') (then_act m n)"
  unfolding then_act_def by (intro erases_bind)

lemma erases_if [erase_rules]:
  "(b \<Longrightarrow> erases m' m) \<Longrightarrow> (\<not> b \<Longrightarrow> erases n' n) \<Longrightarrow> erases (if b then m' else n') (if b then m else n)"
  by simp

lemma erases_option [erase_rules]:
  "erases n' n \<Longrightarrow> (\<And>x. erases (f' x) (f x)) \<Longrightarrow> erases (case_option n' f' e) (case_option n f e)"
  by (simp split: option.split)

lemma erases_iter [erase_rules]: "(\<And>x. erases (f' x) (f x)) \<Longrightarrow> erases (iter_act f' xs) (iter_act f xs)"
  by (induction xs) (auto intro: erase_rules)

lemma erases_log: "erases (db_log f) (ret ())" "erases (DB_LOG_UPDATE mess udp old) (ret ())"
  by (simp_all add: erases_def db_log_def DB_LOG_UPDATE_def)

lemma erases_entry: "erases m' m \<Longrightarrow> erases (then_act (db_log f) m') m"
  using erases_then [OF erases_log(1)] by (simp add: then_act_def)

lemma erases_report:
  assumes "erases m' m" "erases n' (ret ())"
  shows "erases (then_act m' n') m"
proof -
  have "then_act m (ret ()) = m" by (rule ext) (simp add: then_act_def bind_act_def split: prod.split outcome.split)
  with erases_then [OF assms] show ?thesis by simp
qed

lemma erases_vm [erase_rules]: "erases (vm_logged entry m) (vm_call m)"
  unfolding vm_logged_def by (intro erases_entry erase_rules)

lemma erases_stop_logged: "erases (stop_logged mess udp old) (set_state STOPPED)"
  unfolding stop_logged_def by (intro erases_report erases_log erase_rules)

lemma erases_on_init: "erases (logged_on_init api) (on_init api)"
proof -
  have two: "then_act (modify f) (then_act (modify g) m) = then_act (modify (\<lambda>s. g (f s))) m"
    for f g :: "'v Debugger \<Rightarrow> 'v Debugger" and m :: "('v Debugger, unit) act"
    by (rule ext) simp
  have plain: "on_init api = bind_act (gets d_state) (\<lambda>st. then_act (assert_act (st = NOT_STARTED)) (
    then_act (set_state RUNNING_TOFINISH) (bind_act (vm_call (api_get_vm_infos api)) (\<lambda>infos.
    then_act (modify (\<lambda>d. d\<lparr>d_infos := infos\<rparr>)) (
    then_act (modify (\<lambda>d. d\<lparr>d_syms_ranges := Some (RangeMap 0 (vi_memory_size infos - 1) 0)\<rparr>)) (
    bind_act (vm_call (api_get_update_infos api)) (\<lambda>upd. then_act (assert_act (ud_state upd = US_OK)) (
    modify (\<lambda>d. d\<lparr>d_ins_addr := ud_act_addr upd, d_call_stack := d_call_stack d @
        [\<lparr>caller_start_addr = ud_act_addr upd, call_addr = d_garbage d\<rparr>]\<rparr>)))))))))"
    by (simp add: on_init_def two)
  show ?thesis unfolding plain logged_on_init_def
    by (intro erase_rules erases_entry erases_report [OF erases_silent] erases_log)
qed

lemma erases_check_stop: "erases (logged_check_stop udp old) (check_stop udp)"
  unfolding logged_check_stop_def check_stop_def by (intro erase_rules erases_entry erases_stop_logged erases_log)

lemma erases_on_update: "erases (logged_on_update api) (on_update api)"
  unfolding logged_on_update_def on_update_def
  by (intro erase_rules erases_check_stop erases_report [OF erases_silent] erases_log)

lemma erases_load_reg [erase_rules]: "erases (logged_load_reg api r) (load_reg api r)"
  unfolding logged_load_reg_def load_reg_def Let_def split_def by (intro erase_rules)

lemma erases_load_symbol [erase_rules]: "erases (logged_load_symbol api i) (load_symbol api i)"
  unfolding logged_load_symbol_def load_symbol_def by (intro erase_rules)

lemma erases_preload [erase_rules]: "erases (logged_preload_symbols api addr sz) (preload_symbols api addr sz)"
proof -
  have "erases (logged_load_symbols_in api addr e) (load_symbols_in api addr e)" for addr e
    unfolding logged_load_symbols_in_def load_symbols_in_def by (intro erase_rules)
  then have "erases (logged_preload_high api addr e) (preload_high api addr e)" for addr e
    unfolding logged_preload_high_def preload_high_def Let_def by (intro erase_rules)
  then show ?thesis unfolding logged_preload_symbols_def preload_symbols_def Let_def by (intro erase_rules)
qed

lemma erases_registers:
  "erases (logged_get_reg api r) (get_reg api r)" "erases (logged_set_reg api pt r val) (set_reg api r val)"
  "erases (logged_get_reg_infos api r) (get_reg_infos api r)" "erases (logged_find_reg_id api name) (find_reg_id api name)"
  unfolding logged_get_reg_def get_reg_def logged_set_reg_def set_reg_def logged_get_reg_infos_def get_reg_infos_def
    logged_find_reg_id_def find_reg_id_def
  by (intro erase_rules)+

lemma erases_symbols:
  "erases (logged_get_symbol_at api a) (get_symbol_at api a)" "erases (logged_get_symbols api a sz) (get_symbols api a sz)"
  "erases (logged_get_symbol_infos api i) (get_symbol_infos api i)" "erases (logged_find_sym_id api name) (find_sym_id api name)"
  unfolding logged_get_symbol_at_def get_symbol_at_def preload_symbols_around_def logged_get_symbols_def get_symbols_def
    logged_get_symbol_infos_def get_symbol_infos_def logged_find_sym_id_def find_sym_id_def
  by (intro erase_rules)+

text \<open>
  The log only observes: every method of the debugger that logs has the outcome and the effect of
  the method without the log, returned values, errors and the end of the process included, and adds
  entries at the end of the log.
\<close>

theorem log_only_observes:
  "erases (logged_on_init api) (on_init api) \<and> erases (logged_on_update api) (on_update api) \<and>
   erases (logged_resume type) (resume type) \<and> erases logged_stop stop \<and>
   erases (logged_add_breakpoint a) (add_breakpoint a) \<and> erases (logged_del_breakpoint a) (del_breakpoint a) \<and>
   erases (logged_get_reg api r) (get_reg api r) \<and> erases (logged_set_reg api pt r val) (set_reg api r val) \<and>
   erases (logged_get_reg_infos api r) (get_reg_infos api r) \<and> erases (logged_find_reg_id api name) (find_reg_id api name) \<and>
   erases (logged_read_mem api pt a sz) (read_mem api a sz) \<and> erases (logged_write_mem api pt a sz buf) (write_mem api a sz buf) \<and>
   erases (logged_get_code_text api a) (get_code_text api a) \<and> erases (logged_get_symbol_at api a) (get_symbol_at api a) \<and>
   erases (logged_get_symbols api a sz) (get_symbols api a sz) \<and> erases (logged_get_symbol_infos api i) (get_symbol_infos api i) \<and>
   erases (logged_find_sym_id api name) (find_sym_id api name)"
  unfolding logged_resume_def logged_stop_def logged_add_breakpoint_def logged_del_breakpoint_def
    logged_read_mem_def read_mem_def logged_write_mem_def write_mem_def logged_get_code_text_def get_code_text_def
  by (intro conjI erases_on_init erases_on_update erases_registers erases_symbols erases_entry erases_silent erases_vm)

section \<open>The log is complete\<close>

text \<open>The calls of a machine, and the machine that remembers them.\<close>

datatype machine_call = C_get_vm_infos | C_get_update_infos | C_get_reg vm_reg_t bool | C_set_reg vm_reg_t
  | C_find_reg_id string | C_read_mem vm_ptr_t vm_size_t | C_write_mem vm_ptr_t vm_size_t | C_get_symbols vm_ptr_t vm_size_t
  | C_get_symb_infos vm_sym_t | C_find_sym_id string | C_get_code_text vm_ptr_t

definition recorded :: "machine_call \<Rightarrow> ('v, 'a) act \<Rightarrow> ('v \<times> machine_call list, 'a) act" where
  "recorded c m = (\<lambda>(v, t). case m v of (r, v') \<Rightarrow> (r, (v', t @ [c])))"

definition recorder :: "'v VMApi \<Rightarrow> ('v \<times> machine_call list) VMApi" where
  "recorder api = \<lparr>
    api_get_vm_infos = recorded C_get_vm_infos (api_get_vm_infos api),
    api_get_update_infos = recorded C_get_update_infos (api_get_update_infos api),
    api_get_reg = (\<lambda>r infos val_only. recorded (C_get_reg r val_only) (api_get_reg api r infos val_only)),
    api_set_reg = (\<lambda>r val. recorded (C_set_reg r) (api_set_reg api r val)),
    api_find_reg_id = (\<lambda>name. recorded (C_find_reg_id name) (api_find_reg_id api name)),
    api_read_mem = (\<lambda>a sz. recorded (C_read_mem a sz) (api_read_mem api a sz)),
    api_write_mem = (\<lambda>a sz buf. recorded (C_write_mem a sz) (api_write_mem api a sz buf)),
    api_get_symbols = (\<lambda>a sz. recorded (C_get_symbols a sz) (api_get_symbols api a sz)),
    api_get_symb_infos = (\<lambda>i. recorded (C_get_symb_infos i) (api_get_symb_infos api i)),
    api_find_sym_id = (\<lambda>name. recorded (C_find_sym_id name) (api_find_sym_id api name)),
    api_get_code_text = (\<lambda>a. recorded (C_get_code_text a) (api_get_code_text api a))\<rparr>"

text \<open>What the log calls them.\<close>

fun entry_of :: "string \<Rightarrow> machine_call \<Rightarrow> string" where
  "entry_of pt C_get_vm_infos = ''get_vm_infos()''"
| "entry_of pt C_get_update_infos = ''get_update_infos()''"
| "entry_of pt (C_get_reg r val_only) =
    (if val_only then ''get_reg('' @ show_word r @ '', infos, true)'' else ''get_ret('' @ show_word r @ '', infos, false)'')"
| "entry_of pt (C_set_reg r) = ''set_reg('' @ show_word r @ '', '' @ pt @ '')''"
| "entry_of pt (C_find_reg_id name) = ''find_reg_id('' @ name @ '')''"
| "entry_of pt (C_read_mem a sz) = ''read_mem('' @ show_word a @ '', '' @ show_word sz @ '', '' @ pt @ '')''"
| "entry_of pt (C_write_mem a sz) = ''write_mem('' @ show_word a @ '', '' @ show_word sz @ '', '' @ pt @ '')''"
| "entry_of pt (C_get_symbols a sz) = ''get_symbols('' @ show_word a @ '', '' @ show_word sz @ '')''"
| "entry_of pt (C_get_symb_infos i) = ''get_symb_infos('' @ show_word i @ '')''"
| "entry_of pt (C_find_sym_id name) = ''find_sym_id('' @ name @ '')''"
| "entry_of pt (C_get_code_text a) = ''get_code_text('' @ show_word a @ '', addr_dist)''"

definition complete :: "string \<Rightarrow> ('v \<times> machine_call list) logged \<Rightarrow> bool" where
  "complete pt s \<longleftrightarrow> filter (prefix ''vm.'') (snd s) = map (\<lambda>c. ''vm.'' @ entry_of pt c) (snd (d_vm (fst s)))"

lemma complete_vm: "entry = entry_of pt c \<Longrightarrow> keeps (complete pt) (vm_logged entry (recorded c m))"
  by (auto simp: keeps_def complete_def vm_logged_def db_log_def silent_def lift_act_def vm_call_def recorded_def split: prod.split)

lemma complete_log: "(\<And>d. \<not> prefix ''vm.'' (f d)) \<Longrightarrow> keeps (complete pt) (db_log f)"
  by (auto simp: keeps_def complete_def db_log_def)

lemma complete_update [keeps_rules]: "keeps (complete pt) (DB_LOG_UPDATE mess udp old)"
  unfolding DB_LOG_UPDATE_def by (intro complete_log) simp

lemma complete_silent:
  assumes "\<And>v. keeps (\<lambda>d. d_vm d = v) m"
  shows "keeps (complete pt) (silent m)"
proof -
  have "d_vm (snd (m d)) = d_vm d" for d using assms [of "d_vm d"] by (simp add: keeps_def)
  then show ?thesis by (simp add: keeps_def complete_def silent_def lift_act_def split_def)
qed

lemma complete_silent_flow [keeps_rules]:
  "keeps (complete pt) (silent (gets f))" "keeps (complete pt) (silent (set_state st))"
  "keeps (complete pt) (silent (track_call_stack udp old))" "keeps (complete pt) (silent (reg_entry r))"
  "keeps (complete pt) (silent (syms_range_of a))" "keeps (complete pt) (silent (syms_set_loaded a b))"
  "keeps (complete pt) (silent (resume type))" "keeps (complete pt) (silent stop)"
  "keeps (complete pt) (silent (add_breakpoint a))" "keeps (complete pt) (silent (del_breakpoint a))"
  unfolding set_state_def track_call_stack_def reg_entry_def syms_range_of_def syms_set_loaded_def resume_def stop_def
    add_breakpoint_def del_breakpoint_def
  by (intro complete_silent keeps_rules keeps_modify; simp)+

lemma complete_stop_logged [keeps_rules]: "keeps (complete pt) (stop_logged mess udp old)"
  unfolding stop_logged_def by (intro keeps_rules)

lemma complete_calls [keeps_rules]:
  fixes api :: "'v VMApi"
  defines "vm \<equiv> recorder api"
  shows "keeps (complete pt) (vm_logged ''get_vm_infos()'' (api_get_vm_infos vm))"
    "keeps (complete pt) (vm_logged ''get_update_infos()'' (api_get_update_infos vm))"
    "keeps (complete pt) (vm_logged (''get_reg('' @ show_word r @ '', infos, true)'') (api_get_reg vm r infos True))"
    "keeps (complete pt) (vm_logged (''get_ret('' @ show_word r @ '', infos, false)'') (api_get_reg vm r infos False))"
    "keeps (complete pt) (vm_logged (''set_reg('' @ show_word r @ '', '' @ pt @ '')'') (api_set_reg vm r val))"
    "keeps (complete pt) (vm_logged (''find_reg_id('' @ name @ '')'') (api_find_reg_id vm name))"
    "keeps (complete pt) (vm_logged (''read_mem('' @ show_word a @ '', '' @ show_word sz @ '', '' @ pt @ '')'') (api_read_mem vm a sz))"
    "keeps (complete pt) (vm_logged (''write_mem('' @ show_word a @ '', '' @ show_word sz @ '', '' @ pt @ '')'') (api_write_mem vm a sz buf))"
    "keeps (complete pt) (vm_logged (''get_symbols('' @ show_word a @ '', '' @ show_word sz @ '')'') (api_get_symbols vm a sz))"
    "keeps (complete pt) (vm_logged (''get_symb_infos('' @ show_word i @ '')'') (api_get_symb_infos vm i))"
    "keeps (complete pt) (vm_logged (''find_sym_id('' @ name @ '')'') (api_find_sym_id vm name))"
    "keeps (complete pt) (vm_logged (''get_code_text('' @ show_word a @ '', addr_dist)'') (api_get_code_text vm a))"
  unfolding vm_def recorder_def VMApi.simps by (rule complete_vm; simp)+

lemma complete_flow [keeps_rules]:
  "keeps (complete pt) (logged_on_init (recorder api))" "keeps (complete pt) (logged_on_update (recorder api))"
  unfolding logged_on_init_def logged_on_update_def logged_check_stop_def
  by (intro keeps_rules complete_log complete_silent keeps_modify; simp add: show_infos_def)+

lemma complete_loads [keeps_rules]:
  "keeps (complete pt) (logged_load_reg (recorder api) r)" "keeps (complete pt) (logged_load_symbol (recorder api) i)"
  unfolding logged_load_reg_def logged_load_symbol_def Let_def
  by (intro keeps_rules complete_silent keeps_modify; simp)+

lemma complete_preload [keeps_rules]: "keeps (complete pt) (logged_preload_symbols (recorder api) a sz)"
  unfolding logged_preload_symbols_def logged_preload_high_def logged_load_symbols_in_def Let_def
  by (intro keeps_rules)

text \<open>A call of any method of the debugger, its result dropped.\<close>

datatype db_method = M_on_init | M_on_update | M_resume ResumeType | M_stop | M_add_breakpoint vm_ptr_t
  | M_del_breakpoint vm_ptr_t | M_get_reg vm_reg_t | M_set_reg vm_reg_t bytes | M_get_reg_infos vm_reg_t
  | M_find_reg_id string | M_read_mem vm_ptr_t vm_size_t | M_write_mem vm_ptr_t vm_size_t bytes
  | M_get_code_text vm_ptr_t | M_get_symbol_at vm_ptr_t | M_get_symbols vm_ptr_t vm_size_t
  | M_get_symbol_infos vm_sym_t | M_find_sym_id string

fun logged_method :: "'v VMApi \<Rightarrow> string \<Rightarrow> db_method \<Rightarrow> ('v logged, unit) act" where
  "logged_method api pt M_on_init = logged_on_init api"
| "logged_method api pt M_on_update = logged_on_update api"
| "logged_method api pt (M_resume type) = logged_resume type"
| "logged_method api pt M_stop = logged_stop"
| "logged_method api pt (M_add_breakpoint a) = logged_add_breakpoint a"
| "logged_method api pt (M_del_breakpoint a) = logged_del_breakpoint a"
| "logged_method api pt (M_get_reg r) = then_act (logged_get_reg api r) (ret ())"
| "logged_method api pt (M_set_reg r val) = logged_set_reg api pt r val"
| "logged_method api pt (M_get_reg_infos r) = then_act (logged_get_reg_infos api r) (ret ())"
| "logged_method api pt (M_find_reg_id name) = then_act (logged_find_reg_id api name) (ret ())"
| "logged_method api pt (M_read_mem a sz) = then_act (logged_read_mem api pt a sz) (ret ())"
| "logged_method api pt (M_write_mem a sz buf) = logged_write_mem api pt a sz buf"
| "logged_method api pt (M_get_code_text a) = then_act (logged_get_code_text api a) (ret ())"
| "logged_method api pt (M_get_symbol_at a) = then_act (logged_get_symbol_at api a) (ret ())"
| "logged_method api pt (M_get_symbols a sz) = then_act (logged_get_symbols api a sz) (ret ())"
| "logged_method api pt (M_get_symbol_infos i) = then_act (logged_get_symbol_infos api i) (ret ())"
| "logged_method api pt (M_find_sym_id name) = then_act (logged_find_sym_id api name) (ret ())"

lemma complete_method: "keeps (complete pt) (logged_method (recorder api) pt m)"
proof -
  have registers: "keeps (complete pt) (logged_get_reg (recorder api) r)" "keeps (complete pt) (logged_get_reg_infos (recorder api) r)"
    "keeps (complete pt) (logged_find_reg_id (recorder api) name)" for r name
    unfolding logged_get_reg_def logged_get_reg_infos_def logged_find_reg_id_def
    by (intro keeps_rules complete_silent keeps_modify; simp)+
  have symbols: "keeps (complete pt) (logged_get_symbol_at (recorder api) a)" "keeps (complete pt) (logged_get_symbols (recorder api) a sz)"
    "keeps (complete pt) (logged_get_symbol_infos (recorder api) i)" "keeps (complete pt) (logged_find_sym_id (recorder api) name)" for a sz i name
    unfolding logged_get_symbol_at_def logged_get_symbols_def logged_get_symbol_infos_def logged_find_sym_id_def
    by (intro keeps_rules)+
  show ?thesis
    by (cases m; simp only: logged_method.simps logged_resume_def logged_stop_def logged_add_breakpoint_def logged_del_breakpoint_def
        logged_set_reg_def logged_read_mem_def logged_write_mem_def logged_get_code_text_def;
        intro keeps_rules registers symbols complete_log; simp)
qed

text \<open>
  C16. The log is complete: whatever methods of the debugger are called, in whatever order and with
  whatever outcome, the entries of the log that name the machine are the calls made to the machine,
  all of them, in order and with their arguments.
\<close>

theorem log_is_complete:
  "let (d, l) = fold (\<lambda>m s. snd (logged_method (recorder api) pt m s)) ms (Debugger_new (vm, []) infos0 g, [])
   in filter (prefix ''vm.'') l = map (\<lambda>c. ''vm.'' @ entry_of pt c) (snd (d_vm d))"
proof -
  have "complete pt (fold (\<lambda>m s. snd (logged_method (recorder api) pt m s)) ms s)" if "complete pt s" for s
    using that
  proof (induction ms arbitrary: s)
    case (Cons m ms)
    have "complete pt (snd (logged_method (recorder api) pt m s))"
      using complete_method Cons.prems unfolding keeps_def by blast
    from Cons.IH [OF this] show ?case by simp
  qed simp
  then have "complete pt (fold (\<lambda>m s. snd (logged_method (recorder api) pt m s)) ms (Debugger_new (vm, []) infos0 g, []))"
    by (simp add: complete_def Debugger_new_def)
  then show ?thesis by (simp add: complete_def split_def)
qed

end
