(* ===== verification/Mvm0_Cpu.thy ===== *)
theory Mvm0_Cpu
  imports Mvm0_Client
begin

text \<open>
  The processor of the machine \<open>mvm0\<close> (\<open>tests/mockvms/mvm0/src/cpu.cc\<close>): its instructions, and what
  \<open>VMApi::get_update_infos\<close> tells the debugger after each. The members that the constructor leaves
  uninitialised get a parameter. A 32-bit access is done at any address, as on the platforms the
  machine is used on; one that goes past the last byte of the memory is out of bounds.
\<close>

section \<open>Registers and memory\<close>

definition MEM_RAM_SIZE :: u64 where "MEM_RAM_SIZE = 1024"
definition BASE_REGS :: u64 where "BASE_REGS = 16"

definition CPU_new :: "ROM \<Rightarrow> u32 \<Rightarrow> CPU" where
  "CPU_new rom g = \<lparr>cpu_regs = replicate (unat BASE_REGS) g, cpu_pc = g, cpu_prev_pc = g, cpu_zf = g,
    cpu_ram = replicate (unat MEM_RAM_SIZE) 0, cpu_guard = g, cpu_rom = rom, cpu_status = Status_OK\<rparr>"

definition cpu_init :: "(CPU, unit) act" where
  "cpu_init = modify (\<lambda>cpu. cpu\<lparr>cpu_regs := (map (\<lambda>_. 0) (cpu_regs cpu))[unat REG_SP := 1024],
    cpu_pc := 1024, cpu_prev_pc := 0, cpu_zf := 0\<rparr>)"

definition set_status :: "Status \<Rightarrow> (CPU, unit) act" where
  "set_status st = modify (\<lambda>cpu. cpu\<lparr>cpu_status := st\<rparr>)"

definition imm :: "int \<Rightarrow> (CPU, u32) act" where
  "imm x = then_act (assert_act (x \<ge> 0)) (ret (word_of_int x))"

text \<open>The reference \<open>_reg(idx)\<close>, read or assigned to.\<close>

definition reg_index :: "int \<Rightarrow> (CPU, nat) act" where
  "reg_index idx = (let sidx = (word_of_int idx :: u64) in
    then_act (assert_act (sidx < BASE_REGS)) (ret (unat sidx)))"

definition get_r :: "int \<Rightarrow> (CPU, u32) act" where
  "get_r idx = bind_act (reg_index idx) (\<lambda>i. gets (\<lambda>cpu. cpu_regs cpu ! i))"

definition set_r :: "int \<Rightarrow> u32 \<Rightarrow> (CPU, unit) act" where
  "set_r idx v = bind_act (reg_index idx) (\<lambda>i. modify (\<lambda>cpu. cpu\<lparr>cpu_regs := (cpu_regs cpu)[i := v]\<rparr>))"

text \<open>
  The reference \<open>_mem(addr)\<close>: a place in the RAM, or \<open>_guard\<close> after an access outside of it. The address is
  converted to \<open>int\<close> and then to \<open>std::size_t\<close>.
\<close>

definition mem_ref :: "u32 \<Rightarrow> (CPU, nat option) act" where
  "mem_ref addr = (let sptr = (scast addr :: u64) in
    if sptr \<ge> MEM_CODE_START then then_act (set_status SEGV) (ret None) else ret (Some (unat sptr)))"

definition load_ref :: "nat option \<Rightarrow> (CPU, u32) act" where
  "load_ref r = (case r of
      None \<Rightarrow> gets cpu_guard
    | Some p \<Rightarrow> bind_act (gets cpu_ram) (\<lambda>ram.
        then_act (in_bounds (p + 4 \<le> length ram)) (ret (of_le_bytes (take 4 (drop p ram))))))"

definition store_ref :: "nat option \<Rightarrow> u32 \<Rightarrow> (CPU, unit) act" where
  "store_ref r v = (case r of
      None \<Rightarrow> modify (\<lambda>cpu. cpu\<lparr>cpu_guard := v\<rparr>)
    | Some p \<Rightarrow> bind_act (gets cpu_ram) (\<lambda>ram.
        then_act (in_bounds (p + 4 \<le> length ram))
          (modify (\<lambda>cpu. cpu\<lparr>cpu_ram := take p ram @ sb_serial_raw v @ drop (p + 4) ram\<rparr>))))"

definition read_ram :: "u64 \<Rightarrow> u64 \<Rightarrow> (CPU, bytes) act" where
  "read_ram addr sz = then_act (assert_act (addr < MEM_CODE_START)) (
    then_act (assert_act (addr + sz \<le> MEM_CODE_START)) (bind_act (gets cpu_ram) (\<lambda>ram.
    then_act (in_bounds (unat addr + unat sz \<le> length ram)) (ret (take (unat sz) (drop (unat addr) ram))))))"

section \<open>Instructions\<close>

definition set_pc :: "u32 \<Rightarrow> (CPU, unit) act" where
  "set_pc v = modify (\<lambda>cpu. cpu\<lparr>cpu_pc := v\<rparr>)"

definition inc_pc :: "(CPU, unit) act" where
  "inc_pc = modify (\<lambda>cpu. cpu\<lparr>cpu_pc := cpu_pc cpu + 1\<rparr>)"

text \<open>A data operation sets the zero flag; the operation may be undefined.\<close>

definition data_op :: "(u32 \<Rightarrow> u32 \<Rightarrow> u32 outcome) \<Rightarrow> int \<Rightarrow> int \<Rightarrow> int \<Rightarrow> (CPU, unit) act" where
  "data_op f a0 a1 a2 = bind_act (get_r a0) (\<lambda>x. bind_act (get_r a1) (\<lambda>y. bind_act (call_act (f x y)) (\<lambda>v.
    then_act (set_r a2 v) (bind_act (get_r a2) (\<lambda>z.
    then_act (modify (\<lambda>cpu. cpu\<lparr>cpu_zf := (if z = 0 then 1 else 0)\<rparr>)) inc_pc)))))"

definition jump_if :: "(u32 \<Rightarrow> bool) \<Rightarrow> int \<Rightarrow> (CPU, unit) act" where
  "jump_if c a0 = bind_act (gets cpu_zf) (\<lambda>zf. if c zf then bind_act (imm a0) set_pc else inc_pc)"

definition ins_call :: "int \<Rightarrow> (CPU, unit) act" where
  "ins_call a0 =
    then_act (modify (\<lambda>cpu. cpu\<lparr>cpu_regs := (cpu_regs cpu)[unat REG_SP := cpu_regs cpu ! unat REG_SP - 4]\<rparr>)) (
    bind_act (gets (\<lambda>cpu. (cpu_pc cpu + 1, cpu_regs cpu ! unat REG_SP))) (\<lambda>(v, sp).
    bind_act (mem_ref sp) (\<lambda>r. then_act (store_ref r v) (bind_act (imm a0) set_pc))))"

definition ins_ret :: "(CPU, unit) act" where
  "ins_ret = bind_act (gets (\<lambda>cpu. cpu_regs cpu ! unat REG_SP)) (\<lambda>sp.
    bind_act (mem_ref sp) (\<lambda>r. bind_act (load_ref r) (\<lambda>v. then_act (set_pc v)
    (modify (\<lambda>cpu. cpu\<lparr>cpu_regs := (cpu_regs cpu)[unat REG_SP := cpu_regs cpu ! unat REG_SP + 4]\<rparr>)))))"

text \<open>The chain of comparisons of \<open>step\<close>; \<open>shl\<close> and \<open>shr\<close> shift the way the source does.\<close>

definition exec_ins :: "string \<Rightarrow> int \<Rightarrow> int \<Rightarrow> int \<Rightarrow> (CPU, unit) act" where
  "exec_ins n a0 a1 a2 =
    (if n = ''mov'' then bind_act (get_r a0) (\<lambda>x. then_act (set_r a1 x) inc_pc)
     else if n = ''movi'' then bind_act (imm a0) (\<lambda>x. then_act (set_r a1 x) inc_pc)
     else if n = ''ldr'' then bind_act (get_r a0) (\<lambda>p. bind_act (mem_ref p) (\<lambda>r.
       bind_act (load_ref r) (\<lambda>x. then_act (set_r a1 x) inc_pc)))
     else if n = ''str'' then bind_act (get_r a0) (\<lambda>x. bind_act (get_r a1) (\<lambda>p. bind_act (mem_ref p) (\<lambda>r.
       then_act (store_ref r x) inc_pc)))
     else if n = ''b'' then bind_act (imm a0) set_pc
     else if n = ''bz'' then jump_if (\<lambda>zf. zf \<noteq> 0) a0
     else if n = ''bn'' then jump_if (\<lambda>zf. zf = 0) a0
     else if n = ''call'' then ins_call a0
     else if n = ''ret'' then ins_ret
     else if n = ''sys'' then bind_act (imm a0) (\<lambda>code.
       then_act (set_status (if code = 0 then NORMAL_EXIT else BAD_INS)) inc_pc)
     else if n = ''add'' then data_op (\<lambda>x y. Ret (x + y)) a0 a1 a2
     else if n = ''sub'' then data_op (\<lambda>x y. Ret (x - y)) a0 a1 a2
     else if n = ''mul'' then data_op (\<lambda>x y. Ret (x * y)) a0 a1 a2
     else if n = ''div'' then data_op (\<lambda>x y. if y = 0 then Abort Undefined else Ret (x div y)) a0 a1 a2
     else if n = ''mod'' then data_op (\<lambda>x y. if y = 0 then Abort Undefined else Ret (x mod y)) a0 a1 a2
     else if n = ''and'' then data_op (\<lambda>x y. Ret (and x y)) a0 a1 a2
     else if n = ''or'' then data_op (\<lambda>x y. Ret (or x y)) a0 a1 a2
     else if n = ''xor'' then data_op (\<lambda>x y. Ret (xor x y)) a0 a1 a2
     else if n = ''shl'' then data_op (\<lambda>x y. if y \<ge> 32 then Abort Undefined else Ret (drop_bit (unat y) x)) a0 a1 a2
     else if n = ''shr'' then data_op (\<lambda>x y. if y \<ge> 32 then Abort Undefined else Ret (push_bit (unat y) x)) a0 a1 a2
     else set_status BAD_INS)"

definition arg_at :: "Ins \<Rightarrow> nat \<Rightarrow> int" where
  "arg_at i k = (if length (args i) > k then args i ! k else 0)"

definition cpu_pos :: "CPU \<Rightarrow> nat" where
  "cpu_pos cpu = unat ((ucast (cpu_pc cpu) :: u64) - MEM_CODE_START)"

text \<open>The result tells whether the processor stopped.\<close>

definition cpu_step :: "(CPU, bool) act" where
  "cpu_step = bind_act (gets (\<lambda>cpu. cpu)) (\<lambda>cpu.
    if (ucast (cpu_pc cpu) :: u64) < MEM_CODE_START \<or> (ucast (cpu_pc cpu) :: u64) \<ge> MEM_SIZE
    then then_act (set_status SEGV) (ret True)
    else then_act (in_bounds (cpu_pos cpu < length (rom_ins (cpu_rom cpu)))) (
      let i = rom_ins (cpu_rom cpu) ! cpu_pos cpu in
      then_act (exec_ins (ins_name i) (arg_at i 0) (arg_at i 1) (arg_at i 2)) (
      then_act (modify (\<lambda>c. if cpu_status c = Status_OK then c\<lparr>cpu_prev_pc := cpu_pc cpu\<rparr> else c))
        (gets (\<lambda>c. cpu_status c \<noteq> Status_OK)))))"

section \<open>What every instruction keeps\<close>

text \<open>The registers and the RAM have their size, the program is the same.\<close>

definition cpu_sized :: "ROM \<Rightarrow> CPU \<Rightarrow> bool" where
  "cpu_sized rom cpu \<longleftrightarrow> length (cpu_regs cpu) = 16 \<and> length (cpu_ram cpu) = 1024 \<and> cpu_rom cpu = rom"

text \<open>The previous instruction is none or one of the program.\<close>

definition prev_ok :: "CPU \<Rightarrow> bool" where
  "prev_ok cpu \<longleftrightarrow> cpu_prev_pc cpu = 0 \<or>
    1024 \<le> cpu_prev_pc cpu \<and> unat (cpu_prev_pc cpu) < 1024 + length (rom_ins (cpu_rom cpu))"

abbreviation cpu_frame :: "ROM \<Rightarrow> u32 \<Rightarrow> CPU \<Rightarrow> bool" where
  "cpu_frame rom p cpu \<equiv> cpu_sized rom cpu \<and> cpu_prev_pc cpu = p"

lemma keeps_frame_parts [keeps_rules]:
  "keeps (cpu_frame rom p) (set_status st)" "keeps (cpu_frame rom p) (imm x)" "keeps (cpu_frame rom p) (reg_index k)"
  "keeps (cpu_frame rom p) (set_pc v)" "keeps (cpu_frame rom p) inc_pc" "keeps (cpu_frame rom p) (load_ref r)"
  "keeps (cpu_frame rom p) (store_ref r w)"
  unfolding set_status_def imm_def reg_index_def set_pc_def inc_pc_def load_ref_def
  by (intro keeps_rules keeps_modify; simp add: cpu_sized_def)+
    (auto simp: keeps_def store_ref_def cpu_sized_def then_act_def bind_act_def sb_serial_raw_def raw_size_def split: option.split)

lemma keeps_frame_refs [keeps_rules]:
  "keeps (cpu_frame rom p) (get_r k)" "keeps (cpu_frame rom p) (set_r k v)" "keeps (cpu_frame rom p) (mem_ref addr)"
  unfolding get_r_def set_r_def mem_ref_def by (intro keeps_rules keeps_modify; simp add: cpu_sized_def)+

lemma keeps_frame_exec: "keeps (cpu_frame rom p) (exec_ins n a0 a1 a2)"
  unfolding exec_ins_def data_op_def jump_if_def ins_call_def ins_ret_def
  by (intro keeps_rules keeps_modify; simp add: cpu_sized_def)

lemma unat_up: "unat (ucast (p :: u32) :: u64) = unat p"
proof -
  have "unat p < 2 ^ 64" using unsigned_less [of p, where 'a = nat] by simp
  then show ?thesis by (simp add: unsigned_ucast_eq take_bit_nat_eq_self)
qed

lemma prev_pos: "1024 \<le> (p :: u32) \<Longrightarrow> unat ((ucast p :: u64) - MEM_CODE_START) = unat p - 1024"
  unfolding MEM_CODE_START_def by (subst unat_sub) (simp_all add: word_le_nat_alt unat_up)

lemma cpu_pos_nat:
  "\<not> ((ucast (cpu_pc cpu) :: u64) < MEM_CODE_START \<or> (ucast (cpu_pc cpu) :: u64) \<ge> MEM_SIZE) \<longleftrightarrow>
    1024 \<le> cpu_pc cpu \<and> cpu_pc cpu < 2048"
  by (simp add: MEM_CODE_START_def MEM_SIZE_def word_le_nat_alt word_less_nat_alt not_le not_less unat_up)

lemma cpu_pos_eq: "1024 \<le> cpu_pc cpu \<Longrightarrow> cpu_pos cpu = unat (cpu_pc cpu) - 1024"
  unfolding cpu_pos_def by (rule prev_pos)

text \<open>
  A step that comes back either found no instruction at the program counter, or executed the one
  there.
\<close>

definition ins_at :: "CPU \<Rightarrow> Ins" where
  "ins_at cpu = rom_ins (cpu_rom cpu) ! cpu_pos cpu"

lemma cpu_step_cases:
  assumes "cpu_step cpu = (r, cpu')"
  obtains (outside) "\<not> (1024 \<le> cpu_pc cpu \<and> cpu_pc cpu < 2048)" "r = Ret True" "cpu' = cpu\<lparr>cpu_status := SEGV\<rparr>"
  | (aborted) "cpu' = cpu" "r = Abort Out_of_bounds"
  | (executed) c where "1024 \<le> cpu_pc cpu" "cpu_pos cpu < length (rom_ins (cpu_rom cpu))"
      "exec_ins (ins_name (ins_at cpu)) (arg_at (ins_at cpu) 0) (arg_at (ins_at cpu) 1) (arg_at (ins_at cpu) 2) cpu = (Ret (), c)"
      "cpu' = (if cpu_status c = Status_OK then c\<lparr>cpu_prev_pc := cpu_pc cpu\<rparr> else c)" "r = Ret (cpu_status c \<noteq> Status_OK)"
  | (failed) r1 where "exec_ins (ins_name (ins_at cpu)) (arg_at (ins_at cpu) 0) (arg_at (ins_at cpu) 1) (arg_at (ins_at cpu) 2) cpu = (r1, cpu')"
      "r1 \<noteq> Ret ()" "\<And>b. r \<noteq> Ret b"
proof (cases "1024 \<le> cpu_pc cpu \<and> cpu_pc cpu < 2048")
  case False
  then show ?thesis using assms cpu_pos_nat [of cpu] that(1) by (auto simp: cpu_step_def set_status_def split: if_splits)
next
  case True
  let ?e = "exec_ins (ins_name (ins_at cpu)) (arg_at (ins_at cpu) 0) (arg_at (ins_at cpu) 1) (arg_at (ins_at cpu) 2)"
  have run: "cpu_step cpu = then_act (in_bounds (cpu_pos cpu < length (rom_ins (cpu_rom cpu)))) (then_act ?e (
      then_act (modify (\<lambda>c. if cpu_status c = Status_OK then c\<lparr>cpu_prev_pc := cpu_pc cpu\<rparr> else c))
        (gets (\<lambda>c. cpu_status c \<noteq> Status_OK)))) cpu"
    using True cpu_pos_nat [of cpu] by (auto simp: cpu_step_def ins_at_def Let_def)
  show ?thesis
  proof (cases "cpu_pos cpu < length (rom_ins (cpu_rom cpu))")
    case False
    then show ?thesis using assms run that(2) by simp
  next
    case True': True
    obtain r1 c where c: "?e cpu = (r1, c)" by fastforce
    show ?thesis
    proof (cases r1)
      case (Ret u)
      then show ?thesis using c run assms True True' that(3) [of c] by (simp add: then_act_def bind_act_def split: if_splits)
    qed (use c run assms True' that(4) [of r1] in \<open>auto simp: then_act_def bind_act_def\<close>)
  qed
qed

lemma cpu_step_keeps:
  assumes "cpu_step cpu = (r, cpu')" "cpu_sized rom cpu" "prev_ok cpu"
  shows "cpu_sized rom cpu'" "prev_ok cpu'"
proof -
  have exec: "cpu_frame rom (cpu_prev_pc cpu) c" if "exec_ins n a0 a1 a2 cpu = (r1, c)" for n a0 a1 a2 r1 c
    using keepsD [OF keeps_frame_exec _ that, of rom "cpu_prev_pc cpu"] assms(2) by simp
  have "cpu_sized rom cpu' \<and> prev_ok cpu'"
    using assms(1)
  proof (cases rule: cpu_step_cases)
    case (executed c)
    have "unat (cpu_pc cpu) < 1024 + length (rom_ins (cpu_rom cpu))"
      using executed(1,2) cpu_pos_eq [OF executed(1)] by (simp add: word_le_nat_alt)
    then show ?thesis using exec [OF executed(3)] executed(1,4) assms(2,3) by (auto simp: cpu_sized_def prev_ok_def)
  next
    case (failed r1)
    then show ?thesis using exec [OF failed(1)] assms(2,3) by (auto simp: cpu_sized_def prev_ok_def)
  qed (use assms(2,3) in \<open>auto simp: cpu_sized_def prev_ok_def\<close>)
  then show "cpu_sized rom cpu'" "prev_ok cpu'" by auto
qed

section \<open>What the debugger is told\<close>

definition report_of :: "string \<Rightarrow> UpdateState" where
  "report_of n = (if n = ''call'' then US_CALL_SUB else if n = ''ret'' then US_RET_SUB else US_OK)"

lemma update_infos_run:
  assumes "prev_ok cpu"
  shows "mvm0_get_update_infos cpu = (Ret \<lparr>ud_state = (if cpu_prev_pc cpu = 0 then US_OK
      else case cpu_status cpu of NORMAL_EXIT \<Rightarrow> US_EXIT | Status_OK \<Rightarrow>
        report_of (ins_name (rom_ins (cpu_rom cpu) ! (unat (cpu_prev_pc cpu) - 1024))) | _ \<Rightarrow> US_ERROR),
    ud_act_addr = ucast (cpu_pc cpu)\<rparr>, cpu)"
proof (cases "cpu_prev_pc cpu = 0")
  case False
  then have "1024 \<le> cpu_prev_pc cpu" "unat (cpu_prev_pc cpu) - 1024 < length (rom_ins (cpu_rom cpu))"
    using assms by (auto simp: prev_ok_def word_le_nat_alt)
  then show ?thesis
    using False by (cases "cpu_status cpu") (simp_all add: mvm0_get_update_infos_def Let_def report_of_def prev_pos)
qed (simp add: mvm0_get_update_infos_def)

text \<open>After an instruction that did not stop the processor, the report is about that instruction.\<close>

lemma step_report:
  assumes "cpu_step cpu = (Ret False, cpu')" "cpu_sized rom cpu" "prev_ok cpu"
  shows "mvm0_get_update_infos cpu' =
    (Ret \<lparr>ud_state = report_of (ins_name (ins_at cpu)), ud_act_addr = ucast (cpu_pc cpu')\<rparr>, cpu')"
  using assms(1)
proof (cases rule: cpu_step_cases)
  case (executed c)
  have "cpu_rom c = cpu_rom cpu"
    using keepsD [OF keeps_frame_exec _ executed(3), of rom "cpu_prev_pc cpu"] assms(2) by (simp add: cpu_sized_def)
  moreover have "prev_ok cpu'" by (rule cpu_step_keeps [OF assms])
  moreover have "cpu_pc cpu \<noteq> 0" using executed(1) by auto
  moreover have "cpu_pos cpu = unat (cpu_pc cpu) - 1024" using executed(1) by (rule cpu_pos_eq)
  ultimately show ?thesis using executed(4,5) by (simp add: update_infos_run ins_at_def)
qed auto

text \<open>
  C21. The end of a program in its first instruction goes unreported: when nothing was executed before and
  the step stops the processor, by an exit, a bad instruction or a fault, the debugger stays in its
  running states or stops as after any other instruction, and never becomes \<open>EXIT\<close> or \<open>ERROR\<close>.
\<close>

theorem first_end_unreported:
  assumes "cpu_step cpu = (Ret True, cpu')" "cpu_sized rom cpu" "cpu_prev_pc cpu = 0"
    and "on_update mvm0_api (d\<lparr>d_vm := cpu'\<rparr>) = (Ret (), d')"
  shows "cpu_status cpu' \<noteq> Status_OK \<and> d_state d' \<notin> {EXIT, ERROR} \<and> d_ins_addr d' = ucast (cpu_pc cpu')"
proof -
  have stopped: "cpu_status cpu' \<noteq> Status_OK \<and> cpu_prev_pc cpu' = 0"
    using assms(1)
  proof (cases rule: cpu_step_cases)
    case (executed c)
    then show ?thesis
      using keepsD [OF keeps_frame_exec _ executed(3), of rom "cpu_prev_pc cpu"] assms(2,3) by auto
  qed (use assms(3) in auto)
  then have "vm_call (api_get_update_infos mvm0_api) (d\<lparr>d_vm := cpu'\<rparr>) =
      (Ret \<lparr>ud_state = US_OK, ud_act_addr = ucast (cpu_pc cpu')\<rparr>, d\<lparr>d_vm := cpu'\<rparr>)"
    by (simp add: vm_call_def lift_act_def mvm0_api_def mvm0_get_update_infos_def)
  with stopped assms(4) show ?thesis
    by (auto simp: on_update_def bind_act_def then_act_def track_call_stack_def check_stop_def set_state_def split: if_splits)
qed

definition exit_cpu :: CPU where
  "exit_cpu = snd (cpu_init (CPU_new \<lparr>rom_ins = [\<lparr>def_sym = SYM_NONE, use_sym = SYM_NONE, ins_name = ''sys'', args = [0]\<rparr>],
    rom_sym_defs = [], rom_syms = [], rom_smap = []\<rparr> 0))"

theorem first_end_unreported_witness:
  "cpu_status (snd (cpu_step exit_cpu)) \<noteq> Status_OK \<and>
    d_state (snd (on_update mvm0_api (sample_debugger\<lparr>d_state := RUNNING_TOFINISH, d_vm := snd (cpu_step exit_cpu)\<rparr>))) \<notin> {EXIT, ERROR} \<and>
    d_ins_addr (snd (on_update mvm0_api (sample_debugger\<lparr>d_state := RUNNING_TOFINISH, d_vm := snd (cpu_step exit_cpu)\<rparr>))) =
      ucast (cpu_pc (snd (cpu_step exit_cpu)))"
proof -
  let ?d = "sample_debugger\<lparr>d_state := RUNNING_TOFINISH\<rparr>"
  have "fst (cpu_step exit_cpu) = Ret True" "cpu_sized (cpu_rom exit_cpu) exit_cpu" "cpu_prev_pc exit_cpu = 0"
    "fst (on_update mvm0_api (?d\<lparr>d_vm := snd (cpu_step exit_cpu)\<rparr>)) = Ret ()"
    by code_simp+
  then have "cpu_step exit_cpu = (Ret True, snd (cpu_step exit_cpu))" "cpu_sized (cpu_rom exit_cpu) exit_cpu" "cpu_prev_pc exit_cpu = 0"
    "on_update mvm0_api (?d\<lparr>d_vm := snd (cpu_step exit_cpu)\<rparr>) = (Ret (), snd (on_update mvm0_api (?d\<lparr>d_vm := snd (cpu_step exit_cpu)\<rparr>)))"
    by (simp_all add: prod_eq_iff)
  from first_end_unreported [OF this] show ?thesis by simp
qed

end
