(* ===== verification/Mvm0_Parser.thy ===== *)
theory Mvm0_Parser
  imports Mvm0 Server_App
begin

text \<open>
  The assembler of the machine \<open>mvm0\<close> (\<open>tests/mockvms/mvm0/src/parser.cc\<close>): from the text of a program
  to its \<open>ROM\<close>. A failed assertion ends the process; the program it returns has the symbol table the
  debugger relies on.
\<close>

section \<open>Text\<close>

definition is_wspace :: "char \<Rightarrow> bool" where
  "is_wspace c \<longleftrightarrow> c = CHR '' '' \<or> c = CHR 0x09 \<or> c = CHR 0x0A \<or> c = CHR 0x0D"

definition str_trim :: "string \<Rightarrow> string" where
  "str_trim str = rev (dropWhile is_wspace (rev (dropWhile is_wspace str)))"

lemma rest_shorter: "str \<noteq> [] \<Longrightarrow> length (drop 1 (dropWhile P str)) < length str"
proof -
  assume "str \<noteq> []"
  then have "length (dropWhile P str) \<le> length str" "0 < length str" by (auto simp: length_dropWhile_le)
  then have "length (dropWhile P str) - 1 < length str" by linarith
  then show ?thesis by simp
qed

text \<open>The pieces \<open>std::getline\<close> reads from a stream with a separator, until it reads nothing.\<close>

function str_split :: "string \<Rightarrow> char \<Rightarrow> string list" where
  "str_split str sep = (if str = [] then []
    else takeWhile (\<lambda>c. c \<noteq> sep) str # str_split (drop 1 (dropWhile (\<lambda>c. c \<noteq> sep) str)) sep)"
  by pat_completeness auto
termination
  by (relation "measure (\<lambda>(str, sep). length str)") (auto simp del: length_drop intro: rest_shorter [unfolded One_nat_def])

declare str_split.simps [simp del]

section \<open>Operands\<close>

definition atoi_act :: "string \<Rightarrow> ('s, int) act" where
  "atoi_act s = (case atoi s of None \<Rightarrow> abort Undefined | Some x \<Rightarrow> ret x)"

definition parse_arg :: "string \<Rightarrow> ROM \<Rightarrow> Ins \<Rightarrow> ('s, int \<times> Ins) act" where
  "parse_arg val code ins = then_act (assert_act (val \<noteq> [])) (
    if is_digit (hd val) then bind_act (atoi_act val) (\<lambda>x. ret (x, ins))
    else if hd val = CHR ''r'' then bind_act (atoi_act (tl val)) (\<lambda>x. ret (x, ins))
    else if val = ''sp'' then ret (15, ins)
    else then_act (assert_act (hd val = CHR ''@'')) (case smap_find (rom_smap code) (tl val) of
        None \<Rightarrow> abort Assert_failed
      | Some sym_idx \<Rightarrow> then_act (in_bounds (unat sym_idx < length (rom_sym_defs code)))
          (ret (sint (ucast (MEM_CODE_START + rom_sym_defs code ! unat sym_idx) :: u32), ins\<lparr>use_sym := sym_idx\<rparr>))))"

fun parse_args :: "string list \<Rightarrow> ROM \<Rightarrow> Ins \<Rightarrow> ('s, Ins) act" where
  "parse_args [] code ins = ret ins"
| "parse_args (v # vs) code ins = bind_act (parse_arg v code ins) (\<lambda>(x, ins').
     parse_args vs code (ins'\<lparr>args := args ins' @ [x]\<rparr>))"

section \<open>A program\<close>

record parser =
  p_res :: ROM
  p_ins_idx :: u64
  p_sym_idx :: u64
  p_sym :: string

definition parser_start :: parser where
  "parser_start = \<lparr>p_res = \<lparr>rom_ins = [], rom_sym_defs = [], rom_syms = [], rom_smap = smap_empty\<rparr>,
    p_ins_idx = 0, p_sym_idx = 0, p_sym = []\<rparr>"

text \<open>The body of the loop over the lines: a symbol, or an instruction whose operands are left for later.\<close>

definition parse_line :: "string \<Rightarrow> parser \<Rightarrow> parser" where
  "parse_line l p = (let line = str_trim l; res = p_res p in
    if line = [] then p
    else if hd line = CHR ''@'' then
      p\<lparr>p_sym := tl line,
        p_res := res\<lparr>rom_syms := rom_syms res @ [tl line],
          rom_smap := smap_emplace (tl line) (p_sym_idx p) (rom_smap res),
          rom_sym_defs := rom_sym_defs res @ [p_ins_idx p]\<rparr>,
        p_sym_idx := p_sym_idx p + 1\<rparr>
    else
      p\<lparr>p_res := res\<lparr>rom_ins := rom_ins res @ [\<lparr>def_sym = (if p_sym p = [] then SYM_NONE else p_sym_idx p - 1),
          use_sym = SYM_NONE, ins_name = line, args = []\<rparr>]\<rparr>,
        p_ins_idx := p_ins_idx p + 1, p_sym := []\<rparr>)"

text \<open>The second loop splits each instruction into its name and its operands.\<close>

definition parse_ins :: "ROM \<Rightarrow> Ins \<Rightarrow> ('s, Ins) act" where
  "parse_ins code ins = (let ws = str_split (ins_name ins) CHR '' '' in
    then_act (in_bounds (ws \<noteq> [])) (parse_args (tl ws) code (ins\<lparr>ins_name := hd ws\<rparr>)))"

definition parse_is :: "string \<Rightarrow> ('s, ROM) act" where
  "parse_is text = (let res = p_res (fold parse_line (str_split text CHR 0x0A) parser_start) in
    bind_act (map_act (parse_ins res) (rom_ins res)) (\<lambda>insns. ret (res\<lparr>rom_ins := insns\<rparr>)))"

text \<open>The contents of the files are a parameter; a file that cannot be opened reads as empty.\<close>

definition parse_file :: "(string \<Rightarrow> string) \<Rightarrow> string \<Rightarrow> ('s, ROM) act" where
  "parse_file files path = parse_is (files path)"

section \<open>The symbol table\<close>

text \<open>
  Symbols have a name and the position of an instruction; a pending symbol is the last one; the
  symbol an instruction carries is defined there.
\<close>

definition defs_ok :: "ROM \<Rightarrow> bool" where
  "defs_ok rom \<longleftrightarrow> (\<forall>i < length (rom_ins rom). def_sym (rom_ins rom ! i) \<noteq> SYM_NONE \<longrightarrow>
    unat (def_sym (rom_ins rom ! i)) < length (rom_sym_defs rom) \<and>
    unat (rom_sym_defs rom ! unat (def_sym (rom_ins rom ! i))) = i)"

definition parser_ok :: "nat \<Rightarrow> parser \<Rightarrow> bool" where
  "parser_ok n p \<longleftrightarrow> length (rom_ins (p_res p)) + length (rom_syms (p_res p)) \<le> n \<and>
    length (rom_sym_defs (p_res p)) = length (rom_syms (p_res p)) \<and>
    unat (p_sym_idx p) = length (rom_syms (p_res p)) \<and> unat (p_ins_idx p) = length (rom_ins (p_res p)) \<and>
    (p_sym p \<noteq> [] \<longrightarrow> rom_sym_defs (p_res p) \<noteq> [] \<and> last (rom_sym_defs (p_res p)) = p_ins_idx p) \<and> defs_ok (p_res p)"

lemma parse_line_ok:
  assumes "parser_ok n p" "n < 2 ^ 32"
  shows "parser_ok (Suc n) (parse_line l p)"
proof -
  let ?r = "p_res p"
  have p: "length (rom_ins ?r) + length (rom_syms ?r) \<le> n" "length (rom_sym_defs ?r) = length (rom_syms ?r)"
    "unat (p_sym_idx p) = length (rom_syms ?r)" "unat (p_ins_idx p) = length (rom_ins ?r)" "defs_ok ?r"
    "p_sym p \<noteq> [] \<Longrightarrow> rom_sym_defs ?r \<noteq> [] \<and> last (rom_sym_defs ?r) = p_ins_idx p"
    using assms(1) by (auto simp: parser_ok_def)
  have inc: "unat (p_sym_idx p + 1) = Suc (length (rom_syms ?r))" "unat (p_ins_idx p + 1) = Suc (length (rom_ins ?r))"
    using p(1,3,4) assms(2) by (simp_all add: unat_word_ariths)
  consider "str_trim l = []" | "str_trim l \<noteq> []" "hd (str_trim l) = CHR ''@''" | "str_trim l \<noteq> []" "hd (str_trim l) \<noteq> CHR ''@''"
    by blast
  then show ?thesis
  proof cases
    case 1
    then show ?thesis using p by (simp add: parse_line_def parser_ok_def)
  next
    case 2
    have "defs_ok (?r\<lparr>rom_syms := ss, rom_smap := m, rom_sym_defs := rom_sym_defs ?r @ [x]\<rparr>)" for ss m x
      using p(5) by (auto simp: defs_ok_def nth_append)
    then show ?thesis using 2 p inc by (simp add: parse_line_def parser_ok_def Let_def)
  next
    case 3
    let ?d = "if p_sym p = [] then SYM_NONE else p_sym_idx p - 1"
    have "unat ?d < length (rom_sym_defs ?r) \<and> rom_sym_defs ?r ! unat ?d = p_ins_idx p" if "?d \<noteq> SYM_NONE"
    proof -
      have "p_sym p \<noteq> []" using that by auto
      with p(6) have l: "rom_sym_defs ?r \<noteq> []" "last (rom_sym_defs ?r) = p_ins_idx p" by auto
      then have "1 \<le> p_sym_idx p" using p(2,3) by (cases "p_sym_idx p = 0") (auto simp: word_le_nat_alt unat_gt_0 Suc_le_eq)
      then have "unat (p_sym_idx p - 1) = length (rom_sym_defs ?r) - 1" using p(2,3) by (simp add: unat_sub)
      with l \<open>p_sym p \<noteq> []\<close> show ?thesis by (simp add: last_conv_nth)
    qed
    then have "defs_ok (?r\<lparr>rom_ins := rom_ins ?r @ [\<lparr>def_sym = ?d, use_sym = u, ins_name = nm, args = xs\<rparr>]\<rparr>)" for u nm xs
      using p(4,5) by (auto simp: defs_ok_def nth_append less_Suc_eq)
    then show ?thesis using 3 p inc by (simp add: parse_line_def parser_ok_def Let_def)
  qed
qed

lemma parse_lines_ok:
  "parser_ok n p \<Longrightarrow> n + length ls \<le> 2 ^ 32 \<Longrightarrow> parser_ok (n + length ls) (fold parse_line ls p)"
proof (induction ls arbitrary: n p)
  case (Cons l ls)
  then have "parser_ok (Suc n) (parse_line l p)" by (intro parse_line_ok) auto
  from Cons.IH [OF this] Cons.prems(2) show ?case by simp
qed simp

lemma parse_arg_def_sym: "parse_arg v code i s = (Ret (x, i'), s') \<Longrightarrow> def_sym i' = def_sym i"
  by (auto simp: parse_arg_def atoi_act_def bind_act_eq_Ret then_act_eq_Ret split: if_splits option.splits)

lemma parse_args_def_sym: "parse_args vs code i s = (Ret i', s') \<Longrightarrow> def_sym i' = def_sym i"
  by (induction vs arbitrary: i s) (fastforce simp: bind_act_eq_Ret dest: parse_arg_def_sym)+

lemma parse_all_def_sym: "map_act (parse_ins code) is s = (Ret js, s') \<Longrightarrow> map def_sym js = map def_sym is"
proof (induction "is" arbitrary: js s)
  case (Cons i "is")
  then obtain j s1 js1 where j: "parse_ins code i s = (Ret j, s1)" "map_act (parse_ins code) is s1 = (Ret js1, s')" "js = j # js1"
    by (auto simp: bind_act_eq_Ret)
  have "def_sym j = def_sym i"
    using j(1) by (auto simp: parse_ins_def Let_def then_act_eq_Ret split: if_splits dest: parse_args_def_sym)
  with Cons.IH [OF j(2)] j(3) show ?case by simp
qed simp

lemma length_str_split: "length (str_split s c) \<le> length s"
proof (induction s c rule: str_split.induct)
  case (1 s c)
  note IH = this
  show ?case
  proof (cases "s = []")
    case False
    with IH rest_shorter [OF False, of "\<lambda>d. d \<noteq> c"] show ?thesis by (subst str_split.simps) simp
  qed (simp add: str_split.simps)
qed

text \<open>
  The names: the map finds the first symbol of a name, for the names of the program and no other; a
  symbol is defined at an instruction or, at the end of the file, just past the last one.
\<close>

definition names_ok :: "ROM \<Rightarrow> bool" where
  "names_ok rom \<longleftrightarrow> (\<forall>name idx. smap_find (rom_smap rom) name = Some idx \<longrightarrow>
      unat idx < length (rom_syms rom) \<and> rom_syms rom ! unat idx = name \<and> (\<forall>j < unat idx. rom_syms rom ! j \<noteq> name)) \<and>
    (\<forall>name \<in> set (rom_syms rom). smap_find (rom_smap rom) name \<noteq> None) \<and>
    (\<forall>d \<in> set (rom_sym_defs rom). unat d \<le> length (rom_ins rom))"

text \<open>The operands: an instruction that carries a used symbol has the address of that symbol as an operand.\<close>

definition uses_of :: "ROM \<Rightarrow> Ins \<Rightarrow> bool" where
  "uses_of rom i \<longleftrightarrow> (use_sym i \<noteq> SYM_NONE \<longrightarrow> unat (use_sym i) < length (rom_sym_defs rom) \<and>
    (\<exists>x \<in> set (args i). word_of_int x = (ucast (MEM_CODE_START + rom_sym_defs rom ! unat (use_sym i)) :: u32)))"

definition uses_ok :: "ROM \<Rightarrow> bool" where
  "uses_ok rom \<longleftrightarrow> (\<forall>i \<in> set (rom_ins rom). uses_of rom i)"

definition table_ok :: "ROM \<Rightarrow> bool" where
  "table_ok rom \<longleftrightarrow> smap_ok (rom_smap rom) \<and> names_ok rom \<and> (\<forall>i \<in> set (rom_ins rom). use_sym i = SYM_NONE)"

lemma names_ok_symbol:
  assumes "smap_ok (rom_smap rom)" "names_ok rom" "unat k = length (rom_syms rom)" "unat d = length (rom_ins rom)"
  shows "names_ok (rom\<lparr>rom_syms := rom_syms rom @ [n], rom_smap := smap_emplace n k (rom_smap rom),
    rom_sym_defs := rom_sym_defs rom @ [d]\<rparr>)"
proof -
  let ?m = "smap_emplace n k (rom_smap rom)" and ?ss = "rom_syms rom @ [n]"
  have old: "unat idx < length (rom_syms rom) \<and> rom_syms rom ! unat idx = name \<and> (\<forall>j < unat idx. rom_syms rom ! j \<noteq> name)"
    if "smap_find (rom_smap rom) name = Some idx" for name idx
    using assms(2) that by (simp add: names_ok_def)
  have new: "n \<notin> set (rom_syms rom)" if "smap_find (rom_smap rom) n = None"
    using assms(2) that by (auto simp: names_ok_def)
  have "unat idx < length ?ss \<and> ?ss ! unat idx = name \<and> (\<forall>j < unat idx. ?ss ! j \<noteq> name)"
    if f: "smap_find ?m name = Some idx" for name idx
  proof (cases "name = n \<and> smap_find (rom_smap rom) n = None")
    case True
    then have "idx = k" using f assms(1) by (simp add: smap_find_emplace)
    then show ?thesis using new True assms(3) by (auto simp: nth_append in_set_conv_nth)
  next
    case False
    then have "smap_find (rom_smap rom) name = Some idx" using f assms(1) by (auto simp: smap_find_emplace)
    from old [OF this] show ?thesis by (simp add: nth_append)
  qed
  moreover have "\<forall>name \<in> set ?ss. smap_find ?m name \<noteq> None"
    using assms(1,2) by (simp add: smap_find_emplace names_ok_def)
  moreover have "\<forall>x \<in> set (rom_sym_defs rom @ [d]). unat x \<le> length (rom_ins rom)"
    using assms(2,4) by (simp add: names_ok_def)
  ultimately show ?thesis unfolding names_ok_def by simp
qed

lemma parse_line_table:
  assumes "table_ok (p_res p)" "parser_ok n p"
  shows "table_ok (p_res (parse_line l p))"
proof -
  let ?r = "p_res p"
  have p: "smap_ok (rom_smap ?r)" "names_ok ?r" "unat (p_sym_idx p) = length (rom_syms ?r)" "unat (p_ins_idx p) = length (rom_ins ?r)"
    "\<forall>i \<in> set (rom_ins ?r). use_sym i = SYM_NONE"
    using assms by (simp_all add: table_ok_def parser_ok_def)
  have "names_ok (?r\<lparr>rom_ins := rom_ins ?r @ [i]\<rparr>)" for i
    using p(2) by (fastforce simp: names_ok_def)
  with p names_ok_symbol [OF p(1-4), of "tl (str_trim l)"] show ?thesis
    by (auto simp: parse_line_def Let_def table_ok_def smap_ok_emplace)
qed

lemma parse_lines_table:
  "parser_ok n p \<Longrightarrow> table_ok (p_res p) \<Longrightarrow> n + length ls \<le> 2 ^ 32 \<Longrightarrow> table_ok (p_res (fold parse_line ls p))"
proof (induction ls arbitrary: n p)
  case (Cons l ls)
  then have "parser_ok (Suc n) (parse_line l p)" "table_ok (p_res (parse_line l p))"
    using parse_line_ok [of n p l] parse_line_table [of p n l] by simp_all
  from Cons.IH [OF this] Cons.prems(3) show ?case by simp
qed simp

lemma parse_arg_uses:
  assumes "parse_arg v code i s = (Ret (x, i'), s')" "uses_of code i"
  shows "uses_of code (i'\<lparr>args := args i' @ [x]\<rparr>)"
  using assms
  by (auto simp: parse_arg_def atoi_act_def uses_of_def bind_act_eq_Ret then_act_eq_Ret split: if_splits option.splits)

lemma parse_args_uses: "parse_args vs code i s = (Ret i', s') \<Longrightarrow> uses_of code i \<Longrightarrow> uses_of code i'"
proof (induction vs arbitrary: i s)
  case (Cons v vs)
  then show ?case by (fastforce simp: bind_act_eq_Ret dest: parse_arg_uses)
qed simp

lemma parse_all_uses:
  "map_act (parse_ins code) is s = (Ret js, s') \<Longrightarrow> \<forall>i \<in> set is. use_sym i = SYM_NONE \<Longrightarrow> \<forall>j \<in> set js. uses_of code j"
proof (induction "is" arbitrary: js s)
  case (Cons i "is")
  then obtain j s1 js1 where j: "parse_ins code i s = (Ret j, s1)" "map_act (parse_ins code) is s1 = (Ret js1, s')" "js = j # js1"
    by (auto simp: bind_act_eq_Ret)
  have "uses_of code (i\<lparr>ins_name := n\<rparr>)" for n using Cons.prems(2) by (simp add: uses_of_def)
  then have "uses_of code j"
    using j(1) by (auto simp: parse_ins_def Let_def then_act_eq_Ret split: if_splits dest: parse_args_uses)
  with Cons.IH [OF j(2)] Cons.prems(2) j(3) show ?case by simp
qed simp

text \<open>A name is found with its own information.\<close>

lemma names_lookup:
  assumes "rom_ok (cpu_rom cpu)" "names_ok (cpu_rom cpu)" "name \<in> set (rom_syms (cpu_rom cpu))" "length (rom_ins (cpu_rom cpu)) < 2 ^ 32"
  shows "\<exists>sid infos. mvm0_find_sym_id name cpu = (Ret sid, cpu) \<and> mvm0_get_symb_infos sid cpu = (Ret infos, cpu) \<and>
    si_name infos = name \<and> 1024 \<le> unat (si_addr infos) \<and> unat (si_addr infos) \<le> 1024 + length (rom_ins (cpu_rom cpu))"
proof -
  let ?r = "cpu_rom cpu"
  obtain idx where idx: "smap_find (rom_smap ?r) name = Some idx" using assms(2,3) by (auto simp: names_ok_def)
  then have i: "unat idx < length (rom_syms ?r)" "rom_syms ?r ! unat idx = name" using assms(2) by (auto simp: names_ok_def)
  then have len: "unat idx < length (rom_sym_defs ?r)" "unat idx < 2 ^ 32" using assms(1) by (auto simp: rom_ok_def)
  then have s: "unat (ucast idx :: vm_sym_t) = unat idx" by (simp add: unsigned_ucast_eq unsigned_take_bit_eq take_bit_nat_eq_self)
  have d: "unat (rom_sym_defs ?r ! unat idx) \<le> length (rom_ins ?r)" using assms(2) len(1) by (simp add: names_ok_def)
  then have "unat (MEM_CODE_START + rom_sym_defs ?r ! unat idx) = 1024 + unat (rom_sym_defs ?r ! unat idx)"
    using assms(4) by (simp add: MEM_CODE_START_def unat_word_ariths)
  then show ?thesis
    using i len s d idx by (simp add: mvm0_find_sym_id_def mvm0_get_symb_infos_def bind_act_def then_act_def not_le)
qed

text \<open>
  C20. The parser establishes what the debugger relies on: in every program it accepts each symbol an
  instruction carries is defined at that instruction; the names are found as the first symbol of
  that name; symbols are defined inside the program or, as labels at the end of the file, just past
  its last instruction; and an instruction that uses a symbol has its address as an operand. So on a
  processor with that program \<open>find_sym_id\<close> and \<open>get_symb_infos\<close> find every name of the program, with
  its own information, and reject every other name with an error.
\<close>

theorem parse_symbols_ok:
  assumes "length src < 2 ^ 32" "parse_is src s = (Ret rom, s')"
  shows "rom_ok rom \<and> names_ok rom \<and> uses_ok rom \<and> (\<forall>cpu name. cpu_rom cpu = rom \<longrightarrow>
    (if name \<in> set (rom_syms rom) then \<exists>sid infos. mvm0_find_sym_id name cpu = (Ret sid, cpu) \<and>
       mvm0_get_symb_infos sid cpu = (Ret infos, cpu) \<and> si_name infos = name \<and>
       1024 \<le> unat (si_addr infos) \<and> unat (si_addr infos) \<le> 1024 + length (rom_ins rom)
     else mvm0_find_sym_id name cpu = (Throw ''Invalid symbol name'', cpu)))"
proof -
  let ?p = "fold parse_line (str_split src CHR 0x0A) parser_start"
  have len: "length (str_split src CHR 0x0A) < 2 ^ 32" using assms(1) length_str_split [of src "CHR 0x0A"] by linarith
  have start: "parser_ok 0 parser_start" "table_ok (p_res parser_start)"
    by (simp_all add: parser_ok_def parser_start_def defs_ok_def table_ok_def names_ok_def smap_empty_def)
  have ok: "parser_ok (length (str_split src CHR 0x0A)) ?p" using parse_lines_ok [OF start(1)] len by force
  have table: "table_ok (p_res ?p)" using parse_lines_table [OF start] len by force
  obtain insns s1 where i: "map_act (parse_ins (p_res ?p)) (rom_ins (p_res ?p)) s = (Ret insns, s1)" "rom = p_res ?p\<lparr>rom_ins := insns\<rparr>"
    using assms(2) by (auto simp: parse_is_def Let_def bind_act_eq_Ret)
  have defs: "map def_sym insns = map def_sym (rom_ins (p_res ?p))" by (rule parse_all_def_sym [OF i(1)])
  then have same: "length insns = length (rom_ins (p_res ?p))" by (rule map_eq_imp_length_eq)
  have "def_sym (insns ! k) = def_sym (rom_ins (p_res ?p) ! k)" if "k < length insns" for k
    using that same arg_cong [OF defs, of "\<lambda>xs. xs ! k"] by simp
  with ok i(2) same len have rom: "rom_ok rom" "length (rom_ins rom) < 2 ^ 32"
    by (auto simp: rom_ok_def parser_ok_def defs_ok_def list_all_iff)
  have names: "names_ok rom" using table i(2) same by (simp add: table_ok_def names_ok_def)
  have "uses_ok rom"
    using parse_all_uses [OF i(1)] table i(2) by (simp add: table_ok_def uses_ok_def uses_of_def)
  moreover have "smap_find (rom_smap rom) name = None" if "name \<notin> set (rom_syms rom)" for name
    using names that nth_mem by (cases "smap_find (rom_smap rom) name") (auto simp: names_ok_def)
  then have "mvm0_find_sym_id name cpu = (Throw ''Invalid symbol name'', cpu)" if "cpu_rom cpu = rom" "name \<notin> set (rom_syms rom)" for name cpu
    using that by (simp add: mvm0_find_sym_id_def bind_act_def)
  ultimately show ?thesis using rom names names_lookup by auto
qed

definition add_source :: string where
  "add_source = ''@main'' @ nl @ '' movi 12 r0'' @ nl @ '' call @sub'' @ nl @ '' sys 0'' @ nl @ nl @
    ''@sub'' @ nl @ '' add r0 r0 r0'' @ nl @ '' ret'' @ nl"

definition add_rom :: ROM where
  "add_rom = \<lparr>rom_ins = [\<lparr>def_sym = 0, use_sym = SYM_NONE, ins_name = ''movi'', args = [12, 0]\<rparr>,
      \<lparr>def_sym = SYM_NONE, use_sym = 1, ins_name = ''call'', args = [1027]\<rparr>,
      \<lparr>def_sym = SYM_NONE, use_sym = SYM_NONE, ins_name = ''sys'', args = [0]\<rparr>,
      \<lparr>def_sym = 1, use_sym = SYM_NONE, ins_name = ''add'', args = [0, 0, 0]\<rparr>,
      \<lparr>def_sym = SYM_NONE, use_sym = SYM_NONE, ins_name = ''ret'', args = []\<rparr>],
    rom_sym_defs = [0, 3], rom_syms = [''main'', ''sub''], rom_smap = [(''main'', 0), (''sub'', 1)]\<rparr>"

lemma add_parsed: "parse_is add_source () = (Ret add_rom, ())"
  by code_simp

theorem parse_symbols_ok_witness:
  "rom_ok add_rom \<and> names_ok add_rom \<and> uses_ok add_rom \<and>
    (\<exists>sid infos. mvm0_find_sym_id ''sub'' (sample_cpu\<lparr>cpu_rom := add_rom\<rparr>) = (Ret sid, sample_cpu\<lparr>cpu_rom := add_rom\<rparr>) \<and>
      mvm0_get_symb_infos sid (sample_cpu\<lparr>cpu_rom := add_rom\<rparr>) = (Ret infos, sample_cpu\<lparr>cpu_rom := add_rom\<rparr>) \<and> si_name infos = ''sub'')"
proof -
  have "length add_source < 2 ^ 32" by (simp add: add_source_def nl_def)
  from parse_symbols_ok [OF this add_parsed] have ok: "rom_ok add_rom" "names_ok add_rom" "uses_ok add_rom"
    and find: "\<And>cpu name. cpu_rom cpu = add_rom \<Longrightarrow> name \<in> set (rom_syms add_rom) \<Longrightarrow> \<exists>sid infos.
      mvm0_find_sym_id name cpu = (Ret sid, cpu) \<and> mvm0_get_symb_infos sid cpu = (Ret infos, cpu) \<and> si_name infos = name"
    by (simp_all, meson)
  show ?thesis
    using ok find [of "sample_cpu\<lparr>cpu_rom := add_rom\<rparr>" "''sub''"] by (simp add: add_rom_def)
qed

end
