(* ===== verification/Transparency.thy ===== *)
theory Transparency
  imports Server_App_Cli
begin

text \<open>
  Debugging does not disturb the program. The locale \<open>observed\<close> is the contract of a machine whose
  queries do not change it; inside, every operation of the debugger, of its clients and of the
  server on standard input but the two that write registers and memory leaves the machine as it is.
\<close>

section \<open>Procedures that keep a predicate\<close>

definition holds :: "('s \<Rightarrow> bool) \<Rightarrow> ('s, 'a) proc \<Rightarrow> bool" where
  "holds P m \<longleftrightarrow> (\<forall>s r s'. P s \<longrightarrow> m s = Some (r, s') \<longrightarrow> P s')"

named_theorems holds_rules \<open>procedures that keep a predicate\<close>

lemma holdsD: "holds P m \<Longrightarrow> P s \<Longrightarrow> m s = Some (r, s') \<Longrightarrow> P s'"
  by (simp add: holds_def)

lemma holds_bind [holds_rules]:
  assumes "holds P m" "\<And>x. holds P (f x)"
  shows "holds P (bind_proc m f)"
  unfolding holds_def
proof (intro allI impI)
  fix s r s'
  assume s: "P s" and run: "bind_proc m f s = Some (r, s')"
  then obtain r1 s1 where m: "m s = Some (r1, s1)" by (auto simp: bind_proc_def split: bind_splits)
  with assms(1) s have "P s1" by (rule holdsD)
  with run m holdsD [OF assms(2)] show "P s'" by (cases r1) (auto simp: bind_proc_def)
qed

lemma holds_proc_of [holds_rules]: "keeps P m \<Longrightarrow> holds P (proc_of m)"
  by (auto simp: holds_def dest: keepsD)

lemma holds_if [holds_rules]: "(b \<Longrightarrow> holds P m) \<Longrightarrow> (\<not> b \<Longrightarrow> holds P n) \<Longrightarrow> holds P (if b then m else n)"
  by simp

section \<open>Commands that do not write\<close>

definition quiet :: "string \<Rightarrow> bool" where
  "quiet line \<longleftrightarrow> split_args line = [] \<or> hd (split_args line) \<notin> {''sreg'', ''smem''}"

fun quiet_request :: "request \<Rightarrow> bool" where
  "quiet_request (Rq_SetRegs r) = False"
| "quiet_request (Rq_SetRegsVar r) = False"
| "quiet_request (Rq_WriteMem r) = False"
| "quiet_request (Rq_WriteMemVar r) = False"
| "quiet_request _ = True"

abbreviation vm_is :: "'v \<Rightarrow> 'v Debugger \<Rightarrow> bool" where
  "vm_is v d \<equiv> d_vm d = v"

abbreviation peer_is :: "'v \<Rightarrow> 'v Debugger DBClient \<Rightarrow> bool" where
  "peer_is v c \<equiv> d_vm (c_peer c) = v"

abbreviation ctx_is :: "'v \<Rightarrow> ('v, 'k) cli_ctx \<Rightarrow> bool" where
  "ctx_is v x \<equiv> d_vm (cc_db x) = v \<and> list_all quiet (e_stdin (cc_env x))"

fun cli_only :: "('v, 'k) handler \<Rightarrow> bool" where
  "cli_only (Cli_handler h) = True"
| "cli_only (Data_handler h) = False"

definition handler_is :: "'v \<Rightarrow> ('v, 'k) handler_ctx \<Rightarrow> bool" where
  "handler_is v = (\<lambda>(h, d, e). cli_only h \<and> d_vm d = v \<and> list_all quiet (e_stdin e))"

definition multi_is :: "'v \<Rightarrow> ('v, 'k) multi_ctx \<Rightarrow> bool" where
  "multi_is v = (\<lambda>(m, d, e). list_all cli_only (mc_wait m) \<and> pred_option cli_only (mc_main m) \<and> d_vm d = v \<and>
    list_all quiet (e_stdin e))"

definition app_is :: "'v \<Rightarrow> ('v, 'k) ServerApp \<Rightarrow> bool" where
  "app_is v a \<longleftrightarrow> \<not> sc_mode_tcp (sa_conf a) \<and> list_all quiet (e_stdin (sa_env a)) \<and> pred_option (vm_is v) (sa_db a) \<and>
    pred_option (\<lambda>m. list_all cli_only (mc_wait m) \<and> pred_option cli_only (mc_main m)) (sa_client a)"

declare keeps_vm_call [keeps_rules del]

lemma keeps_vm_call_is: "keeps (\<lambda>w. w = v) m \<Longrightarrow> keeps (vm_is v) (vm_call m)"
  by (auto simp: keeps_def vm_call_def lift_act_def split: prod.split)

lemma keeps_impl_is: "keeps (vm_is v) m \<Longrightarrow> keeps (peer_is v) (impl_call m)"
  by (auto simp: keeps_def impl_call_def lift_act_def split: prod.split)

lemma keeps_client_is: "keeps (peer_is v) m \<Longrightarrow> keeps (ctx_is v) (on_client m)"
  by (auto simp: keeps_def on_client_def lift_act_def split: prod.split) (metis DBClient.select_convs(1) DBClient.surjective DBClient.update_convs(1) snd_conv)

lemma keeps_peer_modify: "(\<And>c. c_peer (f c) = c_peer c) \<Longrightarrow> keeps (peer_is v) (modify f)"
  by (rule keeps_modify) simp

lemma keeps_peer_when_stopped: "keeps (vm_is v) m \<Longrightarrow> keeps (peer_is v) (when_stopped m)"
  unfolding when_stopped_def assert_state_def by (intro keeps_rules keeps_impl_is)

lemma keeps_peer_cache [keeps_rules]:
  "keeps (peer_is v) (cache_pos r)" "keeps (peer_is v) (cached_reg r)" "keeps (peer_is v) (set_cached_val r b)"
  unfolding cache_pos_def cached_reg_def set_cached_val_def by (intro keeps_rules keeps_peer_modify; simp)+

lemma keeps_peer_missing [keeps_rules]: "keeps (peer_is v) (missing_vals rs)"
  by (induction rs; unfold missing_vals.simps) (intro keeps_rules | assumption)+

text \<open>Nothing of the handler but the calls on its client touches the machine.\<close>

lemma keeps_ctx_modify:
  "(\<And>x. cc_db (f x) = cc_db x \<and> e_stdin (cc_env (f x)) = e_stdin (cc_env x)) \<Longrightarrow> keeps (ctx_is v) (modify f)"
  by (rule keeps_modify) simp

lemma keeps_ctx_parts [keeps_rules]:
  "keeps (ctx_is v) (put_out t)" "keeps (ctx_is v) (set_cli_state st)" "keeps (ctx_is v) (set_sigint b)"
  "keeps (ctx_is v) on_disconnect"
  unfolding put_out_def set_cli_state_def set_sigint_def on_disconnect_def
  by (intro keeps_rules keeps_ctx_modify; simp)+

lemma keeps_ctx_signal [keeps_rules]: "keeps (ctx_is v) take_signal"
  by (auto simp: take_signal_def keeps_def then_act_def bind_act_def split: list.split)

lemma keeps_ctx_getline: "keeps (ctx_is v) getline"
  by (auto simp: getline_def keeps_def then_act_def bind_act_def split: list.split)

lemma getline_quiet: "ctx_is v x \<Longrightarrow> getline x = (Ret l, x') \<Longrightarrow> quiet l"
  by (auto simp: getline_def quiet_def split_args.simps [of "[]"] then_act_def bind_act_def split: list.splits)

section \<open>A machine whose queries do not change it\<close>

locale observed =
  fixes api :: "'v VMApi"
  assumes q_infos: "keeps (\<lambda>w. w = v) (api_get_vm_infos api)"
    and q_update: "keeps (\<lambda>w. w = v) (api_get_update_infos api)"
    and q_reg: "keeps (\<lambda>w. w = v) (api_get_reg api r ri val_only)"
    and q_find_reg: "keeps (\<lambda>w. w = v) (api_find_reg_id api name)"
    and q_mem: "keeps (\<lambda>w. w = v) (api_read_mem api a n)"
    and q_symbols: "keeps (\<lambda>w. w = v) (api_get_symbols api a n)"
    and q_symbol: "keeps (\<lambda>w. w = v) (api_get_symb_infos api s)"
    and q_find_symbol: "keeps (\<lambda>w. w = v) (api_find_sym_id api name)"
    and q_code: "keeps (\<lambda>w. w = v) (api_get_code_text api a)"
begin

lemmas queries = q_infos q_update q_reg q_find_reg q_mem q_symbols q_symbol q_find_symbol q_code

lemma keeps_flow [keeps_rules]:
  "keeps (vm_is v) (on_init api)" "keeps (vm_is v) (on_update api)" "keeps (vm_is v) (resume type)" "keeps (vm_is v) stop"
  unfolding on_init_def on_update_def track_call_stack_def check_stop_def resume_def stop_def set_state_def
  by (intro keeps_rules keeps_vm_call_is keeps_modify queries; simp)+

lemma keeps_breakpoints [keeps_rules]:
  "keeps (vm_is v) (add_breakpoint a)" "keeps (vm_is v) (del_breakpoint a)" "keeps (vm_is v) (has_breakpoint a)"
  unfolding add_breakpoint_def del_breakpoint_def has_breakpoint_def by (intro keeps_rules keeps_modify; simp)+

lemma keeps_regs [keeps_rules]:
  "keeps (vm_is v) (load_reg api r)" "keeps (vm_is v) (get_reg api r)" "keeps (vm_is v) (get_reg_infos api r)"
  "keeps (vm_is v) (find_reg_id api name)"
  unfolding get_reg_def get_reg_infos_def find_reg_id_def reg_entry_def load_reg_def
  by (intro keeps_rules keeps_vm_call_is keeps_modify queries; simp)+

lemma keeps_mem [keeps_rules]: "keeps (vm_is v) (read_mem api a n)" "keeps (vm_is v) (get_code_text api a)"
  unfolding read_mem_def get_code_text_def by (intro keeps_vm_call_is queries)+

lemma keeps_symbol [keeps_rules]: "keeps (vm_is v) (load_symbol api s)"
  unfolding load_symbol_def by (intro keeps_rules keeps_vm_call_is keeps_modify queries; simp)

lemma keeps_symbols [keeps_rules]:
  "keeps (vm_is v) (get_symbols api a n)" "keeps (vm_is v) (get_symbol_infos api s)" "keeps (vm_is v) (find_sym_id api name)"
  unfolding get_symbols_def get_symbol_infos_def find_sym_id_def preload_symbols_def preload_high_def load_symbols_in_def
    syms_range_of_def syms_set_loaded_def
  by (intro keeps_rules keeps_vm_call_is keeps_modify queries; simp)+

lemma keeps_code_loop [keeps_rules]: "keeps (vm_is v) (code_text_loop api n a)"
  by (induction n arbitrary: a; unfold code_text_loop.simps) (intro keeps_rules | assumption)+

lemma keeps_vms [keeps_rules]:
  "keeps (vm_is v) (vms_get_regs api ids bufs n)" "keeps (vm_is v) (vms_get_regs_infos api ids infos n)"
  "keeps (vm_is v) (vms_find_regs_ids api names ids n)" "keeps (vm_is v) (vms_read_mem api addrs sizes bufs n)"
  "keeps (vm_is v) (vms_get_symbols_by_ids api sids syms n)" "keeps (vm_is v) (vms_get_symbols_by_addr api a sz)"
  "keeps (vm_is v) (vms_get_symbols_by_names api names syms n)" "keeps (vm_is v) (vms_get_code_text api a n)"
  "keeps (vm_is v) (vms_add_breakpoints addrs n)" "keeps (vm_is v) (vms_del_breakpoints addrs n)"
  "keeps (vm_is v) (vms_check_stopped udp)" "keeps (vm_is v) (vms_connect udp)" "keeps (vm_is v) (vms_resume type)"
  "keeps (vm_is v) vms_stop"
  unfolding vms_defs vms_connect_def vms_resume_def vms_stop_def by (intro keeps_rules)+

lemma keeps_request: "quiet_request rq \<Longrightarrow> keeps (vm_is v) (run_request api rq)"
  by (cases rq) (simp_all, (intro keeps_rules)+)

lemma keeps_fetch_infos [keeps_rules]: "keeps (peer_is v) (fetch_reg_infos_by_id (vmside_impl api) ids)"
  unfolding fetch_reg_infos_by_id_def vmside_impl_sel
  by (intro keeps_rules keeps_impl_is keeps_peer_modify) (simp add: Let_def index_infos_client)

lemma keeps_fetches [keeps_rules]:
  "keeps (peer_is v) (fetch_reg_infos_by_name (vmside_impl api) names)" "keeps (peer_is v) (fetch_reg_vals_by_id (vmside_impl api) ids)"
  unfolding fetch_reg_infos_by_name_def fetch_reg_vals_by_id_def vmside_impl_sel by (intro keeps_rules keeps_impl_is)+

lemma keeps_client [keeps_rules]:
  "keeps (peer_is v) (cl_connect (vmside_impl api))" "keeps (peer_is v) (cl_stop (vmside_impl api))"
  "keeps (peer_is v) (cl_check_stopped (vmside_impl api))" "keeps (peer_is v) (cl_resume (vmside_impl api) type)"
  "keeps (peer_is v) (cl_get_regs (vmside_impl api) ids bufs sizes)" "keeps (peer_is v) (cl_get_regs_infos (vmside_impl api) ids)"
  "keeps (peer_is v) (cl_find_regs_ids (vmside_impl api) names)" "keeps (peer_is v) (cl_read_mem (vmside_impl api) addrs ss bufs n)"
  "keeps (peer_is v) (cl_get_symbols_by_addr (vmside_impl api) a sz)" "keeps (peer_is v) (cl_get_symbols_by_ids (vmside_impl api) sids syms n)"
  "keeps (peer_is v) (cl_get_symbols_by_names (vmside_impl api) names syms n)" "keeps (peer_is v) (cl_get_code_text (vmside_impl api) a n)"
  "keeps (peer_is v) (cl_add_breakpoints (vmside_impl api) addrs n)" "keeps (peer_is v) (cl_del_breakpoints (vmside_impl api) addrs n)"
  "keeps (peer_is v) (cl_get f)" "keeps (peer_is v) (cl_list_regs k)"
  unfolding cl_connect_def cl_stop_def cl_check_stopped_def cl_resume_def cl_update_def discard_tmp_cache_def
    cl_get_regs_def cl_get_regs_infos_def cl_find_regs_ids_def cl_read_mem_def
    cl_get_symbols_by_addr_def cl_get_symbols_by_ids_def cl_get_symbols_by_names_def cl_get_code_text_def cl_add_breakpoints_def
    cl_del_breakpoints_def cl_get_def cl_list_regs_def assert_state_def vmside_impl_sel
  by (intro keeps_rules keeps_peer_when_stopped keeps_impl_is keeps_peer_modify; simp)+

lemma keeps_arguments [keeps_rules]:
  "keeps (peer_is v) (resolve_regs (vmside_impl api) regs)" "keeps (peer_is v) (resolve_vals (vmside_impl api) vs)"
  "keeps (peer_is v) (code_lines (vmside_impl api) a n)" "keeps (peer_is v) cl_get_execution_point"
  "keeps (peer_is v) cl_get_stopped_state" "keeps (peer_is v) cl_get_call_stack" "keeps (peer_is v) (cl_vm_infos g)"
  unfolding resolve_regs_def resolve_vals_def code_lines_def cl_get_execution_point_def cl_get_stopped_state_def
    cl_get_call_stack_def cl_vm_infos_def by (intro keeps_rules)+

lemma keeps_address [keeps_rules]: "keeps (peer_is v) (read_address (vmside_impl api) fl cmd arg)"
  unfolding read_address_def by (intro keeps_rules)

lemma keeps_reading_commands [keeps_rules]:
  "keeps (peer_is v) (cmd_preg (vmside_impl api) fl cmd)" "keeps (peer_is v) (cmd_pregi (vmside_impl api) cmd)"
  "keeps (peer_is v) (cmd_pmem (vmside_impl api) fl cmd)" "keeps (peer_is v) (cmd_psym (vmside_impl api) fl cmd)"
  "keeps (peer_is v) (cmd_code (vmside_impl api) cmd)" "keeps (peer_is v) (cmd_b (vmside_impl api) fl cmd)"
  "keeps (peer_is v) (cmd_delb (vmside_impl api) fl cmd)" "keeps (peer_is v) (cmd_continue (vmside_impl api))"
  "keeps (peer_is v) (cmd_step (vmside_impl api))" "keeps (peer_is v) (cmd_next (vmside_impl api))"
  "keeps (peer_is v) (cmd_finish (vmside_impl api))" "keeps (peer_is v) (cmd_state (vmside_impl api))"
  "keeps (peer_is v) (cmd_bt (vmside_impl api))" "keeps (peer_is v) cmd_vm"
  unfolding cmd_preg_def cmd_pregi_def cmd_pmem_def cmd_psym_def cmd_code_def cmd_b_def cmd_delb_def
    cmd_continue_def cmd_step_def cmd_next_def cmd_finish_def cmd_state_def cmd_bt_def cmd_vm_def
  by (intro keeps_rules)+

lemma keeps_quiet: "quiet line \<Longrightarrow> keeps (peer_is v) (exec (vmside_impl api) fl line)"
  unfolding exec_def run_cmd_def Let_def by (intro keeps_rules) (auto simp: quiet_def)

text \<open>A session on standard input whose commands do not write.\<close>

lemma quiet_state: "quiet ''state''"
  unfolding quiet_def by code_simp

lemma keeps_handler:
  "keeps (ctx_is v) (cli_check_stopped api)" "keeps (ctx_is v) (cli_setup_connection api conf)"
  "keeps (ctx_is v) (cli_sync api)" "keeps (ctx_is v) (cli_check_eof tty)"
  unfolding cli_check_stopped_def cli_setup_connection_def cli_sync_def cli_check_eof_def
  by (intro keeps_rules keeps_client_is keeps_ctx_modify; simp)+

lemma keeps_prompt: "keeps (ctx_is v) (cli_prompt api fl)"
  unfolding cli_prompt_def by (intro keeps_rules keeps_handler keeps_client_is keeps_quiet quiet_state)

lemma keeps_quiet_line: "quiet l \<Longrightarrow> keeps (ctx_is v) (cli_exec_line api fl l)"
  unfolding cli_exec_line_def by (intro keeps_rules keeps_client_is keeps_quiet)

lemma keeps_command: "keeps (ctx_is v) (cli_run_command api fl)"
proof (rule keepsI)
  fix x r x'
  assume x: "ctx_is v x" and run: "cli_run_command api fl x = (r, x')"
  let ?front = "bind_act (cli_prompt api fl) (\<lambda>tty. then_act (cli_check_eof tty) getline)"
  have eq: "cli_run_command api fl = bind_act ?front (cli_exec_line api fl)"
    by (simp add: cli_run_command_def bind_act_assoc then_act_def)
  obtain r1 x1 where front: "?front x = (r1, x1)" by fastforce
  have "keeps (ctx_is v) ?front" by (intro keeps_rules keeps_prompt keeps_handler keeps_ctx_getline)
  from keepsD [OF this x front] have x1: "ctx_is v x1" .
  show "ctx_is v x'"
  proof (cases r1)
    case (Ret l)
    with front obtain tty x2 x3 where l: "cli_prompt api fl x = (Ret tty, x2)" "cli_check_eof tty x2 = (Ret (), x3)" "getline x3 = (Ret l, x1)"
      by (auto simp: bind_act_eq_Ret then_act_eq_Ret)
    have "ctx_is v x3" using keepsD [OF keeps_handler(4) keepsD [OF keeps_prompt x l(1)] l(2)] .
    from getline_quiet [OF this l(3)] have "quiet l" .
    from keepsD [OF keeps_quiet_line [OF this] x1] run Ret front show ?thesis by (auto simp: eq bind_act_def)
  qed (use run front x1 in \<open>auto simp: eq bind_act_def\<close>)
qed

text \<open>The same for the handlers and the server.\<close>

lemma holds_run_cli:
  assumes "keeps (ctx_is v) m" "run_cli (proc_of m) h d e = Some (r, y)" "handler_is v (Cli_handler h, d, e)"
  shows "handler_is v y"
proof -
  obtain x where x: "m \<lparr>cc_cli = h, cc_db = d, cc_env = e\<rparr> = (r, x)" "y = (Cli_handler (cc_cli x), cc_db x, cc_env x)"
    using assms(2) by (auto simp: run_cli_def split: prod.splits)
  from keepsD [OF assms(1) _ x(1)] assms(3) x(2) show ?thesis by (simp add: handler_is_def)
qed

lemma holds_cli_call:
  assumes "\<And>h d e. call (Cli_handler h, d, e) = run_cli (proc_of m) h d e" "keeps (ctx_is v) m"
  shows "holds (handler_is v) call"
  unfolding holds_def
proof (intro allI impI)
  fix y r y'
  assume y: "handler_is v y" and run: "call y = Some (r, y')"
  obtain h d e where "y = (Cli_handler h, d, e)" using y by (cases y; cases "fst y") (auto simp: handler_is_def)
  with assms(1) run y show "handler_is v y'" by (auto intro: holds_run_cli [OF assms(2)])
qed

lemma holds_handler:
  assumes "dp_api dp = api"
  shows "holds (handler_is v) (handler_setup_connection dp conf)" "holds (handler_is v) (handler_run_command dp)"
    "holds (handler_is v) (handler_check_stopped dp)"
  using assms by (auto intro: holds_cli_call [OF _ keeps_handler(2)] holds_cli_call [OF _ keeps_command] holds_cli_call [OF _ keeps_handler(1)])

lemma holds_mc_setup_loop:
  assumes "dp_api dp = api" "list_all cli_only tried" "list_all cli_only hs" "multi_is v (m, d, e)"
    and "mc_setup_loop dp conf tried hs (m, d, e) = Some (r, y)"
  shows "multi_is v y"
  using assms(2-)
proof (induction hs arbitrary: tried d e)
  case Nil
  then show ?case by (auto simp: multi_is_def)
next
  case (Cons h hs)
  have h: "handler_is v (h, d, e)" using Cons.prems by (simp add: handler_is_def multi_is_def)
  obtain r1 h' d' e' where su: "handler_setup_connection dp conf (h, d, e) = Some (r1, (h', d', e'))"
    using Cons.prems(4) by (auto split: option.splits prod.splits)
  from holdsD [OF holds_handler(1) [OF assms(1)] h this] have h': "handler_is v (h', d', e')" .
  show ?case
  proof (cases "r1 = Ret () \<and> handler_state_of h' \<noteq> H_CONNECTED")
    case True
    then show ?thesis using Cons.IH [of "tried @ [h']" d' e'] Cons.prems su h' by (auto simp: multi_is_def handler_is_def)
  next
    case False
    then show ?thesis using Cons.prems su h' by (cases r1) (auto simp: multi_is_def handler_is_def split: if_splits)
  qed
qed

lemma holds_mc_setup: "dp_api dp = api \<Longrightarrow> holds (multi_is v) (mc_setup_connection dp conf)"
  unfolding holds_def mc_setup_connection_def
  by (auto simp: multi_is_def split: if_splits dest!: holds_mc_setup_loop [of dp "[]", rotated 4])

lemma holds_mc_pass:
  assumes "holds (handler_is v) call"
  shows "holds (multi_is v) (mc_pass call)"
  unfolding holds_def
proof (intro allI impI)
  fix y r y'
  assume y: "multi_is v y" and run: "mc_pass call y = Some (r, y')"
  obtain m d e where mde: "y = (m, d, e)" by (cases y) auto
  show "multi_is v y'"
  proof (cases "mc_main m")
    case None
    then show ?thesis using run y mde by (auto simp: mc_pass_def)
  next
    case (Some h)
    then have "handler_is v (h, d, e)" using y mde by (simp add: multi_is_def handler_is_def)
    then show ?thesis
      using run y mde Some holdsD [OF assms, of "(h, d, e)"] by (auto simp: mc_pass_def multi_is_def handler_is_def split: bind_splits)
  qed
qed

lemma holds_on_multi:
  assumes "holds (multi_is v) m"
  shows "holds (app_is v) (on_multi m)"
  unfolding holds_def
proof (intro allI impI)
  fix a r a'
  assume a: "app_is v a" and run: "on_multi m a = Some (r, a')"
  show "app_is v a'"
  proof (cases "sa_client a = None \<or> sa_db a = None")
    case True
    then show ?thesis using run a by (auto simp: on_multi_def split: option.splits)
  next
    case False
    then obtain c d where c: "sa_client a = Some c" "sa_db a = Some d" by auto
    then have "multi_is v (c, d, sa_env a)" using a by (simp add: multi_is_def app_is_def)
    from holdsD [OF assms this] run a c show ?thesis by (auto simp: on_multi_def multi_is_def app_is_def split: bind_splits)
  qed
qed

lemma holds_on_db: "keeps (vm_is v) m \<Longrightarrow> holds (app_is v) (on_db m)"
  by (auto simp: holds_def on_db_def app_is_def split: option.splits prod.splits dest: keepsD)

lemma holds_parts [holds_rules]:
  "holds (app_is v) sa_client_state" "holds (app_is v) sa_db_is_stopped" "holds (app_is (v :: 'v)) sa_stop_db" "holds (app_is v) sa_shutdown"
proof -
  show state: "holds (app_is v) sa_client_state" by (auto simp: holds_def sa_client_state_def split: option.splits)
  show stopped: "holds (app_is v) sa_db_is_stopped" unfolding sa_db_is_stopped_def by (intro holds_on_db keeps_rules)
  show "holds (app_is v) sa_stop_db" unfolding sa_stop_db_def by (intro holds_rules stopped holds_on_db keeps_rules)
  show "holds (app_is v) sa_shutdown" unfolding sa_shutdown_def by (intro holds_rules keeps_modify) (simp add: app_is_def)
qed

lemma holds_new_client: "holds (app_is (v :: 'v)) (sa_new_client dp)"
  unfolding holds_def
proof (intro allI impI)
  fix a r a'
  assume a: "app_is v a" and run: "sa_new_client dp a = Some (r, a')"
  from holdsD [OF holds_parts(4) a] run a show "app_is v a'"
    by (auto simp: sa_new_client_def Let_def MultiClientHandler_new_def app_is_def split: option.splits if_splits)
qed

lemma holds_init:
  assumes "dp_api dp = api" "dp_vm dp = v"
  shows "holds (app_is v) (sa_init dp)"
  unfolding sa_init_def assms
  by (intro holds_rules holds_on_db holds_new_client keeps_rules keeps_modify) (simp add: app_is_def Debugger_new_def)

lemma holds_setup [holds_rules]: "dp_api dp = api \<Longrightarrow> holds (app_is v) (sa_setup dp)"
proof -
  assume "dp_api dp = api"
  then have "holds (app_is v) (bind_proc (on_multi (mc_setup_connection dp conf)) (\<lambda>_. sa_client_state))" for conf
    by (intro holds_rules holds_on_multi holds_mc_setup)
  then show ?thesis unfolding sa_setup_def holds_def by blast
qed

lemma holds_connect_loop:
  assumes "sa_connect_loop dp a = Some y" "dp_api dp = api" "app_is v a"
  shows "app_is v (snd y)"
proof -
  let ?P = "\<lambda>dp' a y. dp' = dp \<longrightarrow> app_is v a \<longrightarrow> app_is v (snd y)"
  have "?P dp a y"
  proof (rule sa_connect_loop.raw_induct [where P = ?P, OF _ assms(1)])
    fix f :: "('v, 'a) deps \<Rightarrow> ('v, 'a) ServerApp \<Rightarrow> (unit outcome \<times> ('v, 'a) ServerApp) option" and dp' a y
    assume rec: "\<And>dp a y. f dp a = Some y \<Longrightarrow> ?P dp a y"
      and step: "Option.bind (sa_setup dp' a) (\<lambda>(r, a'). case r of
        Ret st \<Rightarrow> if st = H_CONNECTED then Some (Ret (), a') else f dp' a'
      | Throw e \<Rightarrow> Some (Throw e, a') | Abort c \<Rightarrow> Some (Abort c, a')) = Some y"
    show "?P dp' a y"
    proof (intro impI)
      assume dp': "dp' = dp" and a: "app_is v a"
      obtain r a' where r: "sa_setup dp a = Some (r, a')" using step dp' by (auto split: bind_splits)
      have "app_is v a'" using holdsD [OF holds_setup [OF assms(2)] a r] .
      then show "app_is v (snd y)" using rec step r dp' by (cases r) (auto split: if_splits)
    qed
  qed
  with assms(3) show ?thesis by simp
qed

lemma holds_turn:
  assumes "dp_api dp = api"
  shows "holds (app_is v) (sa_turn dp)"
proof -
  have "holds (app_is v) (sa_connect_loop dp)" unfolding holds_def using holds_connect_loop [OF _ assms] by fastforce
  then show ?thesis
    unfolding sa_turn_def sa_check_def sa_execute_def sa_connect_def mc_check_stopped_def mc_run_command_def
    by (intro holds_rules holds_on_multi holds_mc_pass holds_handler keeps_rules assms)
qed

lemma holds_commands:
  assumes "sa_commands dp a = Some y" "dp_api dp = api" "app_is v a"
  shows "app_is v (snd y)"
proof -
  let ?P = "\<lambda>dp' a y. dp' = dp \<longrightarrow> app_is v a \<longrightarrow> app_is v (snd y)"
  have "?P dp a y"
  proof (rule sa_commands.raw_induct [where P = ?P, OF _ assms(1)])
    fix f :: "('v, 'a) deps \<Rightarrow> ('v, 'a) ServerApp \<Rightarrow> (unit outcome \<times> ('v, 'a) ServerApp) option" and dp' a y
    assume rec: "\<And>dp a y. f dp a = Some y \<Longrightarrow> ?P dp a y"
      and step: "Option.bind (sa_turn dp' a) (\<lambda>(r, a'). case r of
        Ret again \<Rightarrow> if again then f dp' a' else Some (Ret (), a')
      | Throw e \<Rightarrow> Some (Throw e, a') | Abort c \<Rightarrow> Some (Abort c, a')) = Some y"
    show "?P dp' a y"
    proof (intro impI)
      assume dp': "dp' = dp" and a: "app_is v a"
      obtain r a' where r: "sa_turn dp a = Some (r, a')" using step dp' by (auto split: bind_splits)
      have "app_is v a'" using holdsD [OF holds_turn [OF assms(2)] a r] .
      then show "app_is v (snd y)" using rec step r dp' by (cases r) (auto split: if_splits)
    qed
  qed
  with assms(3) show ?thesis by simp
qed

lemma holds_session:
  assumes "dp_api dp = api"
  shows "holds (app_is v) (sa_session dp)"
proof -
  have "holds (app_is v) (sa_commands dp)" unfolding holds_def using holds_commands [OF _ assms] by fastforce
  then show ?thesis
    unfolding sa_session_def sa_greet_def sa_leave_def by (intro holds_rules holds_on_db keeps_rules assms)
qed

text \<open>A call of \<open>loop\<close> leaves the machine as it was.\<close>

lemma loop_keeps_machine:
  assumes "dp_api dp = api" "dp_vm dp = v"
  shows "holds (app_is v) (sa_loop dp)"
proof -
  have "holds (app_is v) (\<lambda>a'. if \<not> sc_enabled (sa_conf a') then Some (Ret (), a') else sa_session dp a')"
    using holds_session [OF assms(1), of v] by (auto simp: holds_def)
  then have first: "holds (app_is v) (bind_proc (sa_init dp) (\<lambda>_ a'. if \<not> sc_enabled (sa_conf a') then Some (Ret (), a') else sa_session dp a'))"
    by (intro holds_rules holds_init assms)
  have later: "holds (app_is v) (bind_proc (on_db (on_update (dp_api dp))) (\<lambda>_. sa_session dp))"
    unfolding assms(1) by (intro holds_rules holds_on_db keeps_rules holds_session assms(1))
  show ?thesis
    unfolding holds_def
  proof (intro allI impI)
    fix a r a'
    assume a: "app_is v a" and run: "sa_loop dp a = Some (r, a')"
    show "app_is v a'"
    proof (cases "\<not> sc_enabled (sa_conf a) \<or> sa_db a = None")
      case True
      then show ?thesis using run a holdsD [OF first a] by (cases "sc_enabled (sa_conf a)") (auto simp: sa_loop_def)
    next
      case False
      then show ?thesis using run holdsD [OF later a] by (auto simp: sa_loop_def)
    qed
  qed
qed

end

end
