(* ===== verification/Mvm0_Main.thy ===== *)
theory Mvm0_Main
  imports Mvm0_Cpu Mvm0_Parser Transparency
begin

text \<open>
  The program \<open>mock-mvm0-app\<close> (\<open>tests/mockvms/mvm0/src/main.cc\<close>): it parses a program and runs it on the
  processor, with a call of \<open>ServerApp::loop\<close> before each instruction and after the last. The machine
  \<open>mvm0\<close> is one whose queries do not change it; with the server on standard input the program computes
  what it computes without a debugger, up to the point where a command ends the process, if one does.
\<close>

interpretation mvm0_obs: observed mvm0_api
proof unfold_locales
  have same: "keeps (\<lambda>w. w = v) (target_text i)" "keeps (\<lambda>w. w = v) (reg_text n)" for v :: CPU and i n
    unfolding target_text_def reg_text_def by (intro keeps_rules)+
  show "keeps (\<lambda>w. w = v) (api_get_vm_infos mvm0_api)" "keeps (\<lambda>w. w = v) (api_get_update_infos mvm0_api)"
    "keeps (\<lambda>w. w = v) (api_get_reg mvm0_api r ri val_only)" "keeps (\<lambda>w. w = v) (api_find_reg_id mvm0_api name)"
    "keeps (\<lambda>w. w = v) (api_read_mem mvm0_api a n)" "keeps (\<lambda>w. w = v) (api_get_symbols mvm0_api a n)"
    "keeps (\<lambda>w. w = v) (api_get_symb_infos mvm0_api s)" "keeps (\<lambda>w. w = v) (api_find_sym_id mvm0_api name)"
    "keeps (\<lambda>w. w = v) (api_get_code_text mvm0_api a)" for v r ri val_only name a n s
    unfolding mvm0_api_def VMApi.simps mvm0_get_vm_infos_def mvm0_get_update_infos_def mvm0_get_reg_def mvm0_find_reg_id_def
      mvm0_read_mem_def mvm0_get_symbols_def mvm0_get_symb_infos_def mvm0_find_sym_id_def mvm0_get_code_text_def Let_def
    by (intro keeps_rules same)+
qed

section \<open>The program\<close>

text \<open>
  The processor is shared with the debugger of the server, once that exists: each sees what the other
  did. A debugger that was released in the call had only asked the machine.
\<close>

type_synonym 'k machine = "CPU \<times> (CPU, 'k) ServerApp"

definition call_loop :: "(CPU, 'k) deps \<Rightarrow> ('k machine, unit) proc" where
  "call_loop dp = (\<lambda>(cpu, a). Option.bind
    (sa_loop (dp\<lparr>dp_vm := cpu\<rparr>) (a\<lparr>sa_db := map_option (\<lambda>d. d\<lparr>d_vm := cpu\<rparr>) (sa_db a)\<rparr>))
    (\<lambda>(r, a'). Some (r, (case sa_db a' of Some d \<Rightarrow> d_vm d | None \<Rightarrow> cpu, a'))))"

definition call_step :: "('k machine, bool) proc" where
  "call_step = proc_of (lift_act fst (\<lambda>cpu (_, a). (cpu, a)) cpu_step)"

definition mvm0_body :: "(CPU, 'k) deps \<Rightarrow> ('k machine, bool) proc" where
  "mvm0_body dp = bind_proc (call_loop dp) (\<lambda>_. call_step)"

partial_function (option) main_cycle :: "(CPU, 'k) deps \<Rightarrow> 'k machine \<Rightarrow> (unit outcome \<times> 'k machine) option" where
  "main_cycle dp s = Option.bind (mvm0_body dp s) (\<lambda>(r, s'). case r of
      Ret st \<Rightarrow> if st then call_loop dp s' else main_cycle dp s'
    | Throw e \<Rightarrow> Some (Throw e, s')
    | Abort c \<Rightarrow> Some (Abort c, s'))"

text \<open>The usage message on standard error is left out. \<open>g\<close> is what uninitialised members hold.\<close>

definition mvm0_main :: "(string \<Rightarrow> string option) \<Rightarrow> ServerConfig \<Rightarrow> 'k env \<Rightarrow> (string \<Rightarrow> string) \<Rightarrow> u32 \<Rightarrow>
    (CPU, 'k) deps \<Rightarrow> string list \<Rightarrow> (int outcome \<times> 'k machine option) option" where
  "mvm0_main getenv conf e files g dp argv =
    (if length argv < 2 then Some (Ret 1, None)
     else case fst (parse_file files (argv ! 1) ()) of
         Throw x \<Rightarrow> Some (Throw x, None)
       | Abort c \<Rightarrow> Some (Abort c, None)
       | Ret rom \<Rightarrow> (case ServerApp_new getenv conf e of
             Throw x \<Rightarrow> Some (Throw x, None)
           | Abort c \<Rightarrow> Some (Abort c, None)
           | Ret a \<Rightarrow> map_option (\<lambda>(r, s). (case r of Ret _ \<Rightarrow> Ret 0 | Throw x \<Rightarrow> Throw x | Abort c \<Rightarrow> Abort c, Some s))
               (main_cycle dp (snd (cpu_init (CPU_new rom g)), a))))"

text \<open>The processor on its own.\<close>

partial_function (option) run_cpu :: "CPU \<Rightarrow> (unit outcome \<times> CPU) option" where
  "run_cpu cpu = (case cpu_step cpu of
      (Ret st, cpu') \<Rightarrow> if st then Some (Ret (), cpu') else run_cpu cpu'
    | (Throw e, cpu') \<Rightarrow> Some (Throw e, cpu')
    | (Abort c, cpu') \<Rightarrow> Some (Abort c, cpu'))"

declare main_cycle.simps [code] run_cpu.simps [code]

section \<open>Transparency\<close>

text \<open>The server between two calls: on standard input only, with commands that do not write.\<close>

definition quiet_app :: "(CPU, 'k) ServerApp \<Rightarrow> bool" where
  "quiet_app a \<longleftrightarrow> cli_app a \<and> \<not> sc_mode_tcp (sa_conf a) \<and> list_all quiet (e_stdin (sa_env a)) \<and>
    pred_option (\<lambda>m. list_all cli_only (mc_wait m) \<and> pred_option cli_only (mc_main m)) (sa_client a)"

lemma quiet_app_shared:
  assumes "quiet_app a"
  shows "app_is cpu (a\<lparr>sa_db := map_option (\<lambda>d. d\<lparr>d_vm := cpu\<rparr>) (sa_db a)\<rparr>)"
    "cli_app (a\<lparr>sa_db := map_option (\<lambda>d. d\<lparr>d_vm := cpu\<rparr>) (sa_db a)\<rparr>)"
  using assms by (auto simp: quiet_app_def app_is_def cli_app_def cli_session_def option.pred_set)

lemma call_loop_run:
  assumes "quiet_app a" "dp_api dp = mvm0_api"
  shows "\<exists>r a'. call_loop dp (cpu, a) = Some (r, (cpu, a')) \<and> (r = Ret () \<longrightarrow> quiet_app a')"
proof -
  let ?a = "a\<lparr>sa_db := map_option (\<lambda>d. d\<lparr>d_vm := cpu\<rparr>) (sa_db a)\<rparr>"
  obtain r a' where r: "sa_loop (dp\<lparr>dp_vm := cpu\<rparr>) ?a = Some (r, a')" "r = Ret () \<longrightarrow> cli_app a'"
    using cli_loop_returns [OF quiet_app_shared(2) [OF assms(1)], of "dp\<lparr>dp_vm := cpu\<rparr>" cpu] by blast
  have "app_is cpu a'"
    using holdsD [OF mvm0_obs.loop_keeps_machine quiet_app_shared(1) [OF assms(1)] r(1)] assms(2) by simp
  then show ?thesis using r by (auto simp: call_loop_def quiet_app_def app_is_def split: option.split)
qed

text \<open>The state after some instructions, and what a session may leave of a run that ends in \<open>cpu'\<close>.\<close>

definition cpu_after :: "nat \<Rightarrow> CPU \<Rightarrow> CPU" where
  "cpu_after n cpu = ((\<lambda>c. snd (cpu_step c)) ^^ n) cpu"

definition on_its_run :: "CPU \<Rightarrow> CPU \<Rightarrow> CPU \<Rightarrow> bool" where
  "on_its_run cpu cpu' c \<longleftrightarrow> (\<exists>n. c = cpu_after n cpu) \<and> (c = cpu' \<or> run_cpu c = Some (Ret (), cpu'))"

lemma on_its_run_start: "run_cpu cpu = Some (Ret (), cpu') \<Longrightarrow> on_its_run cpu cpu' cpu"
  by (auto simp: on_its_run_def cpu_after_def intro: exI [of _ 0])

lemma on_its_run_end: "snd (cpu_step cpu) = cpu' \<Longrightarrow> on_its_run cpu cpu' cpu'"
  by (auto simp: on_its_run_def cpu_after_def intro: exI [of _ 1])

lemma on_its_run_step: "snd (cpu_step cpu) = c \<Longrightarrow> on_its_run c cpu' x \<Longrightarrow> on_its_run cpu cpu' x"
proof -
  assume c: "snd (cpu_step cpu) = c" and "on_its_run c cpu' x"
  then obtain n where "x = cpu_after n c" "x = cpu' \<or> run_cpu x = Some (Ret (), cpu')" by (auto simp: on_its_run_def)
  moreover have "cpu_after (Suc n) cpu = cpu_after n c" unfolding cpu_after_def funpow_Suc_right using c by simp
  ultimately show ?thesis unfolding on_its_run_def by metis
qed

lemma main_cycle_run:
  assumes "run_cpu cpu = Some (Ret (), cpu')" "quiet_app a" "dp_api dp = mvm0_api"
  shows "\<exists>r s. main_cycle dp (cpu, a) = Some (r, s) \<and> (r = Ret () \<longrightarrow> fst s = cpu') \<and> on_its_run cpu cpu' (fst s)"
proof -
  let ?Q = "\<lambda>cpu cpu' (a :: (CPU, 'a) ServerApp). \<exists>r s. main_cycle dp (cpu, a) = Some (r, s) \<and> (r = Ret () \<longrightarrow> fst s = cpu') \<and>
    on_its_run cpu cpu' (fst s)"
  let ?P = "\<lambda>cpu y. run_cpu cpu = Some y \<and> (fst y = Ret () \<longrightarrow> (\<forall>a. quiet_app a \<longrightarrow> ?Q cpu (snd y) a))"
  have "?P cpu (Ret (), cpu')"
  proof (rule run_cpu.raw_induct [where P = ?P, OF _ assms(1)])
    fix f :: "CPU \<Rightarrow> (unit outcome \<times> CPU) option" and cpu y
    assume rec: "\<And>cpu y. f cpu = Some y \<Longrightarrow> ?P cpu y"
      and step: "(case cpu_step cpu of (Ret st, cpu') \<Rightarrow> if st then Some (Ret (), cpu') else f cpu'
        | (Throw e, cpu') \<Rightarrow> Some (Throw e, cpu') | (Abort c, cpu') \<Rightarrow> Some (Abort c, cpu')) = Some y"
    have run: "run_cpu cpu = Some y"
      using step rec by (subst run_cpu.simps) (auto split: prod.splits outcome.splits if_splits)
    have "?Q cpu (snd y) a" if y: "fst y = Ret ()" and a: "quiet_app a" for a :: "(CPU, 'a) ServerApp"
    proof -
      obtain st c where c: "cpu_step cpu = (Ret st, c)" "if st then y = (Ret (), c) else f c = Some y"
        using step y by (auto split: prod.splits outcome.splits if_splits)
      obtain r a1 where loop: "call_loop dp (cpu, a) = Some (r, (cpu, a1))" "r = Ret () \<Longrightarrow> quiet_app a1"
        using call_loop_run [OF a assms(3)] by blast
      have cycle: "main_cycle dp (cpu, a) = (case r of Throw e \<Rightarrow> Some (Throw e, (cpu, a1)) | Abort k \<Rightarrow> Some (Abort k, (cpu, a1))
          | Ret _ \<Rightarrow> if st then call_loop dp (c, a1) else main_cycle dp (c, a1))"
        by (subst main_cycle.simps) (simp add: mvm0_body_def bind_proc_def loop(1) call_step_def lift_act_def c(1) split: outcome.split)
      show ?thesis
      proof (cases "r = Ret ()")
        case True
        show ?thesis
        proof (cases st)
          case st: True
          then show ?thesis
            using cycle c \<open>r = Ret ()\<close> call_loop_run [OF loop(2) assms(3), of c] on_its_run_end [of cpu c] by auto
        next
          case False
          then obtain r' s where "main_cycle dp (c, a1) = Some (r', s)" "r' = Ret () \<longrightarrow> fst s = snd y" "on_its_run c (snd y) (fst s)"
            using rec [of c y] c(2) y loop(2) True by auto
          then show ?thesis using cycle True False on_its_run_step [of cpu c "snd y"] c(1) by auto
        qed
      next
        case False
        moreover have "on_its_run cpu (snd y) cpu" using run y by (intro on_its_run_start) (simp add: prod_eq_iff)
        ultimately show ?thesis using cycle by (cases r) simp_all
      qed
    qed
    then show "?P cpu y" using run by blast
  qed
  with assms(2) show ?thesis by simp
qed

text \<open>
  C6. Debugging does not disturb the program: when a program run on the bare processor ends in a state,
  then under the debugger on standard input, with any input lines whose commands are not \<open>sreg\<close> or
  \<open>smem\<close>, any signals and any stops, \<open>main\<close> does not hang. If it returns, it returns 0 with the processor
  in that same state. A command may also end the process (\<open>preg u64 %0\<close> reads past the bytes of a
  register): then the processor is in a state the undisturbed run goes through, from which that run
  ends in the same state.
\<close>

theorem debugging_is_transparent:
  assumes "2 \<le> length argv" "fst (parse_file files (argv ! 1) ()) = Ret rom" "load_env getenv conf = Ret conf'"
    and "run_cpu (snd (cpu_init (CPU_new rom g))) = Some (Ret (), cpu')" "dp_api dp = mvm0_api"
    and "\<not> sc_mode_tcp conf'" "sc_enabled conf' \<longrightarrow> sc_mode_server_cli conf'" "list_all quiet (e_stdin e)"
  shows "\<exists>r s. mvm0_main getenv conf e files g dp argv = Some (r, Some s) \<and> (returned r \<longrightarrow> r = Ret 0 \<and> fst s = cpu') \<and>
    (\<exists>n. fst s = cpu_after n (snd (cpu_init (CPU_new rom g)))) \<and> (fst s = cpu' \<or> run_cpu (fst s) = Some (Ret (), cpu'))"
proof -
  let ?a = "\<lparr>sa_conf = conf', sa_db = None, sa_client = None, sa_env = e\<rparr> :: (CPU, 'a) ServerApp"
  have "quiet_app ?a" using assms(6-8) by (auto simp: quiet_app_def cli_app_def)
  from main_cycle_run [OF assms(4) this assms(5)] obtain r s where
    s: "main_cycle dp (snd (cpu_init (CPU_new rom g)), ?a) = Some (r, s)" "r = Ret () \<longrightarrow> fst s = cpu'"
      "on_its_run (snd (cpu_init (CPU_new rom g))) cpu' (fst s)" by blast
  then show ?thesis using assms(1-3) by (cases r) (auto simp: mvm0_main_def ServerApp_new_def on_its_run_def)
qed

text \<open>The program of \<open>add_source\<close>, stopped at a breakpoint.\<close>

definition main_env :: "(bytes \<times> bytes) env" where
  "main_env = sample_env\<lparr>e_stdin := [''b 1027'', ''continue'']\<rparr>"

definition main_deps :: "(CPU, bytes \<times> bytes) deps" where
  "main_deps = \<lparr>dp_api = mvm0_api, dp_vm = sample_cpu, dp_infos = script_infos, dp_garbage = 0, dp_net = pair_net,
    dp_floats = no_floats, dp_udp = sample_update\<rparr>"

definition main_getenv :: "string \<Rightarrow> string option" where
  "main_getenv v = (if v = ''ODB_CONF_ENABLED'' \<or> v = ''ODB_CONF_MODE_SERVER_CLI'' then Some ''1'' else None)"

lemma main_cpu_runs: "map_option fst (run_cpu (snd (cpu_init (CPU_new add_rom 0)))) = Some (Ret ())"
  by code_simp

lemma main_returns:
  "map_option fst (mvm0_main main_getenv g_conf_default main_env (\<lambda>_. add_source) 0 main_deps [''mvm0'', ''add'']) = Some (Ret 0)"
  by code_simp

theorem debugging_is_transparent_witness:
  "\<exists>s. mvm0_main main_getenv g_conf_default main_env (\<lambda>_. add_source) 0 main_deps [''mvm0'', ''add''] = Some (Ret 0, Some s) \<and>
    run_cpu (snd (cpu_init (CPU_new add_rom 0))) = Some (Ret (), fst s)"
proof -
  obtain cpu' where cpu': "run_cpu (snd (cpu_init (CPU_new add_rom 0))) = Some (Ret (), cpu')" using main_cpu_runs by auto
  let ?conf = "g_conf_default\<lparr>sc_enabled := True, sc_mode_server_cli := True\<rparr>"
  have env: "load_env main_getenv g_conf_default = Ret ?conf"
    by (simp add: load_env_def main_getenv_def env_flag_def g_conf_default_def)
  have calm: "list_all quiet (e_stdin main_env)" by code_simp
  have parsed: "fst (parse_file (\<lambda>_. add_source) ([''mvm0'', ''add''] ! 1) ()) = Ret add_rom" by (simp only: parse_file_def add_parsed fst_conv)
  have conf: "\<not> sc_mode_tcp ?conf" "sc_enabled ?conf \<longrightarrow> sc_mode_server_cli ?conf" by (simp_all add: g_conf_default_def)
  have api: "dp_api main_deps = mvm0_api" by (simp add: main_deps_def)
  have "2 \<le> length [''mvm0'', ''add'']" by simp
  from debugging_is_transparent [OF this parsed env cpu' api conf calm]
  obtain r s where r: "mvm0_main main_getenv g_conf_default main_env (\<lambda>_. add_source) 0 main_deps [''mvm0'', ''add''] = Some (r, Some s)"
    "returned r \<longrightarrow> r = Ret 0 \<and> fst s = cpu'" by blast
  have "r = Ret 0" using main_returns unfolding r(1) by simp
  with r(2) have "fst s = cpu'" by simp
  show ?thesis
  proof (intro exI conjI)
    show "mvm0_main main_getenv g_conf_default main_env (\<lambda>_. add_source) 0 main_deps [''mvm0'', ''add''] = Some (Ret 0, Some s)"
      unfolding r(1) \<open>r = Ret 0\<close> ..
    show "run_cpu (snd (cpu_init (CPU_new add_rom 0))) = Some (Ret (), fst s)" unfolding cpu' \<open>fst s = cpu'\<close> ..
  qed
qed

end
