(* ===== verification/Mvm0_Backtrace.thy ===== *)
theory Mvm0_Backtrace
  imports Mvm0_Main
begin

text \<open>
  The call stack the debugger shows for a program of \<open>mvm0\<close> is the one of the processor: the calls that
  were made and have not returned, with the addresses they were made from.
\<close>

section \<open>The calls of a program\<close>

text \<open>
  The entry points of the subroutines entered, the first of which is the program, and the call sites
  that lead from each to the next.
\<close>

type_synonym calls = "vm_ptr_t list \<times> vm_ptr_t list"

definition calls_after :: "CPU \<Rightarrow> CPU \<Rightarrow> calls \<Rightarrow> calls" where
  "calls_after cpu cpu' = (\<lambda>(entries, sites).
    if ins_name (ins_at cpu) = ''call'' then (entries @ [ucast (cpu_pc cpu')], sites @ [ucast (cpu_pc cpu)])
    else if ins_name (ins_at cpu) = ''ret'' then (butlast entries, butlast sites)
    else (entries, sites))"

text \<open>
  The address the debugger shows once the processor has stopped: that of the instruction that stopped
  it, or the program counter when it was the first one, whose end is not reported.
\<close>

definition end_point :: "CPU \<Rightarrow> CPU \<Rightarrow> vm_ptr_t" where
  "end_point cpu cpu' = (if cpu_prev_pc cpu = 0 then ucast (cpu_pc cpu') else ucast (cpu_pc cpu))"

fun writes_pc :: "request \<Rightarrow> bool" where
  "writes_pc (Rq_SetRegs r) \<longleftrightarrow> REG_PC \<in> set (sr_in_ids r)"
| "writes_pc (Rq_SetRegsVar r) \<longleftrightarrow> REG_PC \<in> set (srv_in_ids r)"
| "writes_pc _ \<longleftrightarrow> False"

text \<open>
  A debugged program: the processor executes an instruction and the debugger is told, up to the one
  that stops the processor (the last argument is \<open>None\<close> before, and then the end point); the server
  stops it; or a client makes a request that does not write the program counter, whatever comes of
  it.
\<close>

inductive debugged :: "CPU Debugger \<Rightarrow> calls \<Rightarrow> vm_ptr_t option \<Rightarrow> bool" where
  debugged_start: "cpu_sized rom cpu \<Longrightarrow> cpu_prev_pc cpu = 0 \<Longrightarrow> on_init mvm0_api (Debugger_new cpu infos0 g) = (Ret (), d) \<Longrightarrow>
    debugged d ([ucast (cpu_pc cpu)], []) None"
| debugged_step: "debugged d cs None \<Longrightarrow> cpu_step (d_vm d) = (Ret False, cpu) \<Longrightarrow>
    on_update mvm0_api (d\<lparr>d_vm := cpu\<rparr>) = (Ret (), d') \<Longrightarrow> debugged d' (calls_after (d_vm d) cpu cs) None"
| debugged_end: "debugged d cs None \<Longrightarrow> cpu_step (d_vm d) = (Ret True, cpu) \<Longrightarrow>
    on_update mvm0_api (d\<lparr>d_vm := cpu\<rparr>) = (Ret (), d') \<Longrightarrow> debugged d' cs (Some (end_point (d_vm d) cpu))"
| debugged_stop: "debugged d cs e \<Longrightarrow> stop d = (Ret (), d') \<Longrightarrow> debugged d' cs e"
| debugged_request: "debugged d cs e \<Longrightarrow> \<not> writes_pc r \<Longrightarrow> debugged (snd (run_request mvm0_api r d)) cs e"

section \<open>What requests leave of the processor\<close>

text \<open>All but the values of the registers and of the memory.\<close>

definition cpu_core :: "CPU \<Rightarrow> u32 \<times> u32 \<times> Status \<times> ROM \<times> nat \<times> nat" where
  "cpu_core cpu = (cpu_pc cpu, cpu_prev_pc cpu, cpu_status cpu, cpu_rom cpu, length (cpu_regs cpu), length (cpu_ram cpu))"

abbreviation core_is :: "u32 \<times> u32 \<times> Status \<times> ROM \<times> nat \<times> nat \<Rightarrow> CPU Debugger \<Rightarrow> bool" where
  "core_is k d \<equiv> cpu_core (d_vm d) = k"

lemma keeps_core_call: "keeps (\<lambda>cpu. cpu_core cpu = k) m \<Longrightarrow> keeps (core_is k) (vm_call m)"
  by (auto simp: keeps_def vm_call_def lift_act_def split: prod.split)

lemma keeps_core_set_reg: "r \<noteq> REG_PC \<Longrightarrow> keeps (core_is k) (set_reg mvm0_api r v)"
  unfolding set_reg_def by (rule keeps_core_call) (auto simp: mvm0_api_def mvm0_set_reg_def keeps_def set_reg_val_def cpu_core_def)

lemma keeps_core_write_mem: "keeps (core_is k) (write_mem mvm0_api a n buf)"
proof -
  have "keeps (\<lambda>cpu. cpu_core cpu = k) (write_loop is b)" for "is" b
    by (induction "is" arbitrary: b; unfold write_loop.simps; intro keeps_rules keeps_modify) (auto simp: cpu_core_def)
  then show ?thesis
    unfolding write_mem_def by (intro keeps_core_call) (auto simp: mvm0_api_def mvm0_write_mem_def keeps_def)
qed

lemma keeps_core_set_regs:
  assumes "REG_PC \<notin> set ids"
  shows "keeps (core_is k) (vms_set_regs mvm0_api ids bufs n)"
proof -
  have "keeps (core_is k) (bind_act (elem_at ids i) (\<lambda>r. bind_act (elem_at bufs i) (\<lambda>buf. set_reg mvm0_api r buf)))" for i
  proof (cases "i < length ids")
    case True
    then have "ids ! i \<noteq> REG_PC" using assms by (metis nth_mem)
    then have "keeps (core_is k) (bind_act (elem_at bufs i) (\<lambda>buf. set_reg mvm0_api (ids ! i) buf))"
      by (intro keeps_rules keeps_core_set_reg)
    then show ?thesis using True by (simp add: keeps_def bind_act_def elem_at_def then_act_def)
  qed (simp add: keeps_def bind_act_def elem_at_def then_act_def)
  then show ?thesis unfolding vms_set_regs_def by (rule keeps_iter_act)
qed

lemma keeps_core_request:
  assumes "\<not> writes_pc r"
  shows "keeps (core_is k) (run_request mvm0_api r)"
proof (cases "quiet_request r")
  case True
  then show ?thesis using mvm0_obs.keeps_request [OF True] by (fastforce simp: keeps_def)
next
  case False
  then show ?thesis
    using assms by (cases r) (auto simp: vms_write_mem_def intro!: keeps_rules keeps_core_set_regs keeps_core_write_mem)
qed

section \<open>What the debugger records\<close>

abbreviation stack_is :: "CallStack \<Rightarrow> vm_ptr_t \<Rightarrow> 'v Debugger \<Rightarrow> bool" where
  "stack_is st a d \<equiv> d_call_stack d = st \<and> d_ins_addr d = a"

lemma keeps_stack_methods:
  "keeps (stack_is st x) (add_breakpoint a)" "keeps (stack_is st x) (del_breakpoint a)" "keeps (stack_is st x) (get_reg api r)"
  "keeps (stack_is st x) (set_reg api r v)" "keeps (stack_is st x) (get_reg_infos api r)" "keeps (stack_is st x) (find_reg_id api n)"
  "keeps (stack_is st x) (read_mem api a s)" "keeps (stack_is st x) (write_mem api a s b)"
  "keeps (stack_is st x) (get_symbols api a s)" "keeps (stack_is st x) (get_symbol_infos api i)"
  "keeps (stack_is st x) (find_sym_id api n)" "keeps (stack_is st x) (get_code_text api a)"
  "keeps (stack_is st x) (resume type)" "keeps (stack_is st x) stop"
  unfolding method_defs resume_def stop_def set_state_def by (intro keeps_rules keeps_vm_call keeps_modify; simp)+

lemma keeps_stack_request: "keeps (stack_is st x) (run_request api r)"
  by (cases r; simp add: vms_defs; intro keeps_rules keeps_code_text_loop keeps_stack_methods)

lemma request_keeps:
  assumes "\<not> writes_pc r"
  shows "cpu_core (d_vm (snd (run_request mvm0_api r d))) = cpu_core (d_vm d)"
    "d_call_stack (snd (run_request mvm0_api r d)) = d_call_stack d"
    "d_ins_addr (snd (run_request mvm0_api r d)) = d_ins_addr d"
  using keepsD [OF keeps_core_request [OF assms] refl surjective_pairing]
    keepsD [OF keeps_stack_request [of "d_call_stack d" "d_ins_addr d"] _ surjective_pairing] by blast+

lemma stop_keeps: "stop d = (Ret (), d') \<Longrightarrow> d_vm d' = d_vm d \<and> d_call_stack d' = d_call_stack d \<and> d_ins_addr d' = d_ins_addr d"
  by (auto simp: stop_def set_state_def split: if_splits)

definition frames_match :: "calls \<Rightarrow> CallStack \<Rightarrow> bool" where
  "frames_match cs st \<longleftrightarrow> map caller_start_addr st = fst cs \<and> map call_addr (butlast st) = snd cs"

text \<open>An update after an instruction that did not stop the processor.\<close>

lemma check_stop_keeps: "keeps (\<lambda>d. stack_is st x d \<and> d_vm d = v) (check_stop u)"
  unfolding check_stop_def set_state_def by (intro keeps_rules keeps_modify) auto

lemma track_frames:
  assumes "track_call_stack u old d = (Ret (), d')" "frames_match (entries, sites) (d_call_stack d)"
  shows "frames_match (if ud_state u = US_CALL_SUB then (entries @ [d_ins_addr d], sites @ [old])
      else if ud_state u = US_RET_SUB then (butlast entries, butlast sites) else (entries, sites)) (d_call_stack d')"
    "d_ins_addr d' = d_ins_addr d" "d_vm d' = d_vm d"
proof -
  show "frames_match (if ud_state u = US_CALL_SUB then (entries @ [d_ins_addr d], sites @ [old])
      else if ud_state u = US_RET_SUB then (butlast entries, butlast sites) else (entries, sites)) (d_call_stack d')"
    using assms by (cases "d_call_stack d" rule: rev_cases)
      (auto simp: track_call_stack_def frames_match_def map_butlast butlast_append split: if_splits)
  show "d_ins_addr d' = d_ins_addr d" "d_vm d' = d_vm d"
    using assms(1) by (auto simp: track_call_stack_def split: if_splits)
qed

lemma update_frames:
  assumes "on_update mvm0_api d = (Ret (), d')" "mvm0_get_update_infos (d_vm d) = (Ret u, d_vm d)"
    and "ud_state u \<noteq> US_ERROR" "ud_state u \<noteq> US_EXIT" "frames_match (entries, sites) (d_call_stack d)"
  shows "frames_match (if ud_state u = US_CALL_SUB then (entries @ [ud_act_addr u], sites @ [d_ins_addr d])
      else if ud_state u = US_RET_SUB then (butlast entries, butlast sites) else (entries, sites)) (d_call_stack d')"
    "d_ins_addr d' = ud_act_addr u" "d_vm d' = d_vm d"
proof -
  let ?d = "d\<lparr>d_ins_addr := ud_act_addr u\<rparr>"
  have call: "vm_call (api_get_update_infos mvm0_api) d = (Ret u, d)"
    using assms(2) by (simp add: vm_call_def lift_act_def mvm0_api_def)
  have "then_act (track_call_stack u (d_ins_addr d)) (check_stop u) ?d = (Ret (), d')"
    using assms(1,3,4) call by (auto simp: on_update_def bind_act_def then_act_def split: if_splits)
  then obtain d1 where d1: "track_call_stack u (d_ins_addr d) ?d = (Ret (), d1)" "check_stop u d1 = (Ret (), d')"
    by (auto simp: then_act_eq_Ret)
  have "d_call_stack d' = d_call_stack d1 \<and> d_ins_addr d' = d_ins_addr d1 \<and> d_vm d' = d_vm d1"
    using keepsD [OF check_stop_keeps _ d1(2), of "d_call_stack d1" "d_ins_addr d1" "d_vm d1"] by simp
  with track_frames [OF d1(1), of entries sites] assms(5)
  show "frames_match (if ud_state u = US_CALL_SUB then (entries @ [ud_act_addr u], sites @ [d_ins_addr d])
      else if ud_state u = US_RET_SUB then (butlast entries, butlast sites) else (entries, sites)) (d_call_stack d')"
    "d_ins_addr d' = ud_act_addr u" "d_vm d' = d_vm d" by (auto split: if_splits)
qed

text \<open>
  The invariant. Before the end the execution point is the program counter, and the machine is one
  whose last instruction can be reported.
\<close>

definition in_sync :: "CPU Debugger \<Rightarrow> calls \<Rightarrow> vm_ptr_t option \<Rightarrow> bool" where
  "in_sync d cs e \<longleftrightarrow> frames_match cs (d_call_stack d) \<and> (case e of
      None \<Rightarrow> d_ins_addr d = ucast (cpu_pc (d_vm d)) \<and> (\<exists>rom. cpu_sized rom (d_vm d)) \<and> prev_ok (d_vm d)
    | Some a \<Rightarrow> d_ins_addr d = a)"

lemma in_sync_core:
  assumes "in_sync d cs e" "cpu_core (d_vm d') = cpu_core (d_vm d)" "d_call_stack d' = d_call_stack d" "d_ins_addr d' = d_ins_addr d"
  shows "in_sync d' cs e"
  using assms by (auto simp: in_sync_def cpu_core_def cpu_sized_def prev_ok_def split: option.splits)

lemma step_in_sync:
  assumes "in_sync d cs None" "cpu_step (d_vm d) = (Ret False, cpu)" "on_update mvm0_api (d\<lparr>d_vm := cpu\<rparr>) = (Ret (), d')"
  shows "in_sync d' (calls_after (d_vm d) cpu cs) None"
proof -
  obtain rom where ok: "cpu_sized rom (d_vm d)" "prev_ok (d_vm d)" using assms(1) by (auto simp: in_sync_def)
  obtain entries sites where cs: "cs = (entries, sites)" by fastforce
  note report = step_report [OF assms(2) ok]
  have "report_of n \<noteq> US_ERROR \<and> report_of n \<noteq> US_EXIT" for n by (simp add: report_of_def)
  with update_frames [OF assms(3), of "\<lparr>ud_state = report_of (ins_name (ins_at (d_vm d))), ud_act_addr = ucast (cpu_pc cpu)\<rparr>" entries sites]
    assms(1) report cpu_step_keeps [OF assms(2) ok] show ?thesis
    by (auto simp: in_sync_def cs calls_after_def report_of_def split: if_splits)
qed

text \<open>The report of the instruction that stopped the processor.\<close>

lemma end_report:
  assumes "cpu_step cpu = (Ret True, cpu')" "cpu_sized rom cpu" "prev_ok cpu"
  obtains "cpu_prev_pc cpu = 0" "mvm0_get_update_infos cpu' = (Ret \<lparr>ud_state = US_OK, ud_act_addr = ucast (cpu_pc cpu')\<rparr>, cpu')"
  | st where "cpu_prev_pc cpu \<noteq> 0" "st = US_ERROR \<or> st = US_EXIT"
      "mvm0_get_update_infos cpu' = (Ret \<lparr>ud_state = st, ud_act_addr = ucast (cpu_pc cpu')\<rparr>, cpu')"
proof -
  have "cpu_status cpu' \<noteq> Status_OK \<and> cpu_prev_pc cpu' = cpu_prev_pc cpu"
    using assms(1)
  proof (cases rule: cpu_step_cases)
    case (executed c)
    then show ?thesis using keepsD [OF keeps_frame_exec _ executed(3), of rom "cpu_prev_pc cpu"] assms(2) by auto
  qed auto
  with update_infos_run [OF cpu_step_keeps(2) [OF assms]] that show thesis
    by (cases "cpu_prev_pc cpu = 0"; cases "cpu_status cpu'") auto
qed

lemma end_in_sync:
  assumes "in_sync d cs None" "cpu_step (d_vm d) = (Ret True, cpu)" "on_update mvm0_api (d\<lparr>d_vm := cpu\<rparr>) = (Ret (), d')"
  shows "in_sync d' cs (Some (end_point (d_vm d) cpu))"
proof -
  obtain rom where ok: "cpu_sized rom (d_vm d)" "prev_ok (d_vm d)" using assms(1) by (auto simp: in_sync_def)
  obtain entries sites where cs: "cs = (entries, sites)" by fastforce
  from assms(2) ok show ?thesis
  proof (cases rule: end_report)
    case 1
    then show ?thesis
      using update_frames [OF assms(3), of "\<lparr>ud_state = US_OK, ud_act_addr = ucast (cpu_pc cpu)\<rparr>" entries sites] assms(1)
      by (simp add: in_sync_def cs end_point_def)
  next
    case (2 st)
    then have "vm_call (api_get_update_infos mvm0_api) (d\<lparr>d_vm := cpu\<rparr>) =
        (Ret \<lparr>ud_state = st, ud_act_addr = ucast (cpu_pc cpu)\<rparr>, d\<lparr>d_vm := cpu\<rparr>)"
      by (simp add: vm_call_def lift_act_def mvm0_api_def)
    with 2 assms(1,3) show ?thesis
      by (auto simp: in_sync_def end_point_def on_update_def set_state_def bind_act_def then_act_def split: if_splits)
  qed
qed

lemma debugged_in_sync: "debugged d cs e \<Longrightarrow> in_sync d cs e"
proof (induction rule: debugged.induct)
  case (debugged_start rom cpu infos0 g d)
  have "prev_ok cpu" using debugged_start(2) by (simp add: prev_ok_def)
  with debugged_start show ?case
    by (auto simp: on_init_def Debugger_new_def set_state_def vm_call_def lift_act_def bind_act_def then_act_def mvm0_api_def
        mvm0_get_vm_infos_def update_infos_run in_sync_def frames_match_def split: if_splits)
next
  case (debugged_stop d cs e d')
  then show ?case using stop_keeps [of d d'] by (auto intro: in_sync_core)
next
  case (debugged_request d cs e r)
  then show ?case using request_keeps [of r d] by (auto intro: in_sync_core)
qed (blast intro: step_in_sync end_in_sync)+

section \<open>Properties\<close>

text \<open>
  C7. The backtrace is true: in every state of a debugged program of \<open>mvm0\<close>, whatever it executed, wherever
  it was stopped and whatever clients asked or wrote in between, the program counter excepted, the
  frames of the debugger are the calls made and not yet returned from, each with the start of the
  subroutine and the address of the call made from it. Until the processor stops for good the
  execution point is the program counter; after that it is the address of the instruction that
  stopped it, or the program counter if that was the very first instruction.
\<close>

theorem backtrace_is_call_stack:
  assumes "debugged d (entries, sites) e"
  shows "map caller_start_addr (d_call_stack d) = entries \<and> map call_addr (butlast (d_call_stack d)) = sites \<and>
    d_ins_addr d = (case e of None \<Rightarrow> ucast (cpu_pc (d_vm d)) | Some a \<Rightarrow> a)"
  using debugged_in_sync [OF assms] by (auto simp: in_sync_def frames_match_def split: option.splits)

text \<open>
  C15. A return from the outermost subroutine empties the call stack, and the process does not survive the
  next call or return: in every state of a debugged program with no subroutine left, if the
  instruction executed next is a \<open>call\<close>, the debugger accesses the last element of the empty vector
  of frames, and if it is a \<open>ret\<close>, an assertion fails, in every running mode and with any breakpoints.
\<close>

theorem outermost_return_then_call:
  assumes "debugged d ([], sites) None" "running (d_state d)" "cpu_step (d_vm d) = (Ret False, cpu)"
  shows "(ins_name (ins_at (d_vm d)) = ''call'' \<longrightarrow> fst (on_update mvm0_api (d\<lparr>d_vm := cpu\<rparr>)) = Abort Out_of_bounds) \<and>
    (ins_name (ins_at (d_vm d)) = ''ret'' \<longrightarrow> fst (on_update mvm0_api (d\<lparr>d_vm := cpu\<rparr>)) = Abort Assert_failed)"
proof -
  have sync: "in_sync d ([], sites) None" using assms(1) by (rule debugged_in_sync)
  then obtain rom where "cpu_sized rom (d_vm d)" "prev_ok (d_vm d)" by (auto simp: in_sync_def)
  from step_report [OF assms(3) this] have report: "api_get_update_infos mvm0_api (d_vm (d\<lparr>d_vm := cpu\<rparr>)) =
      (Ret \<lparr>ud_state = report_of (ins_name (ins_at (d_vm d))), ud_act_addr = ucast (cpu_pc cpu)\<rparr>, cpu)"
    by (simp add: mvm0_api_def)
  have "d_call_stack d = []" using sync by (simp add: in_sync_def frames_match_def)
  then show ?thesis using on_update_run [OF _ report] assms(2)
    by (auto simp: report_of_def then_act_def bind_act_def track_call_stack_empty)
qed

text \<open>The sample program after its call.\<close>

definition traced_step :: "CPU Debugger \<Rightarrow> CPU Debugger" where
  "traced_step d = snd (on_update mvm0_api (d\<lparr>d_vm := snd (cpu_step (d_vm d))\<rparr>))"

lemma traced_debugged:
  assumes "debugged d cs None" "fst (cpu_step (d_vm d)) = Ret False" "fst (on_update mvm0_api (d\<lparr>d_vm := snd (cpu_step (d_vm d))\<rparr>)) = Ret ()"
    and "calls_after (d_vm d) (snd (cpu_step (d_vm d))) cs = cs'"
  shows "debugged (traced_step d) cs' None"
  unfolding traced_step_def assms(4) [symmetric]
  by (rule debugged_step [OF assms(1)]) (use assms(2,3) in \<open>simp_all add: prod_eq_iff\<close>)

lemma sample_debugged:
  "debugged sample_debugger ([1024], []) None" "debugged (traced_step sample_debugger) ([1024], []) None"
  "debugged (traced_step (traced_step sample_debugger)) ([1024, 1026], [1025]) None"
proof -
  have "debugged sample_debugger ([ucast (cpu_pc sample_cpu)], []) None"
    by (rule debugged_start [OF _ _ sample_init]) (simp_all add: cpu_sized_def sample_cpu_def)
  moreover have "ucast (cpu_pc sample_cpu) = (1024 :: u64)" by code_simp
  ultimately show d0: "debugged sample_debugger ([1024], []) None" by (simp only:)
  show d1: "debugged (traced_step sample_debugger) ([1024], []) None"
    by (rule traced_debugged [OF d0]) code_simp+
  show "debugged (traced_step (traced_step sample_debugger)) ([1024, 1026], [1025]) None"
    by (rule traced_debugged [OF d1]) code_simp+
qed

theorem backtrace_is_call_stack_witness:
  "\<exists>d. debugged d ([1024, 1026], [1025]) None \<and> map caller_start_addr (d_call_stack d) = [1024, 1026] \<and>
    map call_addr (butlast (d_call_stack d)) = [1025] \<and> d_ins_addr d = ucast (cpu_pc (d_vm d))"
  using sample_debugged(3) backtrace_is_call_stack [OF sample_debugged(3)] by auto

text \<open>A program that sets the stack pointer and returns, then calls.\<close>

definition tail_ins :: "string \<Rightarrow> int list \<Rightarrow> Ins" where
  "tail_ins n as = \<lparr>def_sym = SYM_NONE, use_sym = SYM_NONE, ins_name = n, args = as\<rparr>"

definition tail_cpu :: CPU where
  "tail_cpu = snd (cpu_init (CPU_new \<lparr>rom_ins = [tail_ins ''movi'' [1020, 15], tail_ins ''movi'' [1028, 0], tail_ins ''str'' [0, 15],
    tail_ins ''ret'' [], tail_ins ''call'' [1024]], rom_sym_defs = [], rom_syms = [], rom_smap = []\<rparr> 0))"

definition tail_debugger :: "CPU Debugger" where
  "tail_debugger = snd (run_request mvm0_api (Rq_Resume \<lparr>rs_type = ToFinish\<rparr>) (snd (on_init mvm0_api (Debugger_new tail_cpu script_infos 0))))"

definition tail_state :: "CPU Debugger" where
  "tail_state = traced_step (traced_step (traced_step (traced_step tail_debugger)))"

lemma tail_debugged: "debugged tail_state ([], []) None"
proof -
  have ok: "cpu_sized (cpu_rom tail_cpu) tail_cpu" "cpu_prev_pc tail_cpu = 0" "ucast (cpu_pc tail_cpu) = (1024 :: u64)"
    "fst (on_init mvm0_api (Debugger_new tail_cpu script_infos 0)) = Ret ()" by code_simp+
  from debugged_start [OF ok(1,2)] ok(3,4) have
    "debugged (snd (on_init mvm0_api (Debugger_new tail_cpu script_infos 0))) ([1024], []) None"
    by (metis prod.collapse)
  then have "debugged tail_debugger ([1024], []) None"
    unfolding tail_debugger_def by (rule debugged_request) simp
  then have "debugged (traced_step tail_debugger) ([1024], []) None"
    by (rule traced_debugged) code_simp+
  then have "debugged (traced_step (traced_step tail_debugger)) ([1024], []) None"
    by (rule traced_debugged) code_simp+
  then have "debugged (traced_step (traced_step (traced_step tail_debugger))) ([1024], []) None"
    by (rule traced_debugged) code_simp+
  then show ?thesis unfolding tail_state_def by (rule traced_debugged) code_simp+
qed

theorem outermost_return_then_call_witness:
  "fst (on_update mvm0_api (tail_state\<lparr>d_vm := snd (cpu_step (d_vm tail_state))\<rparr>)) = Abort Out_of_bounds"
proof -
  have "running (d_state tail_state)" "fst (cpu_step (d_vm tail_state)) = Ret False" "ins_name (ins_at (d_vm tail_state)) = ''call''"
    by code_simp+
  then show ?thesis
    using outermost_return_then_call [OF tail_debugged, of "snd (cpu_step (d_vm tail_state))"] by (simp add: prod_eq_iff)
qed

end
