(* ===== verification/Server_Free.thy ===== *)
theory Server_Free
  imports C_Api Server_App_Props
begin

text \<open>
  The end of a server: \<open>odb_server_app_free\<close> (\<open>src/server_capi/server-app.cc\<close>) destroys the \<open>ServerApp\<close> with
  its handlers, each of which waits for its runner thread (\<open>~DataClientServerRunner\<close>), then the debugger
  with the wrapper of the C machine.
\<close>

section \<open>Destructors\<close>

text \<open>
  \<open>_th.join()\<close>: the runner thread goes on alone until it has finished; an exception that leaves it ends the
  process.
\<close>

partial_function (option) runner_join :: "'k DataServer \<Rightarrow> ('k, 's) runner \<Rightarrow> (unit outcome \<times> ('k, 's) runner) option" where
  "runner_join sv s = (if rn_worker s = W_done then Some (Ret (), s)
    else case worker_step sv s of
      (Ret evs, s') \<Rightarrow> runner_join sv s'
    | (Throw e, s') \<Rightarrow> Some (Abort Terminated, s')
    | (Abort c, s') \<Rightarrow> Some (Abort c, s'))"

text \<open>The members of a runner are destroyed after its thread has ended: the server closes its sockets.\<close>

definition runner_delete :: "'k net \<Rightarrow> (TCPDataServer \<times> 'k, 's) runner \<Rightarrow> ('k env, unit) proc" where
  "runner_delete nt rn = (\<lambda>e. Option.bind (runner_join (tcp_server nt) rn) (\<lambda>(r, rn').
    Some (r, if returned r then e\<lparr>e_kernel := TCPDataServer_delete nt (fst (rn_net rn')) (snd (rn_net rn'))\<rparr> else e)))"

fun handler_delete :: "'k net \<Rightarrow> ('v, 'k) handler \<Rightarrow> ('k env, unit) proc" where
  "handler_delete nt (Cli_handler h) = proc_of (if ci_catch_sigint h then modify (\<lambda>e. e\<lparr>e_handler_set := False\<rparr>) else ret ())"
| "handler_delete nt (Data_handler h) = (case dh_runner h of None \<Rightarrow> proc_of (ret ()) | Some rn \<Rightarrow> runner_delete nt rn)"

fun handlers_delete :: "'k net \<Rightarrow> ('v, 'k) handler list \<Rightarrow> ('k env, unit) proc" where
  "handlers_delete nt [] = proc_of (ret ())"
| "handlers_delete nt (h # hs) = bind_proc (handler_delete nt h) (\<lambda>_. handlers_delete nt hs)"

text \<open>The members are destroyed from the last to the first.\<close>

definition MultiClientHandler_delete :: "'k net \<Rightarrow> ('v, 'k) MultiClientHandler \<Rightarrow> ('k env, unit) proc" where
  "MultiClientHandler_delete nt m = bind_proc
    (case mc_main m of None \<Rightarrow> proc_of (ret ()) | Some h \<Rightarrow> handler_delete nt h) (\<lambda>_. handlers_delete nt (mc_wait m))"

definition ServerApp_delete :: "'k net \<Rightarrow> ('v, 'k) ServerApp \<Rightarrow> ('k env, unit) proc" where
  "ServerApp_delete nt a = (case sa_client a of None \<Rightarrow> proc_of (ret ()) | Some m \<Rightarrow> MultiClientHandler_delete nt m)"

text \<open>The result is the environment and, when the debugger had been started, the wrapper after its destructor.\<close>

definition odb_server_app_free :: "'k net \<Rightarrow> ('v, 'k) odb_server_app_t \<Rightarrow>
    (unit outcome \<times> 'k env \<times> 'v CWrapperVMApi option) option" where
  "odb_server_app_free nt app = map_option (\<lambda>(r, e). (r, e, case (sa_db (app_handle app), app_built app) of
      (Some d, Some (tab, _)) \<Rightarrow> if returned r then Some (snd (CWrapperVMApi_delete tab (d_vm d))) else None
    | _ \<Rightarrow> None)) (ServerApp_delete nt (app_handle app) (sa_env (app_handle app)))"

declare runner_join.simps [code]

section \<open>Whether it ends\<close>

text \<open>A thread that waits for the answer of the main thread, which will not come.\<close>

definition awaits_response :: "('k, 's) runner \<Rightarrow> bool" where
  "awaits_response s \<longleftrightarrow> rn_worker s \<in> {W_wait_stop, W_wait_state} \<and> \<not> rn_stop s \<and> rn_state s = R_HAS_REQ"

lemma join_hangs:
  assumes "awaits_response s"
  shows "runner_join sv s = None"
proof (rule ccontr)
  let ?P = "\<lambda>(sv :: 'a DataServer) (s :: ('a, 'b) runner) (r :: unit outcome \<times> ('a, 'b) runner). \<not> awaits_response s"
  assume "runner_join sv s \<noteq> None"
  then obtain r where r: "runner_join sv s = Some r" by blast
  have "?P sv s r"
  proof (rule runner_join.raw_induct [where P = ?P, OF _ r])
    fix f :: "'a DataServer \<Rightarrow> ('a, 'b) runner \<Rightarrow> (unit outcome \<times> ('a, 'b) runner) option" and sv s r
    assume rec: "\<And>sv s r. f sv s = Some r \<Longrightarrow> ?P sv s r"
      and step: "(if rn_worker s = W_done then Some (Ret (), s) else case worker_step sv s of (Ret evs, s') \<Rightarrow> f sv s'
        | (Throw e, s') \<Rightarrow> Some (Abort Terminated, s') | (Abort c, s') \<Rightarrow> Some (Abort c, s')) = Some r"
    show "?P sv s r"
    proof
      assume s: "awaits_response s"
      then obtain evs s' where s': "worker_step sv s = (Ret evs, s')" "awaits_response s'"
        by (auto simp: awaits_response_def worker_step_def goto_w_def then_act_def bind_act_def)
      have "f sv s' = Some r" using step s s'(1) by (auto simp: awaits_response_def)
      with rec s'(2) show False by blast
    qed
  qed
  with assms show False by simp
qed

text \<open>
  C36. A server is not freed while a request waits: when the runner thread of the connected handler has
  received a request that \<open>loop\<close> has not executed, \<open>odb_server_app_free\<close> never returns, because the
  destructor waits for the thread and the thread for the response.
\<close>

theorem free_hangs_on_pending_request:
  assumes "sa_client (app_handle app) = Some m" "mc_main m = Some (Data_handler h)" "dh_runner h = Some rn"
    and "rn_worker rn \<in> {W_wait_stop, W_wait_state}" "\<not> rn_stop rn" "rn_state rn = R_HAS_REQ"
  shows "odb_server_app_free nt app = None"
proof -
  have "runner_join (tcp_server nt) rn = None" using assms(4-6) by (intro join_hangs) (auto simp: awaits_response_def)
  then show ?thesis
    using assms(1-3) by (simp add: odb_server_app_free_def ServerApp_delete_def MultiClientHandler_delete_def runner_delete_def bind_proc_def)
qed

definition pending_runner :: "(TCPDataServer \<times> pipe_kernel, unit CWrapperVMApi Debugger) runner" where
  "pending_runner = snd (repeat_act 5 (worker_step (tcp_server pipe_net)) (runner_start
    (TCPDataServer_new 12644, sample_kernel\<lparr>pk_queue := [3, 0, 0, 0, 7, 8, 9]\<rparr>) (Debugger_new (CWrapperVMApi_new () []) script_infos 0)))"

definition pending_app :: "(unit, pipe_kernel) odb_server_app_t" where
  "pending_app = \<lparr>app_built = None, app_handle = \<lparr>sa_conf = g_conf_default, sa_db = Some (rn_db pending_runner),
    sa_client = Some \<lparr>mc_state = H_CONNECTED, mc_wait = [], mc_main = Some (Data_handler \<lparr>dh_state = H_CONNECTED, dh_runner = Some pending_runner\<rparr>)\<rparr>,
    sa_env = \<lparr>e_stdin = [], e_stdout = [], e_tty = False, e_sigints = [], e_handler_set = False, e_sig_stop = False, e_manual_stop = False,
      e_sched = (\<lambda>_. 1), e_now = 0, e_kernel = sample_kernel\<rparr>\<rparr>\<rparr>"

theorem free_hangs_on_pending_request_witness:
  "rn_in pending_runner = sib_reset [7, 8, 9] \<and> odb_server_app_free pipe_net pending_app = None"
proof
  show "rn_in pending_runner = sib_reset [7, 8, 9]" by code_simp
  have "rn_worker pending_runner = W_wait_stop" "\<not> rn_stop pending_runner" "rn_state pending_runner = R_HAS_REQ" by code_simp+
  then show "odb_server_app_free pipe_net pending_app = None"
    by (intro free_hangs_on_pending_request [where rn = pending_runner and h = "\<lparr>dh_state = H_CONNECTED, dh_runner = Some pending_runner\<rparr>"
      and m = "the (sa_client (app_handle pending_app))"]) (simp_all add: pending_app_def)
qed

text \<open>With the clients gone the server is freed, and the machine is cleaned up once.\<close>

fun runner_gone :: "('v, 'k) handler \<Rightarrow> bool" where
  "runner_gone (Cli_handler h) = True"
| "runner_gone (Data_handler h) = pred_option (\<lambda>rn. rn_worker rn = W_done) (dh_runner h)"

lemma handler_delete_gone: "runner_gone h \<Longrightarrow> \<exists>e'. handler_delete nt h e = Some (Ret (), e')"
  by (cases "(nt, h)" rule: handler_delete.cases) (auto simp: runner_delete_def runner_join.simps split: option.split)

lemma handlers_delete_gone: "list_all runner_gone hs \<Longrightarrow> \<exists>e'. handlers_delete nt hs e = Some (Ret (), e')"
proof (induction hs arbitrary: e)
  case (Cons h hs)
  then obtain e1 where "handler_delete nt h e = Some (Ret (), e1)" using handler_delete_gone [of h nt e] by auto
  with Cons show ?case by (simp add: bind_proc_def)
qed simp

theorem free_returns_when_gone:
  assumes "sa_client (app_handle app) = Some m" "list_all runner_gone (mc_wait m)" "pred_option runner_gone (mc_main m)"
    and "sa_db (app_handle app) = Some d" "app_built app = Some (tab, data)"
  shows "\<exists>e w. odb_server_app_free nt app = Some (Ret (), e, Some w) \<and> cw_data w = t_cleanup tab (cw_data (d_vm d))"
proof -
  obtain e1 where e1: "(case mc_main m of None \<Rightarrow> proc_of (ret ()) | Some h \<Rightarrow> handler_delete nt h) (sa_env (app_handle app)) = Some (Ret (), e1)"
    using assms(3) handler_delete_gone [of _ nt] by (cases "mc_main m") auto
  obtain e2 where "handlers_delete nt (mc_wait m) e1 = Some (Ret (), e2)" using handlers_delete_gone [OF assms(2)] by blast
  with e1 assms(1,4,5) show ?thesis
    by (simp add: odb_server_app_free_def ServerApp_delete_def MultiClientHandler_delete_def bind_proc_def CWrapperVMApi_delete_def)
qed

end
