(* ===== verification/Remote_Client.thy ===== *)
theory Remote_Client
  imports Tcp_Session Client_Impl
begin

text \<open>
  A client in another process is as good as one in the debugged process: each method of
  \<open>DBClientImplData\<close> over TCP, served by \<open>DataClientHandler::run_command\<close> on the other side, does and
  returns what the same method of \<open>DBClientImplVMSide\<close> does and returns. The requests are those the
  methods send, so the dispatch of the server is checked against the methods of the client.
\<close>

section \<open>Mirrored calls\<close>

text \<open>
  A local call \<open>loc\<close> on the debugger \<open>d\<close> and a remote call \<open>rem\<close> in a session ready for requests: the same result
  and the same debugger afterwards, the session ready again; an error arrives with its message.
\<close>

definition mirrors :: "('v Debugger \<Rightarrow> 'l \<Rightarrow> bool) \<Rightarrow> 'v Debugger \<Rightarrow> 'l \<Rightarrow> ('v Debugger, 'a) act \<Rightarrow> ('l, 'a) act \<Rightarrow> bool" where
  "mirrors idle d l loc rem \<longleftrightarrow>
    (\<forall>x d'. loc d = (Ret x, d') \<longrightarrow> (\<exists>l'. rem l = (Ret x, l') \<and> idle d' l')) \<and>
    (\<forall>e d'. loc d = (Throw e, d') \<longrightarrow> (\<exists>l'. rem l = (Throw (what e), l') \<and> idle d' l'))"

text \<open>
  The call can be carried: the request \<open>r\<close> is well formed, its response (\<open>f x\<close> for the result \<open>x\<close>) or error
  message can be encoded, and no message has \<open>2 ^ 32\<close> bytes or more.
\<close>

definition carried :: "request \<Rightarrow> ('v Debugger, 'a) act \<Rightarrow> ('a \<Rightarrow> request) \<Rightarrow> 'v Debugger \<Rightarrow> bool" where
  "carried r loc f d \<longleftrightarrow> request_ok r \<and> short_message (2 ^ 32) (client_send r) \<and>
    (\<forall>x d'. loc d = (Ret x, d') \<longrightarrow> response_ok (f x) r \<and> short_message (2 ^ 32) (write_response (req_type r) (f x))) \<and>
    (\<forall>e d'. loc d = (Throw e, d') \<longrightarrow> fits (what e) \<and> short_message (2 ^ 32) (write_response ERR (Rq_Err \<lparr>er_msg = what e\<rparr>)))"

context tcp_connection
begin

lemma call_mirrors:
  assumes "carried r loc f d" "tcp_idle cfd sfd up down d l" "rejects_stopped (req_type r) = None"
    and "local_call api udp0 r = bind_act loc (\<lambda>x. ret (f x))" "\<And>x. g (client_view r (f x)) = x"
  shows "mirrors (tcp_idle cfd sfd up down) d l loc (bind_act (tcp_call nt api udp0 r) (\<lambda>r'. ret (g r')))"
  unfolding mirrors_def
proof (intro conjI allI impI)
  fix x d' assume x: "loc d = (Ret x, d')"
  then have "local_call api udp0 r d = (Ret (f x), d')" using assms(4) by (simp add: bind_act_def)
  with assms(1-3) x link.remote_Ret [of r d l api udp0 "f x" d']
  obtain l' where "tcp_call nt api udp0 r l = (Ret (client_view r (f x)), l')" "tcp_idle cfd sfd up down d' l'"
    by (auto simp: carried_def tcp_call_def)
  then show "\<exists>l'. bind_act (tcp_call nt api udp0 r) (\<lambda>r'. ret (g r')) l = (Ret x, l') \<and> tcp_idle cfd sfd up down d' l'"
    using assms(5) by (auto simp: bind_act_def)
next
  fix e d' assume e: "loc d = (Throw e, d')"
  then have "local_call api udp0 r d = (Throw e, d')" using assms(4) by (simp add: bind_act_def)
  with assms(1-3) e link.remote_Throw [of r d l api udp0 e d']
  obtain l' where "tcp_call nt api udp0 r l = (Throw (what e), l')" "tcp_idle cfd sfd up down d' l'"
    by (auto simp: carried_def tcp_call_def)
  then show "\<exists>l'. bind_act (tcp_call nt api udp0 r) (\<lambda>r'. ret (g r')) l = (Throw (what e), l') \<and> tcp_idle cfd sfd up down d' l'"
    by (auto simp: bind_act_def)
qed

end

text \<open>The arrays a call fills: only their length matters, or they are filled with zeros as the server's are.\<close>

lemma fill_array_length: "length out = length out' \<Longrightarrow> n = length out \<Longrightarrow> fill_array f xs out n = fill_array f xs out' n"
  by (simp add: fill_array_def)

definition zero_rows :: "vm_size_t list \<Rightarrow> bytes list" where
  "zero_rows sizes = map (\<lambda>s. replicate (unat s) 0) sizes"

text \<open>The requests of the methods that send one kind of request.\<close>

definition add_request :: "vm_ptr_t list \<Rightarrow> nat \<Rightarrow> request" where
  "add_request addrs n = Rq_AddBkps \<lparr>ab_size = of_nat n, ab_in_addrs = addrs\<rparr>"

definition del_request :: "vm_ptr_t list \<Rightarrow> nat \<Rightarrow> request" where
  "del_request addrs n = Rq_DelBkps \<lparr>dbk_size = of_nat n, dbk_in_addrs = addrs\<rparr>"

definition write_request :: "vm_ptr_t list \<Rightarrow> vm_size_t list \<Rightarrow> bytes list \<Rightarrow> nat \<Rightarrow> request" where
  "write_request addrs sizes bufs n =
    Rq_WriteMemVar \<lparr>wmv_nbufs = of_nat n, wmv_in_addrs = addrs, wmv_in_bufs_size = sizes, wmv_in_bufs = bufs\<rparr>"

definition read_request :: "vm_ptr_t list \<Rightarrow> vm_size_t list \<Rightarrow> bytes list \<Rightarrow> nat \<Rightarrow> request" where
  "read_request addrs sizes bufs n =
    Rq_ReadMemVar \<lparr>rmv_nbufs = of_nat n, rmv_in_addrs = addrs, rmv_in_bufs_size = sizes, rmv_out_bufs = bufs\<rparr>"

definition find_request :: "string list \<Rightarrow> vm_reg_t list \<Rightarrow> nat \<Rightarrow> request" where
  "find_request names ids n = Rq_FindRegsIds \<lparr>fri_nregs = of_nat n, fri_in_bufs = names, fri_out_ids = ids\<rparr>"

definition symbols_request :: "vm_ptr_t \<Rightarrow> vm_size_t \<Rightarrow> SymbolInfos list \<Rightarrow> request" where
  "symbols_request a sz infos = Rq_GetSymsByAddr \<lparr>gsa_addr = a, gsa_size = sz, gsa_out_infos = infos\<rparr>"

definition code_request :: "vm_ptr_t \<Rightarrow> nat \<Rightarrow> string list \<times> vm_size_t list \<Rightarrow> request" where
  "code_request a n x = Rq_GetCodeText \<lparr>gct_addr = a, gct_nins = of_nat n, gct_out_text = fst x, gct_out_sizes = snd x\<rparr>"

text \<open>
  The registers of a call have one size, given once, or a size each; the rows for their values are
  filled with zeros.
\<close>

definition uniform :: "vm_size_t list \<Rightarrow> nat \<Rightarrow> bool" where
  "uniform sizes n \<longleftrightarrow> n < 2 \<or> sizes ! 1 = 0"

definition reg_rows :: "vm_size_t list \<Rightarrow> nat \<Rightarrow> bytes list" where
  "reg_rows sizes n = (if uniform sizes n then replicate n (replicate (unat (sizes ! 0)) 0) else zero_rows sizes)"

definition get_request :: "vm_reg_t list \<Rightarrow> vm_size_t list \<Rightarrow> nat \<Rightarrow> bytes list \<Rightarrow> request" where
  "get_request ids sizes n bufs = (if uniform sizes n
    then Rq_GetRegs \<lparr>gr_nregs = of_nat n, gr_reg_size = sizes ! 0, gr_ids = ids, gr_out_bufs = bufs\<rparr>
    else Rq_GetRegsVar \<lparr>grv_nregs = of_nat n, grv_in_ids = ids, grv_in_regs_size = sizes, grv_out_bufs = bufs\<rparr>)"

definition set_request :: "vm_reg_t list \<Rightarrow> vm_size_t list \<Rightarrow> nat \<Rightarrow> bytes list \<Rightarrow> request" where
  "set_request ids sizes n bufs = (if uniform sizes n
    then Rq_SetRegs \<lparr>sr_nregs = of_nat n, sr_reg_size = sizes ! 0, sr_in_ids = ids, sr_in_bufs = bufs\<rparr>
    else Rq_SetRegsVar \<lparr>srv_nregs = of_nat n, srv_in_ids = ids, srv_in_regs_size = sizes, srv_in_bufs = bufs\<rparr>)"

lemma same_size_run: "n \<noteq> 0 \<Longrightarrow> min n 2 \<le> length sizes \<Longrightarrow> same_size sizes n s = (Ret (uniform sizes n), s)"
  by (auto simp: same_size_def uniform_def elem_at_def bind_act_def then_act_def)

lemma then_ret: "then_act m (ret x) = bind_act m (\<lambda>_. ret x)"
  by (simp add: then_act_def)

context tcp_connection
begin

abbreviation ready :: "'v Debugger \<Rightarrow> ('k, 'v Debugger) tcp_session \<Rightarrow> bool" where
  "ready \<equiv> tcp_idle cfd sfd up down"

abbreviation remote :: "'v VMApi \<Rightarrow> DBClientUpdate \<Rightarrow> request \<Rightarrow> (('k, 'v Debugger) tcp_session, request) act" where
  "remote api udp0 \<equiv> tcp_call nt api udp0"

lemma unit_mirrors:
  assumes "carried r loc (\<lambda>_. r) d" "ready d l" "rejects_stopped (req_type r) = None" "local_call api udp0 r = then_act loc (ret r)"
  shows "mirrors ready d l loc (then_act (remote api udp0 r) (ret ()))"
  using call_mirrors [OF assms(1-3), of api udp0 "\<lambda>_. ()"] assms(4) by (simp add: then_ret)

lemma breakpoints_mirror:
  assumes "ready d l" "n < 2 ^ 16"
  shows "carried (add_request addrs n) (vms_add_breakpoints addrs n) (\<lambda>_. add_request addrs n) d \<Longrightarrow>
      mirrors ready d l (vms_add_breakpoints addrs n) (data_add_breakpoints (remote api udp0) addrs n)"
    and "carried (del_request addrs n) (vms_del_breakpoints addrs n) (\<lambda>_. del_request addrs n) d \<Longrightarrow>
      mirrors ready d l (vms_del_breakpoints addrs n) (data_del_breakpoints (remote api udp0) addrs n)"
  unfolding data_add_breakpoints_def data_del_breakpoints_def add_request_def del_request_def
  using assms(2) by (auto intro!: unit_mirrors [OF _ assms(1)] simp: local_call_def unat_of_nat_id)

lemma resume_mirrors:
  assumes "ready d l" "carried (Rq_Resume \<lparr>rs_type = type\<rparr>) (vms_resume type) (\<lambda>_. Rq_Resume \<lparr>rs_type = type\<rparr>) d"
  shows "mirrors ready d l (vms_resume type) (data_resume (remote api udp0) type)"
  unfolding data_resume_def by (rule unit_mirrors [OF assms(2,1)]) (simp_all add: local_call_def)

lemma memory_mirrors:
  assumes "ready d l" "n < 2 ^ 16" "length sizes = n"
  shows "carried (write_request addrs sizes bufs n) (vms_write_mem api addrs sizes bufs n) (\<lambda>_. write_request addrs sizes bufs n) d \<Longrightarrow>
      mirrors ready d l (vms_write_mem api addrs sizes bufs n) (data_write_mem (remote api udp0) addrs sizes bufs n)"
    and "carried (read_request addrs sizes (zero_rows sizes) n) (vms_read_mem api addrs sizes (zero_rows sizes) n)
        (\<lambda>x. read_request addrs sizes x n) d \<Longrightarrow>
      mirrors ready d l (vms_read_mem api addrs sizes (zero_rows sizes) n)
        (data_read_mem (remote api udp0) addrs sizes (zero_rows sizes) n)"
proof -
  assume "carried (write_request addrs sizes bufs n) (vms_write_mem api addrs sizes bufs n) (\<lambda>_. write_request addrs sizes bufs n) d"
  then have "mirrors ready d l (vms_write_mem api addrs sizes bufs n) (then_act (remote api udp0 (write_request addrs sizes bufs n)) (ret ()))"
    using assms(2) by (intro unit_mirrors [OF _ assms(1)]) (simp_all add: local_call_def unat_of_nat_id write_request_def)
  then show "mirrors ready d l (vms_write_mem api addrs sizes bufs n) (data_write_mem (remote api udp0) addrs sizes bufs n)"
    using assms(1) by (cases n) (simp_all add: data_write_mem_def write_request_def mirrors_def vms_write_mem_def)
next
  let ?r = "read_request addrs sizes (zero_rows sizes) n"
  assume carried: "carried ?r (vms_read_mem api addrs sizes (zero_rows sizes) n) (\<lambda>x. read_request addrs sizes x n) d"
  have lc: "local_call api udp0 ?r = bind_act (vms_read_mem api addrs sizes (zero_rows sizes) n) (\<lambda>x. ret (read_request addrs sizes x n))"
    using assms(2) by (simp add: local_call_def unat_of_nat_id read_request_def zero_rows_def)
  have cv: "rmv_out_bufs (un_ReadMemVar (client_view ?r (read_request addrs sizes x n))) = x" for x
    by (simp add: read_request_def)
  have "mirrors ready d l (vms_read_mem api addrs sizes (zero_rows sizes) n)
      (bind_act (remote api udp0 (read_request addrs sizes (zero_rows sizes) n)) (\<lambda>r. ret (rmv_out_bufs (un_ReadMemVar r))))"
    by (rule call_mirrors [OF carried assms(1) _ lc cv]) (simp add: read_request_def)
  then show "mirrors ready d l (vms_read_mem api addrs sizes (zero_rows sizes) n)
      (data_read_mem (remote api udp0) addrs sizes (zero_rows sizes) n)"
    using assms(1,3) by (cases n) (simp_all add: data_read_mem_def read_request_def mirrors_def vms_read_mem_def zero_rows_def bind_act_def)
qed

lemma find_mirrors:
  assumes "ready d l" "n < 2 ^ 16" "length out = n"
    and "carried (find_request names out n) (vms_find_regs_ids api names out n) (\<lambda>x. find_request names x n) d"
  shows "mirrors ready d l (vms_find_regs_ids api names out n) (data_find_regs_ids (remote api udp0) names out n)"
proof -
  have "vms_find_regs_ids api names (replicate n 0) n = vms_find_regs_ids api names out n"
    unfolding vms_find_regs_ids_def by (rule fill_array_length) (simp_all add: assms(3))
  then show ?thesis
    unfolding data_find_regs_ids_def using call_mirrors [OF assms(4,1), of api udp0 "\<lambda>r. fri_out_ids (un_FindRegsIds r)"] assms(2)
    by (simp add: find_request_def local_call_def unat_of_nat_id)
qed

lemma listing_mirrors:
  assumes "ready d l"
  shows "carried (symbols_request a sz []) (vms_get_symbols_by_addr api a sz) (symbols_request a sz) d \<Longrightarrow>
      mirrors ready d l (vms_get_symbols_by_addr api a sz) (data_get_symbols_by_addr (remote api udp0) a sz)"
    and "n < 2 ^ 16 \<Longrightarrow> carried (code_request a n ([], [])) (vms_get_code_text api a n) (code_request a n) d \<Longrightarrow>
      mirrors ready d l (vms_get_code_text api a n) (data_get_code_text (remote api udp0) a n)"
proof -
  assume carried: "carried (symbols_request a sz []) (vms_get_symbols_by_addr api a sz) (symbols_request a sz) d"
  have "mirrors ready d l (vms_get_symbols_by_addr api a sz)
      (bind_act (remote api udp0 (symbols_request a sz [])) (\<lambda>r. ret (gsa_out_infos (un_GetSymsByAddr r))))"
    by (rule call_mirrors [OF carried assms]) (simp_all add: symbols_request_def local_call_def)
  then show "mirrors ready d l (vms_get_symbols_by_addr api a sz) (data_get_symbols_by_addr (remote api udp0) a sz)"
    by (simp add: data_get_symbols_by_addr_def symbols_request_def)
next
  assume n: "n < 2 ^ 16" and carried: "carried (code_request a n ([], [])) (vms_get_code_text api a n) (code_request a n) d"
  have "mirrors ready d l (vms_get_code_text api a n)
      (bind_act (remote api udp0 (code_request a n ([], []))) (\<lambda>r. ret (gct_out_text (un_GetCodeText r), gct_out_sizes (un_GetCodeText r))))"
    by (rule call_mirrors [OF carried assms]) (use n in \<open>simp_all add: code_request_def local_call_def unat_of_nat_id case_prod_unfold\<close>)
  then show "mirrors ready d l (vms_get_code_text api a n) (data_get_code_text (remote api udp0) a n)"
    by (simp add: data_get_code_text_def code_request_def)
qed

lemma check_mirrors:
  assumes "ready d l" "\<not> is_running d"
    and "carried (Rq_CheckStopped \<lparr>cs_out_udp = udp\<rparr>) (vms_check_stopped udp) (\<lambda>x. Rq_CheckStopped \<lparr>cs_out_udp = x\<rparr>) d"
  shows "mirrors ready d l (vms_check_stopped udp) (data_check_stopped (remote api udp0) udp)"
proof -
  let ?r = "\<lambda>u. Rq_CheckStopped \<lparr>cs_out_udp = u\<rparr>"
  have eq: "vms_check_stopped u d = vms_check_stopped v d" for u v :: DBClientUpdate
    using assms(2) by (simp add: vms_check_stopped_def)
  obtain x where x: "vms_check_stopped udp d = (Ret x, d)" by (simp add: vms_check_stopped_def)
  then have "local_call api udp0 (?r udp) d = (Ret (?r x), d)"
    using eq [of udp0 udp] by (simp add: local_call_def bind_act_def)
  with assms(1,3) x link.remote_Ret [of "?r udp" d l api udp0 "?r x" d]
  obtain l' where "remote api udp0 (?r udp) l = (Ret (client_view (?r udp) (?r x)), l')" "ready d l'"
    by (auto simp: carried_def tcp_call_def)
  then show ?thesis using x by (simp add: mirrors_def data_check_stopped_def bind_act_def)
qed

lemma registers_mirror:
  assumes "ready d l" "n < 2 ^ 16" "n \<noteq> 0" "min n 2 \<le> length sizes"
  shows "carried (set_request ids sizes n bufs) (vms_set_regs api ids bufs n) (\<lambda>_. set_request ids sizes n bufs) d \<Longrightarrow>
      mirrors ready d l (vms_set_regs api ids bufs n) (data_set_regs (remote api udp0) ids bufs sizes n)"
    and "carried (get_request ids sizes n (reg_rows sizes n)) (vms_get_regs api ids (reg_rows sizes n) n) (get_request ids sizes n) d \<Longrightarrow>
      mirrors ready d l (vms_get_regs api ids (reg_rows sizes n) n) (data_get_regs (remote api udp0) ids (reg_rows sizes n) sizes n)"
proof -
  have size0: "elem_at sizes 0 s = (Ret (sizes ! 0), s)" for s :: "('k, 'v Debugger) tcp_session"
    using assms(3,4) by (cases sizes) (auto simp: elem_at_def then_act_def bind_act_def)
  {
    assume "carried (set_request ids sizes n bufs) (vms_set_regs api ids bufs n) (\<lambda>_. set_request ids sizes n bufs) d"
    then have m: "mirrors ready d l (vms_set_regs api ids bufs n) (then_act (remote api udp0 (set_request ids sizes n bufs)) (ret ()))"
      by (rule unit_mirrors [OF _ assms(1)]) (use assms(2) in \<open>simp_all add: local_call_def unat_of_nat_id set_request_def\<close>)
    have "data_set_regs (remote api udp0) ids bufs sizes n l = then_act (remote api udp0 (set_request ids sizes n bufs)) (ret ()) l"
      using assms(3) by (simp add: data_set_regs_def bind_act_def same_size_run [OF assms(3,4)] size0 set_request_def)
    with m show "mirrors ready d l (vms_set_regs api ids bufs n) (data_set_regs (remote api udp0) ids bufs sizes n)"
      by (simp add: mirrors_def)
  }
  {
    let ?g = "\<lambda>r. if uniform sizes n then gr_out_bufs (un_GetRegs r) else grv_out_bufs (un_GetRegsVar r)"
    assume c: "carried (get_request ids sizes n (reg_rows sizes n)) (vms_get_regs api ids (reg_rows sizes n) n) (get_request ids sizes n) d"
    have m: "mirrors ready d l (vms_get_regs api ids (reg_rows sizes n) n)
        (bind_act (remote api udp0 (get_request ids sizes n (reg_rows sizes n))) (\<lambda>r. ret (?g r)))"
      by (rule call_mirrors [OF c assms(1)])
        (use assms(2) in \<open>simp_all add: local_call_def unat_of_nat_id get_request_def reg_rows_def zero_rows_def\<close>)
    have "data_get_regs (remote api udp0) ids (reg_rows sizes n) sizes n l =
        bind_act (remote api udp0 (get_request ids sizes n (reg_rows sizes n))) (\<lambda>r. ret (?g r)) l"
      using assms(3) by (simp add: data_get_regs_def bind_act_def [where m = "same_size _ _"] bind_act_def [where m = "elem_at _ _"]
          same_size_run [OF assms(3,4)] size0 get_request_def)
    with m show "mirrors ready d l (vms_get_regs api ids (reg_rows sizes n) n) (data_get_regs (remote api udp0) ids (reg_rows sizes n) sizes n)"
      by (simp add: mirrors_def)
  }
qed

end

section \<open>Properties\<close>

text \<open>
  C2. A remote client sees and does what a local one does. Over any kernel with a stream in each direction
  and a session ready for requests on a debugger, each of the methods that add and delete
  breakpoints, resume, ask for the stopped state, read and write memory and registers, find registers,
  list symbols and disassemble has in \<open>DBClientImplData\<close> the result and the effect on the debugger that
  it has in \<open>DBClientImplVMSide\<close>, or throws its error with the same message, and leaves the session
  ready. The arguments are arrays of less than \<open>2 ^ 16\<close> elements of matching lengths, the buffers to be
  filled hold zeros, and the request, the response and the error message can be encoded in less than
  \<open>2 ^ 32\<close> bytes (\<open>carried\<close>).
\<close>

theorem remote_client_mirrors_local:
  assumes "duplex nt cfd sfd up down" "tcp_idle cfd sfd up down d l" "n < 2 ^ 16"
  shows "(carried (add_request addrs n) (im_add_breakpoints (vmside_impl api) addrs n) (\<lambda>_. add_request addrs n) d \<longrightarrow>
      mirrors (tcp_idle cfd sfd up down) d l (im_add_breakpoints (vmside_impl api) addrs n)
        (im_add_breakpoints (data_impl conn (tcp_call nt api udp0)) addrs n)) \<and>
    (carried (del_request addrs n) (im_del_breakpoints (vmside_impl api) addrs n) (\<lambda>_. del_request addrs n) d \<longrightarrow>
      mirrors (tcp_idle cfd sfd up down) d l (im_del_breakpoints (vmside_impl api) addrs n)
        (im_del_breakpoints (data_impl conn (tcp_call nt api udp0)) addrs n)) \<and>
    (carried (Rq_Resume \<lparr>rs_type = type\<rparr>) (im_resume (vmside_impl api) type) (\<lambda>_. Rq_Resume \<lparr>rs_type = type\<rparr>) d \<longrightarrow>
      mirrors (tcp_idle cfd sfd up down) d l (im_resume (vmside_impl api) type)
        (im_resume (data_impl conn (tcp_call nt api udp0)) type)) \<and>
    (\<not> is_running d \<longrightarrow> carried (Rq_CheckStopped \<lparr>cs_out_udp = udp\<rparr>) (im_check_stopped (vmside_impl api) udp)
        (\<lambda>x. Rq_CheckStopped \<lparr>cs_out_udp = x\<rparr>) d \<longrightarrow>
      mirrors (tcp_idle cfd sfd up down) d l (im_check_stopped (vmside_impl api) udp)
        (im_check_stopped (data_impl conn (tcp_call nt api udp0)) udp)) \<and>
    (length sizes = n \<longrightarrow> carried (write_request addrs sizes bufs n) (im_write_mem (vmside_impl api) addrs sizes bufs n)
        (\<lambda>_. write_request addrs sizes bufs n) d \<longrightarrow>
      mirrors (tcp_idle cfd sfd up down) d l (im_write_mem (vmside_impl api) addrs sizes bufs n)
        (im_write_mem (data_impl conn (tcp_call nt api udp0)) addrs sizes bufs n)) \<and>
    (length sizes = n \<longrightarrow> carried (read_request addrs sizes (zero_rows sizes) n)
        (im_read_mem (vmside_impl api) addrs sizes (zero_rows sizes) n) (\<lambda>x. read_request addrs sizes x n) d \<longrightarrow>
      mirrors (tcp_idle cfd sfd up down) d l (im_read_mem (vmside_impl api) addrs sizes (zero_rows sizes) n)
        (im_read_mem (data_impl conn (tcp_call nt api udp0)) addrs sizes (zero_rows sizes) n)) \<and>
    (n \<noteq> 0 \<longrightarrow> min n 2 \<le> length sizes \<longrightarrow> carried (set_request ids sizes n bufs) (im_set_regs (vmside_impl api) ids bufs sizes n)
        (\<lambda>_. set_request ids sizes n bufs) d \<longrightarrow>
      mirrors (tcp_idle cfd sfd up down) d l (im_set_regs (vmside_impl api) ids bufs sizes n)
        (im_set_regs (data_impl conn (tcp_call nt api udp0)) ids bufs sizes n)) \<and>
    (n \<noteq> 0 \<longrightarrow> min n 2 \<le> length sizes \<longrightarrow> carried (get_request ids sizes n (reg_rows sizes n))
        (im_get_regs (vmside_impl api) ids (reg_rows sizes n) sizes n) (get_request ids sizes n) d \<longrightarrow>
      mirrors (tcp_idle cfd sfd up down) d l (im_get_regs (vmside_impl api) ids (reg_rows sizes n) sizes n)
        (im_get_regs (data_impl conn (tcp_call nt api udp0)) ids (reg_rows sizes n) sizes n)) \<and>
    (length ids = n \<longrightarrow> carried (find_request names ids n) (im_find_regs_ids (vmside_impl api) names ids n)
        (\<lambda>x. find_request names x n) d \<longrightarrow>
      mirrors (tcp_idle cfd sfd up down) d l (im_find_regs_ids (vmside_impl api) names ids n)
        (im_find_regs_ids (data_impl conn (tcp_call nt api udp0)) names ids n)) \<and>
    (carried (symbols_request a sz []) (im_get_symbols_by_addr (vmside_impl api) a sz) (symbols_request a sz) d \<longrightarrow>
      mirrors (tcp_idle cfd sfd up down) d l (im_get_symbols_by_addr (vmside_impl api) a sz)
        (im_get_symbols_by_addr (data_impl conn (tcp_call nt api udp0)) a sz)) \<and>
    (carried (code_request a n ([], [])) (im_get_code_text (vmside_impl api) a n) (code_request a n) d \<longrightarrow>
      mirrors (tcp_idle cfd sfd up down) d l (im_get_code_text (vmside_impl api) a n)
        (im_get_code_text (data_impl conn (tcp_call nt api udp0)) a n))"
proof -
  have conn: "tcp_connection nt cfd sfd up down" using assms(1) by unfold_locales
  note conn = tcp_connection.breakpoints_mirror [OF conn assms(2,3)] tcp_connection.resume_mirrors [OF conn assms(2)]
    tcp_connection.check_mirrors [OF conn assms(2)] tcp_connection.memory_mirrors [OF conn assms(2,3)]
    tcp_connection.registers_mirror [OF conn assms(2,3)] tcp_connection.find_mirrors [OF conn assms(2,3)]
    tcp_connection.listing_mirrors(1) [OF conn assms(2)] tcp_connection.listing_mirrors(2) [OF conn assms(2,3)]
  show ?thesis
    unfolding vmside_impl_def data_impl_def DBClientImpl.simps by (intro conjI impI conn)
qed

text \<open>Two breakpoints added by a remote client.\<close>

lemma sample_carried:
  "carried (add_request [5, 7] 2) (vms_add_breakpoints [5, 7] 2) (\<lambda>_. add_request [5, 7] 2) script_debugger"
  "vms_add_breakpoints [5, 7] 2 script_debugger = (Ret (), script_debugger\<lparr>d_breakpts := {5, 7}\<rparr>)"
proof -
  have r: "add_request [5, 7] 2 = sample_request" by (simp add: add_request_def sample_request_def)
  have run: "vms_add_breakpoints [5, 7] 2 script_debugger = (Ret (), script_debugger\<lparr>d_breakpts := {5, 7}\<rparr>)"
    by (simp add: vms_add_breakpoints_def upt_rec elem_at_def add_breakpoint_def script_debugger_def Debugger_new_def script_infos_def
        then_act_def bind_act_def insert_commute)
  then show "vms_add_breakpoints [5, 7] 2 script_debugger = (Ret (), script_debugger\<lparr>d_breakpts := {5, 7}\<rparr>)" .
  have "short_message (2 ^ 32) (client_send sample_request)" "short_message (2 ^ 32) (write_response (req_type sample_request) sample_request)"
    by (simp_all add: sample_messages short_message_def)
  moreover have "response_ok sample_request sample_request" by (simp add: sample_request_def)
  ultimately show "carried (add_request [5, 7] 2) (vms_add_breakpoints [5, 7] 2) (\<lambda>_. add_request [5, 7] 2) script_debugger"
    using sample_request_facts(1) run by (simp add: carried_def r)
qed

theorem remote_client_mirrors_local_witness:
  "\<exists>l'. im_add_breakpoints (data_impl (ret True) (tcp_call pair_net script_vm sample_update)) [5, 7] 2 sample_session = (Ret (), l') \<and>
    tcp_idle 5 4 fst snd (script_debugger\<lparr>d_breakpts := {5, 7}\<rparr>) l'"
proof -
  have idle: "tcp_idle 5 4 fst snd script_debugger sample_session"
    by (simp add: tcp_idle_def sample_session_def waiting_def runner_start_def tp_kernel_def)
  have "(2 :: nat) < 2 ^ 16" by simp
  from remote_client_mirrors_local [OF pair_duplex idle this, of "[5, 7]" script_vm "ret True" sample_update, THEN conjunct1]
  have "mirrors (tcp_idle 5 4 fst snd) script_debugger sample_session (im_add_breakpoints (vmside_impl script_vm) [5, 7] 2)
      (im_add_breakpoints (data_impl (ret True) (tcp_call pair_net script_vm sample_update)) [5, 7] 2)"
    using sample_carried(1) by (simp add: vmside_impl_def)
  then show ?thesis using sample_carried(2) by (simp add: mirrors_def vmside_impl_def)
qed

end
