(* ===== verification/Spec2Isabelle.thy ===== *)
theory Spec2Isabelle
  imports Server_App_Tcp Server_App_Cli Mvm0_Client Debugger_Flow Debugger_Invariant C_Api_Mvm0 Odb_Cli_Props Message
    Debugger_Log Mvm0_Backtrace Server_Free Remote_Client
begin

text \<open>
  A verification of \<open>odb\<close>, a generic debugger for virtual machines written in C++.

  \<^bold>\<open>The program.\<close> A virtual machine links the server library and calls \<open>ServerApp::loop\<close> before each
  instruction. \<open>ServerApp\<close> owns a \<open>Debugger\<close>, which talks to the machine through the abstract class
  \<open>VMApi\<close> (or a table of C functions wrapped as one), and a \<open>MultiClientHandler\<close> with one handler per
  kind of client: \<open>CLIClientHandler\<close> reads commands from standard input, \<open>DataClientHandler\<close> serves
  requests that a runner thread receives over TCP. On the client's side \<open>DBClient\<close> keeps a state and
  a register cache over a \<open>DBClientImpl\<close>, which is either \<open>DBClientImplVMSide\<close> (the debugger in the same
  process) or \<open>DBClientImplData\<close> (requests over a connection); \<open>SimpleCLIClient\<close> is the command
  language on top of it. Two programs use them: \<open>odb-cli\<close>, with panels on a terminal, and
  \<open>odb-client-simple-cli\<close>.

  \<^bold>\<open>How it is modelled.\<close> A class is a record of its members, a method an action on it (type \<open>act\<close> of
  \<open>Odb_Prelude\<close>): a function from the state to an outcome and a state. The outcome is a return, a thrown
  \<open>VMApi::Error\<close>, or the end of the process (a failed assertion, an access out of bounds, other
  undefined behaviour, an exception nobody catches). Integers have the width of the source and wrap. A
  method that may block or loop for ever is a \<open>proc\<close> of \<open>Server_App\<close>, whose result \<open>None\<close> means that it does
  not return; such loops are partial functions, so no fuel is involved, and theorems that say a
  program returns prove \<open>Some\<close>. Two threads are a step relation over the statements between which
  they can be interrupted.

  \<^bold>\<open>The theories\<close>, with the sources under \<open>src/\<close> (headers under \<open>include/odb/\<close>):
  \<^item> \<open>Odb_Prelude\<close>: outcomes, actions, and the rules for invariants of actions (\<open>keeps\<close>, \<open>safe\<close>).
  \<^item> \<open>Std_Map\<close>: \<open>std::map\<close> as a sorted association list.
  \<^item> \<open>Range_Map\<close> (\<open>utils/range-map.hh\<close>): \<open>set\<close> is a pointwise update, \<open>range_of\<close> finds the maximal constant
    interval, and after any sequence of \<open>set\<close> the map stores one range per run of equal values.
  \<^item> \<open>Vm_Types\<close> (\<open>server/fwd.hh\<close>, \<open>server/vm-api.hh\<close>): the shared structs and \<open>VMApi\<close> as a record of methods.
  \<^item> \<open>Debugger\<close> (\<open>server/debugger.cc\<close>): every method of the class. \<open>Debugger_Flow\<close>: \<open>resume\<close> and \<open>on_update\<close>
    refine a specification of step, next, finish and continue over the list of reports of the
    machine. \<open>Debugger_Invariant\<close>: the invariant of the reachable states. \<open>Debugger_Symbols\<close>: the lazy
    symbol cache, against the locale \<open>vm_symbols\<close> of a machine with a symbol table. \<open>Debugger_Log\<close>: the
    methods with the log of the default build, which only observes and records every call of the
    machine.
  \<^item> \<open>Mvm0\<close> (\<open>tests/mockvms/mvm0\<close>): the \<open>VMApi\<close> of the repository's machine, which interprets \<open>vm_symbols\<close>.
  \<^item> \<open>Serial\<close>, \<open>Request_Handler\<close>, \<open>Request\<close> (\<open>mess/serial.hh\<close>, \<open>mess/request-handler.hh\<close>, \<open>mess/request.cc\<close>): the
    buffers, the four request handlers and the request structs; what one side writes the other
    reads back.
  \<^item> \<open>Vm_Side\<close> (\<open>server/db-client-impl-vmside.cc\<close>) and \<open>Data_Client\<close> (\<open>server/data-client-handler.cc\<close>,
    \<open>client/db-client-impl-data.cc\<close>): the execution of requests. A request sent to the server is executed
    there once and answered with its result, over every transport that meets the locales \<open>data_link\<close>
    and \<open>debugger_link\<close>.
  \<^item> \<open>Tcp_Transfer\<close> (\<open>mess/tcp-transfer.cc\<close>, \<open>tcp-data-server.cc\<close>, \<open>tcp-data-client.cc\<close>), \<open>Server_Runner\<close> (the
    runner thread of \<open>data-client-handler.cc\<close>) and \<open>Tcp_Session\<close>: messages over a byte stream however
    the kernel cuts it, mutual exclusion of the two threads for every interleaving, and the whole
    connection (locale \<open>tcp_connection\<close>) as an instance of the link locales.
  \<^item> \<open>Remote_Client\<close>: each method of \<open>DBClientImplData\<close> over that connection does and returns what the same
    method of \<open>DBClientImplVMSide\<close> does and returns, for requests and responses that can be encoded, and
    leaves the connection ready for the next one; so the dispatch of the server
    (\<open>DataClientHandler::run_command\<close>) agrees with the methods of the client.
  \<^item> \<open>Client_Impl\<close> (\<open>mess/db-client-impl.hh\<close> and its implementations), \<open>Db_Client\<close> (\<open>mess/db-client.cc\<close>),
    \<open>Db_Client_Cache\<close> and \<open>Mvm0_Client\<close>: the client and its register cache over the locale
    \<open>register_file\<close>, interpreted by the debugger on \<open>mvm0\<close>.
  \<^item> \<open>Simple_Cli\<close>, \<open>Simple_Cli_Props\<close> (\<open>mess/simple-cli-client.cc\<close>): parsing, printing and every command.
  \<^item> \<open>Server_App\<close> (\<open>server/server-app.cc\<close>, \<open>cli-client-handler.cc\<close>, \<open>multi-client-handler.cc\<close>, the main thread of
    \<open>data-client-handler.cc\<close>), \<open>Server_App_Props\<close>, \<open>Server_App_Cli\<close>, \<open>Server_App_Tcp\<close>: the loop of the
    server returns, lets the program run, keeps the command-line client and the debugger in step from
    the connection to the disconnection, and hangs after a failed TCP connection.
  \<^item> \<open>C_Api\<close> (\<open>server_capi/vm-api.cc\<close>, \<open>server_capi/server-app.cc\<close>), \<open>C_Api_Props\<close>, \<open>C_Api_Mvm0\<close>: a table of C
    functions that meets the locale \<open>c_machine\<close> for a machine is, behind its wrapper, that machine,
    by a simulation carried through the debugger and the execution of requests; interpreted for
    \<open>mvm0\<close>. The locale asks more than \<open>vm-api.h\<close>: the functions that list symbols make progress on every call
    and do not change the machine (without progress the wrapper loops for ever). \<open>Server_Free\<close>: the destructors of the server and \<open>odb_server_app_free\<close>, which waits for ever for a
    runner thread that waits for a response.
  \<^item> \<open>Transparency\<close>: a machine whose queries do not change it (locale \<open>observed\<close>) is left alone by every command
    that does not write, through the client, the handlers and \<open>ServerApp::loop\<close>, also by one that ends the
    process.
  \<^item> \<open>Mvm0_Cpu\<close>, \<open>Mvm0_Parser\<close>, \<open>Mvm0_Main\<close>, \<open>Mvm0_Backtrace\<close> (\<open>tests/mockvms/mvm0/src\<close>: \<open>cpu.cc\<close>, \<open>parser.cc\<close>, \<open>main.cc\<close>): the
    instructions, the assembler and the program that puts the server around the processor. A
    debugged program computes what it computes alone, up to a command that ends the process; its
    backtrace is the stack of its calls, also at its last instruction, and a call or a return
    after the outermost return ends the process; a parsed program has a sound symbol table, and its instructions refer to entries of it.
  \<^item> \<open>View_Command\<close>, \<open>Odb_Cli\<close>, \<open>Odb_Cli_Props\<close> (\<open>apps/odb-cli\<close>, \<open>apps/odb-client-simple-cli\<close>): the panels show
    the layout of their text, both programs return.
  \<^item> \<open>Message\<close> (\<open>mess/message.hh\<close>): a growing buffer with a packed header, which no other file uses: a message
    sent and received has its type and bytes, its 16-bit size is truncated, the growth loop ends
    below \<open>2^63\<close> bytes only.
  This theory holds what spans the request protocol and the debugger.

  \<^bold>\<open>Parameters.\<close> The machine behind \<open>VMApi\<close>; the operations of the floating-point library that
  \<open>SimpleCLIClient\<close> uses (\<open>float_lib\<close>); the socket calls of the kernel (\<open>net\<close>), reliable streams being a
  named hypothesis; the schedule of the runner thread; the lines of standard input, the signals and
  the size of the terminal; the contents of files; the contents of memory the program leaves
  uninitialised; the text of an address in the log; the functions of a C table. Rows of two-dimensional
  buffers are separate objects, as in every call of the source.

  \<^bold>\<open>Not modelled.\<close> The timing output of \<open>ODB_COMM_LOGS\<close> and of \<open>odb-client-simple-cli\<close>, which only print; destructors
  that only release memory; the text of usage messages on standard error; the unit tests.
\<close>

text \<open>
  C14. The common-size memory requests index a two-element array of sizes with the number of the
  buffer: a \<open>READ_MEM\<close> request for three or more buffers whose first two reads succeed reads past
  that array.
\<close>

theorem read_mem_sizes_overrun:
  assumes "unat (rm_nbufs r) > 2" "length (rm_in_addrs r) = unat (rm_nbufs r)"
    and "rm_out_bufs r = row0 # row1 # rows" "rm_in_addrs r = a0 # a1 # addrs"
    and "read_mem api a0 (rm_buf_size r) d = (Ret v0, d1)" "length v0 \<le> length row0"
    and "read_mem api a1 0 d1 = (Ret v1, d2)" "length v1 \<le> length row1" "length rows = length addrs"
  shows "fst (run_request api (Rq_ReadMem r) d) = Abort Out_of_bounds"
proof -
  obtain n where n: "unat (rm_nbufs r) = Suc (Suc (Suc n))"
    using assms(1) by (metis One_nat_def Suc_1 less_imp_Suc_add add_Suc_right add_Suc numeral_2_eq_2)
  then have upt: "[0..<unat (rm_nbufs r)] = 0 # 1 # 2 # [3..<unat (rm_nbufs r)]"
    by (simp add: upt_rec numeral_3_eq_3)
  show ?thesis
    using assms n unfolding run_request.simps vms_read_mem_def upt
    by (simp add: elem_at_def store_row_def bind_act_def then_act_def)
qed

theorem read_mem_sizes_overrun_witness:
  "fst (run_request mvm0_api (Rq_ReadMem \<lparr>rm_nbufs = 3, rm_buf_size = 4, rm_in_addrs = [1024, 1024, 1024],
      rm_out_bufs = [[0, 0, 0, 0], [0, 0, 0, 0], [0, 0, 0, 0]]\<rparr>) sample_debugger) = Abort Out_of_bounds"
proof (rule read_mem_sizes_overrun)
  show "read_mem mvm0_api 1024 (rm_buf_size \<lparr>rm_nbufs = 3, rm_buf_size = 4, rm_in_addrs = [1024, 1024, 1024],
      rm_out_bufs = [[0, 0, 0, 0], [0, 0, 0, 0], [0, 0, 0, 0]]\<rparr>) sample_debugger = (Ret [0, 0, 0, 0], sample_debugger)"
    and "read_mem mvm0_api 1024 0 sample_debugger = (Ret [], sample_debugger)"
    by (simp_all add: read_mem_def vm_call_def lift_act_def mvm0_api_def mvm0_read_mem_def MEM_SIZE_def MEM_ROM_SIZE_def upt_rec)
qed simp+

end
